(* ===== verification/Prelude.thy ===== *)
theory Prelude
  imports Complex_Main "HOL-Library.AList"
begin

text \<open>
  What every component of the model shares: Python exceptions as values, the sum-type
  plumbing that threads them, insertion-ordered dictionaries as association lists
  (\<^const>\<open>AList.update\<close> keeps the position of an existing key, as a Python dict does),
  and the interface of a system that runs handlers one after the other.
\<close>

named_theorems res_simps \<open>evaluation of results\<close>

section \<open>Exceptions and results\<close>

text \<open>
  The exceptions the code raises or catches.  \<open>UnicodeDecodeError\<close> and
  \<open>json.JSONDecodeError\<close> are subclasses of \<open>ValueError\<close> and appear as such.
  \<open>OtherError\<close> is any other class, with its name.
\<close>

datatype exn =
    ValueError string
  | TypeError string
  | KeyError string
  | OverflowError string
  | ZeroDivisionError
  | OSError string
  | RuntimeError string
  | TimeoutError
  | OtherError string string

type_synonym 'a res = "exn + 'a"

definition and_then :: "'a res \<Rightarrow> ('a \<Rightarrow> 'b res) \<Rightarrow> 'b res" where
  "and_then r f = (case r of Inl e \<Rightarrow> Inl e | Inr x \<Rightarrow> f x)"

definition check :: "bool \<Rightarrow> exn \<Rightarrow> unit res" where
  "check ok e = (if ok then Inr () else Inl e)"

definition is_ok :: "'a res \<Rightarrow> bool" where
  "is_ok r = (case r of Inl _ \<Rightarrow> False | Inr _ \<Rightarrow> True)"

lemma and_then_simps [simp, res_simps]:
  "and_then (Inl e) f = Inl e"
  "and_then (Inr x) f = f x"
  by (simp_all add: and_then_def)

lemma and_then_Inr_iff [simp]:
  "and_then r f = Inr y \<longleftrightarrow> (\<exists>x. r = Inr x \<and> f x = Inr y)"
  by (cases r) auto

lemma and_then_Inl_iff:
  "and_then r f = Inl e \<longleftrightarrow> r = Inl e \<or> (\<exists>x. r = Inr x \<and> f x = Inl e)"
  by (cases r) auto

lemma check_Inr_iff [simp]: "check ok e = Inr u \<longleftrightarrow> ok"
  by (simp add: check_def)

lemma check_Inl_iff [simp]: "check ok e = Inl e' \<longleftrightarrow> \<not> ok \<and> e = e'"
  by (auto simp: check_def)

lemma check_simps [res_simps]: "check True e = Inr ()" "check False e = Inl e"
  by (simp_all add: check_def)

lemma is_ok_simps [simp, res_simps]: "is_ok (Inl e) = False" "is_ok (Inr x) = True"
  by (simp_all add: is_ok_def)

lemma is_ok_iff: "is_ok r \<longleftrightarrow> (\<exists>x. r = Inr x)"
  by (cases r) auto

text \<open>A \<open>for\<close> loop that threads an accumulator and stops at the first exception.\<close>

fun foldM :: "('a \<Rightarrow> 'b \<Rightarrow> 'b res) \<Rightarrow> 'a list \<Rightarrow> 'b \<Rightarrow> 'b res" where
  "foldM f [] s = Inr s"
| "foldM f (x # xs) s = and_then (f x s) (foldM f xs)"

text \<open>A comprehension \<open>[f(x) for x in xs]\<close> whose element function may raise.\<close>

fun mapM :: "('a \<Rightarrow> 'b res) \<Rightarrow> 'a list \<Rightarrow> 'b list res" where
  "mapM f [] = Inr []"
| "mapM f (x # xs) = and_then (f x) (\<lambda>y. and_then (mapM f xs) (\<lambda>ys. Inr (y # ys)))"

lemma foldM_append:
  "foldM f (xs @ ys) s = and_then (foldM f xs s) (foldM f ys)"
  by (induction xs arbitrary: s) (auto simp: and_then_def split: sum.splits)

lemma foldM_invariant:
  assumes "foldM f xs s = Inr t" "P s"
    and "\<And>x s t. x \<in> set xs \<Longrightarrow> f x s = Inr t \<Longrightarrow> P s \<Longrightarrow> P t"
  shows "P t"
  using assms by (induction xs arbitrary: s) auto

lemma foldM_unit: "foldM f xs () = Inr u \<longleftrightarrow> (\<forall>x \<in> set xs. f x () = Inr ())"
  by (induction xs) auto

lemma mapM_length: "mapM f xs = Inr ys \<Longrightarrow> length ys = length xs"
  by (induction xs arbitrary: ys) auto

lemma mapM_nth: "mapM f xs = Inr ys \<Longrightarrow> i < length xs \<Longrightarrow> f (xs ! i) = Inr (ys ! i)"
proof (induction xs arbitrary: ys i)
  case (Cons x xs)
  then show ?case by (cases i) auto
qed simp

section \<open>Association lists as dictionaries\<close>

abbreviation dict_set :: "'k \<Rightarrow> 'v \<Rightarrow> ('k \<times> 'v) list \<Rightarrow> ('k \<times> 'v) list" where
  "dict_set \<equiv> AList.update"

definition dict_get :: "'k \<Rightarrow> 'v \<Rightarrow> ('k \<times> 'v) list \<Rightarrow> 'v" where
  "dict_get k d al = (case map_of al k of None \<Rightarrow> d | Some v \<Rightarrow> v)"

definition dict_keys :: "('k \<times> 'v) list \<Rightarrow> 'k list" where
  "dict_keys al = map fst al"

definition dict_vals :: "('k \<times> 'v) list \<Rightarrow> 'v list" where
  "dict_vals al = map snd al"

lemma map_of_dict_set [simp]:
  "map_of (dict_set k v al) j = (if j = k then Some v else map_of al j)"
  by (simp add: update_conv')

lemma set_dict_keys: "set (dict_keys al) = dom (map_of al)"
  by (simp add: dict_keys_def dom_map_of_conv_image_fst)

lemma dict_keys_dict_set [simp]:
  "set (dict_keys (dict_set k v al)) = insert k (set (dict_keys al))"
  by (simp add: dict_keys_def dom_update)

lemma distinct_dict_set [simp]:
  "distinct (dict_keys al) \<Longrightarrow> distinct (dict_keys (dict_set k v al))"
  unfolding dict_keys_def by (rule distinct_update)

lemma dict_vals_subset: "set (dict_vals (dict_set k v al)) \<subseteq> insert v (set (dict_vals al))"
  by (induction al) (auto simp: dict_vals_def)

lemma in_set_dict_set:
  "p \<in> set (dict_set k v al) \<Longrightarrow> p = (k, v) \<or> p \<in> set al"
  by (induction al) (auto split: if_splits)

section \<open>Running handlers in sequence\<close>

text \<open>
  A component that the event loop drives: \<open>step\<close> is one handler call, \<open>inv\<close> what every
  call keeps.  The lemmas hold for any sequence of calls.
\<close>

fun run :: "('e \<Rightarrow> 's \<Rightarrow> 's) \<Rightarrow> 'e list \<Rightarrow> 's \<Rightarrow> 's" where
  "run step [] s = s"
| "run step (e # es) s = run step es (step e s)"

lemma run_append: "run step (es @ fs) s = run step fs (run step es s)"
  by (induction es arbitrary: s) auto

locale event_system =
  fixes step :: "'e \<Rightarrow> 's \<Rightarrow> 's"
    and ok :: "'e \<Rightarrow> bool"
    and inv :: "'s \<Rightarrow> bool"
  assumes inv_step: "ok e \<Longrightarrow> inv s \<Longrightarrow> inv (step e s)"
begin

lemma inv_run: "inv s \<Longrightarrow> list_all ok es \<Longrightarrow> inv (run step es s)"
  by (induction es arbitrary: s) (auto intro: inv_step)

lemma preserved_run:
  assumes "\<And>e s. e \<in> set es \<Longrightarrow> ok e \<Longrightarrow> inv s \<Longrightarrow> P s \<Longrightarrow> P (step e s)"
    and "list_all ok es" "inv s" "P s"
  shows "P (run step es s)"
  using assms by (induction es arbitrary: s) (auto intro: inv_step)

end

text \<open>A handler system whose every step moves a quantity one way.\<close>

locale monotone_system = event_system step ok inv
  for step :: "'e \<Rightarrow> 's \<Rightarrow> 's" and ok :: "'e \<Rightarrow> bool" and inv :: "'s \<Rightarrow> bool" +
  fixes below :: "'s \<Rightarrow> 's \<Rightarrow> bool"
  assumes below_refl: "below s s"
    and below_trans: "below s t \<Longrightarrow> below t u \<Longrightarrow> below s u"
    and below_step: "ok e \<Longrightarrow> inv s \<Longrightarrow> below s (step e s)"
begin

lemma below_run: "inv s \<Longrightarrow> list_all ok es \<Longrightarrow> below s (run step es s)"
proof (induction es arbitrary: s)
  case Nil
  show ?case by (simp add: below_refl)
next
  case (Cons e es)
  from Cons.prems have "below s (step e s)" "inv (step e s)"
    using below_step inv_step by auto
  with Cons.IH [of "step e s"] Cons.prems(2) show ?case by (auto intro: below_trans)
qed

end

end
