(* ===== verification/PyFloat.thy ===== *)
theory PyFloat
  imports Prelude "HOL-Library.Log_Nat"
begin

text \<open>
  Python's \<open>float\<close>: IEEE binary64 with round-half-even, computed exactly over the
  rationals.  A finite value is \<open>Fin x\<close> with \<open>x\<close> the exact rational value; every
  operation computes the exact rational result and rounds it once (\<open>fl\<close>), overflowing
  to an infinity.  The sign of zero is not represented: the code never observes it
  (comparisons identify the two zeros and float division by zero raises in Python).
\<close>

named_theorems fl_simps \<open>evaluation of float operations on finite values\<close>

section \<open>Rounding to 53 bits\<close>

definition pow2 :: "int \<Rightarrow> rat" where
  "pow2 e = 2 powi e"

definition expo :: "rat \<Rightarrow> int" where
  "expo x = (case quotient_of \<bar>x\<bar> of (n, d) \<Rightarrow>
     let e = bitlen n - bitlen d in if pow2 e \<le> \<bar>x\<bar> then e else e - 1)"

definition rne :: "rat \<Rightarrow> int" where
  "rne x = (let f = \<lfloor>x\<rfloor>; d = x - of_int f in
     if d < 1 / 2 then f else if 1 / 2 < d then f + 1 else if even f then f else f + 1)"

definition qexp :: "rat \<Rightarrow> int" where
  "qexp x = max (expo x - 52) (-1074)"

definition round64 :: "rat \<Rightarrow> rat" where
  "round64 x = (if x = 0 then 0 else of_int (rne (x / pow2 (qexp x))) * pow2 (qexp x))"

definition is_dbl :: "rat \<Rightarrow> bool" where
  "is_dbl x \<longleftrightarrow> (\<exists>m k. x = of_int m * pow2 k \<and> \<bar>m\<bar> \<le> 2 ^ 53 \<and> -1074 \<le> k)"

lemma pow2_pos [simp]: "0 < pow2 e"
  by (simp add: pow2_def)

lemma pow2_nonzero [simp]: "pow2 e \<noteq> 0"
  using pow2_pos [of e] by linarith

lemma pow2_nonneg [simp]: "0 \<le> pow2 e"
  by (simp add: less_imp_le)

lemma abs_pow2 [simp]: "\<bar>pow2 e\<bar> = pow2 e"
  by simp

lemma pow2_0 [simp]: "pow2 0 = 1"
  by (simp add: pow2_def)

lemma pow2_add: "pow2 (a + b) = pow2 a * pow2 b"
  by (simp add: pow2_def power_int_add)

lemma pow2_diff: "pow2 (a - b) = pow2 a / pow2 b"
  by (simp add: pow2_def power_int_diff)

lemma pow2_le_iff [simp]: "pow2 a \<le> pow2 b \<longleftrightarrow> a \<le> b"
proof
  assume "pow2 a \<le> pow2 b"
  then show "a \<le> b"
    using power_int_strict_increasing [of b a "2::rat"] by (fastforce simp: pow2_def)
next
  assume "a \<le> b"
  then show "pow2 a \<le> pow2 b" by (simp add: pow2_def power_int_increasing)
qed

lemma pow2_less_iff [simp]: "pow2 a < pow2 b \<longleftrightarrow> a < b"
  by (simp add: not_le [symmetric])

lemma pow2_nat: "0 \<le> e \<Longrightarrow> pow2 e = of_int (2 ^ nat e)"
  by (simp add: pow2_def power_int_def)

lemma pow2_int_of_nat: "pow2 (int n) = 2 ^ n"
  by (simp add: pow2_def)

lemma expo_bounds:
  assumes "x \<noteq> 0"
  shows "pow2 (expo x) \<le> \<bar>x\<bar>" and "\<bar>x\<bar> < pow2 (expo x + 1)"
proof -
  obtain n d where nd: "quotient_of \<bar>x\<bar> = (n, d)" by (cases "quotient_of \<bar>x\<bar>")
  have d: "0 < d" using nd by (rule quotient_of_denom_pos)
  have xe: "\<bar>x\<bar> = of_int n / of_int d" using nd by (rule quotient_of_div)
  have "0 < \<bar>x\<bar>" using assms by simp
  with d xe have n: "0 < n" by (simp add: zero_less_divide_iff)
  have powb: "pow2 (bitlen m - 1) \<le> of_int m" "of_int m < pow2 (bitlen m)" if "0 < m" for m
  proof -
    have "bitlen m \<noteq> 0" using bitlen_eq_zero_iff [of m] that by simp
    with bitlen_nonneg [of m] have b: "0 \<le> bitlen m - 1" by simp
    have "2 ^ nat (bitlen m - 1) \<le> m" "m < 2 ^ nat (bitlen m)"
      using bitlen_bounds [OF that] by auto
    then have "(of_int (2 ^ nat (bitlen m - 1)) :: rat) \<le> of_int m"
      "(of_int m :: rat) < of_int (2 ^ nat (bitlen m))"
      by (metis of_int_le_iff, metis of_int_less_iff)
    with b show "pow2 (bitlen m - 1) \<le> of_int m" "of_int m < pow2 (bitlen m)"
      by (simp_all add: pow2_nat)
  qed
  let ?e = "bitlen n - bitlen d"
  have hi: "\<bar>x\<bar> < pow2 (?e + 1)"
  proof -
    have "of_int n < pow2 (bitlen n)" by (rule powb(2) [OF n])
    also have "\<dots> = pow2 (?e + 1) * pow2 (bitlen d - 1)"
      by (simp add: pow2_add [symmetric])
    also have "\<dots> \<le> pow2 (?e + 1) * of_int d"
      using powb(1) [OF d] by (simp add: mult_left_mono)
    finally show ?thesis using d by (simp add: xe field_simps)
  qed
  have lo: "pow2 (?e - 1) \<le> \<bar>x\<bar>"
  proof -
    have "pow2 (?e - 1) * of_int d \<le> pow2 (?e - 1) * pow2 (bitlen d)"
      using powb(2) [OF d] by (simp add: mult_left_mono less_imp_le)
    also have "\<dots> = pow2 (bitlen n - 1)" by (simp add: pow2_add [symmetric])
    also have "\<dots> \<le> of_int n" by (rule powb(1) [OF n])
    finally show ?thesis using d by (simp add: xe field_simps)
  qed
  show "pow2 (expo x) \<le> \<bar>x\<bar>" "\<bar>x\<bar> < pow2 (expo x + 1)"
    using lo hi by (auto simp: expo_def nd Let_def)
qed

lemma expo_mono:
  assumes "x \<noteq> 0" "\<bar>x\<bar> \<le> \<bar>y\<bar>"
  shows "expo x \<le> expo y"
proof -
  from assms have "y \<noteq> 0" by auto
  have "pow2 (expo x) < pow2 (expo y + 1)"
    using expo_bounds(1) [OF assms(1)] expo_bounds(2) [OF \<open>y \<noteq> 0\<close>] assms(2) by linarith
  then show ?thesis by simp
qed

lemma expo_less: "x \<noteq> 0 \<Longrightarrow> \<bar>x\<bar> < pow2 e \<Longrightarrow> expo x < e"
  using expo_bounds(1) [of x] le_less_trans pow2_less_iff by blast

lemma expo_uminus [simp]: "expo (- x) = expo x"
  by (simp add: expo_def)

subsection \<open>Rounding to an integer, ties to even\<close>

lemma rne_of_int [simp]: "rne (of_int n) = n"
  by (simp add: rne_def)

lemma rne_le: "x \<le> of_int n \<Longrightarrow> rne x \<le> n"
proof -
  assume x: "x \<le> of_int n"
  show "rne x \<le> n"
  proof (cases "\<lfloor>x\<rfloor> = n")
    case True
    with x have "x = of_int n" by linarith
    then show ?thesis by simp
  next
    case False
    with x have "\<lfloor>x\<rfloor> < n" by linarith
    then show ?thesis by (simp add: rne_def Let_def)
  qed
qed

lemma rne_ge: "of_int n \<le> x \<Longrightarrow> n \<le> rne x"
proof -
  assume "of_int n \<le> x"
  then have "n \<le> \<lfloor>x\<rfloor>" by (simp add: le_floor_iff)
  then show ?thesis by (simp add: rne_def Let_def)
qed

lemma rne_mono: "x \<le> y \<Longrightarrow> rne x \<le> rne y"
proof -
  assume xy: "x \<le> y"
  then have f: "\<lfloor>x\<rfloor> \<le> \<lfloor>y\<rfloor>" by (rule floor_mono)
  show "rne x \<le> rne y"
  proof (cases "\<lfloor>x\<rfloor> = \<lfloor>y\<rfloor>")
    case True
    with xy show ?thesis by (auto simp: rne_def Let_def)
  next
    case False
    with f have "\<lfloor>x\<rfloor> + 1 \<le> \<lfloor>y\<rfloor>" by linarith
    then show ?thesis by (auto simp: rne_def Let_def)
  qed
qed

lemma rne_near: "\<bar>of_int (rne x) - x\<bar> \<le> 1 / 2"
  using floor_correct [of x] by (auto simp: rne_def Let_def)

lemma rne_uminus [simp]: "rne (- x) = - rne x"
proof (cases "x = of_int \<lfloor>x\<rfloor>")
  case True
  then show ?thesis by (metis of_int_minus rne_of_int)
next
  case False
  then have "\<lfloor>- x\<rfloor> = - \<lfloor>x\<rfloor> - 1"
    by (simp add: floor_minus ceiling_altdef)
  then show ?thesis by (auto simp: rne_def Let_def)
qed

subsection \<open>The rounding function\<close>

lemma pow2_multiple_int:
  assumes "k \<le> j"
  shows "\<exists>i::int. pow2 j / pow2 k = of_int i"
proof -
  from assms have "pow2 j / pow2 k = of_int (2 ^ nat (j - k))"
    by (simp add: pow2_diff [symmetric] pow2_nat)
  then show ?thesis ..
qed

lemma round64_zero [simp]: "round64 0 = 0"
  by (simp add: round64_def)

lemma round64_uminus [simp]: "round64 (- x) = - round64 x"
  by (simp add: round64_def qexp_def minus_divide_left [symmetric] del: minus_divide_left)

lemma round64_le_grid:
  assumes "x \<noteq> 0" "x \<le> of_int m * pow2 k" "qexp x \<le> k"
  shows "round64 x \<le> of_int m * pow2 k"
proof -
  obtain i where i: "pow2 k / pow2 (qexp x) = of_int i"
    using pow2_multiple_int [OF assms(3)] by blast
  have "x / pow2 (qexp x) \<le> of_int (m * i)"
    using divide_right_mono [OF assms(2), of "pow2 (qexp x)"] i
    by (simp add: times_divide_eq_right [symmetric] less_imp_le del: times_divide_eq_right)
  then have "rne (x / pow2 (qexp x)) \<le> m * i" by (rule rne_le)
  then have "(of_int (rne (x / pow2 (qexp x))) :: rat) \<le> of_int (m * i)"
    by (simp only: of_int_le_iff)
  then have "of_int (rne (x / pow2 (qexp x))) * pow2 (qexp x) \<le> of_int (m * i) * pow2 (qexp x)"
    by (rule mult_right_mono) (simp add: less_imp_le)
  also have "\<dots> = of_int m * pow2 k" using i by (simp add: field_simps)
  finally show ?thesis using assms(1) by (simp add: round64_def)
qed

lemma round64_ge_grid:
  assumes "x \<noteq> 0" "of_int m * pow2 k \<le> x" "qexp x \<le> k"
  shows "of_int m * pow2 k \<le> round64 x"
  using round64_le_grid [of "- x" "- m" k] assms by (simp add: qexp_def)

lemma round64_grid:
  assumes "x = of_int m * pow2 k" "qexp x \<le> k"
  shows "round64 x = x"
proof (cases "x = 0")
  case False
  with assms round64_le_grid [of x m k] round64_ge_grid [of x m k] show ?thesis by auto
qed simp

lemma round64_is_dbl_aux:
  assumes "x = of_int m * pow2 k" "\<bar>m\<bar> < 2 ^ 53" "-1074 \<le> k"
  shows "round64 x = x"
proof (cases "x = 0")
  case False
  have "\<bar>x\<bar> = of_int \<bar>m\<bar> * pow2 k"
    using assms(1) by (simp add: abs_mult abs_of_pos)
  also have "\<dots> < 2 ^ 53 * pow2 k"
  proof (rule mult_strict_right_mono)
    have "of_int \<bar>m\<bar> < (of_int (2 ^ 53) :: rat)" using assms(2) by (simp only: of_int_less_iff)
    then show "of_int \<bar>m\<bar> < (2 ^ 53 :: rat)" by simp
  qed simp
  also have "\<dots> = pow2 (53 + k)" using pow2_int_of_nat [of 53] by (simp add: pow2_add)
  finally have "expo x < 53 + k" using False by (intro expo_less) auto
  with assms show ?thesis by (intro round64_grid [OF assms(1)]) (simp add: qexp_def)
qed simp

lemma round64_is_dbl:
  assumes "is_dbl x"
  shows "round64 x = x"
proof -
  obtain m k where x: "x = of_int m * pow2 k" and m: "\<bar>m\<bar> \<le> 2 ^ 53" and k: "-1074 \<le> k"
    using assms by (auto simp: is_dbl_def)
  show ?thesis
  proof (cases "\<bar>m\<bar> = 2 ^ 53")
    case False
    with m have "\<bar>m\<bar> < 2 ^ 53" by simp
    with x k show ?thesis by (blast intro: round64_is_dbl_aux)
  next
    case True
    have "even \<bar>m\<bar>" unfolding True by simp
    then have "m = 2 * (m div 2)" by simp
    then have "(of_int m :: rat) = 2 * of_int (m div 2)"
      by (metis of_int_mult of_int_numeral)
    moreover have "pow2 (k + 1) = 2 * pow2 k"
      using pow2_add [of k 1] by (simp add: pow2_def)
    ultimately have "x = of_int (m div 2) * pow2 (k + 1)" using x by simp
    moreover have "\<bar>m div 2\<bar> < 2 ^ 53" using True by (auto simp: abs_if split: if_splits)
    ultimately show ?thesis
      using k by (intro round64_is_dbl_aux [of x "m div 2" "k + 1"]) auto
  qed
qed

lemma is_dbl_round64 [simp]: "is_dbl (round64 x)"
proof (cases "x = 0")
  case True
  have "(0::rat) = of_int 0 * pow2 0" by simp
  with True show ?thesis unfolding is_dbl_def by (metis round64_zero abs_0 zero_le_numeral
      zero_le_power neg_le_0_iff_le)
next
  case False
  let ?m = "rne (x / pow2 (qexp x))"
  have q: "expo x - 52 \<le> qexp x" "-1074 \<le> qexp x" by (simp_all add: qexp_def)
  have "\<bar>x\<bar> / pow2 (qexp x) \<le> pow2 (expo x + 1) / pow2 (qexp x)"
    using expo_bounds(2) [OF False] by (simp add: divide_right_mono less_imp_le)
  also have "\<dots> = pow2 (expo x + 1 - qexp x)" by (simp add: pow2_diff)
  also have "\<dots> \<le> pow2 53" using q by simp
  also have "\<dots> = of_int (2 ^ 53)" by (simp add: pow2_nat)
  finally have b: "\<bar>x / pow2 (qexp x)\<bar> \<le> of_int (2 ^ 53)"
    by (simp add: abs_divide abs_of_pos)
  then have "?m \<le> 2 ^ 53" by (intro rne_le) (simp only: abs_le_iff)
  moreover have "- (2 ^ 53) \<le> ?m" using b by (intro rne_ge) (simp only: abs_le_iff of_int_minus minus_le_iff)
  ultimately have "\<bar>?m\<bar> \<le> 2 ^ 53" by linarith
  with False q show ?thesis unfolding is_dbl_def round64_def by auto
qed

lemma round64_mono_pos:
  assumes "0 < x" "x \<le> y"
  shows "round64 x \<le> round64 y"
proof (cases "qexp x = qexp y")
  case True
  from assms have "x / pow2 (qexp y) \<le> y / pow2 (qexp y)"
    by (simp add: divide_right_mono less_imp_le)
  then have "rne (x / pow2 (qexp y)) \<le> rne (y / pow2 (qexp y))" by (rule rne_mono)
  with True assms show ?thesis by (simp add: round64_def mult_right_mono less_imp_le)
next
  case False
  from assms have e: "expo x \<le> expo y" by (intro expo_mono) auto
  with False have q: "qexp x < qexp y" "qexp y = expo y - 52" "expo x < expo y"
    by (auto simp: qexp_def max_def split: if_splits)
  let ?M = "of_int 1 * pow2 (expo y)"
  have "x < pow2 (expo x + 1)" using expo_bounds(2) [of x] assms by simp
  also have "\<dots> \<le> pow2 (expo y)" using q by simp
  finally have "round64 x \<le> ?M" using q assms by (intro round64_le_grid) auto
  also have "?M \<le> round64 y"
    using expo_bounds(1) [of y] assms q by (intro round64_ge_grid) auto
  finally show ?thesis .
qed

lemma round64_nonneg: "0 \<le> x \<Longrightarrow> 0 \<le> round64 x"
proof (cases "x = 0")
  case False
  assume "0 \<le> x"
  with False have "0 \<le> rne (x / pow2 (qexp x))" by (intro rne_ge) simp
  then show ?thesis by (simp add: round64_def less_imp_le)
qed simp

lemma round64_mono:
  assumes "x \<le> y"
  shows "round64 x \<le> round64 y"
proof -
  consider "0 < x" | "x \<le> 0" "0 \<le> y" | "y < 0" by linarith
  then show ?thesis
  proof cases
    case 1
    then show ?thesis using assms by (rule round64_mono_pos)
  next
    case 2
    then show ?thesis using round64_nonneg [of y] round64_nonneg [of "- x"] by simp
  next
    case 3
    then show ?thesis using assms round64_mono_pos [of "- y" "- x"] by simp
  qed
qed

lemma is_dbl_of_int: "\<bar>m\<bar> \<le> 2 ^ 53 \<Longrightarrow> is_dbl (of_int m)"
  unfolding is_dbl_def by (rule exI [of _ m], rule exI [of _ 0]) simp

lemma is_dbl_uminus: "is_dbl x \<Longrightarrow> is_dbl (- x)"
  by (metis is_dbl_round64 round64_is_dbl round64_uminus)

lemma is_dbl_multiple:
  assumes "is_dbl x"
  shows "\<exists>i::int. x = of_int i * pow2 (-1074)"
proof -
  obtain m k where "x = of_int m * pow2 k" "-1074 \<le> k"
    using assms by (auto simp: is_dbl_def)
  moreover from pow2_multiple_int [OF this(2)] obtain i
    where "pow2 k / pow2 (-1074) = of_int i" by blast
  ultimately have "x = of_int (m * i) * pow2 (-1074)" by (simp add: field_simps)
  then show ?thesis by blast
qed

section \<open>The interface of a rounding function\<close>

text \<open>
  What the control arithmetic relies on: rounding is monotone and leaves representable
  values alone.  The bounds below are proved from these two laws.
\<close>

locale rounding =
  fixes rnd :: "rat \<Rightarrow> rat" and rep :: "rat \<Rightarrow> bool"
  assumes rnd_mono: "x \<le> y \<Longrightarrow> rnd x \<le> rnd y"
    and rnd_rep: "rep x \<Longrightarrow> rnd x = x"
    and rep_0: "rep 0"
    and rep_1: "rep 1"
begin

lemma rnd_ge: "rep a \<Longrightarrow> a \<le> x \<Longrightarrow> a \<le> rnd x"
  using rnd_mono rnd_rep by fastforce

lemma rnd_le: "rep b \<Longrightarrow> x \<le> b \<Longrightarrow> rnd x \<le> b"
  using rnd_mono rnd_rep by fastforce

lemma rnd_nonneg: "0 \<le> x \<Longrightarrow> 0 \<le> rnd x"
  using rnd_ge rep_0 by blast

lemma rnd_unit: "0 \<le> x \<Longrightarrow> x \<le> 1 \<Longrightarrow> 0 \<le> rnd x \<and> rnd x \<le> 1"
  using rnd_le rep_1 rnd_nonneg by blast

lemma rnd_compl: "0 \<le> q \<Longrightarrow> q \<le> 1 \<Longrightarrow> 0 \<le> rnd (1 - q) \<and> rnd (1 - q) \<le> 1"
  by (rule rnd_unit) auto

lemma rnd_quot: "0 \<le> a \<Longrightarrow> a \<le> b \<Longrightarrow> 0 \<le> rnd (a / b) \<and> rnd (a / b) \<le> 1"
  by (rule rnd_unit) (auto simp: divide_le_eq_1)

lemma rnd_scale:
  assumes "rep x" "0 \<le> x" "0 \<le> f" "f \<le> 1"
  shows "0 \<le> rnd (x * f)" and "rnd (x * f) \<le> x"
  using assms by (auto intro!: rnd_nonneg rnd_le mult_left_le)

lemma rnd_scale_unit:
  "0 \<le> f \<Longrightarrow> f \<le> 1 \<Longrightarrow> 0 \<le> g \<Longrightarrow> g \<le> 1 \<Longrightarrow> 0 \<le> rnd (f * g) \<and> rnd (f * g) \<le> 1"
  by (intro rnd_unit) (auto intro: mult_le_one)

end

interpretation r64: rounding round64 is_dbl
proof unfold_locales
  show "is_dbl 0" using is_dbl_round64 [of 0] by simp
  show "is_dbl 1" using is_dbl_of_int [of 1] by simp
qed (auto intro: round64_mono round64_is_dbl)

lemma round64_idem [simp]: "round64 (round64 x) = round64 x"
  by (rule r64.rnd_rep) simp

lemma round64_diff_pos:
  assumes "is_dbl x" "is_dbl y" "x < y"
  shows "0 < round64 (y - x)"
proof -
  obtain i j where ij: "x = of_int i * pow2 (-1074)" "y = of_int j * pow2 (-1074)"
    using assms is_dbl_multiple by blast
  with assms(3) have "i < j" by simp
  then have "(1::rat) \<le> of_int (j - i)" by (simp add: int_one_le_iff_zero_less)
  then have "1 * pow2 (-1074) \<le> of_int (j - i) * pow2 (-1074)"
    by (rule mult_right_mono) (simp add: less_imp_le)
  then have "pow2 (-1074) \<le> y - x" using ij by (simp add: algebra_simps)
  moreover have "is_dbl (pow2 (-1074))"
    unfolding is_dbl_def by (rule exI [of _ 1], rule exI [of _ "-1074"]) simp
  ultimately have "pow2 (-1074) \<le> round64 (y - x)" by (intro r64.rnd_ge)
  then show ?thesis using pow2_pos [of "-1074"] by linarith
qed

section \<open>Float values and operations\<close>

datatype pyfloat = Fin rat | PInf | NInf | NaN

definition fmax :: rat where
  "fmax = pow2 1024"

definition fl :: "rat \<Rightarrow> pyfloat" where
  "fl x = (let r = round64 x in if fmax \<le> r then PInf else if r \<le> - fmax then NInf else Fin r)"

fun is_finite :: "pyfloat \<Rightarrow> bool" where
  "is_finite (Fin x) = True"
| "is_finite _ = False"

text \<open>The values a Python float can really hold.\<close>

fun fvalid :: "pyfloat \<Rightarrow> bool" where
  "fvalid (Fin x) = (is_dbl x \<and> \<bar>x\<bar> < fmax)"
| "fvalid _ = True"

fun fneg :: "pyfloat \<Rightarrow> pyfloat" where
  "fneg (Fin x) = Fin (- x)"
| "fneg PInf = NInf"
| "fneg NInf = PInf"
| "fneg NaN = NaN"

fun fadd :: "pyfloat \<Rightarrow> pyfloat \<Rightarrow> pyfloat" where
  "fadd NaN _ = NaN"
| "fadd _ NaN = NaN"
| "fadd (Fin x) (Fin y) = fl (x + y)"
| "fadd PInf NInf = NaN"
| "fadd NInf PInf = NaN"
| "fadd PInf _ = PInf"
| "fadd NInf _ = NInf"
| "fadd _ b = b"

definition fsub :: "pyfloat \<Rightarrow> pyfloat \<Rightarrow> pyfloat" where
  "fsub a b = fadd a (fneg b)"

fun fsgn :: "pyfloat \<Rightarrow> int" where
  "fsgn (Fin x) = (if 0 < x then 1 else if x < 0 then -1 else 0)"
| "fsgn PInf = 1"
| "fsgn NInf = -1"
| "fsgn NaN = 0"

definition inf_of :: "int \<Rightarrow> pyfloat" where
  "inf_of s = (if 0 < s then PInf else if s < 0 then NInf else NaN)"

fun fmul :: "pyfloat \<Rightarrow> pyfloat \<Rightarrow> pyfloat" where
  "fmul NaN _ = NaN"
| "fmul _ NaN = NaN"
| "fmul (Fin x) (Fin y) = fl (x * y)"
| "fmul a b = inf_of (fsgn a * fsgn b)"

fun fdiv :: "pyfloat \<Rightarrow> pyfloat \<Rightarrow> pyfloat res" where
  "fdiv a (Fin y) = (if y = 0 then Inl ZeroDivisionError
     else case a of Fin x \<Rightarrow> Inr (fl (x / y)) | NaN \<Rightarrow> Inr NaN
       | _ \<Rightarrow> Inr (inf_of (fsgn a * fsgn (Fin y))))"
| "fdiv (Fin x) PInf = Inr (Fin 0)"
| "fdiv (Fin x) NInf = Inr (Fin 0)"
| "fdiv _ _ = Inr NaN"

fun flt :: "pyfloat \<Rightarrow> pyfloat \<Rightarrow> bool" where
  "flt NaN _ = False"
| "flt _ NaN = False"
| "flt (Fin x) (Fin y) = (x < y)"
| "flt PInf _ = False"
| "flt _ PInf = True"
| "flt _ NInf = False"
| "flt NInf _ = True"

fun feq :: "pyfloat \<Rightarrow> pyfloat \<Rightarrow> bool" where
  "feq NaN _ = False"
| "feq a b = (a = b)"

definition fle :: "pyfloat \<Rightarrow> pyfloat \<Rightarrow> bool" where
  "fle a b = (flt a b \<or> feq a b)"

text \<open>Python's \<open>min(a, b)\<close> and \<open>max(a, b)\<close> keep the first argument unless the second is smaller (greater).\<close>

definition fmin :: "pyfloat \<Rightarrow> pyfloat \<Rightarrow> pyfloat" where
  "fmin a b = (if flt b a then b else a)"

definition fmax2 :: "pyfloat \<Rightarrow> pyfloat \<Rightarrow> pyfloat" where
  "fmax2 a b = (if flt a b then b else a)"

fun fabs :: "pyfloat \<Rightarrow> pyfloat" where
  "fabs (Fin x) = Fin \<bar>x\<bar>"
| "fabs PInf = PInf"
| "fabs NInf = PInf"
| "fabs NaN = NaN"

text \<open>
  \<open>sum(xs)\<close> of floats: since Python 3.12 the built-in compensates rounding errors
  (Neumaier's algorithm).  The integer start value is added to the first element.
\<close>

fun neumaier :: "pyfloat \<Rightarrow> pyfloat \<Rightarrow> pyfloat list \<Rightarrow> pyfloat" where
  "neumaier s c [] = (if is_finite c \<and> c \<noteq> Fin 0 then fadd s c else s)"
| "neumaier s c (x # xs) = (let t = fadd s x in
     neumaier t (fadd c (if fle (fabs x) (fabs s) then fadd (fsub s t) x else fadd (fsub x t) s)) xs)"

definition fsum :: "pyfloat list \<Rightarrow> pyfloat" where
  "fsum xs = (case xs of [] \<Rightarrow> Fin 0 | y # ys \<Rightarrow> neumaier (fadd (Fin 0) y) (Fin 0) ys)"

text \<open>\<open>min(xs, key=...)\<close> and \<open>max(xs, key=...)\<close>: the first extremal element.\<close>

fun min_by :: "('a \<Rightarrow> pyfloat) \<Rightarrow> 'a \<Rightarrow> 'a list \<Rightarrow> 'a" where
  "min_by key m [] = m"
| "min_by key m (x # xs) = min_by key (if flt (key x) (key m) then x else m) xs"

fun max_by :: "('a \<Rightarrow> pyfloat) \<Rightarrow> 'a \<Rightarrow> 'a list \<Rightarrow> 'a" where
  "max_by key m [] = m"
| "max_by key m (x # xs) = max_by key (if flt (key m) (key x) then x else m) xs"

text \<open>\<open>round(x, n)\<close>: the correctly rounded decimal, then the nearest float.  \<open>round\<close> of an infinity or NaN with a digit count returns it unchanged.\<close>

fun fround :: "nat \<Rightarrow> pyfloat \<Rightarrow> pyfloat" where
  "fround n (Fin x) = fl (of_int (rne (x * 10 ^ n)) / 10 ^ n)"
| "fround n a = a"

text \<open>\<open>math.floor(x)\<close> and \<open>int(x)\<close> return integers and raise on infinities and NaN.\<close>

fun ffloor :: "pyfloat \<Rightarrow> int res" where
  "ffloor (Fin x) = Inr \<lfloor>x\<rfloor>"
| "ffloor NaN = Inl (ValueError ''cannot convert float NaN to integer'')"
| "ffloor _ = Inl (OverflowError ''cannot convert float infinity to integer'')"

fun ftrunc :: "pyfloat \<Rightarrow> int res" where
  "ftrunc (Fin x) = Inr (if 0 \<le> x then \<lfloor>x\<rfloor> else \<lceil>x\<rceil>)"
| "ftrunc NaN = Inl (ValueError ''cannot convert float NaN to integer'')"
| "ftrunc _ = Inl (OverflowError ''cannot convert float infinity to integer'')"

text \<open>\<open>float(n)\<close> of an integer raises when it overflows; \<open>m / n\<close> of integers likewise.\<close>

definition of_pyint :: "int \<Rightarrow> pyfloat res" where
  "of_pyint n = (case fl (of_int n) of Fin r \<Rightarrow> Inr (Fin r)
     | _ \<Rightarrow> Inl (OverflowError ''int too large to convert to float''))"

definition int_div :: "int \<Rightarrow> int \<Rightarrow> pyfloat res" where
  "int_div m n = (if n = 0 then Inl ZeroDivisionError
     else case fl (of_int m / of_int n) of Fin r \<Rightarrow> Inr (Fin r)
       | _ \<Rightarrow> Inl (OverflowError ''integer division result too large for a float''))"

subsection \<open>Basic facts\<close>

lemma fl_finite: "\<bar>x\<bar> \<le> y \<Longrightarrow> is_dbl y \<Longrightarrow> y < fmax \<Longrightarrow> fl x = Fin (round64 x)"
proof -
  assume x: "\<bar>x\<bar> \<le> y" and y: "is_dbl y" "y < fmax"
  have "round64 x \<le> y" using x y(1) by (intro r64.rnd_le) auto
  moreover have "- y \<le> round64 x" using x y(1) by (intro r64.rnd_ge is_dbl_uminus) auto
  ultimately show ?thesis using y by (simp add: fl_def Let_def)
qed

lemma fl_is_dbl: "is_dbl x \<Longrightarrow> \<bar>x\<bar> < fmax \<Longrightarrow> fl x = Fin x"
  by (simp add: fl_def round64_is_dbl Let_def abs_less_iff)

lemma fmax_pos [simp]: "0 < fmax"
  by (simp add: fmax_def)

lemma not_fmax_le_0 [simp]: "\<not> fmax \<le> 0"
  by (simp add: not_le)

lemma fvalid_fl [simp]: "fvalid (fl x)"
  by (auto simp: fl_def Let_def abs_less_iff)

lemma one_less_fmax [simp]: "1 < fmax"
  using pow2_less_iff [of 0 1024] by (simp add: fmax_def del: pow2_less_iff)

text \<open>The overflow test by exponent, which is what evaluation uses.\<close>

lemma fmax_le_expo: "r \<noteq> 0 \<Longrightarrow> fmax \<le> \<bar>r\<bar> \<longleftrightarrow> 1024 \<le> expo r"
proof
  assume r: "r \<noteq> 0" and m: "fmax \<le> \<bar>r\<bar>"
  have "pow2 1024 < pow2 (expo r + 1)"
    using expo_bounds(2) [OF r] m unfolding fmax_def by linarith
  then show "1024 \<le> expo r" by simp
next
  assume r: "r \<noteq> 0" and "1024 \<le> expo r"
  then have "fmax \<le> pow2 (expo r)" by (simp add: fmax_def)
  with expo_bounds [OF r] show "fmax \<le> \<bar>r\<bar>" by linarith
qed

lemma fl_code [code]:
  "fl x = (let r = round64 x in
     if r = 0 \<or> expo r < 1024 then Fin r else if 0 < r then PInf else NInf)"
proof (cases "round64 x = 0")
  case False
  have "fmax \<le> round64 x \<longleftrightarrow> 0 < round64 x \<and> fmax \<le> \<bar>round64 x\<bar>"
    "round64 x \<le> - fmax \<longleftrightarrow> round64 x < 0 \<and> fmax \<le> \<bar>round64 x\<bar>"
    using less_le_trans [OF fmax_pos, of "round64 x"] less_le_trans [OF fmax_pos, of "- round64 x"]
    by (auto simp: abs_if)
  then show ?thesis using False fmax_le_expo [OF False] by (auto simp: fl_def Let_def)
qed (simp add: fl_def)

lemma fl_0 [simp]: "fl 0 = Fin 0"
  by (simp add: fl_def Let_def)

lemma fl_1 [simp]: "fl 1 = Fin 1"
  by (rule fl_is_dbl) (simp_all add: r64.rep_1)

lemma fle_Fin [simp]: "fle (Fin x) (Fin y) \<longleftrightarrow> x \<le> y"
  by (auto simp: fle_def)

lemma fle_simps [simp]:
  "fle NaN a = False" "fle a NaN = False"
  "fle NInf a \<longleftrightarrow> a \<noteq> NaN" "fle PInf (Fin x) = False"
  "fle (Fin x) NInf = False" "fle a PInf \<longleftrightarrow> a \<noteq> NaN" "fle PInf NInf = False"
  by (cases a; simp add: fle_def)+

lemma fsub_Fin [simp]: "fsub (Fin x) (Fin y) = fl (x - y)"
  by (simp add: fsub_def)

lemma flt_irrefl [simp]: "\<not> flt a a"
  by (cases a) auto

lemma flt_trans: "flt a b \<Longrightarrow> flt b c \<Longrightarrow> flt a c"
  by (cases a; cases b; cases c) auto

lemma fle_trans: "fle a b \<Longrightarrow> fle b c \<Longrightarrow> fle a c"
  by (cases a; cases b; cases c) auto

lemma fle_refl: "a \<noteq> NaN \<Longrightarrow> fle a a"
  by (cases a) auto

lemma not_flt: "a \<noteq> NaN \<Longrightarrow> b \<noteq> NaN \<Longrightarrow> \<not> flt a b \<longleftrightarrow> fle b a"
  by (cases a; cases b) auto

lemma flt_imp_fle: "flt a b \<Longrightarrow> fle a b"
  by (simp add: fle_def)

lemma flt_not_NaN: "flt a b \<Longrightarrow> a \<noteq> NaN \<and> b \<noteq> NaN"
  by (cases a; cases b) auto

lemma fle_not_NaN: "fle a b \<Longrightarrow> a \<noteq> NaN \<and> b \<noteq> NaN"
  by (cases a; cases b) auto

lemma fmin_le: "a \<noteq> NaN \<Longrightarrow> b \<noteq> NaN \<Longrightarrow> fle (fmin a b) a \<and> fle (fmin a b) b"
  by (cases a; cases b) (auto simp: fmin_def)

lemma min_by_in: "min_by key m xs \<in> set (m # xs)"
  by (induction xs arbitrary: m) fastforce+

lemma max_by_in: "max_by key m xs \<in> set (m # xs)"
  by (induction xs arbitrary: m) fastforce+

lemma min_by_le:
  assumes "\<forall>x \<in> set (m # xs). key x \<noteq> NaN" "y \<in> set (m # xs)"
  shows "fle (key (min_by key m xs)) (key y)"
  using assms
proof (induction xs arbitrary: m y)
  case Nil
  then show ?case by (simp add: fle_refl)
next
  case (Cons x xs)
  let ?m = "if flt (key x) (key m) then x else m"
  have m: "fle (key ?m) (key m)" "fle (key ?m) (key x)"
    using Cons.prems(1) by (auto simp: fle_refl not_flt flt_imp_fle)
  have IH: "fle (key (min_by key ?m xs)) (key z)" if "z \<in> set (?m # xs)" for z
    using Cons.prems(1) that by (intro Cons.IH) auto
  have b: "fle (key (min_by key ?m xs)) (key ?m)" by (rule IH) simp
  consider "y = m" | "y = x" | "y \<in> set xs" using Cons.prems(2) by auto
  then show ?case
  proof cases
    case 1
    show ?thesis using fle_trans [OF b m(1)] 1 by simp
  next
    case 2
    show ?thesis using fle_trans [OF b m(2)] 2 by simp
  next
    case 3
    then show ?thesis using IH [of y] by simp
  qed
qed

lemma max_by_ge:
  assumes "\<forall>x \<in> set (m # xs). key x \<noteq> NaN" "y \<in> set (m # xs)"
  shows "fle (key y) (key (max_by key m xs))"
  using assms
proof (induction xs arbitrary: m y)
  case Nil
  then show ?case by (simp add: fle_refl)
next
  case (Cons x xs)
  let ?m = "if flt (key m) (key x) then x else m"
  have m: "fle (key m) (key ?m)" "fle (key x) (key ?m)"
    using Cons.prems(1) by (auto simp: fle_refl not_flt flt_imp_fle)
  have IH: "fle (key z) (key (max_by key ?m xs))" if "z \<in> set (?m # xs)" for z
    using Cons.prems(1) that by (intro Cons.IH) auto
  have b: "fle (key ?m) (key (max_by key ?m xs))" by (rule IH) simp
  consider "y = m" | "y = x" | "y \<in> set xs" using Cons.prems(2) by auto
  then show ?case
  proof cases
    case 1
    show ?thesis using fle_trans [OF m(1) b] 1 by simp
  next
    case 2
    show ?thesis using fle_trans [OF m(2) b] 2 by simp
  next
    case 3
    then show ?thesis using IH [of y] by simp
  qed
qed

section \<open>Bounded quantities\<close>

text \<open>\<open>inside m x\<close>: a finite float between zero and \<open>m\<close>; \<open>ranged\<close> is what \<open>number_ok\<close> accepts.\<close>

definition inside :: "rat \<Rightarrow> pyfloat \<Rightarrow> bool" where
  "inside m x \<longleftrightarrow> (\<exists>r. x = Fin r \<and> is_dbl r \<and> 0 \<le> r \<and> r \<le> m)"

definition ranged :: "pyfloat \<Rightarrow> bool" where
  "ranged x \<longleftrightarrow> fvalid x \<and> is_finite x \<and> is_finite (fmul x (Fin 12800))"

named_theorems inside_intros \<open>bounds of control arithmetic\<close>

lemma is_dbl_pow2: "-1074 \<le> e \<Longrightarrow> is_dbl (pow2 e)"
  unfolding is_dbl_def by (rule exI [of _ 1], rule exI [of _ e]) simp

lemma is_dbl_scale2:
  assumes "is_dbl x" "0 \<le> e"
  shows "is_dbl (x * pow2 e)"
proof -
  obtain m k where "x = of_int m * pow2 k" "\<bar>m\<bar> \<le> 2 ^ 53" "-1074 \<le> k"
    using assms(1) by (auto simp: is_dbl_def)
  then have "x * pow2 e = of_int m * pow2 (k + e)" "-1074 \<le> k + e"
    using assms(2) by (simp_all add: pow2_add)
  then show ?thesis unfolding is_dbl_def using \<open>\<bar>m\<bar> \<le> 2 ^ 53\<close> by blast
qed

lemma fl_inside: "0 \<le> x \<Longrightarrow> x \<le> m \<Longrightarrow> is_dbl m \<Longrightarrow> m < fmax \<Longrightarrow> inside m (fl x)"
  by (subst fl_finite [of x m]) (auto simp: inside_def intro: r64.rnd_nonneg r64.rnd_le)

lemma inside_mono: "inside m x \<Longrightarrow> m \<le> n \<Longrightarrow> inside n x"
  by (auto simp: inside_def)

lemma inside_finite: "inside m x \<Longrightarrow> is_finite x"
  by (auto simp: inside_def)

lemma inside_not_NaN: "inside m x \<Longrightarrow> x \<noteq> NaN"
  by (auto simp: inside_def)

lemma inside_0 [inside_intros]: "0 \<le> m \<Longrightarrow> inside m (Fin 0)"
  by (auto simp: inside_def r64.rep_0)

lemma inside_1 [inside_intros]: "inside 1 (Fin 1)"
  by (auto simp: inside_def r64.rep_1)

lemma inside_scale [inside_intros]:
  assumes "inside m x" "inside 1 f" "m < fmax"
  shows "inside m (fmul x f)"
proof -
  obtain r q where x: "x = Fin r" "is_dbl r" "0 \<le> r" "r \<le> m" and f: "f = Fin q" "0 \<le> q" "q \<le> 1"
    using assms by (auto simp: inside_def)
  have "inside r (fl (r * q))" using x f assms(3) by (intro fl_inside) (auto simp: mult_left_le)
  then show ?thesis using x f by (auto intro: inside_mono)
qed

lemma inside_compl [inside_intros]: "inside 1 q \<Longrightarrow> inside 1 (fsub (Fin 1) q)"
  using fl_inside [OF _ _ r64.rep_1] by (auto simp: inside_def)

lemma inside_min [inside_intros]: "inside m x \<Longrightarrow> inside m y \<Longrightarrow> inside m (fmin x y)"
  by (simp add: fmin_def)

lemma inside_max [inside_intros]: "inside m x \<Longrightarrow> inside m y \<Longrightarrow> inside m (fmax2 x y)"
  by (simp add: fmax2_def)

lemma round64_1_eps: "x \<le> 1 + pow2 (-53) \<Longrightarrow> round64 x \<le> 1"
proof -
  have "round64 (1 + pow2 (-53)) = 1" by code_simp
  then show "x \<le> 1 + pow2 (-53) \<Longrightarrow> round64 x \<le> 1" using round64_mono [of x "1 + pow2 (-53)"] by simp
qed

lemma round64_unit_err:
  assumes "0 \<le> x" "x \<le> 1"
  shows "\<bar>round64 x - x\<bar> \<le> pow2 (-53)"
proof (cases "x = 0")
  case False
  have "expo x \<le> 0"
    using expo_less [OF False, of 1] assms pow2_nat [of 1] by simp
  then have q: "pow2 (qexp x) \<le> pow2 (-52)" by (simp add: qexp_def)
  have "\<bar>round64 x - x\<bar> = \<bar>of_int (rne (x / pow2 (qexp x))) - x / pow2 (qexp x)\<bar> * pow2 (qexp x)"
    using False by (simp add: round64_def abs_mult field_simps flip: abs_mult)
  also have "\<dots> \<le> 1 / 2 * pow2 (qexp x)"
    by (intro mult_right_mono rne_near) simp
  also have "\<dots> \<le> 1 / 2 * pow2 (-52)" using q by simp
  also have "\<dots> = pow2 (-53)" using pow2_diff [of "-52" 1] pow2_nat [of 1] by simp
  finally show ?thesis .
qed simp

text \<open>\<open>a + (1.0 - a) * f\<close> stays inside the unit interval although both differences are rounded.\<close>

lemma inside_blend [inside_intros]:
  assumes "inside 1 a" "inside 1 f"
  shows "inside 1 (fadd a (fmul (fsub (Fin 1) a) f))"
proof -
  obtain r where a: "a = Fin r" "0 \<le> r" "r \<le> 1" using assms(1) by (auto simp: inside_def)
  have c: "fsub (Fin 1) a = Fin (round64 (1 - r))"
    using a by (simp add: fl_finite [of _ 1] r64.rep_1)
  have b: "0 \<le> round64 (1 - r)" "round64 (1 - r) \<le> 1 - r + pow2 (-53)"
    using r64.rnd_nonneg [of "1 - r"] round64_unit_err [of "1 - r"] a by auto
  have "inside (round64 (1 - r)) (fsub (Fin 1) a)" using b c by (simp add: inside_def)
  then have "inside (round64 (1 - r)) (fmul (fsub (Fin 1) a) f)"
    using assms(2) c inside_compl [OF assms(1)] a
    by (intro inside_scale) (auto simp: inside_def intro: le_less_trans [OF _ one_less_fmax])
  then obtain s where s: "fmul (fsub (Fin 1) a) f = Fin s" "0 \<le> s" "s \<le> round64 (1 - r)"
    by (auto simp: inside_def)
  have x: "0 \<le> r + s" "r + s \<le> 1 + pow2 (-53)" using a s b by auto
  moreover have "is_dbl 2" "2 < fmax" "pow2 (-53) \<le> 1"
    using is_dbl_of_int [of 2] pow2_less_iff [of 1 1024] pow2_le_iff [of "-53" 0] pow2_nat [of 1]
    by (simp_all add: fmax_def del: pow2_less_iff pow2_le_iff)
  ultimately have "fl (r + s) = Fin (round64 (r + s))" by (intro fl_finite [of _ 2]) auto
  then show ?thesis
    using a s x round64_1_eps [of "r + s"] r64.rnd_nonneg [of "r + s"] by (auto simp: inside_def)
qed

text \<open>\<open>lo + (hi - lo) * f\<close> of a falling ramp: finite and not negative; the sum may round above \<open>hi\<close>.\<close>

lemma inside_ramp [inside_intros]:
  assumes "inside m lo" "inside m hi" "fle lo hi" "inside 1 f" "is_dbl m" "m * 2 < fmax"
  shows "inside (m * 2) (fadd lo (fmul (fsub hi lo) f))"
proof -
  obtain l h where l: "lo = Fin l" "is_dbl l" "0 \<le> l" "l \<le> m" and h: "hi = Fin h" "h \<le> m"
    using assms by (auto simp: inside_def)
  have m: "is_dbl (m * 2)" "0 \<le> m" "m < fmax"
    using is_dbl_scale2 [OF assms(5), of 1] pow2_nat [of 1] l assms(6) by auto
  have "inside m (fsub hi lo)" using l h m assms(3,5) by (auto intro!: fl_inside)
  then have "inside m (fmul (fsub hi lo) f)" using assms(4) m by (intro inside_scale) auto
  then obtain s where "fmul (fsub hi lo) f = Fin s" "0 \<le> s" "s \<le> m" by (auto simp: inside_def)
  then show ?thesis using l m assms(6) by (auto intro!: fl_inside)
qed

subsection \<open>Ranged values\<close>

lemma rangedE:
  assumes "ranged x"
  obtains r where "x = Fin r" "is_dbl r" "\<bar>r\<bar> < pow2 1011"
proof -
  obtain r where r: "x = Fin r" "is_dbl r" and f: "is_finite (fl (r * 12800))"
    using assms by (cases x) (auto simp: ranged_def)
  have "\<bar>r\<bar> < pow2 1011"
  proof (rule ccontr)
    assume "\<not> \<bar>r\<bar> < pow2 1011"
    then have "pow2 1011 * 12800 \<le> \<bar>r * 12800\<bar>" by (simp add: abs_mult)
    moreover have "fmax \<le> pow2 1011 * 12800"
      using pow2_add [of 1011 13] pow2_nat [of 13] by (simp add: fmax_def)
    ultimately have "fmax \<le> \<bar>r * 12800\<bar>" by linarith
    then have "fmax \<le> r * 12800 \<or> r * 12800 \<le> - fmax" by linarith
    moreover have d: "is_dbl fmax" unfolding fmax_def by (rule is_dbl_pow2) simp
    ultimately have "fmax \<le> round64 (r * 12800) \<or> round64 (r * 12800) \<le> - fmax"
      using r64.rnd_ge r64.rnd_le is_dbl_uminus by blast
    with f show False by (auto simp: fl_def Let_def split: if_splits)
  qed
  with r that show ?thesis by blast
qed

lemma ranged_inside:
  assumes "ranged x" "fle (Fin 0) x"
  shows "inside (pow2 1011) x"
  using assms by (auto elim!: rangedE simp: inside_def)

lemma ranged_not_NaN: "ranged x \<Longrightarrow> x \<noteq> NaN"
  by (auto elim: rangedE)

lemma inside_quot:
  assumes "0 \<le> x" "x \<le> y" "0 < round64 y" "y \<le> m" "is_dbl m" "m < fmax"
  shows "\<exists>q. fdiv (fl x) (fl y) = Inr q \<and> inside 1 q"
proof -
  have "fl x = Fin (round64 x)" "fl y = Fin (round64 y)"
    using assms by (auto intro!: fl_finite [of _ m])
  moreover have "0 \<le> round64 x" "round64 x \<le> round64 y"
    using assms by (auto intro: r64.rnd_nonneg round64_mono)
  ultimately show ?thesis using assms(3) by (auto intro!: fl_inside simp: r64.rep_1 divide_le_eq_1)
qed

lemma of_pyint_exact: "\<bar>n\<bar> \<le> 2 ^ 53 \<Longrightarrow> of_pyint n = Inr (Fin (of_int n))"
proof -
  assume n: "\<bar>n\<bar> \<le> 2 ^ 53"
  then have "\<bar>of_int n\<bar> \<le> (of_int (2 ^ 53) :: rat)" by (simp only: of_int_abs [symmetric] of_int_le_iff)
  also have "\<dots> < fmax" using pow2_int_of_nat [of 53] pow2_less_iff [of 53 1024] by (simp add: fmax_def del: pow2_less_iff)
  finally show ?thesis using fl_is_dbl [OF is_dbl_of_int [OF n]] by (simp add: of_pyint_def)
qed

end
