(* ===== verification/PyText.thy ===== *)
theory PyText
  imports PyFloat "HOL-Library.Sublist"
begin

text \<open>
  Python \<open>str\<close> values.  A string is modelled by its UTF-8 bytes (a \<^typ>\<open>string\<close>), which
  identifies equal strings, keeps Python's code-point order as byte order, and makes
  \<open>payload.decode("utf-8")\<close> a validity check.  \<open>len\<close> counts code points.  Decimal
  digits beyond ASCII, which Python's \<open>int\<close>, \<open>float\<close> and \<open>\\d\<close> also accept, are the one
  thing left out.
\<close>

section \<open>Characters\<close>

definition code :: "char \<Rightarrow> int" where
  "code c = of_char c"

definition chr :: "int \<Rightarrow> char" where
  "chr n = char_of n"

definition is_digit :: "char \<Rightarrow> bool" where
  "is_digit c = (48 \<le> code c \<and> code c \<le> 57)"

definition dval :: "char \<Rightarrow> int" where
  "dval c = code c - 48"

definition digit_char :: "int \<Rightarrow> char" where
  "digit_char n = chr (48 + n)"

definition bytes :: "int list \<Rightarrow> string" where
  "bytes ns = map chr ns"

lemma code_chr [simp]: "0 \<le> n \<Longrightarrow> n < 256 \<Longrightarrow> code (chr n) = n"
  by (simp add: code_def chr_def)

lemma is_digit_digit_char [simp]: "0 \<le> n \<Longrightarrow> n < 10 \<Longrightarrow> is_digit (digit_char n)"
  by (simp add: is_digit_def digit_char_def)

lemma dval_digit_char [simp]: "0 \<le> n \<Longrightarrow> n < 10 \<Longrightarrow> dval (digit_char n) = n"
  by (simp add: dval_def digit_char_def)

section \<open>UTF-8\<close>

definition is_cont :: "char \<Rightarrow> bool" where
  "is_cont c = (128 \<le> code c \<and> code c < 192)"

text \<open>\<open>len(s)\<close>: the bytes that start a code point.\<close>

definition py_len :: "string \<Rightarrow> nat" where
  "py_len s = length (filter (\<lambda>c. \<not> is_cont c) s)"

text \<open>Strict UTF-8 validity (no overlong forms, no surrogates, at most U+10FFFF).\<close>

fun utf8_valid :: "string \<Rightarrow> bool" where
  "utf8_valid [] = True"
| "utf8_valid (a # s) = (let n = code a in
     if n < 128 then utf8_valid s
     else if 194 \<le> n \<and> n < 224 then (case s of b # t \<Rightarrow> is_cont b \<and> utf8_valid t | _ \<Rightarrow> False)
     else if 224 \<le> n \<and> n < 240 then (case s of b # c # t \<Rightarrow> is_cont b \<and> is_cont c
        \<and> (n = 224 \<longrightarrow> 160 \<le> code b) \<and> (n = 237 \<longrightarrow> code b < 160) \<and> utf8_valid t | _ \<Rightarrow> False)
     else if 240 \<le> n \<and> n < 245 then (case s of b # c # d # t \<Rightarrow> is_cont b \<and> is_cont c \<and> is_cont d
        \<and> (n = 240 \<longrightarrow> 144 \<le> code b) \<and> (n = 244 \<longrightarrow> code b < 144) \<and> utf8_valid t | _ \<Rightarrow> False)
     else False)"

text \<open>The UTF-8 bytes of one code point (surrogates as three bytes).\<close>

definition utf8_encode :: "int \<Rightarrow> string" where
  "utf8_encode n = bytes (
     if n < 128 then [n]
     else if n < 2048 then [192 + n div 64, 128 + n mod 64]
     else if n < 65536 then [224 + n div 4096, 128 + n div 64 mod 64, 128 + n mod 64]
     else [240 + n div 262144, 128 + n div 4096 mod 64, 128 + n div 64 mod 64, 128 + n mod 64])"

section \<open>Stripping, case folding, splitting\<close>

text \<open>The characters \<open>str.isspace\<close> accepts, as byte sequences.\<close>

definition spaces :: "string list" where
  "spaces = [
     [CHR 0x09], [CHR 0x0A], [CHR 0x0B],
     [CHR 0x0C], [CHR 0x0D], [CHR 0x1C],
     [CHR 0x1D], [CHR 0x1E], [CHR 0x1F],
     [CHR 0x20], [CHR 0xC2, CHR 0x85], [CHR 0xC2, CHR 0xA0],
     [CHR 0xE1, CHR 0x9A, CHR 0x80], [CHR 0xE2, CHR 0x80, CHR 0x80], [CHR 0xE2, CHR 0x80, CHR 0x81],
     [CHR 0xE2, CHR 0x80, CHR 0x82], [CHR 0xE2, CHR 0x80, CHR 0x83], [CHR 0xE2, CHR 0x80, CHR 0x84],
     [CHR 0xE2, CHR 0x80, CHR 0x85], [CHR 0xE2, CHR 0x80, CHR 0x86], [CHR 0xE2, CHR 0x80, CHR 0x87],
     [CHR 0xE2, CHR 0x80, CHR 0x88], [CHR 0xE2, CHR 0x80, CHR 0x89], [CHR 0xE2, CHR 0x80, CHR 0x8A],
     [CHR 0xE2, CHR 0x80, CHR 0xA8], [CHR 0xE2, CHR 0x80, CHR 0xA9], [CHR 0xE2, CHR 0x80, CHR 0xAF],
     [CHR 0xE2, CHR 0x81, CHR 0x9F], [CHR 0xE3, CHR 0x80, CHR 0x80]]"

function strip_by :: "string list \<Rightarrow> string \<Rightarrow> string" where
  "strip_by ws s = (case find (\<lambda>w. w \<noteq> [] \<and> prefix w s) ws of
     None \<Rightarrow> s | Some w \<Rightarrow> strip_by ws (drop (length w) s))"
  by pat_completeness auto
termination
  by (relation "measure (\<lambda>(ws, s). length s)") (auto simp: find_Some_iff prefix_def)

declare strip_by.simps [simp del]

definition py_strip :: "string \<Rightarrow> string" where
  "py_strip s = rev (strip_by (map rev spaces) (rev (strip_by spaces s)))"

text \<open>
  \<open>upper\<close> and \<open>lower\<close> as far as an ASCII result can depend on them: the ASCII letters
  and the code points whose case mapping yields ASCII letters.  Other code points map to
  non-ASCII text and are kept, which no comparison with an ASCII word can distinguish.
\<close>

definition upper_special :: "(string \<times> string) list" where
  "upper_special = [([CHR 0xC5, CHR 0xBF], ''S''), ([CHR 0xC4, CHR 0xB1], ''I''), ([CHR 0xC3, CHR 0x9F], ''SS''),
     ([CHR 0xEF, CHR 0xAC, CHR 0x80], ''FF''), ([CHR 0xEF, CHR 0xAC, CHR 0x81], ''FI''), ([CHR 0xEF, CHR 0xAC, CHR 0x82], ''FL''),
     ([CHR 0xEF, CHR 0xAC, CHR 0x83], ''FFI''), ([CHR 0xEF, CHR 0xAC, CHR 0x84], ''FFL''),
     ([CHR 0xEF, CHR 0xAC, CHR 0x85], ''ST''), ([CHR 0xEF, CHR 0xAC, CHR 0x86], ''ST'')]"

definition lower_special :: "(string \<times> string) list" where
  "lower_special = [([CHR 0xE2, CHR 0x84, CHR 0xAA], ''k''), ([CHR 0xC4, CHR 0xB0], ''i'' @ [CHR 0xCC, CHR 0x87])]"

definition ascii_upper :: "char \<Rightarrow> char" where
  "ascii_upper c = (if 97 \<le> code c \<and> code c \<le> 122 then chr (code c - 32) else c)"

definition ascii_lower :: "char \<Rightarrow> char" where
  "ascii_lower c = (if 65 \<le> code c \<and> code c \<le> 90 then chr (code c + 32) else c)"

function fold_case :: "(string \<times> string) list \<Rightarrow> (char \<Rightarrow> char) \<Rightarrow> string \<Rightarrow> string" where
  "fold_case tab f [] = []"
| "fold_case tab f (c # s) = (case find (\<lambda>(w, _). w \<noteq> [] \<and> prefix w (c # s)) tab of
     None \<Rightarrow> f c # fold_case tab f s
   | Some (w, r) \<Rightarrow> r @ fold_case tab f (drop (length w) (c # s)))"
  by pat_completeness auto
termination
  by (relation "measure (\<lambda>(tab, f, s). length s)") (auto simp: find_Some_iff prefix_def)

definition py_upper :: "string \<Rightarrow> string" where
  "py_upper s = fold_case upper_special ascii_upper s"

definition py_lower :: "string \<Rightarrow> string" where
  "py_lower s = fold_case lower_special ascii_lower s"

text \<open>\<open>s.split(c)\<close>, \<open>s.startswith(p)\<close>, \<open>s.endswith(p)\<close>.\<close>

fun py_split :: "char \<Rightarrow> string \<Rightarrow> string list" where
  "py_split c [] = [[]]"
| "py_split c (x # s) = (if x = c then [] # py_split c s
     else case py_split c s of [] \<Rightarrow> [[x]] | w # ws \<Rightarrow> (x # w) # ws)"

definition starts_with :: "string \<Rightarrow> string \<Rightarrow> bool" where
  "starts_with p s = (take (length p) s = p)"

definition ends_with :: "string \<Rightarrow> string \<Rightarrow> bool" where
  "ends_with p s = (length p \<le> length s \<and> drop (length s - length p) s = p)"

text \<open>\<open>s.replace(p, "")\<close>: every non-overlapping occurrence, from the left.\<close>

function py_remove :: "string \<Rightarrow> string \<Rightarrow> string" where
  "py_remove p [] = []"
| "py_remove p (c # s) = (if p \<noteq> [] \<and> starts_with p (c # s)
     then py_remove p (drop (length p) (c # s)) else c # py_remove p s)"
  by pat_completeness auto
termination
  by (relation "measure (\<lambda>(p, s). length s)") auto

text \<open>\<open>key.split("_", 1)[1]\<close> for a key that holds the separator.\<close>

fun after_first :: "char \<Rightarrow> string \<Rightarrow> string" where
  "after_first c [] = []"
| "after_first c (x # s) = (if x = c then s else after_first c s)"

fun join_with :: "string \<Rightarrow> string list \<Rightarrow> string" where
  "join_with sep [] = []"
| "join_with sep [x] = x"
| "join_with sep (x # y # ys) = x @ sep @ join_with sep (y # ys)"

lemma starts_with_append [simp]: "starts_with p (p @ s)"
  by (simp add: starts_with_def)

lemma starts_with_iff: "starts_with p s \<longleftrightarrow> (\<exists>t. s = p @ t)"
  by (metis starts_with_def append_take_drop_id starts_with_append)

section \<open>Decimal numerals\<close>

function show_nat :: "int \<Rightarrow> string" where
  "show_nat n = (if n < 10 then [digit_char n] else show_nat (n div 10) @ [digit_char (n mod 10)])"
  by pat_completeness auto
termination
  by (relation "measure nat") auto

declare show_nat.simps [simp del]

definition show_int :: "int \<Rightarrow> string" where
  "show_int i = (if i < 0 then ''-'' @ show_nat (- i) else show_nat i)"

definition nat_of_digits :: "int list \<Rightarrow> int" where
  "nat_of_digits ds = foldl (\<lambda>a d. 10 * a + d) 0 ds"

text \<open>A digit run in which single underscores may stand between digits.\<close>

definition skip_underscore :: "string \<Rightarrow> string" where
  "skip_underscore s = (case s of u # d # r \<Rightarrow> if u = CHR ''_'' \<and> is_digit d then d # r else s | _ \<Rightarrow> s)"

lemma skip_underscore_length [simp]: "length (skip_underscore s) \<le> length s"
  by (auto simp: skip_underscore_def split: list.splits)

function take_digits :: "string \<Rightarrow> int list \<times> string" where
  "take_digits [] = ([], [])"
| "take_digits (c # s) = (if is_digit c
     then (case take_digits (skip_underscore s) of (ds, r) \<Rightarrow> (dval c # ds, r))
     else ([], c # s))"
  by pat_completeness auto
termination
  by (relation "measure length") (auto simp: le_imp_less_Suc)

definition take_sign :: "string \<Rightarrow> bool \<times> string" where
  "take_sign s = (case s of c # r \<Rightarrow> if c = CHR ''-'' then (True, r) else if c = CHR ''+'' then (False, r) else (False, s)
     | [] \<Rightarrow> (False, []))"

text \<open>\<open>int(s)\<close> of a string: \<open>None\<close> stands for the \<open>ValueError\<close>.\<close>

definition int_of_str :: "string \<Rightarrow> int option" where
  "int_of_str s = (case take_sign (py_strip s) of (neg, t) \<Rightarrow>
     case take_digits t of (ds, r) \<Rightarrow>
       if ds = [] \<or> r \<noteq> [] \<or> 4300 < length ds then None
       else Some (if neg then - nat_of_digits ds else nat_of_digits ds))"

text \<open>The value of a decimal literal: digits, fraction digits and exponent.\<close>

definition ten_pow :: "int \<Rightarrow> rat" where
  "ten_pow e = (if 0 \<le> e then 10 ^ nat e else 1 / 10 ^ nat (- e))"

definition decimal :: "bool \<Rightarrow> int list \<Rightarrow> int list \<Rightarrow> int \<Rightarrow> pyfloat" where
  "decimal neg ds fs e = (let x = of_int (nat_of_digits (ds @ fs)) * ten_pow (e - int (length fs))
     in fl (if neg then - x else x))"

definition take_exponent :: "string \<Rightarrow> int \<times> string" where
  "take_exponent s = (case s of c # t \<Rightarrow>
     if ascii_lower c = CHR ''e'' then (case take_sign t of (neg, u) \<Rightarrow>
       case take_digits u of (ds, r) \<Rightarrow> if ds = [] then (0, s)
         else (if neg then - nat_of_digits ds else nat_of_digits ds, r))
     else (0, s) | [] \<Rightarrow> (0, []))"

text \<open>\<open>float(s)\<close> of a string: \<open>None\<close> stands for the \<open>ValueError\<close>.\<close>

definition float_of_str :: "string \<Rightarrow> pyfloat option" where
  "float_of_str s = (case take_sign (py_strip s) of (neg, t) \<Rightarrow>
     let w = map ascii_lower t in
     if w = ''inf'' \<or> w = ''infinity'' then Some (if neg then NInf else PInf)
     else if w = ''nan'' then Some NaN
     else case take_digits t of (ds, r) \<Rightarrow>
       case (case r of c # r' \<Rightarrow> if c = CHR ''.'' then take_digits r' else ([], r) | [] \<Rightarrow> ([], [])) of (fs, r2) \<Rightarrow>
         case take_exponent r2 of (e, r3) \<Rightarrow>
           if ds = [] \<and> fs = [] \<or> r3 \<noteq> [] then None else Some (decimal neg ds fs e))"

text \<open>The format specifications \<open>:.nf\<close>.\<close>

definition pad_left :: "nat \<Rightarrow> string \<Rightarrow> string" where
  "pad_left n s = replicate (n - length s) (CHR ''0'') @ s"

fun fmt_fixed :: "nat \<Rightarrow> pyfloat \<Rightarrow> string" where
  "fmt_fixed n (Fin x) = (let m = rne (\<bar>x\<bar> * 10 ^ n); s = (if x < 0 then ''-'' else '''') in
     if n = 0 then s @ show_nat m
     else s @ show_nat (m div 10 ^ n) @ ''.'' @ pad_left n (show_nat (m mod 10 ^ n)))"
| "fmt_fixed n PInf = ''inf''"
| "fmt_fixed n NInf = ''-inf''"
| "fmt_fixed n NaN = ''nan''"

subsection \<open>Printing and reading integers\<close>

lemma show_nat_digits: "0 \<le> n \<Longrightarrow> \<forall>c \<in> set (show_nat n). is_digit c"
proof (induction n rule: show_nat.induct)
  case (1 n)
  then show ?case by (subst show_nat.simps) auto
qed

lemma show_nat_nonempty [simp]: "show_nat n \<noteq> []"
  by (subst show_nat.simps) simp

lemma hd_show_nat: "0 < n \<Longrightarrow> hd (show_nat n) \<noteq> CHR ''0''"
proof (induction n rule: show_nat.induct)
  case (1 n)
  have "digit_char n \<noteq> CHR ''0''" if "n < 10"
    using that 1(2) dval_digit_char [of n] by (auto simp: dval_def code_def)
  with 1 show ?case by (subst show_nat.simps) (auto simp: hd_append)
qed

lemma nat_of_digits_snoc: "nat_of_digits (ds @ [d]) = 10 * nat_of_digits ds + d"
  by (simp add: nat_of_digits_def)

lemma nat_of_digits_show: "0 \<le> n \<Longrightarrow> nat_of_digits (map dval (show_nat n)) = n"
proof (induction n rule: show_nat.induct)
  case (1 n)
  show ?case
  proof (cases "n < 10")
    case True
    with 1 show ?thesis by (subst show_nat.simps) (simp add: nat_of_digits_def)
  next
    case False
    with 1 show ?thesis
      by (subst show_nat.simps) (simp add: nat_of_digits_snoc)
  qed
qed

lemma show_nat_inj: "0 \<le> m \<Longrightarrow> 0 \<le> n \<Longrightarrow> show_nat m = show_nat n \<longleftrightarrow> m = n"
  by (metis nat_of_digits_show)

lemma length_show_nat: "n < 10 ^ k \<Longrightarrow> 0 < k \<Longrightarrow> length (show_nat n) \<le> k"
proof (induction n arbitrary: k rule: show_nat.induct)
  case (1 n)
  show ?case
  proof (cases "n < 10")
    case True
    with 1 show ?thesis by (subst show_nat.simps) simp
  next
    case False
    with "1.prems" obtain k' where k: "k = Suc k'" "0 < k'"
      by (cases k; cases "k - 1") auto
    with "1.prems" have "n div 10 < 10 ^ k'" by (simp add: div_less_iff_less_mult)
    with 1 False k have "length (show_nat (n div 10)) \<le> k'" by blast
    with False k show ?thesis by (subst show_nat.simps) simp
  qed
qed

lemma underscore_not_digit: "\<not> is_digit (CHR ''_'')"
  by (simp add: is_digit_def code_def)

lemma skip_underscore_digits: "\<forall>c \<in> set s. is_digit c \<Longrightarrow> skip_underscore s = s"
  using underscore_not_digit by (auto simp: skip_underscore_def split: list.splits)

lemma take_digits_all: "\<forall>c \<in> set s. is_digit c \<Longrightarrow> take_digits s = (map dval s, [])"
  by (induction s) (auto simp: skip_underscore_digits)

lemma spaces_no_digit: "w \<in> set spaces \<Longrightarrow> w \<noteq> [] \<and> \<not> is_digit (hd w) \<and> \<not> is_digit (last w)"
proof -
  have "\<forall>w \<in> set spaces. w \<noteq> [] \<and> \<not> is_digit (hd w) \<and> \<not> is_digit (last w)"
    by (simp add: spaces_def is_digit_def code_def)
  then show "w \<in> set spaces \<Longrightarrow> w \<noteq> [] \<and> \<not> is_digit (hd w) \<and> \<not> is_digit (last w)" by blast
qed

lemma prefix_hd: "w \<noteq> [] \<Longrightarrow> prefix w (c # s) \<Longrightarrow> hd w = c"
  by (cases w) auto

lemma digit_not_space:
  assumes "is_digit c"
  shows "find (\<lambda>w. w \<noteq> [] \<and> prefix w (c # s)) spaces = None"
    and "find (\<lambda>w. w \<noteq> [] \<and> prefix w (c # s)) (map rev spaces) = None"
proof -
  have "\<not> (w \<noteq> [] \<and> prefix w (c # s))" if "w \<in> set spaces" for w
    using spaces_no_digit [OF that] prefix_hd [of w c s] assms by metis
  then show "find (\<lambda>w. w \<noteq> [] \<and> prefix w (c # s)) spaces = None"
    by (simp only: find_None_iff) blast
  have "\<not> (rev w \<noteq> [] \<and> prefix (rev w) (c # s))" if "w \<in> set spaces" for w
    using spaces_no_digit [OF that] prefix_hd [of "rev w"] assms by (metis hd_rev)
  then show "find (\<lambda>w. w \<noteq> [] \<and> prefix w (c # s)) (map rev spaces) = None"
    by (simp only: find_None_iff set_map) blast
qed

lemma strip_digits:
  assumes "\<forall>c \<in> set s. is_digit c"
  shows "strip_by spaces s = s" "strip_by (map rev spaces) s = s"
proof -
  have "find (\<lambda>w. w \<noteq> [] \<and> prefix w s) spaces = None \<and> find (\<lambda>w. w \<noteq> [] \<and> prefix w s) (map rev spaces) = None"
  proof (cases s)
    case Nil
    then show ?thesis by (simp only: find_None_iff) simp
  next
    case (Cons c t)
    then have "is_digit c" using assms by simp
    then show ?thesis unfolding Cons using digit_not_space by blast
  qed
  then show "strip_by spaces s = s" "strip_by (map rev spaces) s = s"
    by (simp_all add: strip_by.simps)
qed

lemma py_strip_digits: "\<forall>c \<in> set s. is_digit c \<Longrightarrow> py_strip s = s"
  by (simp add: py_strip_def strip_digits)

lemma take_sign_digits: "\<forall>c \<in> set s. is_digit c \<Longrightarrow> take_sign s = (False, s)"
  by (auto simp: take_sign_def is_digit_def code_def split: list.splits)

lemma int_of_show_nat:
  assumes "0 \<le> n" "n < 10 ^ 4300"
  shows "int_of_str (show_nat n) = Some n"
proof -
  have "length (show_nat n) \<le> 4300" using assms(2) by (rule length_show_nat) simp
  then show ?thesis
    using assms(1) show_nat_digits [of n]
    by (simp add: int_of_str_def py_strip_digits take_sign_digits take_digits_all nat_of_digits_show)
qed

end
