(* ===== verification/PyJson.thy ===== *)
theory PyJson
  imports PyText
begin

text \<open>
  The dynamic values of the program (what \<open>json.loads\<close> and the configuration parser
  return) and \<open>json.loads\<close> itself, with the strictness, the accepted constants and the
  number grammar of CPython's scanner.  Objects reach a hook with their pairs in order,
  as \<open>object_pairs_hook\<close> does; the default hook lets a later duplicate win.
\<close>

section \<open>Values\<close>

datatype pyval =
    VNone
  | VBool bool
  | VInt int
  | VFloat pyfloat
  | VStr string
  | VList "pyval list"
  | VDict "(string \<times> pyval) list"

type_synonym pyobj = "(string \<times> pyval) list"

text \<open>\<open>d.get(k)\<close>: \<open>None\<close> when the key is absent.\<close>

definition vget :: "pyobj \<Rightarrow> string \<Rightarrow> pyval" where
  "vget d k = dict_get k VNone d"

definition has_key :: "pyobj \<Rightarrow> string \<Rightarrow> bool" where
  "has_key d k = (map_of d k \<noteq> None)"

text \<open>Exact type tests (\<open>type(v) is int\<close>): a Python bool is not an int here.\<close>

fun as_int :: "pyval \<Rightarrow> int option" where
  "as_int (VInt i) = Some i"
| "as_int _ = None"

fun as_bool :: "pyval \<Rightarrow> bool option" where
  "as_bool (VBool b) = Some b"
| "as_bool _ = None"

fun as_str :: "pyval \<Rightarrow> string option" where
  "as_str (VStr s) = Some s"
| "as_str _ = None"

fun as_list :: "pyval \<Rightarrow> pyval list option" where
  "as_list (VList xs) = Some xs"
| "as_list _ = None"

fun as_dict :: "pyval \<Rightarrow> pyobj option" where
  "as_dict (VDict d) = Some d"
| "as_dict _ = None"

text \<open>Equality with an integer literal, where \<open>511.0 == 511\<close> and \<open>True == 1\<close> hold.\<close>

fun eq_int :: "pyval \<Rightarrow> int \<Rightarrow> bool" where
  "eq_int (VInt i) n = (i = n)"
| "eq_int (VBool b) n = (n = (if b then 1 else 0))"
| "eq_int (VFloat f) n = (case f of Fin x \<Rightarrow> x = of_int n | _ \<Rightarrow> False)"
| "eq_int _ n = False"

text \<open>\<open>float(v)\<close> of a number that is not a bool; anything else is \<open>None\<close>.\<close>

fun num_of :: "pyval \<Rightarrow> pyfloat res option" where
  "num_of (VInt i) = Some (of_pyint i)"
| "num_of (VFloat f) = Some (Inr f)"
| "num_of _ = None"

section \<open>The scanner\<close>

type_synonym hook = "pyobj \<Rightarrow> pyval res"

definition dict_hook :: hook where
  "dict_hook ps = Inr (VDict (foldl (\<lambda>d (k, v). dict_set k v d) [] ps))"

fun skip_ws :: "string \<Rightarrow> string" where
  "skip_ws [] = []"
| "skip_ws (c # s) = (if code c \<in> {32, 9, 10, 13} then skip_ws s else c # s)"

lemma skip_ws_length [simp]: "length (skip_ws s) \<le> length s"
  by (induction s) auto

definition bad_json :: exn where
  "bad_json = ValueError ''invalid JSON''"

definition hexval :: "char \<Rightarrow> int option" where
  "hexval c = (let n = code c in
     if 48 \<le> n \<and> n \<le> 57 then Some (n - 48) else if 97 \<le> n \<and> n \<le> 102 then Some (n - 87)
     else if 65 \<le> n \<and> n \<le> 70 then Some (n - 55) else None)"

definition hex4 :: "string \<Rightarrow> (int \<times> string) option" where
  "hex4 s = (case s of a # b # c # d # r \<Rightarrow>
     (case (hexval a, hexval b, hexval c, hexval d) of
        (Some w, Some x, Some y, Some z) \<Rightarrow> Some (((w * 16 + x) * 16 + y) * 16 + z, r)
      | _ \<Rightarrow> None) | _ \<Rightarrow> None)"

text \<open>A \<open>\\u\<close> escape, pairing a high surrogate with a following low one.\<close>

definition unicode_escape :: "string \<Rightarrow> (string \<times> string) option" where
  "unicode_escape s = (case hex4 s of None \<Rightarrow> None | Some (n, r) \<Rightarrow>
     if 55296 \<le> n \<and> n < 56320 \<and> take 2 r = [CHR 0x5C, CHR ''u''] then
       (case hex4 (drop 2 r) of
          Some (m, r') \<Rightarrow> if 56320 \<le> m \<and> m < 57344
            then Some (utf8_encode (65536 + (n - 55296) * 1024 + (m - 56320)), r')
            else Some (utf8_encode n, r)
        | None \<Rightarrow> Some (utf8_encode n, r))
     else Some (utf8_encode n, r))"

definition simple_escape :: "char \<Rightarrow> char option" where
  "simple_escape c = map_of [(CHR 0x22, CHR 0x22), (CHR 0x5C, CHR 0x5C), (CHR ''/'', CHR ''/''),
     (CHR ''b'', CHR 0x08), (CHR ''f'', CHR 0x0C), (CHR ''n'', CHR 0x0A), (CHR ''r'', CHR 0x0D),
     (CHR ''t'', CHR 0x09)] c"

lemma hex4_length: "hex4 s = Some (n, r) \<Longrightarrow> length s = Suc (Suc (Suc (Suc (length r))))"
  by (auto simp: hex4_def split: list.splits option.splits)

lemma unicode_escape_length: "unicode_escape s = Some (w, r) \<Longrightarrow> length r < length s"
  by (auto simp: unicode_escape_def split: option.splits if_splits dest!: hex4_length)

text \<open>The rest of a string literal after its opening quote.\<close>

function scan_string :: "string \<Rightarrow> (string \<times> string) option" where
  "scan_string [] = None"
| "scan_string (c # s) =
    (if c = CHR 0x22 then Some ([], s)
     else if code c < 32 then None
     else if c = CHR 0x5C then
       (case s of [] \<Rightarrow> None
        | e # t \<Rightarrow> if e = CHR ''u'' then
            (case unicode_escape t of None \<Rightarrow> None
             | Some (w, r) \<Rightarrow> map_option (\<lambda>(u, q). (w @ u, q)) (scan_string r))
          else (case simple_escape e of None \<Rightarrow> None
             | Some d \<Rightarrow> map_option (\<lambda>(u, q). (d # u, q)) (scan_string t)))
     else map_option (\<lambda>(u, q). (c # u, q)) (scan_string s))"
  by pat_completeness auto
termination
  by (relation "measure length") (auto dest!: unicode_escape_length)

lemma scan_string_length: "scan_string s = Some (u, r) \<Longrightarrow> length r < length s"
  by (induction s arbitrary: u r rule: scan_string.induct)
    (fastforce split: if_splits list.splits option.splits dest!: unicode_escape_length)+

fun span_digits :: "string \<Rightarrow> string \<times> string" where
  "span_digits [] = ([], [])"
| "span_digits (c # s) = (if is_digit c then (case span_digits s of (a, b) \<Rightarrow> (c # a, b)) else ([], c # s))"

lemma span_digits_length: "span_digits s = (a, b) \<Longrightarrow> length s = length a + length b"
  by (induction s arbitrary: a b) (auto split: if_splits prod.splits)

definition json_exponent :: "string \<Rightarrow> int \<times> string" where
  "json_exponent s = (case s of c # t \<Rightarrow>
     if ascii_lower c = CHR ''e'' then (case take_sign t of (neg, u) \<Rightarrow>
       case span_digits u of (ds, r) \<Rightarrow> if ds = [] then (0, s)
         else (let n = nat_of_digits (map dval ds) in (if neg then - n else n, r)))
     else (0, s) | [] \<Rightarrow> (0, []))"

text \<open>\<open>-?(0|[1-9][0-9]*)(\\.[0-9]+)?([eE][-+]?[0-9]+)?\<close>\<close>

definition scan_number :: "string \<Rightarrow> (pyval \<times> string) option" where
  "scan_number s = (
     let (neg, t) = (case s of c # r \<Rightarrow> if c = CHR ''-'' then (True, r) else (False, s) | [] \<Rightarrow> (False, []));
         (ds, r1) = (case t of c # r \<Rightarrow> if c = CHR ''0'' then (''0'', r) else span_digits t | [] \<Rightarrow> ([], []));
         (fs, r2) = (case r1 of c # r \<Rightarrow> if c = CHR ''.'' then (case span_digits r of (a, b) \<Rightarrow> if a = [] then ([], r1) else (a, b)) else ([], r1) | [] \<Rightarrow> ([], []));
         (e, r3) = json_exponent r2
     in if ds = [] then None
        else if fs = [] \<and> length r3 = length r2 then
          (if 4300 < length ds then None
           else Some (VInt ((if neg then -1 else 1) * nat_of_digits (map dval ds)), r3))
        else Some (VFloat (decimal neg (map dval ds) (map dval fs) e), r3))"

definition constants :: "(string \<times> pyval) list" where
  "constants = [(''null'', VNone), (''true'', VBool True), (''false'', VBool False),
     (''NaN'', VFloat NaN), (''Infinity'', VFloat PInf), (''-Infinity'', VFloat NInf)]"

definition scan_constant :: "string \<Rightarrow> (pyval \<times> string) option" where
  "scan_constant s = (case find (\<lambda>(w, _). starts_with w s) constants of
     None \<Rightarrow> None | Some (w, v) \<Rightarrow> Some (v, drop (length w) s))"

lemma skip_ws_double: "2 * length (skip_ws s) \<le> 2 * length s"
  by simp

lemma skip_ws_Cons: "skip_ws s = d # r \<Longrightarrow> length r < length s"
  using skip_ws_length [of s] by (metis Suc_le_lessD length_Cons)

text \<open>
  The recursive scanner.  Every value consumes at least one character, which
  \<open>scan_length\<close> proves; the guards \<open>length r < length s\<close> make that visible to the
  termination proof and never fire.
\<close>

function (sequential)
  scan_value :: "hook \<Rightarrow> string \<Rightarrow> (pyval \<times> string) res" and
  scan_items :: "hook \<Rightarrow> string \<Rightarrow> (pyval list \<times> string) res" and
  scan_pairs :: "hook \<Rightarrow> string \<Rightarrow> (pyobj \<times> string) res"
where
  "scan_value h [] = Inl bad_json"
| "scan_value h (c # s) =
    (if c = CHR 0x22 then
       (case scan_string s of None \<Rightarrow> Inl bad_json | Some (u, r) \<Rightarrow> Inr (VStr u, r))
     else if c = CHR ''['' then
       (case skip_ws s of d # r \<Rightarrow> if d = CHR '']'' then Inr (VList [], r)
            else and_then (scan_items h (d # r)) (\<lambda>(xs, q). Inr (VList xs, q))
        | [] \<Rightarrow> Inl bad_json)
     else if c = CHR ''{'' then
       (case skip_ws s of d # r \<Rightarrow> if d = CHR ''}'' then and_then (h []) (\<lambda>v. Inr (v, r))
            else and_then (scan_pairs h (d # r)) (\<lambda>(ps, q). and_then (h ps) (\<lambda>v. Inr (v, q)))
        | [] \<Rightarrow> Inl bad_json)
     else (case scan_constant (c # s) of Some (v, r) \<Rightarrow> Inr (v, r)
        | None \<Rightarrow> (case scan_number (c # s) of Some (v, r) \<Rightarrow> Inr (v, r) | None \<Rightarrow> Inl bad_json)))"
| "scan_items h s =
    and_then (scan_value h s) (\<lambda>(v, r). case skip_ws r of
       d # t \<Rightarrow> if d = CHR '']'' then Inr ([v], t)
         else if d = CHR '','' \<and> length r < length s
           then and_then (scan_items h (skip_ws t)) (\<lambda>(vs, q). Inr (v # vs, q))
         else Inl bad_json
     | [] \<Rightarrow> Inl bad_json)"
| "scan_pairs h s = (case s of
       [] \<Rightarrow> Inl bad_json
     | c # t \<Rightarrow> if c \<noteq> CHR 0x22 then Inl bad_json else
        (case scan_string t of None \<Rightarrow> Inl bad_json | Some (k, r) \<Rightarrow>
          (case skip_ws r of [] \<Rightarrow> Inl bad_json | d # r1 \<Rightarrow>
            if d \<noteq> CHR '':'' then Inl bad_json else
            and_then (scan_value h (skip_ws r1)) (\<lambda>(v, r2). case skip_ws r2 of
               e # r3 \<Rightarrow> if e = CHR ''}'' then Inr ([(k, v)], r3)
                 else if e = CHR '','' \<and> length r2 < length s
                   then and_then (scan_pairs h (skip_ws r3)) (\<lambda>(ps, q). Inr ((k, v) # ps, q))
                 else Inl bad_json
             | [] \<Rightarrow> Inl bad_json))))"
  by pat_completeness auto

termination
  by (relation "measure (\<lambda>x. case x of Inl (h, s) \<Rightarrow> 2 * length s
       | Inr y \<Rightarrow> (case y of Inl (h, s) \<Rightarrow> 2 * length s + 1 | Inr (h, s) \<Rightarrow> 2 * length s + 1))")
    (auto dest!: skip_ws_Cons scan_string_length intro: le_less_trans [OF skip_ws_double] le_less_trans [OF skip_ws_length])

lemma take_sign_length: "take_sign s = (b, r) \<Longrightarrow> length r \<le> length s"
  by (auto simp: take_sign_def split: list.splits if_splits)

lemma json_exponent_length: "json_exponent s = (e, r) \<Longrightarrow> length r \<le> length s"
  by (auto simp: json_exponent_def Let_def split: list.splits if_splits prod.splits
      dest!: span_digits_length take_sign_length)

lemma scan_number_length: "scan_number s = Some (v, r) \<Longrightarrow> length r < length s"
  by (auto simp: scan_number_def Let_def split: list.splits if_splits prod.splits
      dest!: json_exponent_length span_digits_length)

lemma scan_constant_length: "scan_constant s = Some (v, r) \<Longrightarrow> length r < length s"
  by (auto simp: scan_constant_def constants_def starts_with_iff split: if_splits)

text \<open>Every successful scan consumes input, so the guards of the scanner never fire.\<close>

lemma scan_length:
  "scan_value h s = Inr (v, r) \<Longrightarrow> length r < length s"
  "scan_items h s = Inr (vs, r) \<Longrightarrow> length r < length s"
  "scan_pairs h s = Inr (ps, r) \<Longrightarrow> length r < length s"
proof (induction h s and h s and h s arbitrary: v r and vs r and ps r
    rule: scan_value_scan_items_scan_pairs.induct)
  case (2 h c s)
  consider "c = CHR 0x22" | "c = CHR ''[''" | "c = CHR ''{''"
    | "c \<noteq> CHR 0x22" "c \<noteq> CHR ''[''" "c \<noteq> CHR ''{''" by blast
  then show ?case
  proof cases
    case 1
    with "2.prems" show ?thesis
      by (auto split: option.splits dest!: scan_string_length)
  next
    case 2
    with "2.prems" obtain d t where dt: "skip_ws s = d # t" by (auto split: list.splits)
    have l: "length (d # t) \<le> length s" using skip_ws_length [of s] dt by simp
    show ?thesis
    proof (cases "d = CHR '']''")
      case True
      with 2 "2.prems" dt l show ?thesis by simp
    next
      case False
      with 2 "2.prems" dt obtain xs where "scan_items h (d # t) = Inr (xs, r)" by auto
      moreover from this have "length r < length (d # t)"
        using "2.IH"(1) 2 dt False by simp
      ultimately show ?thesis using l by simp
    qed
  next
    case 3
    with "2.prems" obtain d t where dt: "skip_ws s = d # t" by (auto split: list.splits)
    have l: "length (d # t) \<le> length s" using skip_ws_length [of s] dt by simp
    show ?thesis
    proof (cases "d = CHR ''}''")
      case True
      with 3 "2.prems" dt l show ?thesis by auto
    next
      case False
      with 3 "2.prems" dt obtain ps where "scan_pairs h (d # t) = Inr (ps, r)" by auto
      moreover from this have "length r < length (d # t)"
        using "2.IH"(2) 3 dt False by simp
      ultimately show ?thesis using l by simp
    qed
  next
    case 4
    with "2.prems" show ?thesis
      by (auto split: option.splits dest!: scan_constant_length scan_number_length)
  qed
next
  case (3 h s)
  from "3.prems" obtain v r1 where v: "scan_value h s = Inr (v, r1)"
    and rest: "(case skip_ws r1 of
       d # t \<Rightarrow> if d = CHR '']'' then Inr ([v], t)
         else if d = CHR '','' \<and> length r1 < length s
           then and_then (scan_items h (skip_ws t)) (\<lambda>(vs, q). Inr (v # vs, q))
         else Inl bad_json
     | [] \<Rightarrow> Inl bad_json) = Inr (vs, r)" by auto
  from "3.IH"(1) v have l1: "length r1 < length s" .
  obtain d t where dt: "skip_ws r1 = d # t" using rest by (cases "skip_ws r1") auto
  then have lt: "length t < length r1" by (rule skip_ws_Cons)
  show ?case
  proof (cases "d = CHR '']''")
    case True
    with rest dt l1 lt show ?thesis by simp
  next
    case False
    with rest dt obtain vs' where it: "d = CHR '',''" "scan_items h (skip_ws t) = Inr (vs', r)"
      by (auto split: if_splits)
    have "length r < length (skip_ws t)"
      using "3.IH"(2) [OF dt False] it l1 by blast
    then show ?thesis using l1 lt skip_ws_length [of t] by linarith
  qed
next
  case (4 h s)
  from "4.prems" obtain c t where s: "s = c # t" "c = CHR 0x22"
    by (auto split: list.splits if_splits)
  with "4.prems" obtain k r0 where k: "scan_string t = Some (k, r0)"
    by (auto split: option.splits)
  with "4.prems" s obtain r1 where r1: "skip_ws r0 = CHR '':'' # r1"
    by (auto split: list.splits if_splits)
  with "4.prems" s k obtain v r2 where v: "scan_value h (skip_ws r1) = Inr (v, r2)"
    and rest: "(case skip_ws r2 of
         e # r3 \<Rightarrow> if e = CHR ''}'' then Inr ([(k, v)], r3)
           else if e = CHR '','' \<and> length r2 < length s
             then and_then (scan_pairs h (skip_ws r3)) (\<lambda>(ps, q). Inr ((k, v) # ps, q))
           else Inl bad_json
       | [] \<Rightarrow> Inl bad_json) = Inr (ps, r)" by auto
  have "length r2 < length (skip_ws r1)" using "4.IH"(1) s k r1 v by simp
  then have l2: "length r2 < length s"
    using s less_le_trans [OF _ skip_ws_length] skip_ws_Cons [OF r1] scan_string_length [OF k]
    by fastforce
  obtain e r3 where er: "skip_ws r2 = e # r3" using rest by (cases "skip_ws r2") auto
  then have l3: "length r3 < length r2" by (rule skip_ws_Cons)
  show ?case
  proof (cases "e = CHR ''}''")
    case True
    with rest er l2 l3 show ?thesis by simp
  next
    case False
    with rest er obtain ps' where it: "e = CHR '',''" "scan_pairs h (skip_ws r3) = Inr (ps', r)"
      by (auto split: if_splits)
    have "length r < length (skip_ws r3)"
      using "4.IH"(2) s k r1 v er False it l2 by simp
    then show ?thesis using l2 l3 skip_ws_length [of r3] by linarith
  qed
qed simp

text \<open>\<open>json.loads(payload)\<close>: one value, then only white space; a byte order mark is refused.\<close>

definition json_loads :: "hook \<Rightarrow> string \<Rightarrow> pyval res" where
  "json_loads h s = (if starts_with [CHR 0xEF, CHR 0xBB, CHR 0xBF] s then Inl bad_json
     else and_then (scan_value h (skip_ws s)) (\<lambda>(v, r).
       if skip_ws r = [] then Inr v else Inl bad_json))"

section \<open>Loaded values are well formed\<close>

text \<open>\<open>value_ok\<close>: the floats inside a value are values a float can hold.\<close>

fun value_ok :: "pyval \<Rightarrow> bool" where
  "value_ok (VFloat f) = fvalid f"
| "value_ok (VList vs) = list_all value_ok vs"
| "value_ok (VDict d) = list_all (\<lambda>(k, v). value_ok v) d"
| "value_ok _ = True"

lemma value_ok_get: "value_ok (VDict d) \<Longrightarrow> value_ok (vget d k)"
  by (auto simp: vget_def dict_get_def list_all_iff split: option.splits dest!: map_of_SomeD)

lemma of_pyint_valid: "of_pyint n = Inr f \<Longrightarrow> fvalid f \<and> is_finite f"
  using fvalid_fl [of "of_int n"] by (cases "fl (of_int n)") (auto simp: of_pyint_def simp del: fvalid_fl)

lemma num_of_valid: "num_of v = Some (Inr f) \<Longrightarrow> value_ok v \<Longrightarrow> fvalid f"
  by (cases v) (auto dest: of_pyint_valid)

lemma scan_number_ok: "scan_number s = Some (v, r) \<Longrightarrow> value_ok v"
  by (auto simp: scan_number_def Let_def decimal_def split: list.splits if_splits prod.splits)

lemma scan_constant_ok: "scan_constant s = Some (v, r) \<Longrightarrow> value_ok v"
  by (auto simp: scan_constant_def constants_def split: if_splits)

definition hook_ok :: "hook \<Rightarrow> bool" where
  "hook_ok h \<longleftrightarrow> (\<forall>ps v. value_ok (VDict ps) \<longrightarrow> h ps = Inr v \<longrightarrow> value_ok v)"

declare scan_items.simps [simp del] scan_pairs.simps [simp del]

lemma scan_ok:
  assumes "hook_ok h"
  shows "scan_value h s = Inr (v, r) \<Longrightarrow> value_ok v"
    "scan_items h s = Inr (vs, r) \<Longrightarrow> list_all value_ok vs"
    "scan_pairs h s = Inr (ps, r) \<Longrightarrow> value_ok (VDict ps)"
  using assms
proof (induction h s and h s and h s arbitrary: v r and vs r and ps r
    rule: scan_value_scan_items_scan_pairs.induct)
  case (2 h c s)
  note h = \<open>hook_ok h\<close> [unfolded hook_ok_def, rule_format]
  consider "c = CHR 0x22" | "c = CHR ''[''" | "c = CHR ''{''"
    | "c \<noteq> CHR 0x22" "c \<noteq> CHR ''[''" "c \<noteq> CHR ''{''" by blast
  then show ?case
  proof cases
    case 1
    with "2.prems" show ?thesis by (auto split: option.splits)
  next
    case 2
    with "2.prems" obtain d t where dt: "skip_ws s = d # t" by (auto split: list.splits)
    with 2 "2.prems" show ?thesis using "2.IH"(1) by (auto split: if_splits)
  next
    case 3
    with "2.prems" obtain d t where dt: "skip_ws s = d # t" by (auto split: list.splits)
    show ?thesis
    proof (cases "d = CHR ''}''")
      case True
      with 3 "2.prems" dt show ?thesis using h [of "[]"] by auto
    next
      case False
      with 3 "2.prems" dt obtain ps q where sp: "scan_pairs h (d # t) = Inr (ps, q)" "h ps = Inr v" by auto
      have "value_ok (VDict ps)" using 3 dt False "2.IH"(2) [OF _ _ _ dt False sp(1)] "2.prems"(2) by simp
      then show ?thesis using h sp(2) by blast
    qed
  next
    case 4
    with "2.prems" show ?thesis
      by (auto split: option.splits dest: scan_number_ok scan_constant_ok)
  qed
next
  case (3 h s)
  from "3.prems"(1) obtain u q where u: "scan_value h s = Inr (u, q)" by (auto simp: scan_items.simps [of h s])
  with "3.IH"(1) "3.prems"(2) have "value_ok u" by simp
  with u "3.prems" "3.IH"(2) show ?case
    by (auto simp: scan_items.simps [of h s] split: list.splits if_splits)
next
  case (4 h s)
  note prems = "4.prems" [unfolded scan_pairs.simps [of h s]]
  from prems(1) obtain c t where s: "s = c # t" "c = CHR 0x22"
    by (auto split: list.splits if_splits)
  with prems(1) obtain k r0 where k: "scan_string t = Some (k, r0)"
    by (auto split: option.splits)
  with prems(1) s obtain r1 where r1: "skip_ws r0 = CHR '':'' # r1"
    by (auto split: list.splits if_splits)
  with prems(1) s k obtain v r2 where v: "scan_value h (skip_ws r1) = Inr (v, r2)"
    and rest: "(case skip_ws r2 of
         e # r3 \<Rightarrow> if e = CHR ''}'' then Inr ([(k, v)], r3)
           else if e = CHR '','' \<and> length r2 < length s
             then and_then (scan_pairs h (skip_ws r3)) (\<lambda>(ps, q). Inr ((k, v) # ps, q))
           else Inl bad_json
       | [] \<Rightarrow> Inl bad_json) = Inr (ps, r)" by auto
  have vv: "value_ok v" using "4.IH"(1) s k r1 v prems(2) by simp
  show ?case
  proof (cases "ps = [(k, v)]")
    case False
    with rest obtain e r3 ps' where it: "skip_ws r2 = e # r3" "e \<noteq> CHR ''}''" "e = CHR '','' \<and> length r2 < length s"
      "scan_pairs h (skip_ws r3) = Inr (ps', r)" "ps = (k, v) # ps'"
      by (auto split: list.splits if_splits)
    have "value_ok (VDict ps')" using "4.IH"(2) s k r1 it prems(2) by simp
    with vv it show ?thesis by simp
  qed (use vv in simp)
qed simp

lemma json_loads_ok: "json_loads h s = Inr v \<Longrightarrow> hook_ok h \<Longrightarrow> value_ok v"
  by (auto simp: json_loads_def split: if_splits dest: scan_ok(1))

lemma value_ok_set: "value_ok v \<Longrightarrow> value_ok (VDict d) \<Longrightarrow> value_ok (VDict (dict_set k v d))"
  by (auto simp: list_all_iff dest!: in_set_dict_set)

lemma dict_hook_ok: "hook_ok dict_hook"
proof -
  have "value_ok (VDict (foldl (\<lambda>d (k, v). dict_set k v d) d ps))"
    if "value_ok (VDict ps)" "value_ok (VDict d)" for ps d
    using that
  proof (induction ps arbitrary: d)
    case (Cons p ps)
    obtain k v where p: "p = (k, v)" by (cases p)
    with Cons.prems have "value_ok v" "value_ok (VDict ps)" by simp_all
    then have "value_ok (VDict (dict_set k v d))" using Cons.prems(2) by (intro value_ok_set)
    with Cons.IH [OF \<open>value_ok (VDict ps)\<close>] p show ?case by simp
  qed simp
  from this [of _ "[]"] show ?thesis unfolding hook_ok_def dict_hook_def by fastforce
qed

end
