(* ===== verification/DvccStage.thy ===== *)
theory DvccStage
  imports Dvcc
begin

text \<open>
  The output stage of the controller (\<open>finish\<close>, dvcc_controller.py): how far a published limit can
  lie above the raw limit it is computed from.  Every step is binary64 arithmetic: the product with 10 or 100, its
  floor, the quotient, and the final \<open>round\<close>.
\<close>

section \<open>Relative error of one rounding\<close>

lemma round64_up:
  assumes "0 \<le> x" "x = 0 \<or> pow2 (- 1022) \<le> x"
  shows "round64 x \<le> x * (1 + pow2 (- 53))"
proof (cases "x = 0")
  case False
  then have x: "0 < x" "pow2 (- 1022) \<le> x" using assms by simp_all
  have e: "pow2 (expo x) \<le> x" "x < pow2 (expo x + 1)" using expo_bounds [of x] x by simp_all
  with x(2) have "pow2 (- 1022) < pow2 (expo x + 1)" by linarith
  then have q: "qexp x = expo x - 52" by (simp add: qexp_def)
  have half: "pow2 (qexp x) / 2 = pow2 (expo x) * pow2 (- 53)"
    using pow2_add [of "expo x" "- 53"] pow2_add [of "expo x - 53" 1] pow2_nat [of 1] by (simp add: q)
  have "of_int (rne (x / pow2 (qexp x))) \<le> x / pow2 (qexp x) + 1 / 2"
    using rne_near [of "x / pow2 (qexp x)"] by linarith
  then have "of_int (rne (x / pow2 (qexp x))) * pow2 (qexp x) \<le> (x / pow2 (qexp x) + 1 / 2) * pow2 (qexp x)"
    by (rule mult_right_mono) simp
  then have "round64 x \<le> x + pow2 (qexp x) / 2" using False by (simp add: round64_def distrib_right)
  also have "\<dots> \<le> x * (1 + pow2 (- 53))" using e(1) half by (simp add: distrib_left)
  finally show ?thesis .
qed simp

lemma pow2_m53: "pow2 (- 53) = 1 / 9007199254740992"
  using pow2_diff [of 0 53] pow2_nat [of 53] by simp

lemma tiny: "pow2 (- 1022) \<le> 1 / 1024"
  using pow2_diff [of 0 10] pow2_nat [of 10] pow2_le_iff [of "- 1022" "- 10"] by (simp del: pow2_le_iff)

lemma round64_above: "1 / 1024 \<le> x \<Longrightarrow> round64 x \<le> x * (1 + 1 / 9007199254740992)"
  using round64_up [of x] tiny pow2_m53 by simp

lemma rne_unique: "\<bar>x - of_int k\<bar> < 1 / 2 \<Longrightarrow> rne x = k"
proof -
  assume "\<bar>x - of_int k\<bar> < 1 / 2"
  with rne_near [of x] have "\<bar>of_int (rne x) - of_int k\<bar> < (1 :: rat)" by linarith
  then have "\<bar>of_int (rne x - k)\<bar> < (1 :: rat)" by simp
  then have "\<bar>rne x - k\<bar> < 1" using of_int_less_iff [of "\<bar>rne x - k\<bar>" 1] by simp
  then show ?thesis by simp
qed

section \<open>Rounding to decimals, after a floor or not\<close>

lemma rne_0 [simp]: "rne 0 = 0"
  using rne_of_int [of 0] by simp

lemma fround_up:
  assumes "0 \<le> r" "fround n (Fin r) = Fin z" "n \<le> 2"
  shows "z \<le> (r + 1 / (2 * 10 ^ n)) * (1 + 1 / 9007199254740992)"
proof -
  let ?q = "of_int (rne (r * 10 ^ n)) / 10 ^ n :: rat"
  have D: "(10 :: rat) ^ n \<in> {1, 10, 100}" using assms(3) by (auto simp: le_Suc_eq numeral_2_eq_2)
  have z: "z = round64 ?q" using assms(2) by (auto simp: fl_def Let_def split: if_splits)
  have "of_int (rne (r * 10 ^ n)) \<le> r * 10 ^ n + (1 / 2 :: rat)" using rne_near [of "r * 10 ^ n"] by linarith
  then have q: "?q \<le> r + 1 / (2 * 10 ^ n)" by (simp add: divide_le_eq distrib_right)
  have n0: "0 \<le> rne (r * 10 ^ n)" using rne_ge [of 0 "r * 10 ^ n"] assms(1) by simp
  have "round64 ?q \<le> ?q * (1 + 1 / 9007199254740992)"
  proof (cases "rne (r * 10 ^ n) = 0")
    case False
    with n0 have "(1 :: rat) \<le> of_int (rne (r * 10 ^ n))" by simp
    then have "1 / 1024 \<le> ?q" using D by auto
    then show ?thesis by (rule round64_above)
  qed simp
  also have "\<dots> \<le> (r + 1 / (2 * 10 ^ n)) * (1 + 1 / 9007199254740992)" using q by (intro mult_right_mono) simp_all
  finally show ?thesis using z by simp
qed

lemma floored_up:
  assumes "0 \<le> r" "floor_to (10 ^ n) (Fin r) = Inr y" "fround n y = Fin z" "n \<in> {1, 2}"
  shows "z \<le> r * (1 + 1 / 10 ^ 13)" "r \<le> 1 / 512 \<Longrightarrow> z = 0"
proof -
  let ?D = "10 ^ n :: rat" and ?e = "1 / 9007199254740992 :: rat"
  have D: "?D \<in> {10, 100}" using assms(4) by auto
  obtain s where s: "fl (r * ?D) = Fin s" using assms(2) by (cases "fl (r * ?D)") (auto simp: floor_to_def)
  then have sr: "s = round64 (r * ?D)" by (auto simp: fl_def Let_def split: if_splits)
  let ?k = "\<lfloor>s\<rfloor>"
  have dy: "int_div ?k (10 ^ n) = Inr y" using assms(2) s by (simp add: floor_to_def)
  then have y: "y = Fin (round64 (of_int ?k / ?D))"
    by (auto simp: int_div_def fl_def Let_def split: if_splits pyfloat.splits)
  have s0: "0 \<le> s" using sr D assms(1) r64.rnd_nonneg [of "r * ?D"] by auto
  have p: "pow2 (- 1) = 1 / 2" using pow2_diff [of 0 1] pow2_nat [of 1] by simp
  have half: "is_dbl (1 / 2)" using is_dbl_pow2 [of "- 1"] unfolding p by simp
  have small: "?k = 0" if "r * ?D \<le> 1 / 2"
    using s0 r64.rnd_le [OF half that] sr by (simp add: floor_unique)
  have zero: "z = 0" if "?k = 0" using that assms(3) y by simp
  show "z = 0" if "r \<le> 1 / 512"
    using that D by (intro zero small) auto
  show "z \<le> r * (1 + 1 / 10 ^ 13)"
  proof (cases "?k = 0")
    case True
    then show ?thesis using zero assms(1) by simp
  next
    case False
    define K where "K = (of_int ?k :: rat)"
    let ?x = "K / ?D :: rat"
    have "0 \<le> ?k" using s0 by simp
    with False have "1 \<le> ?k" by presburger
    then have k1: "1 \<le> K" unfolding K_def by (simp only: of_int_1_le_iff)
    have big: "1 / 2 < r * ?D" using small False by force
    have "s \<le> (r * ?D) * (1 + ?e)" using big sr by (simp only: round64_above)
    moreover have "K \<le> s" by (simp add: K_def)
    ultimately have "K \<le> (r * ?D) * (1 + ?e)" by linarith
    then have x: "?x \<le> r * (1 + ?e)" using D by (auto simp: field_simps)
    have x0: "1 / 1024 \<le> ?x" using k1 D by auto
    let ?Y = "round64 ?x"
    have Y: "?Y \<le> ?x * (1 + ?e)" by (rule round64_above [OF x0])
    have Y0: "0 \<le> ?Y" using k1 D by (intro r64.rnd_nonneg) auto
    define X where "X = ?x"
    have X: "K = X * ?D" "0 < X" "X \<le> r * (1 + ?e)" "round64 X \<le> X * (1 + ?e)" "0 \<le> round64 X"
      "Fin (round64 X) = y" "of_int ?k = X * ?D"
      using D x x0 Y Y0 y by (auto simp: X_def K_def [symmetric])
    have "z \<le> X * (1 + ?e) * (1 + 9 * ?e)"
    proof (cases "K \<le> 2 ^ 50")
      case True
      then have "K * (1 + ?e) < K + 1 / 2" by (simp add: distrib_left)
      moreover have "round64 X * ?D \<le> X * (1 + ?e) * ?D" using X(4) D by (intro mult_right_mono) auto
      moreover have "X * (1 + ?e) * ?D = K * (1 + ?e)" using X(1) by simp
      ultimately have "round64 X * ?D < K + 1 / 2" by linarith
      then have "of_int (rne (round64 X * ?D)) < K + 1" using rne_near [of "round64 X * ?D"] by linarith
      then have "rne (round64 X * ?D) \<le> ?k" unfolding K_def by (metis of_int_1 of_int_add of_int_less_iff zle_add1_eq_le)
      then have "of_int (rne (round64 X * ?D)) \<le> K" unfolding K_def by (simp only: of_int_le_iff)
      then have "of_int (rne (round64 X * ?D)) / ?D \<le> X" using X(1) D by (auto simp: divide_le_eq)
      then have "round64 (of_int (rne (round64 X * ?D)) / ?D) \<le> round64 X" by (rule r64.rnd_mono)
      moreover have "z = round64 (of_int (rne (round64 X * ?D)) / ?D)"
        using assms(3) X(6) by (auto simp: fl_def Let_def split: if_splits)
      moreover have "X * (1 + ?e) \<le> X * (1 + ?e) * (1 + 9 * ?e)" using X(2) by simp
      ultimately show ?thesis using X(4) by linarith
    next
      case False
      have m: "1 / (2 * ?D) \<le> X * (4 * ?e)" using False X(1) D by auto
      have "z \<le> (round64 X + 1 / (2 * ?D)) * (1 + ?e)"
        by (rule fround_up [OF X(5)]) (use assms(3,4) X(6) in auto)
      also have "(round64 X + 1 / (2 * ?D)) * (1 + ?e) \<le> (X * (1 + ?e) + X * (4 * ?e)) * (1 + ?e)"
        using X(4) m by (intro mult_right_mono add_mono) simp_all
      also have "\<dots> = X * ((1 + 5 * ?e) * (1 + ?e))" by (simp add: algebra_simps)
      also have "\<dots> \<le> X * ((1 + ?e) * (1 + 9 * ?e))" using X(2) by (intro mult_left_mono) simp_all
      finally show ?thesis by (simp add: mult.assoc)
    qed
    also have "\<dots> = X * ((1 + ?e) * (1 + 9 * ?e))" by (simp add: mult.assoc)
    also have "\<dots> \<le> r * (1 + ?e) * ((1 + ?e) * (1 + 9 * ?e))" using X(3) by (rule mult_right_mono) simp
    also have "\<dots> = r * ((1 + ?e) * ((1 + ?e) * (1 + 9 * ?e)))" by (simp add: mult.assoc)
    also have "\<dots> \<le> r * (1 + 1 / 10 ^ 13)" using assms(1) by (intro mult_left_mono) simp_all
    finally show ?thesis .
  qed
qed

lemma fround_small:
  assumes "0 \<le> r" "r \<le> 1 / 512" "n \<le> 2" "fround n (Fin r) = Fin z"
  shows "z = 0"
proof -
  have "(10 :: rat) ^ n \<in> {1, 10, 100}" using assms(3) by (auto simp: le_Suc_eq numeral_2_eq_2)
  then have "r * 10 ^ n \<le> 1 / 512 * 100" "0 \<le> r * 10 ^ n" using assms(1,2) by auto
  then have "rne (r * 10 ^ n) = 0" by (intro rne_unique) simp
  then show ?thesis using assms(4) by simp
qed

section \<open>The published limits\<close>

text \<open>The most that is published for a raw limit \<open>r\<close>: with a profile the limit is floored, so only the rounding of the float
  operations remains, less than a part in 10^12; without one it is rounded to the nearest tenth (hundredth) and may gain
  half a unit \<open>h\<close>.\<close>

definition published_bound :: "dvcc_controller \<Rightarrow> rat \<Rightarrow> rat \<Rightarrow> rat" where
  "published_bound c h r = (r + (if ctl_profile c = None then h else 0)) * (1 + 1 / 10 ^ 12)"

lemma published_bound_mono: "r \<le> s \<Longrightarrow> published_bound c h r \<le> published_bound c h s"
  by (simp add: published_bound_def)

lemma stage_bound:
  assumes "0 \<le> r" "(if b then Inr (Fin r) else floor_to m (Fin r)) = Inr y" "fround n y = Fin z"
    and "n \<in> {1, 2}" "m = 10 ^ n" "h = 1 / (2 * 10 ^ n)"
  shows "z \<le> (r + (if b then h else 0)) * (1 + 1 / 10 ^ 13)" "r \<le> 1 / 512 \<Longrightarrow> z = 0"
proof -
  have n: "n \<le> 2" using assms(4) by auto
  have "z \<le> (r + (if b then h else 0)) * (1 + 1 / 10 ^ 13) \<and> (r \<le> 1 / 512 \<longrightarrow> z = 0)"
  proof (cases b)
    case True
    then have f: "fround n (Fin r) = Fin z" using assms(2,3) by simp
    have "z \<le> (r + h) * (1 + 1 / 9007199254740992)" unfolding assms(6) by (rule fround_up [OF assms(1) f n])
    also have "\<dots> \<le> (r + h) * (1 + 1 / 10 ^ 13)" using assms(1,6) by (intro mult_left_mono) simp_all
    finally show ?thesis using True fround_small [OF assms(1) _ n f] by simp
  next
    case False
    then have f: "floor_to (10 ^ n) (Fin r) = Inr y" using assms(2,5) by simp
    show ?thesis using False floored_up [OF assms(1) f assms(3,4)] by simp
  qed
  then show "z \<le> (r + (if b then h else 0)) * (1 + 1 / 10 ^ 13)" "r \<le> 1 / 512 \<Longrightarrow> z = 0" by blast+
qed

lemma current_bound:
  assumes "0 \<le> r" "(if ctl_profile c = None then Inr (Fin r) else floor_to 10 (Fin r)) = Inr y" "fround 1 y = Fin z"
  shows "z \<le> published_bound c (1 / 20) r"
proof -
  have "z \<le> (r + (if ctl_profile c = None then 1 / 20 else 0)) * (1 + 1 / 10 ^ 13)"
    by (rule stage_bound(1) [OF assms]) simp_all
  also have "\<dots> \<le> published_bound c (1 / 20) r"
    unfolding published_bound_def using assms(1) by (intro mult_left_mono) simp_all
  finally show ?thesis .
qed

lemma voltage_bound:
  assumes "0 \<le> v" "fl v = Fin r" "(if ctl_profile c = None then Inr (Fin r) else floor_to 100 (Fin r)) = Inr y"
    and "fround 2 y = Fin z"
  shows "z \<le> published_bound c (1 / 200) v"
proof -
  let ?h = "if ctl_profile c = None then 1 / 200 else 0 :: rat" and ?e = "1 / 9007199254740992 :: rat"
  have r: "r = round64 v" "0 \<le> r" using assms(1,2) r64.rnd_nonneg [of v] by (auto simp: fl_def Let_def split: if_splits)
  have b: "z \<le> (r + ?h) * (1 + 1 / 10 ^ 13)" and s: "r \<le> 1 / 512 \<Longrightarrow> z = 0"
    using stage_bound [OF r(2) assms(3,4), of "1 / 200"] by simp_all
  have pos: "0 \<le> published_bound c (1 / 200) v" using assms(1) by (simp add: published_bound_def)
  show ?thesis
  proof (cases "1 / 1024 \<le> v")
    case True
    then have "r \<le> v * (1 + ?e)" using r(1) by (simp only: round64_above)
    then have "r + ?h \<le> (v + ?h) * (1 + ?e)" by (simp add: distrib_right)
    then have "(r + ?h) * (1 + 1 / 10 ^ 13) \<le> (v + ?h) * (1 + ?e) * (1 + 1 / 10 ^ 13)" by (rule mult_right_mono) simp
    also have "\<dots> = (v + ?h) * ((1 + ?e) * (1 + 1 / 10 ^ 13))" by (simp only: mult.assoc)
    also have "\<dots> \<le> published_bound c (1 / 200) v"
      unfolding published_bound_def using assms(1) by (intro mult_left_mono) simp_all
    finally show ?thesis using b by linarith
  next
    case False
    have p: "pow2 (- 10) = 1 / 1024" using pow2_diff [of 0 10] pow2_nat [of 10] by simp
    have "is_dbl (1 / 1024)" using is_dbl_pow2 [of "- 10"] unfolding p by simp
    then have "r \<le> 1 / 1024" using False r(1) r64.rnd_le [of "1 / 1024" v] by simp
    then have "z = 0" by (intro s) simp
    then show ?thesis using pos by simp
  qed
qed

text \<open>One call of \<open>finish\<close>, whose three outputs it has computed.\<close>

lemma finish_bounds:
  assumes "finish c d lx ly = Inr out"
  shows "fst lx = Fin r \<Longrightarrow> 0 \<le> r \<Longrightarrow> ccl out = Fin x \<Longrightarrow> x \<le> published_bound c (1 / 20) r"
    and "fst ly = Fin r \<Longrightarrow> 0 \<le> r \<Longrightarrow> dcl out = Fin x \<Longrightarrow> x \<le> published_bound c (1 / 20) r"
    and "ctl_cell_max_voltage c = Fin v \<Longrightarrow> 0 \<le> v \<Longrightarrow> of_pyint (ctl_cell_count c) = Inr (Fin k) \<Longrightarrow> 0 \<le> k
      \<Longrightarrow> cvl out = Fin z \<Longrightarrow> z \<le> published_bound c (1 / 200) (v * k)"
proof -
  let ?b = "ctl_profile c = None"
  obtain n x1 y1 z1 where f: "of_pyint (ctl_cell_count c) = Inr n"
    "(if ?b then Inr (fst lx) else floor_to 10 (fst lx)) = Inr x1" "ccl out = fround 1 x1"
    "(if ?b then Inr (fst ly) else floor_to 10 (fst ly)) = Inr y1" "dcl out = fround 1 y1"
    "(if ?b then Inr (fmul (ctl_cell_max_voltage c) n) else floor_to 100 (fmul (ctl_cell_max_voltage c) n)) = Inr z1"
    "cvl out = fround 2 z1"
    using assms unfolding finish_def Let_def and_then_Inr_iff by fastforce
  show "x \<le> published_bound c (1 / 20) r" if "fst lx = Fin r" "0 \<le> r" "ccl out = Fin x"
    using current_bound [OF that(2) f(2) [unfolded that(1)]] f(3) that(3) by simp
  show "x \<le> published_bound c (1 / 20) r" if "fst ly = Fin r" "0 \<le> r" "dcl out = Fin x"
    using current_bound [OF that(2) f(4) [unfolded that(1)]] f(5) that(3) by simp
  assume v: "ctl_cell_max_voltage c = Fin v" "0 \<le> v" "of_pyint (ctl_cell_count c) = Inr (Fin k)" "0 \<le> k" "cvl out = Fin z"
  have m: "fmul (ctl_cell_max_voltage c) n = fl (v * k)" using v f(1) by simp
  obtain s where s: "fl (v * k) = Fin s"
    using f(6,7) v(5) m by (cases "fl (v * k)") (auto simp: floor_to_def inf_of_def split: if_splits)
  show "z \<le> published_bound c (1 / 200) (v * k)"
    using voltage_bound [OF _ s f(6) [unfolded m s]] f(7) v by simp
qed

end
