(* ===== verification/DvccBounds.thy ===== *)
theory DvccBounds
  imports DvccStage
begin

text \<open>
  What the limit controller guarantees.  A validated curve orders its thresholds, so every
  interpolation divides by a positive difference and stays in the unit interval; the lemmas
  follow each source of a limit branch by branch, then one poll, then any sequence of polls.
  All bounds hold of the rounded arithmetic.
\<close>

section \<open>A validated curve\<close>

text \<open>\<open>profile_ok\<close>: the fields are floats and \<open>__post_init__\<close> accepted them.\<close>

definition profile_ok :: "dvcc_profile \<Rightarrow> bool" where
  "profile_ok p \<longleftrightarrow> list_all (\<lambda>(n, f). fvalid f) (profile_fields p) \<and> post_init p = Inr p"

named_theorems curve_facts \<open>order of the thresholds of a validated curve\<close>

lemma number_ok_ranged: "number_ok n f = Inr u \<Longrightarrow> fvalid f \<Longrightarrow> ranged f"
  by (auto simp: number_ok_def ranged_def split: if_splits)

lemma foldM_check_all: "foldM (\<lambda>x _. g x) xs () = Inr u \<Longrightarrow> x \<in> set xs \<Longrightarrow> g x = Inr ()"
  by (induction xs) auto

lemma profile_ranged:
  assumes "profile_ok p" "(n, f) \<in> set (profile_fields p)"
  shows "ranged f"
proof -
  have "foldM (\<lambda>x _. (\<lambda>(name, f). number_ok name f) x) (profile_fields p) () = Inr ()"
    using assms(1) by (auto simp: profile_ok_def post_init_def case_prod_unfold)
  from foldM_check_all [OF this assms(2)] have "number_ok n f = Inr ()" by simp
  moreover have "fvalid f" using assms by (auto simp: profile_ok_def list_all_iff)
  ultimately show ?thesis by (rule number_ok_ranged)
qed

lemma profile_all_ranged: "profile_ok p \<Longrightarrow> list_all ranged (map snd (profile_fields p))"
  using profile_ranged by (auto simp: list_all_iff)

lemma profile_ranged_fields:
  assumes "profile_ok p"
  shows "ranged (max_charge_current p)" "ranged (max_discharge_current p)"
    "ranged (min_charge_current p)" "ranged (profile_change_rate p)" "ranged (cell_max_voltage p)"
    "ranged (cell_full_current p)" "ranged (cell_start_limit p)" "ranged (cell_balance_voltage p)"
    "ranged (cell_near_full p)" "ranged (cell_cutoff p)" "ranged (imbalance_start_limit p)"
    "ranged (imbalance_aggressive p)" "ranged (imbalance_critical p)"
    "ranged (temp_full_current_min p)" "ranged (temp_full_current_max p)"
    "ranged (temp_stop_charge p)" "ranged (temp_stop_charge_high p)" "ranged (soc_reduce_start p)"
    "ranged (discharge_cell_full_current p)" "ranged (discharge_cell_start_limit p)"
    "ranged (discharge_cell_cutoff p)"
  using profile_all_ranged [OF assms] by (simp_all add: profile_fields_def)

lemma profile_factors:
  assumes "profile_ok p"
  shows "inside 1 (charge_balance_factor p)" "inside 1 (imbalance_aggressive_factor p)"
    "inside 1 (cold_charge_factor p)" "inside 1 (hot_charge_min_factor p)" "inside 1 (soc_reduce_factor p)"
    "inside 1 (discharge_low_factor p)" "inside 1 (discharge_hot_factor p)"
proof -
  have "list_all (\<lambda>f. fle (Fin 0) f \<and> fle f (Fin 1)) (factor_fields p)"
    using assms by (auto simp: profile_ok_def post_init_def profile_checks_def split: if_splits)
  moreover have "ranged f" if "f \<in> set (factor_fields p)" for f
  proof -
    have "list_all ranged (factor_fields p)"
      using profile_all_ranged [OF assms] by (simp add: factor_fields_def profile_fields_def)
    with that show ?thesis by (simp add: list_all_iff)
  qed
  ultimately have "inside 1 f" if "f \<in> set (factor_fields p)" for f
    using that by (fastforce simp: list_all_iff inside_def elim!: rangedE)
  then show "inside 1 (charge_balance_factor p)" "inside 1 (imbalance_aggressive_factor p)"
    "inside 1 (cold_charge_factor p)" "inside 1 (hot_charge_min_factor p)" "inside 1 (soc_reduce_factor p)"
    "inside 1 (discharge_low_factor p)" "inside 1 (discharge_hot_factor p)"
    by (simp_all add: factor_fields_def)
qed

lemma profile_order:
  assumes "profile_ok p"
  shows "ordered_cells p" "ordered_imbalance p" "ordered_temps p"
    "fle (Fin 0) (soc_reduce_start p)" "flt (soc_reduce_start p) (Fin 100)"
    "\<not> fle (fmin3 (max_charge_current p) (max_discharge_current p) (profile_change_rate p)) (Fin 0)"
    "fle (Fin 0) (min_charge_current p)"
    "fle (min_charge_current p) (fmul (max_charge_current p)
       (fmin (charge_balance_factor p) (imbalance_aggressive_factor p)))"
  using assms by (auto simp: profile_ok_def post_init_def profile_checks_def split: if_splits)

lemma profile_currents:
  assumes "profile_ok p"
  shows "inside (pow2 1011) (max_charge_current p)" "inside (pow2 1011) (max_discharge_current p)"
    "inside (pow2 1011) (min_charge_current p)" "inside (pow2 1011) (profile_change_rate p)"
  using profile_order(6,7) [OF assms] profile_ranged_fields(1-4) [OF assms]
  by (auto elim!: rangedE simp: fmin3_def fmin_def inside_def split: if_splits)

lemma pow2_1011: "is_dbl (pow2 1011)" "pow2 1011 * 2 < fmax" "pow2 1011 < fmax" "pow2 1011 * 2 = pow2 1012"
  using is_dbl_pow2 [of 1011] pow2_add [of 1011 1] pow2_nat [of 1] pow2_less_iff [of 1012 1024]
    pow2_less_iff [of 1011 1024]
  by (simp_all add: fmax_def del: pow2_less_iff)

lemma tail_below_ceiling:
  assumes "profile_ok p"
  shows "fle (min_charge_current p) (fmul (max_charge_current p) (charge_balance_factor p))"
    "fle (min_charge_current p) (fmul (max_charge_current p) (imbalance_aggressive_factor p))"
proof -
  let ?m = "max_charge_current p" and ?a = "charge_balance_factor p" and ?b = "imbalance_aggressive_factor p"
  obtain m where m: "?m = Fin m" "0 \<le> m" "is_dbl m" "m < fmax"
    using profile_currents(1) [OF assms] pow2_1011(3) by (auto simp: inside_def intro: le_less_trans)
  have mono: "fle (fmul ?m x) (fmul ?m y)" if "inside 1 x" "inside 1 y" "fle x y" for x y
  proof -
    from that obtain r s where e: "x = Fin r" "y = Fin s" and b: "0 \<le> r" "s \<le> 1"
      by (auto simp: inside_def)
    with that(3) have rs: "r \<le> s" by simp
    then have "m * r \<le> m * s" "m * s \<le> m" "m * r \<le> m" "0 \<le> m * r" "0 \<le> m * s"
      using m(2) b by (auto intro: mult_left_mono mult_left_le)
    then show ?thesis using m e
      by (simp add: fl_finite [of "m * r" m] fl_finite [of "m * s" m] round64_mono)
  qed
  have u: "inside 1 ?a" "inside 1 ?b" using profile_factors [OF assms] by auto
  then have "fle (fmin ?a ?b) ?a" "fle (fmin ?a ?b) ?b" using fmin_le inside_not_NaN by blast+
  with u have "fle (fmul ?m (fmin ?a ?b)) (fmul ?m ?a)" "fle (fmul ?m (fmin ?a ?b)) (fmul ?m ?b)"
    by (auto intro!: mono inside_min)
  with profile_order(8) [OF assms]
  show "fle (min_charge_current p) (fmul ?m ?a)" "fle (min_charge_current p) (fmul ?m ?b)"
    using fle_trans by blast+
qed

text \<open>The decimal literals of the defaults, and that the default curve is itself a validated profile.\<close>

lemma literals:
  "fl (73 / 20) = Fin (8219069319951155 / 2251799813685248)"
  "fl (17 / 5) = Fin (7656119366529843 / 2251799813685248)"
  "fl (69 / 20) = Fin (3884354678607053 / 1125899906842624)"
  "fl (7 / 2) = Fin (7 / 2)"
  "fl (71 / 20) = Fin (3996944669291315 / 1125899906842624)"
  "fl (18 / 5) = Fin (8106479329266893 / 2251799813685248)"
  "fl (1 / 5) = Fin (3602879701896397 / 18014398509481984)"
  "fl (1 / 20) = Fin (3602879701896397 / 72057594037927936)"
  "fl (1 / 10) = Fin (3602879701896397 / 36028797018963968)"
  "fl (3 / 10) = Fin (5404319552844595 / 18014398509481984)"
  "fl (1 / 2) = Fin (1 / 2)"
  "fl (29 / 10) = Fin (6530219459687219 / 2251799813685248)"
  "fl (27 / 10) = Fin (3039929748475085 / 1125899906842624)"
  "fl (- (5463 / 20)) = Fin (- (2402652809016115 / 8796093022208))"
  by code_simp+

lemmas constants = default_profile_def DVCC_MAX_CHARGE_CURRENT_def DVCC_MAX_DISCHARGE_CURRENT_def
    DVCC_MIN_CHARGE_CURRENT_def DVCC_CELL_MAX_VOLTAGE_def
lemma tail_literal: "fl (90071992547409925 / 4503599627370496) = Fin 20" by code_simp

lemma default_checks: "profile_checks default_profile = Inr default_profile"
  by (simp add: profile_checks_def ordered_cells_def ordered_imbalance_def ordered_temps_def factor_fields_def
    fmin3_def fmin_def literals tail_literal constants)

lemma number_ok_small: "\<bar>x\<bar> \<le> 1000 \<Longrightarrow> number_ok n (Fin x) = Inr ()"
proof -
  assume x: "\<bar>x\<bar> \<le> 1000"
  have "\<bar>x * 12800\<bar> \<le> pow2 30" using x pow2_nat [of 30] by (simp add: abs_mult)
  then have "fl (x * 12800) = Fin (round64 (x * 12800))"
    by (rule fl_finite) (simp_all add: is_dbl_pow2 fmax_def)
  then show ?thesis by (simp add: number_ok_def)
qed

lemma default_numbers: "foldM (\<lambda>(name, f) _. number_ok name f) (profile_fields default_profile) () = Inr ()"
  by (simp add: profile_fields_def constants literals number_ok_small)

lemma fvalid_small: "\<bar>m\<bar> \<le> 1000 \<Longrightarrow> fvalid (Fin (of_int m))"
proof -
  assume m: "\<bar>m\<bar> \<le> 1000"
  then have "\<bar>of_int m :: rat\<bar> \<le> 1000" using of_int_le_iff [of "\<bar>m\<bar>" 1000, where 'a = rat] by simp
  moreover have "(1000::rat) < fmax"
    using pow2_less_iff [of 10 1024] pow2_nat [of 10] by (simp add: fmax_def del: pow2_less_iff)
  ultimately show ?thesis using m by (simp add: is_dbl_of_int)
qed

lemma fvalid_numeral: "(numeral n :: int) \<le> 1000 \<Longrightarrow> fvalid (Fin (numeral n))"
  using fvalid_small [of "numeral n"] by (simp del: fvalid.simps)

lemma default_valid: "list_all (\<lambda>(n, f). fvalid f) (profile_fields default_profile)"
  using fvalid_small [of 0]
  by (simp add: profile_fields_def constants fvalid_numeral del: fvalid.simps)

lemma profile_ok_default: "profile_ok default_profile"
  by (simp add: profile_ok_def post_init_def default_valid default_numbers default_checks)

section \<open>The interpolation factors\<close>

text \<open>Between two validated thresholds a position never divides by zero and stays in the unit interval.\<close>

lemma rising_unit:
  assumes "ranged a" "ranged b" "flt a b" "fle a v" "fle v b"
  shows "\<exists>q. rising v a b = Inr q \<and> inside 1 q"
proof -
  obtain x y where a: "a = Fin x" "is_dbl x" "\<bar>x\<bar> < pow2 1011" and b: "b = Fin y" "is_dbl y" "\<bar>y\<bar> < pow2 1011"
    using assms(1,2) by (auto elim!: rangedE)
  moreover from this obtain z where v: "v = Fin z" using assms(4,5) by (cases v) auto
  moreover have "y - x \<le> pow2 1012" using a b pow2_1011(4) by (simp add: abs_less_iff)
  ultimately show ?thesis using assms(3-5) unfolding rising_def
    by (auto intro!: inside_quot [of _ _ "pow2 1012"] round64_diff_pos is_dbl_pow2 simp: fmax_def)
qed

lemma falling_unit:
  assumes "ranged a" "ranged b" "flt a b" "fle a v" "fle v b"
  shows "\<exists>q. falling v a b = Inr q \<and> inside 1 q"
  using rising_unit [OF assms] inside_compl by (auto simp: falling_def)

section \<open>The limits of one poll\<close>

definition finite_reading :: "pyfloat option \<Rightarrow> bool" where
  "finite_reading r \<longleftrightarrow> (case r of None \<Rightarrow> True | Some x \<Rightarrow> is_finite x \<and> fvalid x)"

definition input_finite :: "dvcc_input \<Rightarrow> bool" where
  "input_finite d \<longleftrightarrow> list_all finite_reading
     [in_max_cell d, in_min_cell d, in_max_temp d, in_min_temp d, in_soc d]"

text \<open>\<open>limit_in m x\<close>: \<open>x\<close> is a finite limit between zero and the ceiling \<open>m\<close>.\<close>

definition limit_in :: "pyfloat \<Rightarrow> pyfloat \<Rightarrow> bool" where
  "limit_in m x \<longleftrightarrow> (case m of Fin s \<Rightarrow> inside s x | _ \<Rightarrow> False)"

text \<open>What the constructor establishes of the fields the curve fixes.\<close>

definition ctl_curve :: "dvcc_controller \<Rightarrow> bool" where
  "ctl_curve c \<longleftrightarrow> profile_ok (curve c)
     \<and> ctl_max_charge_current c = max_charge_current (curve c)
     \<and> ctl_max_discharge_current c = max_discharge_current (curve c)
     \<and> ctl_min_charge_current c = min_charge_current (curve c)
     \<and> ctl_cell_max_voltage c = cell_max_voltage (curve c)
     \<and> ccl_change_rate c = profile_change_rate (curve c)
     \<and> 1 \<le> ctl_cell_count c \<and> ctl_cell_count c \<le> 128"

lemma limit_in_scale [inside_intros]:
  "limit_in m x \<Longrightarrow> inside 1 f \<Longrightarrow> is_finite m \<and> fvalid m \<Longrightarrow> limit_in m (fmul x f)"
  by (cases m) (auto simp: limit_in_def intro!: inside_scale)

lemma limit_in_min [inside_intros]: "limit_in m x \<Longrightarrow> limit_in m y \<Longrightarrow> limit_in m (fmin x y)"
  by (simp add: fmin_def)

lemma limit_in_0 [inside_intros]: "fle (Fin 0) m \<Longrightarrow> is_finite m \<Longrightarrow> limit_in m (Fin 0)"
  by (cases m) (auto simp: limit_in_def inside_0)

lemma limit_in_refl: "inside s m \<Longrightarrow> limit_in m m"
  by (auto simp: limit_in_def inside_def)

lemma limit_in_iff:
  "limit_in m x \<longleftrightarrow> is_finite m \<and> is_finite x \<and> (\<forall>r. x = Fin r \<longrightarrow> is_dbl r) \<and> fle (Fin 0) x \<and> fle x m"
  by (cases m; cases x) (auto simp: limit_in_def inside_def)

lemma ceiling:
  assumes "ctl_curve c"
  shows "limit_in (ctl_max_charge_current c) (ctl_max_charge_current c)"
    "limit_in (ctl_max_discharge_current c) (ctl_max_discharge_current c)"
    "is_finite (ctl_max_charge_current c)" "fle (Fin 0) (ctl_max_charge_current c)"
    "is_finite (ctl_max_discharge_current c)" "fle (Fin 0) (ctl_max_discharge_current c)"
    "fvalid (ctl_max_charge_current c)" "fvalid (ctl_max_discharge_current c)"
  using assms profile_currents(1,2) [of "curve c"] pow2_1011(3)
  by (auto simp: ctl_curve_def inside_def limit_in_def intro: le_less_trans)

lemmas curve_bounds = profile_ranged_fields profile_factors profile_order(4,5) profile_currents
  tail_below_ceiling

lemma ranged_100 [simp]: "ranged (Fin 100)"
  using is_dbl_of_int [of 100] fl_is_dbl [of 1280000] is_dbl_of_int [of 1280000]
    pow2_less_iff [of 21 1024] pow2_nat [of 21] pow2_nat [of 7] pow2_less_iff [of 7 1024]
  by (simp add: ranged_def fmax_def del: pow2_less_iff)

text \<open>\<open>limit_ok P r\<close>: the source did not raise and its limit satisfies \<open>P\<close>.  The rules follow the shape of the source's branches.\<close>

definition limit_ok :: "(pyfloat \<Rightarrow> bool) \<Rightarrow> limit res \<Rightarrow> bool" where
  "limit_ok P r \<longleftrightarrow> (\<exists>x s. r = Inr (x, s) \<and> P x)"

named_theorems limit_rules \<open>limits by the shape of their source\<close>

lemma limit_ok_Inr [limit_rules]: "P x \<Longrightarrow> limit_ok P (Inr (x, s))"
  by (simp add: limit_ok_def)

lemma limit_ok_if [limit_rules]:
  "(b \<Longrightarrow> limit_ok P r) \<Longrightarrow> (\<not> b \<Longrightarrow> limit_ok P q) \<Longrightarrow> limit_ok P (if b then r else q)"
  by simp

lemma limit_ok_option [limit_rules]:
  "(v = None \<Longrightarrow> limit_ok P r) \<Longrightarrow> (\<And>x. v = Some x \<Longrightarrow> limit_ok P (q x)) \<Longrightarrow>
    limit_ok P (case v of None \<Rightarrow> r | Some x \<Rightarrow> q x)"
  by (cases v) auto

lemma limit_ok_falling [limit_rules]:
  assumes "ranged a" "ranged b" "flt a b" "v \<noteq> NaN" "\<not> flt v a" "\<not> flt b v"
    and "\<And>f. inside 1 f \<Longrightarrow> P (g f)"
  shows "limit_ok P (and_then (falling v a b) (\<lambda>f. Inr (g f, s)))"
  using falling_unit [of a b v] assms by (auto simp: limit_ok_def not_flt ranged_not_NaN)

lemma limit_ok_rising [limit_rules]:
  assumes "ranged a" "ranged b" "flt a b" "v \<noteq> NaN" "\<not> flt v a" "\<not> flt b v"
    and "\<And>f. inside 1 f \<Longrightarrow> P (g f)"
  shows "limit_ok P (and_then (rising v a b) (\<lambda>f. Inr (g f, s)))"
  using rising_unit [of a b v] assms by (auto simp: limit_ok_def not_flt ranged_not_NaN)

lemma flt_asym: "flt a b \<Longrightarrow> \<not> flt b a" "fle a b \<Longrightarrow> \<not> flt b a" "\<not> fle a b \<Longrightarrow> \<not> flt a b"
  by (cases a; cases b; auto simp: fle_def)+

lemma finite_reading_not_NaN: "finite_reading (Some x) \<Longrightarrow> x \<noteq> NaN"
  by (auto simp: finite_reading_def)

lemma ramp_1012 [inside_intros]:
  "inside (pow2 1011) lo \<Longrightarrow> inside (pow2 1011) hi \<Longrightarrow> fle lo hi \<Longrightarrow> inside 1 f \<Longrightarrow>
    inside (pow2 1012) (fadd lo (fmul (fsub hi lo) f))"
  using inside_ramp [of "pow2 1011" lo hi f] pow2_1011 by simp

lemma cell_order:
  assumes "profile_ok p"
  shows "flt (cell_near_full p) (cell_cutoff p)" "flt (cell_balance_voltage p) (cell_near_full p)"
    "flt (cell_start_limit p) (cell_balance_voltage p)"
    "flt (imbalance_aggressive p) (imbalance_critical p)"
    "flt (imbalance_start_limit p) (imbalance_aggressive p)"
    "flt (temp_stop_charge p) (temp_full_current_min p)"
    "flt (temp_full_current_max p) (temp_stop_charge_high p)"
    "flt (discharge_cell_cutoff p) (discharge_cell_start_limit p)"
    "flt (discharge_cell_start_limit p) (discharge_cell_full_current p)"
  using profile_order(1-3) [OF assms]
  by (simp_all add: ordered_cells_def ordered_imbalance_def ordered_temps_def)

lemma currents_1012:
  assumes "profile_ok p"
  shows "inside (pow2 1012) (max_charge_current p)" "inside (pow2 1012) (min_charge_current p)"
  using profile_currents(1,3) [OF assms] by (auto elim: inside_mono)

lemma pow2_fmax [simp]: "pow2 1012 < fmax" "pow2 1011 < fmax"
  by (simp_all add: fmax_def)

lemma ctl_max_sides:
  assumes "ctl_curve c"
  shows "limit_in (max_charge_current (curve c)) (max_charge_current (curve c))"
    "limit_in (max_discharge_current (curve c)) (max_discharge_current (curve c))"
    "is_finite (max_charge_current (curve c))" "fvalid (max_charge_current (curve c))"
    "is_finite (max_discharge_current (curve c))" "fvalid (max_discharge_current (curve c))"
    "fle (Fin 0) (max_charge_current (curve c))" "fle (Fin 0) (max_discharge_current (curve c))"
  using ceiling [OF assms] assms by (simp_all add: ctl_curve_def)

lemmas curve_side = cell_order profile_order(4,5) profile_ranged_fields profile_factors
  profile_currents tail_below_ceiling currents_1012

lemma ctl_currents:
  assumes "ctl_curve c"
  shows "profile_ok (curve c)" "ctl_max_charge_current c = max_charge_current (curve c)"
    "ctl_max_discharge_current c = max_discharge_current (curve c)"
    "ctl_min_charge_current c = min_charge_current (curve c)"
  using assms by (auto simp: ctl_curve_def)

lemmas control_side = curve_side [OF ctl_currents(1)] ctl_max_sides

lemma finite_reading_default [simp]:
  "finite_reading v \<Longrightarrow> (case v of None \<Rightarrow> Fin k | Some t \<Rightarrow> t) \<noteq> NaN"
  by (auto simp: finite_reading_def split: option.splits)

lemma cell_voltage_limit:
  assumes "ctl_curve c" "finite_reading v"
  shows "limit_ok (inside (pow2 1012)) (ccl_from_cell_voltage c v)"
  unfolding ccl_from_cell_voltage_def Let_def ctl_currents [OF assms(1)]
  using assms(2-)
  by (intro limit_rules)
    ((simp add: control_side [OF assms(1)] flt_asym finite_reading_not_NaN; fail)
      | (intro inside_intros; (simp add: control_side [OF assms(1)])?; fail))+

lemma imbalance_limit:
  assumes "ctl_curve c" "d \<noteq> Some NaN"
  shows "limit_ok (inside (pow2 1012)) (ccl_from_imbalance c d)"
  unfolding ccl_from_imbalance_def Let_def ctl_currents [OF assms(1)]
  using assms(2-)
  by (intro limit_rules)
    ((simp add: control_side [OF assms(1)] flt_asym finite_reading_not_NaN; fail)
      | (intro inside_intros; (simp add: control_side [OF assms(1)])?; fail))+

lemma temperature_limit:
  assumes "ctl_curve c" "finite_reading lo" "finite_reading hi"
  shows "limit_ok (limit_in (max_charge_current (curve c))) (ccl_from_temperature c lo hi)"
  unfolding ccl_from_temperature_def Let_def ctl_currents [OF assms(1)]
  using assms(2-)
  by (intro limit_rules)
    ((simp add: control_side [OF assms(1)] flt_asym finite_reading_not_NaN; fail)
      | (intro inside_intros; (simp add: control_side [OF assms(1)])?; fail))+

lemma soc_limit:
  assumes "ctl_curve c" "finite_reading s"
  shows "limit_ok (limit_in (max_charge_current (curve c))) (ccl_from_soc c s)"
  unfolding ccl_from_soc_def Let_def ctl_currents [OF assms(1)]
  using assms(2-)
  by (intro limit_rules)
    ((simp add: control_side [OF assms(1)] flt_asym finite_reading_not_NaN; fail)
      | (intro inside_intros; (simp add: control_side [OF assms(1)])?; fail))+

lemma discharge_limit:
  assumes "ctl_curve c" "finite_reading v"
  shows "limit_ok (limit_in (max_discharge_current (curve c))) (dcl_from_cell_voltage c v)"
  unfolding dcl_from_cell_voltage_def Let_def ctl_currents [OF assms(1)]
  using assms(2-)
  by (intro limit_rules)
    ((simp add: control_side [OF assms(1)] flt_asym finite_reading_not_NaN; fail)
      | (intro inside_intros; (simp add: control_side [OF assms(1)])?; fail))+

section \<open>A whole poll\<close>

text \<open>What holds of the controller between polls: the stored limits lie between zero and their ceilings.\<close>

definition ctl_wf :: "dvcc_controller \<Rightarrow> bool" where
  "ctl_wf c \<longleftrightarrow> ctl_curve c
     \<and> limit_in (ctl_max_charge_current c) (last_ccl c)
     \<and> limit_in (ctl_max_discharge_current c) (last_dcl c)
     \<and> finite_reading (Some (last_update_time c))"

lemma limit_okE:
  assumes "limit_ok P r"
  obtains x s where "r = Inr (x, s)" "P x"
  using assms by (auto simp: limit_ok_def)

lemma limit_in_mono: "inside n x \<Longrightarrow> fle x y \<Longrightarrow> limit_in m y \<Longrightarrow> limit_in m x"
  by (cases m; cases y) (auto simp: limit_in_def inside_def)

lemma limit_in_inside: "limit_in m x \<Longrightarrow> inside n m \<Longrightarrow> inside n x"
  by (auto simp: limit_in_def inside_def)

lemma cell_delta_not_NaN:
  assumes "input_finite d"
  shows "cell_delta d \<noteq> Some NaN"
proof (cases "in_max_cell d"; cases "in_min_cell d")
  fix h l assume "in_max_cell d = Some h" "in_min_cell d = Some l"
  moreover from this obtain x y where "h = Fin x" "l = Fin y"
    using assms by (cases h; cases l) (auto simp: input_finite_def finite_reading_def)
  ultimately show ?thesis by (simp add: cell_delta_def fl_def Let_def)
qed (simp_all add: cell_delta_def)

text \<open>The combined charge limit is below each of its four sources.\<close>

lemma combined_ccl_limit:
  assumes "ctl_curve c" "input_finite d"
  obtains l1 l2 l3 l4 where
    "ccl_from_cell_voltage c (in_max_cell d) = Inr l1" "ccl_from_imbalance c (cell_delta d) = Inr l2"
    "ccl_from_temperature c (in_min_temp d) (in_max_temp d) = Inr l3" "ccl_from_soc c (in_soc d) = Inr l4"
    "combined_ccl c d = Inr (min_by fst l1 [l2, l3, l4])"
    "\<And>l. l \<in> {l1, l2, l3, l4} \<Longrightarrow> inside (pow2 1012) (fst l) \<and> fle (fst (min_by fst l1 [l2, l3, l4])) (fst l)"
    "limit_in (ctl_max_charge_current c) (fst (min_by fst l1 [l2, l3, l4]))"
proof -
  have d: "finite_reading (in_max_cell d)" "finite_reading (in_min_cell d)" "finite_reading (in_max_temp d)"
    "finite_reading (in_min_temp d)" "finite_reading (in_soc d)"
    using assms(2) by (simp_all add: input_finite_def)
  note m = ctl_currents [OF assms(1)] and mx = control_side [OF assms(1)]
  obtain x1 s1 where 1: "ccl_from_cell_voltage c (in_max_cell d) = Inr (x1, s1)" "inside (pow2 1012) x1"
    using cell_voltage_limit [OF assms(1) d(1)] by (rule limit_okE)
  obtain x2 s2 where 2: "ccl_from_imbalance c (cell_delta d) = Inr (x2, s2)" "inside (pow2 1012) x2"
    using imbalance_limit [OF assms(1) cell_delta_not_NaN [OF assms(2)]] by (rule limit_okE)
  obtain x3 s3 where 3: "ccl_from_temperature c (in_min_temp d) (in_max_temp d) = Inr (x3, s3)"
    "limit_in (max_charge_current (curve c)) x3"
    using temperature_limit [OF assms(1) d(4,3)] by (rule limit_okE)
  obtain x4 s4 where 4: "ccl_from_soc c (in_soc d) = Inr (x4, s4)" "limit_in (max_charge_current (curve c)) x4"
    using soc_limit [OF assms(1) d(5)] by (rule limit_okE)
  let ?ls = "[(x2, s2), (x3, s3), (x4, s4)]"
  let ?m = "min_by fst (x1, s1) ?ls"
  have in4: "inside (pow2 1012) (fst l)" if "l \<in> set ((x1, s1) # ?ls)" for l
    using that 1(2) 2(2) limit_in_inside [OF 3(2)] limit_in_inside [OF 4(2)] mx by auto
  then have nn: "\<forall>x \<in> set ((x1, s1) # ?ls). fst x \<noteq> NaN" using inside_not_NaN by blast
  have le: "fle (fst ?m) (fst l)" if "l \<in> set ((x1, s1) # ?ls)" for l by (rule min_by_le [OF nn that])
  have "inside (pow2 1012) (fst ?m)" by (rule in4) (rule min_by_in)
  from limit_in_mono [OF this le [of "(x3, s3)"]] 3(2) m
  have "limit_in (ctl_max_charge_current c) (fst ?m)" by simp
  then show ?thesis using that [OF 1(1) 2(1) 3(1) 4(1)] in4 le 1(1) 2(1) 3(1) 4(1)
    by (simp add: combined_ccl_def del: min_by.simps)
qed

lemma combined_dcl_limit:
  assumes "ctl_curve c" "input_finite d"
  obtains x s y t where "combined_dcl c d = Inr (x, s)" "limit_in (ctl_max_discharge_current c) x"
    "dcl_from_cell_voltage c (in_min_cell d) = Inr (y, t)" "fle x y"
proof -
  have v: "finite_reading (in_min_cell d)" using assms(2) by (simp_all add: input_finite_def)
  note m = ctl_currents [OF assms(1)] and mx = control_side [OF assms(1)]
  obtain y t where y: "dcl_from_cell_voltage c (in_min_cell d) = Inr (y, t)"
    "limit_in (max_discharge_current (curve c)) y"
    using discharge_limit [OF assms(1) v] by (rule limit_okE)
  let ?hot = "fmul (max_discharge_current (curve c)) (discharge_hot_factor (curve c))"
  have h: "limit_in (max_discharge_current (curve c)) ?hot" by (rule limit_in_scale) (simp_all add: mx)
  then have "y \<noteq> NaN" "?hot \<noteq> NaN" using y by (auto simp: limit_in_iff)
  with fmin_le have "fle (fmin y ?hot) y" "fle y y" using fle_refl by auto
  then show ?thesis using y h that m
    by (cases "in_max_temp d"; cases "fle (temp_stop_charge_high (curve c)) (the (in_max_temp d))")
      (auto simp: combined_dcl_def intro: limit_in_min)
qed

lemma fle_flt_trans: "fle a b \<Longrightarrow> flt b c \<Longrightarrow> flt a c"
  by (cases a; cases b; cases c) auto

lemma flt_fle_trans: "flt a b \<Longrightarrow> fle b c \<Longrightarrow> flt a c"
  by (cases a; cases b; cases c) auto

lemma nonneg_step:
  assumes "limit_in m x" "fle (Fin 0) z" "z \<noteq> NaN"
  shows "fle x (fadd x z)"
proof -
  obtain r where r: "x = Fin r" "is_dbl r" using assms(1) by (cases x) (auto simp: limit_in_iff)
  show ?thesis
  proof (cases z)
    case (Fin s)
    then have "r \<le> round64 (r + s)" using assms(2) r by (intro r64.rnd_ge) auto
    then show ?thesis using r Fin assms(1) by (auto simp: fl_def Let_def limit_in_iff)
  qed (use assms r in auto)
qed

lemma fl_nonneg: "0 \<le> x \<Longrightarrow> fle (Fin 0) (fl x)"
  using r64.rnd_nonneg [of x] fmax_pos by (auto simp: fl_def Let_def)

lemma elapsed_nonneg:
  assumes "finite_reading (Some now)" "finite_reading (Some t)"
  shows "fle (Fin 0) (fmax2 (Fin 0) (fsub now t))"
  using assms by (cases now; cases t) (auto simp: finite_reading_def fmax2_def fl_def Let_def)

lemma allowed_rise:
  assumes "ctl_wf c" "finite_reading (Some now)"
  shows "fle (Fin 0) (fmul (ccl_change_rate c) (fmax2 (Fin 0) (fsub now (last_update_time c))))"
proof -
  let ?dt = "fmax2 (Fin 0) (fsub now (last_update_time c))"
  have p: "profile_ok (curve c)" "ccl_change_rate c = profile_change_rate (curve c)"
    using assms(1) by (simp_all add: ctl_wf_def ctl_curve_def)
  obtain k where k: "ccl_change_rate c = Fin k" "0 < k"
    using profile_currents(4) [OF p(1)] profile_currents(1,2) [OF p(1)] profile_order(6) [OF p(1)] p(2)
    by (auto simp: inside_def fmin3_def fmin_def split: if_splits)
  have "fle (Fin 0) ?dt" using assms by (intro elapsed_nonneg) (simp_all add: ctl_wf_def)
  then show ?thesis using k
    by (cases ?dt) (auto simp: inf_of_def intro: fl_nonneg)
qed

lemma rate_limited_limit:
  assumes "ctl_wf c" "finite_reading (Some now)" "limit_in (ctl_max_charge_current c) x"
  shows "limit_in (ctl_max_charge_current c) (rate_limited c now x)" "fle (rate_limited c now x) x"
proof -
  let ?mc = "fmul (ccl_change_rate c) (fmax2 (Fin 0) (fsub now (last_update_time c)))"
  let ?up = "fadd (last_ccl c) ?mc"
  have l: "limit_in (ctl_max_charge_current c) (last_ccl c)" using assms(1) by (simp add: ctl_wf_def)
  have "fle (Fin 0) ?mc" by (rule allowed_rise [OF assms(1,2)])
  then have "fle (last_ccl c) ?up" using l by (intro nonneg_step) auto
  then have up: "fle (Fin 0) ?up" using l fle_trans by (auto simp: limit_in_iff)
  have c: "rate_limited c now x = x \<or> flt ?up x \<and> rate_limited c now x = ?up"
    by (auto simp: rate_limited_def fmin_def Let_def)
  moreover have "limit_in (ctl_max_charge_current c) ?up" if "flt ?up x"
  proof -
    have "fle ?up (ctl_max_charge_current c)" using fle_trans [OF flt_imp_fle [OF that]] assms(3)
      by (simp add: limit_in_iff)
    moreover have "is_finite ?up" using that up assms(3) by (cases ?up; cases x) (auto simp: limit_in_iff)
    moreover have "fvalid ?up" using l \<open>fle (Fin 0) ?mc\<close>
      by (cases "last_ccl c"; cases ?mc) (auto simp: limit_in_iff)
    ultimately show ?thesis using assms(3) up by (auto simp: limit_in_iff)
  qed
  ultimately show "limit_in (ctl_max_charge_current c) (rate_limited c now x)"
    using assms(3) by auto
  from c show "fle (rate_limited c now x) x"
    using assms(3) flt_imp_fle by (cases x) (auto simp: limit_in_iff)
qed

lemma rate_limited_rise:
  assumes "ctl_wf c" "finite_reading (Some now)" "limit_in (ctl_max_charge_current c) x"
  shows "fle (rate_limited c now x) (last_ccl c) \<or> fle (rate_limited c now x)
    (fadd (last_ccl c) (fmul (ccl_change_rate c) (fmax2 (Fin 0) (fsub now (last_update_time c)))))"
proof -
  let ?up = "fadd (last_ccl c) (fmul (ccl_change_rate c) (fmax2 (Fin 0) (fsub now (last_update_time c))))"
  have l: "limit_in (ctl_max_charge_current c) (last_ccl c)" using assms(1) by (simp add: ctl_wf_def)
  have "fle (last_ccl c) ?up"
    using allowed_rise [OF assms(1,2)] l by (intro nonneg_step) auto
  then have "x \<noteq> NaN" "last_ccl c \<noteq> NaN" "?up \<noteq> NaN" using assms(3) l fle_not_NaN by (auto simp: limit_in_iff)
  then show ?thesis by (auto simp: rate_limited_def fmin_def Let_def not_flt fle_refl)
qed

text \<open>The output stage: scaling by 10 or 100, flooring and dividing stay inside the float range.\<close>

lemma fl_le_finite:
  assumes "0 \<le> a" "a \<le> b" "is_finite (fl b)"
  shows "fl a = Fin (round64 a)"
  using assms r64.rnd_mono [OF assms(2)] r64.rnd_nonneg [OF assms(1)]
  by (auto simp: fl_def Let_def not_le split: if_splits)

lemma floor_to_total:
  assumes "x = Fin r" "is_dbl r" "0 \<le> r" "is_finite (fl (r * of_int m))" "8 \<le> m" "m \<le> 128"
  shows "\<exists>y. floor_to m x = Inr (Fin y) \<and> is_dbl y \<and> 0 \<le> y \<and> y \<le> r * 16"
proof -
  let ?s = "round64 (r * of_int m)" and ?m = "of_int m :: rat"
  have m: "8 \<le> ?m" "?m \<le> 128" using assms(5,6) of_int_le_iff [of 8 m] of_int_le_iff [of m 128] by simp_all
  have s: "fl (r * ?m) = Fin ?s" "0 \<le> ?s" "?s < fmax"
    using assms m fl_le_finite [of "r * ?m" "r * ?m"] r64.rnd_nonneg [of "r * ?m"]
    by (auto simp: fl_def Let_def split: if_splits)
  have d: "is_dbl (r * 128)" "is_dbl (r * 16)"
    using is_dbl_scale2 [OF assms(2), of 7] is_dbl_scale2 [OF assms(2), of 4] pow2_nat [of 7] pow2_nat [of 4]
    by simp_all
  have "?s \<le> r * 128" using assms(3) m d by (intro r64.rnd_le mult_left_mono)
  let ?q = "of_int \<lfloor>?s\<rfloor> / ?m :: rat"
  have f: "(0::rat) \<le> of_int \<lfloor>?s\<rfloor>" "of_int \<lfloor>?s\<rfloor> \<le> ?s" using s by simp_all
  have "?q \<le> of_int \<lfloor>?s\<rfloor> / 8" using f m by (intro divide_left_mono) auto
  then have q: "0 \<le> ?q" "?q \<le> r * 16" "?q \<le> ?s" using f m \<open>?s \<le> r * 128\<close> s(2) by (auto, linarith+)
  then have "fl ?q = Fin (round64 ?q)" using s by (intro fl_finite [of _ ?s]) auto
  moreover have "round64 ?q \<le> r * 16" "0 \<le> round64 ?q"
    using q d by (auto intro: r64.rnd_le r64.rnd_nonneg)
  ultimately show ?thesis using assms s by (auto simp: floor_to_def int_div_def)
qed

lemma fround_total:
  assumes "0 \<le> r" "r \<le> pow2 1022"
  shows "\<exists>y. fround n (Fin r) = Fin y \<and> is_dbl y \<and> 0 \<le> y"
proof -
  let ?q = "of_int (rne (r * 10 ^ n)) / 10 ^ n :: rat"
  have "\<bar>of_int (rne (r * 10 ^ n)) - r * 10 ^ n\<bar> \<le> (1 / 2 :: rat)" by (rule rne_near)
  then have "of_int (rne (r * 10 ^ n)) \<le> r * 10 ^ n + (1 :: rat)" by linarith
  also have "\<dots> \<le> r * 10 ^ n + 10 ^ n" by simp
  finally have "?q \<le> r + 1" by (simp add: divide_le_eq algebra_simps)
  also have "\<dots> \<le> pow2 1022 + pow2 1022" using assms(2) pow2_le_iff [of 0 1022] by simp
  also have "\<dots> = pow2 1023" using pow2_add [of 1022 1] pow2_nat [of 1] by simp
  finally have q: "?q \<le> pow2 1023" .
  have "0 \<le> rne (r * 10 ^ n)" using assms(1) rne_ge [of 0 "r * 10 ^ n"] by simp
  with q have "fl ?q = Fin (round64 ?q)" "0 \<le> round64 ?q"
    by (auto intro!: fl_finite [of _ "pow2 1023"] is_dbl_pow2 r64.rnd_nonneg simp: fmax_def)
  then show ?thesis by simp
qed

lemma published_current:
  assumes "ranged m" "limit_in m x"
  shows "\<exists>y z. (if b then Inr x else floor_to 10 x) = Inr y \<and> fround 1 y = Fin z \<and> 0 \<le> z"
proof -
  obtain s where s: "m = Fin s" "is_dbl s" "\<bar>s\<bar> < pow2 1011" using assms(1) by (rule rangedE)
  then obtain r where r: "x = Fin r" "is_dbl r" "0 \<le> r" "r \<le> s"
    using assms(2) by (auto simp: limit_in_def inside_def)
  have b: "r * 16 \<le> pow2 1022" using r s pow2_add [of 1011 4] pow2_nat [of 4] pow2_le_iff [of 1015 1022]
    by (simp del: pow2_le_iff)
  have "is_finite (fl (r * of_int 10))"
    using r s assms(1) by (subst fl_le_finite [of _ "s * 12800"]) (auto simp: ranged_def)
  with floor_to_total [OF r(1-3), of 10] obtain y
    where y: "floor_to 10 x = Inr (Fin y)" "0 \<le> y" "y \<le> r * 16" by auto
  show ?thesis
  proof (cases b)
    case True
    then show ?thesis using r b fround_total [of r 1] by auto
  next
    case False
    then show ?thesis using y b fround_total [of y 1] by auto
  qed
qed

lemma ordered_cells_nonneg:
  assumes "ordered_cells p"
  shows "fle (Fin 0) (cell_max_voltage p)" "fle (Fin 0) (cell_full_current p)"
    "flt (cell_full_current p) (cell_cutoff p)"
proof -
  note o = assms [unfolded ordered_cells_def]
  note [trans] = fle_trans fle_flt_trans
  have "fle (Fin 0) (discharge_cell_cutoff p)" using o flt_imp_fle by blast
  also have "fle \<dots> (discharge_cell_start_limit p)" using o flt_imp_fle by blast
  also have "fle \<dots> (discharge_cell_full_current p)" using o flt_imp_fle by blast
  also have "fle \<dots> (cell_full_current p)" using o flt_imp_fle by blast
  finally show f: "fle (Fin 0) (cell_full_current p)" .
  have "flt (cell_full_current p) (cell_balance_voltage p)" using o fle_flt_trans by blast
  moreover have "flt (cell_balance_voltage p) (cell_cutoff p)" using o flt_trans by blast
  ultimately show c: "flt (cell_full_current p) (cell_cutoff p)" by (rule flt_trans)
  show "fle (Fin 0) (cell_max_voltage p)" using f flt_imp_fle [OF c] o fle_trans by blast
qed

lemma published_voltage:
  assumes "ctl_curve c"
  shows "\<exists>n y z. of_pyint (ctl_cell_count c) = Inr n
    \<and> (if b then Inr (fmul (ctl_cell_max_voltage c) n) else floor_to 100 (fmul (ctl_cell_max_voltage c) n)) = Inr y
    \<and> fround 2 y = Fin z \<and> 0 \<le> z"
proof -
  let ?k = "of_int (ctl_cell_count c) :: rat"
  have p: "profile_ok (curve c)" "ctl_cell_max_voltage c = cell_max_voltage (curve c)"
    and k: "1 \<le> ctl_cell_count c" "ctl_cell_count c \<le> 128"
    using assms by (auto simp: ctl_curve_def)
  have "ranged (cell_max_voltage (curve c))" using profile_ranged_fields [OF p(1)] by simp
  moreover from this obtain v where v: "cell_max_voltage (curve c) = Fin v" "is_dbl v" "\<bar>v\<bar> < pow2 1011"
    by (rule rangedE)
  ultimately have fin: "is_finite (fl (v * 12800))" by (simp add: ranged_def)
  have k': "1 \<le> ?k" "?k \<le> 128" using k of_int_le_iff [of 1 "ctl_cell_count c"] of_int_le_iff [of "ctl_cell_count c" 128]
    by simp_all
  have v0: "0 \<le> v" using ordered_cells_nonneg(1) [OF profile_order(1) [OF p(1)]] v by simp
  let ?r = "round64 (v * ?k)"
  have n: "of_pyint (ctl_cell_count c) = Inr (Fin ?k)"
    using k fl_is_dbl [of ?k] is_dbl_of_int [of "ctl_cell_count c"] k' pow2_less_iff [of 7 1024] pow2_nat [of 7]
    by (simp add: of_pyint_def fmax_def del: pow2_less_iff)
  have d: "is_dbl (v * 128)" using is_dbl_scale2 [OF v(2), of 7] pow2_nat [of 7] by simp
  have r: "0 \<le> ?r" "?r \<le> v * 128" "v * ?k \<le> v * 12800"
    using v0 k' d by (auto intro!: r64.rnd_nonneg r64.rnd_le mult_left_mono)
  have m: "fmul (ctl_cell_max_voltage c) (Fin ?k) = Fin ?r"
    using v v0 k' r(3) fin p(2) by (simp add: fl_le_finite [of _ "v * 12800"])
  have "is_finite (fl (?r * of_int 100))"
    using r fin by (subst fl_le_finite [of _ "v * 12800"]) auto
  with floor_to_total [OF m, of 100] r obtain y
    where y: "floor_to 100 (fmul (ctl_cell_max_voltage c) (Fin ?k)) = Inr (Fin y)" "0 \<le> y" "y \<le> ?r * 16"
    by auto
  have "v * 128 * 16 \<le> pow2 1022"
    using v(3) pow2_add [of 1011 11] pow2_nat [of 11] by simp
  then have le: "?r \<le> pow2 1022" "y \<le> pow2 1022" using y r by linarith+
  show ?thesis
  proof (cases b)
    case True
    then show ?thesis using n m r le fround_total [of ?r 2] by auto
  next
    case False
    then show ?thesis using n y le fround_total [of y 2] by auto
  qed
qed

lemma new_controller_wf:
  assumes "new_controller clk cells bmss prof = Inr c" "finite_reading (Some clk)"
    and "case prof of None \<Rightarrow> 1 \<le> cells \<and> cells \<le> 128 | Some p \<Rightarrow> profile_ok p"
  shows "ctl_wf c"
proof -
  let ?p = "case prof of None \<Rightarrow> default_profile | Some p \<Rightarrow> p"
  have p: "profile_ok ?p" using assms(3) profile_ok_default by (auto split: option.splits)
  have c: "1 \<le> cells \<and> cells \<le> 128" using assms(1,3)
    by (auto simp: new_controller_def split: if_splits option.splits)
  have "ctl_curve c"
    using assms(1) p c by (auto simp: new_controller_def ctl_curve_def Let_def split: if_splits)
  moreover from this assms(1) have "last_ccl c = ctl_max_charge_current c"
    "last_dcl c = ctl_max_discharge_current c" "last_update_time c = clk"
    by (auto simp: new_controller_def Let_def split: if_splits)
  ultimately show ?thesis using ceiling assms(2) by (simp add: ctl_wf_def)
qed

lemma finish_total:
  assumes c: "ctl_curve c" and x: "limit_in (ctl_max_charge_current c) (fst lx)"
    and y: "limit_in (ctl_max_discharge_current c) (fst ly)"
  obtains out x y z where "finish c d lx ly = Inr out"
    "ccl out = Fin x" "0 \<le> x" "dcl out = Fin y" "0 \<le> y" "cvl out = Fin z" "0 \<le> z"
proof -
  let ?b = "ctl_profile c = None"
  have r: "ranged (ctl_max_charge_current c)" "ranged (ctl_max_discharge_current c)"
    using c profile_ranged_fields(1,2) by (auto simp: ctl_curve_def)
  obtain u1 z1 where 1: "(if ?b then Inr (fst lx) else floor_to 10 (fst lx)) = Inr u1" "fround 1 u1 = Fin z1" "0 \<le> z1"
    using published_current [OF r(1) x, of ?b] by blast
  obtain u2 z2 where 2: "(if ?b then Inr (fst ly) else floor_to 10 (fst ly)) = Inr u2" "fround 1 u2 = Fin z2" "0 \<le> z2"
    using published_current [OF r(2) y, of ?b] by blast
  obtain n u3 z3 where 3: "of_pyint (ctl_cell_count c) = Inr n"
    "(if ?b then Inr (fmul (ctl_cell_max_voltage c) n) else floor_to 100 (fmul (ctl_cell_max_voltage c) n)) = Inr u3"
    "fround 2 u3 = Fin z3" "0 \<le> z3"
    using published_voltage [OF c, of ?b] by blast
  have "finish c d lx ly = Inr \<lparr>ccl = Fin z1, dcl = Fin z2, cvl = Fin z3, ccl_reason = snd lx, dcl_reason = snd ly,
      out_max_cell = in_max_cell d, out_max_cell_id = in_max_cell_id d,
      out_min_cell = in_min_cell d, out_min_cell_id = in_min_cell_id d, out_cell_delta = cell_delta d\<rparr>"
    by (simp only: finish_def Let_def 1 2 3 and_then_simps)
  then show ?thesis by (rule that [of _ z1 z2 z3]) (use 1 2 3 in simp_all)
qed

text \<open>One poll on finite readings: it returns, its outputs are finite and not negative, and the state stays well formed.\<close>

lemma calculate_total:
  assumes "ctl_wf c" "input_finite d" "finite_reading (Some now)"
  obtains out c' x y z where "calculate now d c = (Inr out, c')" "ctl_wf c'"
    "ccl out = Fin x" "0 \<le> x" "dcl out = Fin y" "0 \<le> y" "cvl out = Fin z" "0 \<le> z"
proof -
  have cc: "ctl_curve c" using assms(1) by (simp add: ctl_wf_def)
  obtain a s where a: "combined_ccl c d = Inr (a, s)" "limit_in (ctl_max_charge_current c) a"
    using combined_ccl_limit [OF cc assms(2)] by (metis prod.collapse)
  obtain b t where b: "combined_dcl c d = Inr (b, t)" "limit_in (ctl_max_discharge_current c) b"
    using combined_dcl_limit [OF cc assms(2)] by metis
  let ?x = "if in_allow_charge d then (rate_limited c now a, s) else (Fin 0, ''bms_blocked'')"
  let ?y = "if in_allow_discharge d then (b, t) else (Fin 0, ''bms_blocked'')"
  let ?c = "c\<lparr>last_update_time := now, last_ccl := fst ?x, last_dcl := fst ?y\<rparr>"
  have l: "limit_in (ctl_max_charge_current c) (fst ?x)" "limit_in (ctl_max_discharge_current c) (fst ?y)"
    using rate_limited_limit(1) [OF assms(1,3) a(2)] b(2) ceiling(3-6) [OF cc] limit_in_0 by auto
  have cc': "ctl_curve ?c" using cc by (simp add: ctl_curve_def)
  with l assms(3) have wf: "ctl_wf ?c" by (simp add: ctl_wf_def)
  obtain out x y z where "finish ?c d ?x ?y = Inr out"
    "ccl out = Fin x" "0 \<le> x" "dcl out = Fin y" "0 \<le> y" "cvl out = Fin z" "0 \<le> z"
    by (rule finish_total [OF cc', of ?x ?y d]) (use l in simp_all)
  moreover have "calculate now d c = (finish ?c d ?x ?y, ?c)"
    by (simp add: calculate_def a b Let_def)
  ultimately show ?thesis using that wf by metis
qed

lemma zero_published: "floor_to 10 (Fin 0) = Inr (Fin 0)" "fround n (Fin 0) = Fin 0"
  using rne_of_int [of 0] by (simp_all add: floor_to_def int_div_def del: rne_of_int)

lemma finish_zero:
  assumes "finish c d lx ly = Inr out"
  shows "fst lx = Fin 0 \<Longrightarrow> ccl out = Fin 0" "fst ly = Fin 0 \<Longrightarrow> dcl out = Fin 0"
  using assms by (cases "ctl_profile c"; auto simp: finish_def Let_def zero_published)+

lemma finish_ccl:
  "finish c d lx ly = Inr out \<Longrightarrow> ctl_profile c \<noteq> None \<Longrightarrow> \<exists>y. floor_to 10 (fst lx) = Inr y \<and> ccl out = fround 1 y"
  by (auto simp: finish_def Let_def)

lemma calculate_parts:
  assumes "calculate now d c = (Inr out, c')"
  obtains a s b t where "combined_ccl c d = Inr (a, s)" "combined_dcl c d = Inr (b, t)"
    "last_ccl c' = (if in_allow_charge d then rate_limited c now a else Fin 0)"
    "last_dcl c' = (if in_allow_discharge d then b else Fin 0)"
    "last_ccl c' = Fin 0 \<Longrightarrow> ccl out = Fin 0" "last_dcl c' = Fin 0 \<Longrightarrow> dcl out = Fin 0"
    "ctl_profile c \<noteq> None \<Longrightarrow> \<exists>y. floor_to 10 (last_ccl c') = Inr y \<and> ccl out = fround 1 y"
    "last_update_time c' = now" "curve c' = curve c" "ctl_profile c' = ctl_profile c"
proof -
  obtain a s b t where ab: "combined_ccl c d = Inr (a, s)" "combined_dcl c d = Inr (b, t)"
    using assms by (auto simp: calculate_def split: sum.splits)
  let ?x = "if in_allow_charge d then (rate_limited c now a, s) else (Fin 0, ''bms_blocked'')"
  let ?y = "if in_allow_discharge d then (b, t) else (Fin 0, ''bms_blocked'')"
  let ?c = "c\<lparr>last_update_time := now, last_ccl := fst ?x, last_dcl := fst ?y\<rparr>"
  have calc: "calculate now d c = (finish ?c d ?x ?y, ?c)" by (simp add: calculate_def ab Let_def)
  note eq = trans [OF sym [OF calc] assms, unfolded prod.inject]
  have c: "c' = ?c" "finish ?c d ?x ?y = Inr out"
    by (rule sym [OF conjunct2 [OF eq]], rule conjunct1 [OF eq])
  let ?a = "if in_allow_charge d then rate_limited c now a else Fin 0"
  let ?b = "if in_allow_discharge d then b else Fin 0"
  have f: "fst ?x = ?a" "fst ?y = ?b" by simp_all
  have e: "last_ccl c' = ?a" "last_dcl c' = ?b" "last_update_time c' = now" "curve c' = curve c"
    "ctl_profile c' = ctl_profile c"
    unfolding c(1) f by simp_all
  have z: "?a = Fin 0 \<Longrightarrow> ccl out = Fin 0" "?b = Fin 0 \<Longrightarrow> dcl out = Fin 0"
    unfolding f [symmetric] by (fact finish_zero [OF c(2)])+
  have p: "ctl_profile c \<noteq> None \<Longrightarrow> \<exists>y. floor_to 10 ?a = Inr y \<and> ccl out = fround 1 y"
    unfolding f(1) [symmetric] by (rule finish_ccl [OF c(2)]) simp
  show ?thesis by (rule that [OF ab]; unfold e; (rule refl | erule z p | assumption))
qed

text \<open>What a poll publishes, against the limits it remembers, and what it leaves of the configuration.\<close>

lemma calculate_finish:
  assumes "calculate now d c = (Inr out, c')"
  obtains lx ly where "finish c' d lx ly = Inr out" "fst lx = last_ccl c'" "fst ly = last_dcl c'"
proof -
  obtain a s b t where ab: "combined_ccl c d = Inr (a, s)" "combined_dcl c d = Inr (b, t)"
    using assms by (auto simp: calculate_def split: sum.splits)
  let ?x = "if in_allow_charge d then (rate_limited c now a, s) else (Fin 0, ''bms_blocked'')"
  let ?y = "if in_allow_discharge d then (b, t) else (Fin 0, ''bms_blocked'')"
  have "finish c' d ?x ?y = Inr out" "last_ccl c' = fst ?x" "last_dcl c' = fst ?y"
    using assms ab by (auto simp: calculate_def Let_def)
  then show thesis using that by metis
qed

lemma calculate_keeps:
  "ctl_profile (snd (calculate now d c)) = ctl_profile c" "ctl_cell_count (snd (calculate now d c)) = ctl_cell_count c"
  "ctl_max_charge_current (snd (calculate now d c)) = ctl_max_charge_current c"
  "ctl_max_discharge_current (snd (calculate now d c)) = ctl_max_discharge_current c"
  "ctl_cell_max_voltage (snd (calculate now d c)) = ctl_cell_max_voltage c"
  by (auto simp: calculate_def Let_def split: sum.splits)

lemma limit_in_Fin: "limit_in m x \<Longrightarrow> \<exists>r s. x = Fin r \<and> m = Fin s \<and> 0 \<le> r \<and> r \<le> s"
  by (auto simp: limit_in_def inside_def split: pyfloat.splits)

lemma calculate_published:
  assumes "ctl_wf c'" "calculate now d c = (Inr out, c')" "ccl out = Fin x" "dcl out = Fin y" "cvl out = Fin z"
  obtains a p b q v where "ctl_max_charge_current c' = Fin a" "last_ccl c' = Fin p" "0 \<le> p" "p \<le> a"
    "x \<le> published_bound c' (1 / 20) p" "ctl_max_discharge_current c' = Fin b" "last_dcl c' = Fin q" "0 \<le> q" "q \<le> b"
    "y \<le> published_bound c' (1 / 20) q" "ctl_cell_max_voltage c' = Fin v"
    "z \<le> published_bound c' (1 / 200) (v * of_int (ctl_cell_count c'))"
proof -
  have w: "limit_in (ctl_max_charge_current c') (last_ccl c')" "limit_in (ctl_max_discharge_current c') (last_dcl c')"
    "ctl_curve c'" using assms(1) by (simp_all add: ctl_wf_def)
  obtain lx ly where f: "finish c' d lx ly = Inr out" "fst lx = last_ccl c'" "fst ly = last_dcl c'"
    by (rule calculate_finish [OF assms(2)])
  obtain a p where a: "ctl_max_charge_current c' = Fin a" "last_ccl c' = Fin p" "0 \<le> p" "p \<le> a"
    using limit_in_Fin [OF w(1)] by blast
  obtain b q where b: "ctl_max_discharge_current c' = Fin b" "last_dcl c' = Fin q" "0 \<le> q" "q \<le> b"
    using limit_in_Fin [OF w(2)] by blast
  have m: "profile_ok (curve c')" "ctl_cell_max_voltage c' = cell_max_voltage (curve c')"
    and k: "1 \<le> ctl_cell_count c'" "ctl_cell_count c' \<le> 128" using w(3) by (simp_all add: ctl_curve_def)
  have "ranged (cell_max_voltage (curve c'))" using profile_ranged_fields [OF m(1)] by simp
  then obtain v where v: "cell_max_voltage (curve c') = Fin v" by (rule rangedE)
  have v0: "0 \<le> v" using ordered_cells_nonneg(1) [OF profile_order(1) [OF m(1)]] v by simp
  have n: "of_pyint (ctl_cell_count c') = Inr (Fin (of_int (ctl_cell_count c')))" using k by (intro of_pyint_exact) simp
  have mv: "ctl_cell_max_voltage c' = Fin v" using m(2) v by simp
  have fb: "x \<le> published_bound c' (1 / 20) p" "y \<le> published_bound c' (1 / 20) q"
    "z \<le> published_bound c' (1 / 200) (v * of_int (ctl_cell_count c'))"
    using finish_bounds(1) [OF f(1), of p x] finish_bounds(2) [OF f(1), of q y] finish_bounds(3) [OF f(1) mv v0 n]
      a b f(2,3) k assms(3-5) by simp_all
  show ?thesis by (rule that [OF a fb(1) b fb(2) mv fb(3)])
qed

text \<open>Hard stops of the charge curve.\<close>

definition charge_stop :: "dvcc_controller \<Rightarrow> dvcc_input \<Rightarrow> bool" where
  "charge_stop c d \<longleftrightarrow>
     (\<exists>v. in_max_cell d = Some v \<and> fle (cell_cutoff (curve c)) v)
   \<or> (\<exists>t. in_min_temp d = Some t \<and> fle t (temp_stop_charge (curve c)))
   \<or> (\<exists>t. in_max_temp d = Some t \<and> fle (temp_stop_charge_high (curve c)) t)
   \<or> \<not> in_allow_charge d"

definition discharge_stop :: "dvcc_controller \<Rightarrow> dvcc_input \<Rightarrow> bool" where
  "discharge_stop c d \<longleftrightarrow>
     (\<exists>v. in_min_cell d = Some v \<and> fle v (discharge_cell_cutoff (curve c))) \<or> \<not> in_allow_discharge d"

lemma cutoff_stops:
  assumes "profile_ok (curve c)" "fle (cell_cutoff (curve c)) v"
  shows "\<exists>r. ccl_from_cell_voltage c (Some v) = Inr (Fin 0, r)"
proof -
  have "flt (cell_full_current (curve c)) v"
    using ordered_cells_nonneg(3) [OF profile_order(1) [OF assms(1)]] assms(2) by (rule flt_fle_trans)
  then have "\<not> fle v (cell_full_current (curve c))" by (cases v; cases "cell_full_current (curve c)") auto
  then show ?thesis using assms(2) by (simp add: ccl_from_cell_voltage_def Let_def)
qed

lemma temperature_stops:
  assumes "ctl_curve c" "finite_reading lo" "finite_reading hi"
    "(\<exists>t. lo = Some t \<and> fle t (temp_stop_charge (curve c))) \<or> (\<exists>t. hi = Some t \<and> fle (temp_stop_charge_high (curve c)) t)"
  shows "\<exists>r. ccl_from_temperature c lo hi = Inr (Fin 0, r)"
  using assms(4) by (auto simp: ccl_from_temperature_def Let_def)

lemma undervoltage_stops:
  assumes "profile_ok (curve c)" "fle v (discharge_cell_cutoff (curve c))"
  shows "\<exists>r. dcl_from_cell_voltage c (Some v) = Inr (Fin 0, r)"
proof -
  have "flt (discharge_cell_cutoff (curve c)) (discharge_cell_full_current (curve c))"
    using cell_order(8,9) [OF assms(1)] by (rule flt_trans)
  with assms(2) have "flt v (discharge_cell_full_current (curve c))" by (rule fle_flt_trans)
  then have "\<not> fle (discharge_cell_full_current (curve c)) v"
    by (cases v; cases "discharge_cell_full_current (curve c)") auto
  then show ?thesis using assms(2) by (simp add: dcl_from_cell_voltage_def Let_def)
qed

lemma nonneg_below_zero: "inside m x \<Longrightarrow> fle x (Fin 0) \<Longrightarrow> x = Fin 0"
  by (auto simp: inside_def)

lemma combined_ccl_stop:
  assumes "ctl_curve c" "input_finite d" "charge_stop c d" "in_allow_charge d" "combined_ccl c d = Inr (a, s)"
  shows "a = Fin 0"
proof -
  obtain l1 l2 l3 l4 where l: "ccl_from_cell_voltage c (in_max_cell d) = Inr l1"
    "ccl_from_temperature c (in_min_temp d) (in_max_temp d) = Inr l3"
    "combined_ccl c d = Inr (min_by fst l1 [l2, l3, l4])"
    and b: "\<And>l. l \<in> {l1, l2, l3, l4} \<Longrightarrow>
      inside (pow2 1012) (fst l) \<and> fle (fst (min_by fst l1 [l2, l3, l4])) (fst l)"
    using combined_ccl_limit [OF assms(1,2)] by metis
  have p: "profile_ok (curve c)" and d: "finite_reading (in_min_temp d)" "finite_reading (in_max_temp d)"
    using assms(1,2) by (simp_all add: ctl_curve_def input_finite_def)
  have "fst l1 = Fin 0 \<or> fst l3 = Fin 0"
    using assms(3,4) cutoff_stops [OF p] temperature_stops [OF assms(1) d] l(1,2)
    by (fastforce simp: charge_stop_def)
  then have "fle (fst (min_by fst l1 [l2, l3, l4])) (Fin 0)" using b [of l1] b [of l3] by auto
  moreover have "min_by fst l1 [l2, l3, l4] \<in> {l1, l2, l3, l4}"
    using min_by_in [of fst l1 "[l2, l3, l4]"] by simp
  ultimately show ?thesis using b nonneg_below_zero l(3) assms(5) by (metis Inr_inject fst_conv)
qed

section \<open>Polls in sequence\<close>

text \<open>The service's polls of one controller: the clock reading and the readings of each.\<close>

type_synonym poll = "pyfloat \<times> dvcc_input"

definition poll_ok :: "poll \<Rightarrow> bool" where
  "poll_ok e \<longleftrightarrow> finite_reading (Some (fst e)) \<and> input_finite (snd e)"

definition poll_step :: "poll \<Rightarrow> dvcc_controller \<Rightarrow> dvcc_controller" where
  "poll_step e c = snd (calculate (fst e) (snd e) c)"

lemma poll_step_wf: "poll_ok e \<Longrightarrow> ctl_wf c \<Longrightarrow> ctl_wf (poll_step e c)"
  by (rule calculate_total [of c "snd e" "fst e"]) (auto simp: poll_ok_def poll_step_def)

interpretation dvcc: event_system poll_step poll_ok ctl_wf
  by unfold_locales (rule poll_step_wf)

section \<open>The controller's contract\<close>

lemma run_keeps:
  "ctl_profile (run poll_step es c) = ctl_profile c" "ctl_cell_count (run poll_step es c) = ctl_cell_count c"
  "ctl_max_charge_current (run poll_step es c) = ctl_max_charge_current c"
  "ctl_max_discharge_current (run poll_step es c) = ctl_max_discharge_current c"
  "ctl_cell_max_voltage (run poll_step es c) = ctl_cell_max_voltage c"
  by (induction es arbitrary: c) (simp_all add: poll_step_def calculate_keeps)

lemma new_controller_fields:
  "new_controller clk cells bmss prof = Inr c \<Longrightarrow>
    ctl_cell_count c = cells \<and> ctl_profile c = prof \<and> curve c = (case prof of None \<Rightarrow> default_profile | Some p \<Rightarrow> p)"
  by (auto simp: new_controller_def Let_def split: if_splits)

text \<open>C11: A controller commissioned with a validated profile, or with the default curve for at most 128 cells, after any
  sequence of polls on finite readings, answers the next poll without raising and stays well formed.  Its three
  published limits are finite and not negative; with a profile they exceed the configured ceilings (the voltage ceiling
  being the cell voltage times the cells in series) by less than a part in 10^12, without one by that and half a unit of
  the last decimal.  The limits it remembers are between zero and the ceilings.\<close>

theorem dvcc_total_bounded:
  assumes "new_controller clk cells bmss prof = Inr c" "finite_reading (Some clk)"
    and "case prof of None \<Rightarrow> 1 \<le> cells \<and> cells \<le> 128 | Some p \<Rightarrow> profile_ok p"
    and "list_all poll_ok es" "poll_ok (now, d)"
  shows "\<exists>out c' x y z a b v. calculate now d (run poll_step es c) = (Inr out, c') \<and> ctl_wf c'
    \<and> ccl out = Fin x \<and> 0 \<le> x \<and> max_charge_current (curve c) = Fin a \<and> x \<le> published_bound c (1 / 20) a
    \<and> dcl out = Fin y \<and> 0 \<le> y \<and> max_discharge_current (curve c) = Fin b \<and> y \<le> published_bound c (1 / 20) b
    \<and> cvl out = Fin z \<and> 0 \<le> z \<and> cell_max_voltage (curve c) = Fin v \<and> z \<le> published_bound c (1 / 200) (v * of_int cells)
    \<and> limit_in (Fin a) (last_ccl c') \<and> limit_in (Fin b) (last_dcl c')"
proof -
  have c: "ctl_wf c" by (rule new_controller_wf [OF assms(1-3)])
  then have "ctl_wf (run poll_step es c)" by (rule dvcc.inv_run) (rule assms(4))
  moreover have "input_finite d" "finite_reading (Some now)" using assms(5) by (auto simp: poll_ok_def)
  ultimately obtain out c' x y z where r: "calculate now d (run poll_step es c) = (Inr out, c')" "ctl_wf c'"
    "ccl out = Fin x" "0 \<le> x" "dcl out = Fin y" "0 \<le> y" "cvl out = Fin z" "0 \<le> z"
    by (rule calculate_total)
  have keep: "ctl_profile c' = ctl_profile c" "ctl_cell_count c' = cells"
    "ctl_max_charge_current c' = ctl_max_charge_current c" "ctl_max_discharge_current c' = ctl_max_discharge_current c"
    "ctl_cell_max_voltage c' = ctl_cell_max_voltage c"
    using calculate_keeps [of now d "run poll_step es c"] run_keeps [of es c] new_controller_fields [OF assms(1)] r(1) by simp_all
  have ceil: "ctl_max_charge_current c = max_charge_current (curve c)"
    "ctl_max_discharge_current c = max_discharge_current (curve c)" "ctl_cell_max_voltage c = cell_max_voltage (curve c)"
    using c by (simp_all add: ctl_wf_def ctl_curve_def)
  have same: "published_bound c' h u = published_bound c h u" for h u by (simp add: published_bound_def keep)
  obtain a p b q v where b: "ctl_max_charge_current c' = Fin a" "p \<le> a" "x \<le> published_bound c' (1 / 20) p"
    "ctl_max_discharge_current c' = Fin b" "q \<le> b" "y \<le> published_bound c' (1 / 20) q"
    "ctl_cell_max_voltage c' = Fin v" "z \<le> published_bound c' (1 / 200) (v * of_int (ctl_cell_count c'))"
    using calculate_published [OF r(2,1,3,5,7)] by metis
  have le: "x \<le> published_bound c (1 / 20) a" "y \<le> published_bound c (1 / 20) b"
    using order_trans [OF b(3) published_bound_mono [OF b(2)]] order_trans [OF b(6) published_bound_mono [OF b(5)]] same
    by simp_all
  have "limit_in (Fin a) (last_ccl c')" "limit_in (Fin b) (last_dcl c')" using r(2) b(1,4) by (simp_all add: ctl_wf_def)
  with r le b(1,4,7,8) keep ceil same show ?thesis by auto
qed

text \<open>C15: A charge stop (a cell at the cutoff, a pack too cold or too hot, or a BMS veto) publishes
  a charge limit of zero at that very poll, whatever the rate limiter remembers.\<close>

theorem dvcc_charge_stop:
  assumes "ctl_wf c" "input_finite d" "charge_stop c d" "calculate now d c = (Inr out, c')"
  shows "ccl out = Fin 0 \<and> last_ccl c' = Fin 0"
proof -
  obtain a s where a: "combined_ccl c d = Inr (a, s)"
    "last_ccl c' = (if in_allow_charge d then rate_limited c now a else Fin 0)"
    "last_ccl c' = Fin 0 \<Longrightarrow> ccl out = Fin 0"
    using calculate_parts [OF assms(4)] by metis
  have "last_ccl c' = Fin 0"
  proof (cases "in_allow_charge d")
    case True
    have c: "ctl_curve c" "limit_in (ctl_max_charge_current c) (last_ccl c)"
      using assms(1) by (simp_all add: ctl_wf_def)
    then have "a = Fin 0" using combined_ccl_stop [OF c(1) assms(2,3) True a(1)] by simp
    moreover have "\<not> flt (last_ccl c) (Fin 0)" using c(2) by (cases "last_ccl c") (auto simp: limit_in_iff)
    ultimately show ?thesis using a(2) True by (simp add: rate_limited_def Let_def)
  qed (use a in simp)
  with a(3) show ?thesis by simp
qed

text \<open>A cell at the discharge cutoff or a BMS veto publishes a discharge limit of zero.\<close>

theorem dvcc_discharge_stop:
  assumes "ctl_wf c" "input_finite d" "discharge_stop c d" "calculate now d c = (Inr out, c')"
  shows "dcl out = Fin 0 \<and> last_dcl c' = Fin 0"
proof -
  obtain b t where b: "combined_dcl c d = Inr (b, t)"
    "last_dcl c' = (if in_allow_discharge d then b else Fin 0)"
    "last_dcl c' = Fin 0 \<Longrightarrow> dcl out = Fin 0"
    using calculate_parts [OF assms(4)] by metis
  have "last_dcl c' = Fin 0"
  proof (cases "in_allow_discharge d")
    case True
    have c: "ctl_curve c" using assms(1) by (simp add: ctl_wf_def)
    obtain x s y r where x: "combined_dcl c d = Inr (x, s)" "limit_in (ctl_max_discharge_current c) x"
      "dcl_from_cell_voltage c (in_min_cell d) = Inr (y, r)" "fle x y"
      using combined_dcl_limit [OF c assms(2)] by metis
    have "y = Fin 0" using assms(3) True x(3) undervoltage_stops [of c] c
      by (fastforce simp: discharge_stop_def ctl_curve_def)
    with x(2,4) have "x = Fin 0" by (cases x) (auto simp: limit_in_iff)
    with x(1) b True show ?thesis by simp
  qed (use b in simp)
  with b(3) show ?thesis by simp
qed

text \<open>C16: The charge limit of a poll is the most restrictive: the remembered limit never exceeds any of the four sources
  computed at this poll, and rises above the previous one by at most the rate times the elapsed time.  The published limit is
  that limit up to the output rounding: with a profile less than a part in 10^12 above it, and so above each source;
  without one at most half a tenth more.\<close>

theorem dvcc_most_restrictive:
  assumes "ctl_wf c" "poll_ok (now, d)" "calculate now d c = (Inr out, c')"
    and "l \<in> {ccl_from_cell_voltage c (in_max_cell d), ccl_from_imbalance c (cell_delta d),
      ccl_from_temperature c (in_min_temp d) (in_max_temp d), ccl_from_soc c (in_soc d)}"
  shows "\<exists>u r p x. l = Inr (Fin u, r) \<and> last_ccl c' = Fin p \<and> p \<le> u
    \<and> (fle (last_ccl c') (last_ccl c) \<or> fle (last_ccl c') (fadd (last_ccl c)
          (fmul (ccl_change_rate c) (fmax2 (Fin 0) (fsub now (last_update_time c))))))
    \<and> ccl out = Fin x \<and> 0 \<le> x \<and> x \<le> published_bound c (1 / 20) p \<and> x \<le> published_bound c (1 / 20) u"
proof -
  let ?lim = "last_ccl c'"
  let ?up = "fadd (last_ccl c) (fmul (ccl_change_rate c) (fmax2 (Fin 0) (fsub now (last_update_time c))))"
  have c: "ctl_curve c" and prev: "limit_in (ctl_max_charge_current c) (last_ccl c)"
    using assms(1) by (simp_all add: ctl_wf_def)
  have d: "input_finite d" "finite_reading (Some now)" using assms(2) by (simp_all add: poll_ok_def)
  obtain l1 l2 l3 l4 where ls: "ccl_from_cell_voltage c (in_max_cell d) = Inr l1"
    "ccl_from_imbalance c (cell_delta d) = Inr l2" "ccl_from_temperature c (in_min_temp d) (in_max_temp d) = Inr l3"
    "ccl_from_soc c (in_soc d) = Inr l4" "combined_ccl c d = Inr (min_by fst l1 [l2, l3, l4])"
    and b: "\<And>l. l \<in> {l1, l2, l3, l4} \<Longrightarrow>
      inside (pow2 1012) (fst l) \<and> fle (fst (min_by fst l1 [l2, l3, l4])) (fst l)"
    and m: "limit_in (ctl_max_charge_current c) (fst (min_by fst l1 [l2, l3, l4]))"
    using combined_ccl_limit [OF c d(1)] by metis
  let ?a = "fst (min_by fst l1 [l2, l3, l4])"
  have lim: "?lim = (if in_allow_charge d then rate_limited c now ?a else Fin 0)"
    using calculate_parts [OF assms(3)] ls(5) by (metis Inr_inject fst_conv)
  have le: "fle ?lim ?a" using lim rate_limited_limit(2) [OF assms(1) d(2) m] m by (auto simp: limit_in_iff)
  have "fle (rate_limited c now ?a) (last_ccl c) \<or> fle (rate_limited c now ?a) ?up"
    by (rule rate_limited_rise [OF assms(1) d(2) m])
  then have rise: "fle ?lim (last_ccl c) \<or> fle ?lim ?up" using lim prev by (auto simp: limit_in_iff)
  have "\<exists>k \<in> {l1, l2, l3, l4}. l = Inr k" using assms(4) by (simp add: ls(1-4))
  then obtain k where k: "k \<in> {l1, l2, l3, l4}" "l = Inr k" by blast
  obtain x where x: "ctl_wf c'" "ccl out = Fin x" "0 \<le> x" and "\<exists>y. dcl out = Fin y" "\<exists>z. cvl out = Fin z"
    using calculate_total [OF assms(1) d] assms(3) by (metis Inr_inject Pair_inject)
  then obtain p where p: "last_ccl c' = Fin p" "x \<le> published_bound c (1 / 20) p"
    using calculate_published [OF x(1) assms(3) x(2)] calculate_keeps(1) [of now d c] assms(3)
    by (metis published_bound_def snd_conv)
  have "fle ?lim (fst k)" "inside (pow2 1012) (fst k)" using b [OF k(1)] fle_trans [OF le] by blast+
  then obtain u where u: "fst k = Fin u" "p \<le> u" using p(1) by (auto simp: inside_def)
  have "x \<le> published_bound c (1 / 20) u" using p(2) published_bound_mono [OF u(2)] order_trans by blast
  with rise k(2) u p x(2,3) show ?thesis by (metis prod.collapse)
qed

section \<open>Concrete polls\<close>

definition sample_controller :: dvcc_controller where
  "sample_controller = (case new_controller (Fin 0) 16 4 (Some default_profile) of Inr c \<Rightarrow> c | Inl _ \<Rightarrow> undefined)"

definition idle_input :: dvcc_input where
  "idle_input = \<lparr>in_max_cell = Some (Fin (7 / 2)), in_min_cell = Some (Fin 3), in_max_cell_id = Some 1,
     in_min_cell_id = Some 2, in_max_temp = Some (Fin 45), in_min_temp = Some (Fin 5), in_soc = Some (Fin 97),
     in_allow_charge = True, in_allow_discharge = True\<rparr>"

definition cold_input :: dvcc_input where
  "cold_input = idle_input\<lparr>in_min_temp := Some (Fin (- 3)), in_min_cell := Some (Fin 2)\<rparr>"

lemma fvalid_half: "fvalid (Fin (7 / 2))"
  using fvalid_fl [of "7 / 2"] by (simp add: literals del: fvalid_fl)

lemma sample_readings:
  "finite_reading (Some (Fin 0))" "finite_reading (Some (Fin 1))" "poll_ok (Fin 1, idle_input)"
  "input_finite idle_input" "input_finite cold_input"
  using fvalid_half fvalid_small [of "-3"] fvalid_small [of 0] fvalid_small [of 1]
  by (simp_all add: poll_ok_def input_finite_def finite_reading_def idle_input_def cold_input_def fvalid_numeral
      del: fvalid.simps)

lemma of_pyint_16: "of_pyint 16 = Inr (Fin 16)"
  using fl_is_dbl [of 16] is_dbl_of_int [of 16] pow2_less_iff [of 4 1024] pow2_nat [of 4]
  by (simp add: of_pyint_def fmax_def del: pow2_less_iff)

lemma sample_controller: "new_controller (Fin 0) 16 4 (Some default_profile) = Inr sample_controller"
  by (simp add: sample_controller_def new_controller_def of_pyint_16 Let_def)

lemma sample_controller_wf: "ctl_wf sample_controller"
  using new_controller_wf [OF sample_controller] sample_readings(1) profile_ok_default by simp

lemma curve_sample: "curve sample_controller = default_profile"
  by (simp add: sample_controller_def new_controller_def of_pyint_16 Let_def)

lemma sample_fields:
  "ctl_profile sample_controller = Some default_profile" "curve sample_controller = default_profile"
  using new_controller_fields [OF sample_controller] by simp_all

theorem dvcc_total_bounded_witness:
  "\<exists>out c' x y z. calculate (Fin 1) cold_input (run poll_step [(Fin 1, idle_input)] sample_controller) = (Inr out, c')
    \<and> ctl_wf c' \<and> ccl out = Fin x \<and> 0 \<le> x \<and> x \<le> 280 * (1 + 1 / 10 ^ 12)
    \<and> dcl out = Fin y \<and> 0 \<le> y \<and> y \<le> 280 * (1 + 1 / 10 ^ 12) \<and> cvl out = Fin z \<and> 0 \<le> z"
  using dvcc_total_bounded [OF sample_controller sample_readings(1), of "[(Fin 1, idle_input)]" "Fin 1" cold_input]
    sample_readings profile_ok_default
  by (auto simp: poll_ok_def published_bound_def sample_fields constants)

lemma sample_returns: "\<exists>out c'. calculate (Fin 1) cold_input sample_controller = (Inr out, c')"
  "\<exists>out c'. calculate (Fin 1) idle_input sample_controller = (Inr out, c')"
  using calculate_total [OF sample_controller_wf _ sample_readings(2)] sample_readings(4,5) by metis+

theorem dvcc_charge_stop_witness:
  "\<exists>out c'. calculate (Fin 1) cold_input sample_controller = (Inr out, c') \<and> ccl out = Fin 0 \<and> last_ccl c' = Fin 0"
  using sample_returns(1) dvcc_charge_stop [OF sample_controller_wf sample_readings(5)]
  by (auto simp: charge_stop_def cold_input_def idle_input_def curve_sample constants)

theorem dvcc_discharge_stop_witness:
  "\<exists>out c'. calculate (Fin 1) cold_input sample_controller = (Inr out, c') \<and> dcl out = Fin 0 \<and> last_dcl c' = Fin 0"
  using sample_returns(1) dvcc_discharge_stop [OF sample_controller_wf sample_readings(5)]
  by (auto simp: discharge_stop_def cold_input_def idle_input_def curve_sample constants literals)

theorem dvcc_most_restrictive_witness:
  "\<exists>out c' u r x. calculate (Fin 1) idle_input sample_controller = (Inr out, c')
    \<and> ccl_from_temperature sample_controller (Some (Fin 5)) (Some (Fin 45)) = Inr (Fin u, r)
    \<and> ccl out = Fin x \<and> x \<le> published_bound sample_controller (1 / 20) u"
proof -
  obtain out c' where r: "calculate (Fin 1) idle_input sample_controller = (Inr out, c')"
    using sample_returns(2) by blast
  have i: "in_min_temp idle_input = Some (Fin 5)" "in_max_temp idle_input = Some (Fin 45)"
    by (simp_all add: idle_input_def)
  show ?thesis
    using dvcc_most_restrictive [OF sample_controller_wf sample_readings(3) r,
        of "ccl_from_temperature sample_controller (Some (Fin 5)) (Some (Fin 45))"] r by (simp add: i) blast
qed

definition fractional_profile :: dvcc_profile where
  "fractional_profile = default_profile\<lparr>max_charge_current := Fin (8683503031523737 / 70368744177664)\<rparr>"

definition unlimited_input :: dvcc_input where
  "unlimited_input = \<lparr>in_max_cell = None, in_min_cell = None, in_max_cell_id = None, in_min_cell_id = None,
     in_max_temp = None, in_min_temp = None, in_soc = None, in_allow_charge = True, in_allow_discharge = True\<rparr>"

lemma fractional_literals:
  "fl (8683503031523737 / 70368744177664) = Fin (8683503031523737 / 70368744177664)" "fl (31285616813632701203911420275589 / 1267650600228229401496703205376) = Fin (3473401212609495 / 140737488355328)"
  "fl (43417515157618685 / 35184372088832) = Fin 1234" "fl (617 / 5) = Fin (4341751515761869 / 35184372088832)"
  "fround 1 (Fin (4341751515761869 / 35184372088832)) = Fin (4341751515761869 / 35184372088832)"
  by code_simp+

lemma fractional_profile_ok: "profile_ok fractional_profile"
proof -
  have "profile_checks fractional_profile = Inr fractional_profile"
    by (simp add: profile_checks_def ordered_cells_def ordered_imbalance_def ordered_temps_def factor_fields_def
      fmin3_def fmin_def literals fractional_literals constants fractional_profile_def)
  moreover have "foldM (\<lambda>(name, f) _. number_ok name f) (profile_fields fractional_profile) () = Inr ()"
    by (simp add: profile_fields_def constants literals number_ok_small fractional_profile_def)
  moreover have "fvalid (Fin (8683503031523737 / 70368744177664))" using fvalid_fl [of "8683503031523737 / 70368744177664"] by (simp add: fractional_literals(1) del: fvalid_fl)
  then have "list_all (\<lambda>(n, f). fvalid f) (profile_fields fractional_profile)"
    using fvalid_small [of 0]
    by (simp add: profile_fields_def constants fvalid_numeral fractional_profile_def del: fvalid.simps)
  ultimately show ?thesis by (simp add: profile_ok_def post_init_def)
qed

text \<open>With a profile the published charge limit is floored to a tenth so that a fractional ceiling is
  never rounded upward, but the product with ten is itself rounded first: a validated ceiling
  one float below 123.4 is published as 123.4.\<close>

theorem dvcc_ceiling_rounded_up:
  "\<exists>c out c'. new_controller (Fin 0) 16 4 (Some fractional_profile) = Inr c \<and> profile_ok fractional_profile
    \<and> calculate (Fin 1) unlimited_input c = (Inr out, c') \<and> flt (max_charge_current fractional_profile) (ccl out)"
proof -
  let ?x = "Fin (8683503031523737 / 70368744177664)"
  have m: "max_charge_current fractional_profile = ?x" by (simp add: fractional_profile_def)
  define c where "c = (case new_controller (Fin 0) 16 4 (Some fractional_profile) of Inr c \<Rightarrow> c | Inl _ \<Rightarrow> undefined)"
  have c: "new_controller (Fin 0) 16 4 (Some fractional_profile) = Inr c" "ctl_max_charge_current c = ?x"
    "last_ccl c = ?x" "curve c = fractional_profile" "ctl_profile c = Some fractional_profile"
    by (simp_all add: c_def new_controller_def of_pyint_16 Let_def m)
  have wf: "ctl_wf c" using new_controller_wf [OF c(1)] sample_readings(1) fractional_profile_ok by simp
  have d: "input_finite unlimited_input" by (simp add: input_finite_def unlimited_input_def finite_reading_def)
  obtain out c' where r: "calculate (Fin 1) unlimited_input c = (Inr out, c')"
    using calculate_total [OF wf d sample_readings(2)] by metis
  have "combined_ccl c unlimited_input = Inr (?x, ''no_cell_data'')"
    by (simp add: combined_ccl_def ccl_from_cell_voltage_def ccl_from_imbalance_def ccl_from_temperature_def
      ccl_from_soc_def unlimited_input_def cell_delta_def Let_def c fractional_profile_def constants)
  then obtain y where y: "last_ccl c' = rate_limited c (Fin 1) ?x" "floor_to 10 (last_ccl c') = Inr y" "ccl out = fround 1 y"
    by (rule_tac calculate_parts [OF r]) (simp add: c(5) unlimited_input_def; blast)
  have "rate_limited c (Fin 1) ?x = ?x" using c(3) by (simp add: rate_limited_def Let_def)
  with y have "floor_to 10 ?x = Inr y" "ccl out = fround 1 y" by auto
  moreover have "floor_to 10 ?x = Inr (Fin (4341751515761869 / 35184372088832))"
    by (simp add: floor_to_def int_div_def fractional_literals)
  ultimately have "ccl out = Fin (4341751515761869 / 35184372088832)" using fractional_literals(5) by simp
  then show ?thesis using c(1) r fractional_profile_ok m by auto
qed

end
