(* ===== verification/Topology.thy ===== *)
theory Topology
  imports DvccBounds "HOL-Library.List_Lexorder" "HOL-Library.Char_ord"
begin

text \<open>
  \<open>dbus_mqtt_battery/topology.py\<close>: explicit series inventories.  \<open>parse_manifest\<close> validates a
  whole document before any chain is returned; the lemmas say what a returned chain satisfies:
  its inventory bounds, the identities that are unique across chains, the flattened cell
  numbering, and a control profile that never exceeds a member's rating.  Whether a character
  outside ASCII is printable is a fact of the Unicode database and is the parameter \<open>uni\<close>.
\<close>

section \<open>Records\<close>

record member_topology =
  bms_id :: int
  member_cells :: int
  member_temperatures :: int
  capacity_ah :: "pyfloat option"
  member_charge_current :: "pyfloat option"
  member_discharge_current :: "pyfloat option"

record chain_topology =
  chain_id :: string
  topic_prefix :: string
  telemetry_schema :: int
  members :: "member_topology list"
  service_suffix :: string
  device_instance :: int
  product_name :: string
  chain_output :: string
  protection_profile :: "dvcc_profile option"
  system_voltage_limit :: "pyfloat option"

definition MAX_MEMBERS :: int where "MAX_MEMBERS = 4"
definition MAX_CELLS_PER_MEMBER :: int where "MAX_CELLS_PER_MEMBER = 32"
definition MAX_MANIFEST_BYTES :: nat where "MAX_MANIFEST_BYTES = 262144"

definition member_count :: "chain_topology \<Rightarrow> int" where
  "member_count c = int (length (members c))"

definition total_cells :: "chain_topology \<Rightarrow> int" where
  "total_cells c = sum_list (map member_cells (members c))"

fun offsets_from :: "int \<Rightarrow> int list \<Rightarrow> int list" where
  "offsets_from offset [] = []"
| "offsets_from offset (n # ns) = offset # offsets_from (offset + n) ns"

definition offsets :: "int list \<Rightarrow> int list" where
  "offsets counts = offsets_from 0 counts"

definition cell_offsets :: "chain_topology \<Rightarrow> int list" where
  "cell_offsets c = offsets (map member_cells (members c))"

definition temp_offsets :: "chain_topology \<Rightarrow> int list" where
  "temp_offsets c = offsets (map member_temperatures (members c))"

text \<open>\<open>min(xs)\<close> of a list that is not empty.\<close>

definition fmin_list :: "pyfloat \<Rightarrow> pyfloat list \<Rightarrow> pyfloat" where
  "fmin_list x xs = min_by id x xs"

definition installed_capacity :: "chain_topology \<Rightarrow> pyfloat option" where
  "installed_capacity c = (let cs = map capacity_ah (members c) in
     if None \<in> set cs then None
     else case map the cs of [] \<Rightarrow> None | x # xs \<Rightarrow> Some (fmin_list x xs))"

section \<open>Field validators\<close>

definition comma_sorted :: "string list \<Rightarrow> string" where
  "comma_sorted ks = join_with '', '' (sort ks)"

definition object_of :: "pyval \<Rightarrow> string \<Rightarrow> string list \<Rightarrow> string list \<Rightarrow> pyobj res" where
  "object_of v name required optional = (case v of VDict d \<Rightarrow>
       let absent = filter (\<lambda>k. k \<notin> set (dict_keys d)) required;
           unknown = filter (\<lambda>k. k \<notin> set required \<and> k \<notin> set optional) (dict_keys d)
       in if absent \<noteq> [] then Inl (ValueError (name @ '' missing fields: '' @ comma_sorted absent))
          else if unknown \<noteq> [] then Inl (ValueError (name @ '' has unknown fields: '' @ comma_sorted unknown))
          else Inr d
     | _ \<Rightarrow> Inl (ValueError (name @ '' must be an object'')))"

definition integer_of :: "pyval \<Rightarrow> string \<Rightarrow> int \<Rightarrow> int \<Rightarrow> int res" where
  "integer_of v name lo hi = (case as_int v of
     Some n \<Rightarrow> if lo \<le> n \<and> n \<le> hi then Inr n
       else Inl (ValueError (name @ '' must be an integer between '' @ show_int lo @ '' and '' @ show_int hi))
   | None \<Rightarrow> Inl (ValueError (name @ '' must be an integer between '' @ show_int lo @ '' and '' @ show_int hi)))"

definition positive_of :: "pyval \<Rightarrow> string \<Rightarrow> pyfloat option res" where
  "positive_of v name = (if v = VNone then Inr None else case num_of v of
     Some (Inr f) \<Rightarrow> if is_finite f \<and> \<not> fle f (Fin 0) then Inr (Some f)
       else Inl (ValueError (name @ '' must be a finite positive number''))
   | _ \<Rightarrow> Inl (ValueError (name @ '' must be a finite positive number'')))"

definition identifier_of :: "pyval \<Rightarrow> string \<Rightarrow> (string \<Rightarrow> bool) \<Rightarrow> string res" where
  "identifier_of v name pattern = (case as_str v of
     Some s \<Rightarrow> if pattern s then Inr s else Inl (ValueError (''invalid '' @ name))
   | None \<Rightarrow> Inl (ValueError (''invalid '' @ name)))"

text \<open>The three identifier patterns, in the order of the code.\<close>

definition is_lower :: "char \<Rightarrow> bool" where
  "is_lower c = (97 \<le> code c \<and> code c \<le> 122)"

definition is_alpha :: "char \<Rightarrow> bool" where
  "is_alpha c = (is_lower c \<or> (65 \<le> code c \<and> code c \<le> 90))"

definition is_word :: "char \<Rightarrow> bool" where
  "is_word c = (is_alpha c \<or> is_digit c \<or> c = CHR ''_'')"

definition id_pattern :: "string \<Rightarrow> bool" where
  "id_pattern s = (case s of [] \<Rightarrow> False
     | c # cs \<Rightarrow> is_lower c \<and> length cs \<le> 63
         \<and> list_all (\<lambda>x. is_lower x \<or> is_digit x \<or> x = CHR ''_'' \<or> x = CHR ''-'') cs)"

definition topic_pattern :: "string \<Rightarrow> bool" where
  "topic_pattern s = list_all (\<lambda>w. w \<noteq> [] \<and> list_all (\<lambda>x. is_word x \<or> x = CHR ''-'') w) (py_split (CHR ''/'') s)"

definition suffix_pattern :: "string \<Rightarrow> bool" where
  "suffix_pattern s = (case s of [] \<Rightarrow> False
     | c # cs \<Rightarrow> (is_alpha c \<or> c = CHR ''_'') \<and> length cs \<le> 63 \<and> list_all is_word cs)"

text \<open>\<open>str.isprintable\<close>: ASCII from space to tilde, and what the Unicode database says of the rest.\<close>

fun utf8_chars :: "string \<Rightarrow> string list" where
  "utf8_chars [] = []"
| "utf8_chars (c # s) = (case utf8_chars s of
     [] \<Rightarrow> [[c]]
   | w # ws \<Rightarrow> if is_cont (hd w) then (c # w) # ws else [c] # w # ws)"

definition is_printable :: "(string \<Rightarrow> bool) \<Rightarrow> string \<Rightarrow> bool" where
  "is_printable uni s = list_all (\<lambda>w. case w of
     [c] \<Rightarrow> 32 \<le> code c \<and> code c \<le> 126 | _ \<Rightarrow> uni w) (utf8_chars s)"

section \<open>Members, profiles and chains\<close>

definition get_default :: "pyobj \<Rightarrow> string \<Rightarrow> pyval \<Rightarrow> pyval" where
  "get_default d k v = dict_get k v d"

definition member_of :: "pyval \<Rightarrow> member_topology res" where
  "member_of v = and_then (object_of v ''member'' [''bms_id'', ''cells'']
       [''temperatures'', ''capacity_ah'', ''max_charge_current'', ''max_discharge_current'']) (\<lambda>row.
     and_then (integer_of (vget row ''bms_id'') ''bms_id'' 1 65535) (\<lambda>bid.
     and_then (integer_of (vget row ''cells'') ''cells'' 1 MAX_CELLS_PER_MEMBER) (\<lambda>n.
     and_then (integer_of (get_default row ''temperatures'' (VInt 1)) ''temperatures'' 1 8) (\<lambda>t.
     and_then (positive_of (vget row ''capacity_ah'') ''capacity_ah'') (\<lambda>cap.
     and_then (positive_of (vget row ''max_charge_current'') ''max_charge_current'') (\<lambda>ch.
     and_then (positive_of (vget row ''max_discharge_current'') ''max_discharge_current'') (\<lambda>dis.
       Inr \<lparr>bms_id = bid, member_cells = n, member_temperatures = t, capacity_ah = cap,
         member_charge_current = ch, member_discharge_current = dis\<rparr>)))))))"

definition equal_cells :: "member_topology list \<Rightarrow> bool" where
  "equal_cells ms = (length (remdups (map member_cells ms)) = 1)"

definition member_rated :: "member_topology \<Rightarrow> bool" where
  "member_rated m = (capacity_ah m \<noteq> None \<and> member_charge_current m \<noteq> None \<and> member_discharge_current m \<noteq> None)"

definition limited_profile :: "dvcc_profile \<Rightarrow> member_topology list \<Rightarrow> dvcc_profile" where
  "limited_profile p ms =
     (let charge = fmin_list (max_charge_current p) (List.map_filter member_charge_current ms);
          discharge = fmin_list (max_discharge_current p) (List.map_filter member_discharge_current ms)
      in p\<lparr>max_charge_current := charge, max_discharge_current := discharge,
           min_charge_current := fmin3 (min_charge_current p) (fmul charge (charge_balance_factor p))
             (fmul charge (imbalance_aggressive_factor p))\<rparr>)"

definition protection_of :: "pyval \<Rightarrow> string \<Rightarrow> member_topology list \<Rightarrow> dvcc_profile option res" where
  "protection_of v output ms =
     (if output = ''offline''
      then (if v \<noteq> VNone then Inl (ValueError ''offline output requires a null protection_profile'') else Inr None)
      else if \<not> equal_cells ms
      then Inl (ValueError ''managed output currently requires equal cell counts per member'')
      else if \<not> list_all member_rated ms
      then Inl (ValueError ''managed members require capacity_ah and both current ratings'')
      else and_then (from_mapping v) (\<lambda>p. and_then (post_init (limited_profile p ms)) (\<lambda>q. Inr (Some q))))"

definition chain_required :: "string list" where
  "chain_required = [''id'', ''connection'', ''source'', ''members'', ''service_suffix'', ''device_instance'',
     ''aggregation'', ''output'', ''protection_profile'']"

definition expected_policies :: "(string \<times> string) list" where
  "expected_policies = [(''current'', ''voltage_weighted_bms_estimate''), (''soc'', ''minimum_member''),
     (''remaining_capacity'', ''minimum_remaining_ah'')]"

definition prefix_of :: "pyobj \<Rightarrow> (string \<times> int) res" where
  "prefix_of row = and_then (object_of (vget row ''source'') ''source'' [''topic_prefix'', ''telemetry_schema''] []) (\<lambda>source.
     and_then (identifier_of (vget source ''topic_prefix'') ''topic_prefix'' topic_pattern) (\<lambda>prefix.
     if 256 < py_len prefix then Inl (ValueError ''topic_prefix is too long'')
     else and_then (integer_of (vget source ''telemetry_schema'') ''telemetry_schema'' 1 2) (\<lambda>schema.
       Inr (prefix, schema))))"

definition members_of :: "pyobj \<Rightarrow> int \<Rightarrow> member_topology list res" where
  "members_of row schema = (case vget row ''members'' of
     VList vs \<Rightarrow>
       if \<not> (1 \<le> int (length vs) \<and> int (length vs) \<le> MAX_MEMBERS)
       then Inl (ValueError ''a chain requires 1-4 explicitly configured members'')
       else and_then (mapM member_of vs) (\<lambda>ms.
         if \<not> distinct (map bms_id ms) then Inl (ValueError ''member bms_id values must be unique within a source'')
         else if schema = 1 \<and> (\<exists>m \<in> set ms. member_cells m \<noteq> 4)
         then Inl (ValueError ''schema 1 requires four cells per member'')
         else Inr ms)
   | _ \<Rightarrow> Inl (ValueError ''a chain requires 1-4 explicitly configured members''))"

definition product_of :: "(string \<Rightarrow> bool) \<Rightarrow> pyobj \<Rightarrow> string \<Rightarrow> string res" where
  "product_of uni row identifier = (case as_str (get_default row ''product_name'' (VStr identifier)) of
     Some s \<Rightarrow> if 1 \<le> py_len s \<and> py_len s \<le> 80 \<and> is_printable uni s then Inr s
       else Inl (ValueError ''product_name must contain 1-80 printable characters'')
   | None \<Rightarrow> Inl (ValueError ''product_name must contain 1-80 printable characters''))"

definition policies_ok :: "pyobj \<Rightarrow> unit res" where
  "policies_ok row = and_then (object_of (vget row ''aggregation'') ''aggregation'' (map fst expected_policies) []) (\<lambda>p.
     check (list_all (\<lambda>(k, x). vget p k = VStr x) expected_policies)
       (ValueError ''unsupported aggregation policy; all three policies must be explicit''))"

definition voltage_ok :: "string \<Rightarrow> dvcc_profile option \<Rightarrow> member_topology list \<Rightarrow> pyfloat option \<Rightarrow> unit res" where
  "voltage_ok output profile ms limit =
     (if output \<noteq> ''managed'' then Inr ()
      else case limit of None \<Rightarrow> Inl (ValueError ''managed output requires an explicit system_voltage_limit'')
      | Some l \<Rightarrow> (case profile of None \<Rightarrow> Inr ()
          | Some p \<Rightarrow> and_then (of_pyint (sum_list (map member_cells ms))) (\<lambda>n.
              if flt l (fmul (cell_max_voltage p) n)
              then Inl (ValueError ''configured charge voltage exceeds system_voltage_limit'') else Inr ())))"

definition output_of :: "pyobj \<Rightarrow> string res" where
  "output_of row = (case as_str (vget row ''output'') of
     Some s \<Rightarrow> if s = ''offline'' \<or> s = ''managed'' then Inr s else Inl (ValueError ''output must be offline or managed'')
   | None \<Rightarrow> Inl (ValueError ''output must be offline or managed''))"

definition chain_of :: "(string \<Rightarrow> bool) \<Rightarrow> pyval \<Rightarrow> chain_topology res" where
  "chain_of uni v = and_then (object_of v ''chain'' chain_required [''product_name'', ''system_voltage_limit'']) (\<lambda>row.
     and_then (identifier_of (vget row ''id'') ''chain id'' id_pattern) (\<lambda>identifier.
     and_then (check (vget row ''connection'' = VStr ''series'')
       (ValueError ''only explicit series connections are supported'')) (\<lambda>_.
     and_then (prefix_of row) (\<lambda>(prefix, schema).
     and_then (members_of row schema) (\<lambda>ms.
     and_then (identifier_of (vget row ''service_suffix'') ''service_suffix'' suffix_pattern) (\<lambda>suffix.
     and_then (integer_of (vget row ''device_instance'') ''device_instance'' 0 65535) (\<lambda>inst.
     and_then (product_of uni row identifier) (\<lambda>product.
     and_then (policies_ok row) (\<lambda>_.
     and_then (output_of row) (\<lambda>output.
     and_then (protection_of (vget row ''protection_profile'') output ms) (\<lambda>profile.
     and_then (positive_of (vget row ''system_voltage_limit'') ''system_voltage_limit'') (\<lambda>limit.
     and_then (voltage_ok output profile ms limit) (\<lambda>_.
       Inr \<lparr>chain_id = identifier, topic_prefix = prefix, telemetry_schema = schema, members = ms,
         service_suffix = suffix, device_instance = inst, product_name = product, chain_output = output,
         protection_profile = profile, system_voltage_limit = limit\<rparr>)))))))))))))"

section \<open>The manifest\<close>

definition unique_chains :: "chain_topology list \<Rightarrow> unit res" where
  "unique_chains cs =
     (if \<not> distinct (map chain_id cs) then Inl (ValueError ''duplicate chain id'')
      else if \<not> distinct (map service_suffix cs) then Inl (ValueError ''duplicate chain service_suffix'')
      else if \<not> distinct (map device_instance cs) then Inl (ValueError ''duplicate chain device_instance'')
      else if \<not> distinct (map topic_prefix cs) then Inl (ValueError ''duplicate chain topic_prefix'')
      else Inr ())"

definition parse_manifest :: "(string \<Rightarrow> bool) \<Rightarrow> pyval \<Rightarrow> chain_topology list res" where
  "parse_manifest uni document =
     and_then (object_of document ''manifest'' [''config_version'', ''chains''] [''reserved_device_instances'']) (\<lambda>root.
     and_then (integer_of (vget root ''config_version'') ''config_version'' 1 1) (\<lambda>_.
     case vget root ''chains'' of VList vs \<Rightarrow>
       if \<not> (1 \<le> length vs \<and> length vs \<le> 32) then Inl (ValueError ''manifest requires 1-32 chains'')
       else (case get_default root ''reserved_device_instances'' (VList [VInt 514]) of
         VList rs \<Rightarrow>
           and_then (mapM (\<lambda>r. integer_of r ''reserved device instance'' 0 65535) rs) (\<lambda>reservations.
           and_then (mapM (chain_of uni) vs) (\<lambda>cs.
           and_then (unique_chains cs) (\<lambda>_.
             if \<exists>c \<in> set cs. device_instance c \<in> set reservations
             then Inl (ValueError ''device_instance collides with a reserved device'')
             else Inr cs)))
       | _ \<Rightarrow> Inl (ValueError ''reserved_device_instances must be an explicit array''))
     | _ \<Rightarrow> Inl (ValueError ''manifest requires 1-32 chains'')))"

text \<open>\<open>_unique_object\<close>, the hook that refuses a repeated field.\<close>

definition unique_object :: hook where
  "unique_object pairs = and_then (foldM (\<lambda>(k, v) d.
       if k \<in> set (dict_keys d) then Inl (ValueError (''duplicate JSON field: '' @ k))
       else Inr (dict_set k v d)) pairs []) (\<lambda>d. Inr (VDict d))"

text \<open>
  \<open>json.loads\<close> of bytes: UTF-8, with an optional byte order mark.  The file's bytes are the
  argument; a failed open or read is the \<open>Inl\<close>.
\<close>

definition json_loads_bytes :: "hook \<Rightarrow> string \<Rightarrow> pyval res" where
  "json_loads_bytes h s = (let t = (if starts_with [CHR 0xEF, CHR 0xBB, CHR 0xBF] s then drop 3 s else s) in
     if \<not> utf8_valid t then Inl (ValueError ''invalid start byte'') else json_loads h t)"

definition load_manifest :: "(string \<Rightarrow> bool) \<Rightarrow> string res \<Rightarrow> chain_topology list res" where
  "load_manifest uni file = and_then file (\<lambda>content.
     let payload = take (MAX_MANIFEST_BYTES + 1) content in
     if MAX_MANIFEST_BYTES < length payload then Inl (ValueError ''topology manifest is too large'')
     else and_then (json_loads_bytes unique_object payload) (parse_manifest uni))"

fun find_chain :: "string \<Rightarrow> chain_topology list \<Rightarrow> chain_topology res" where
  "find_chain i [] = Inl (ValueError (''unknown configured chain: '' @ i))"
| "find_chain i (c # cs) = (if chain_id c = i then Inr c else find_chain i cs)"

definition select_chain :: "chain_topology list \<Rightarrow> string option \<Rightarrow> chain_topology res" where
  "select_chain cs wanted = (case wanted of
     None \<Rightarrow> if length cs \<noteq> 1 then Inl (ValueError ''chain id is required for a multi-chain manifest'') else Inr (hd cs)
   | Some i \<Rightarrow> find_chain i cs)"

definition parse_topology :: "(string \<Rightarrow> bool) \<Rightarrow> pyval \<Rightarrow> string option \<Rightarrow> chain_topology res" where
  "parse_topology uni document wanted = and_then (parse_manifest uni document) (\<lambda>cs. select_chain cs wanted)"

definition load_topology :: "(string \<Rightarrow> bool) \<Rightarrow> string res \<Rightarrow> string option \<Rightarrow> chain_topology res" where
  "load_topology uni file wanted = and_then (load_manifest uni file) (\<lambda>cs. select_chain cs wanted)"

section \<open>What a validator accepts\<close>

named_theorems accepted \<open>inversion of the validators\<close>

lemma object_of_Inr [accepted]:
  "object_of v name req opt = Inr d \<longleftrightarrow> v = VDict d \<and> set req \<subseteq> set (dict_keys d) \<and> set (dict_keys d) \<subseteq> set req \<union> set opt"
  by (cases v) (auto simp: object_of_def Let_def filter_empty_conv)

lemma integer_of_Inr [accepted]: "integer_of v name lo hi = Inr n \<longleftrightarrow> v = VInt n \<and> lo \<le> n \<and> n \<le> hi"
  by (cases v) (auto simp: integer_of_def)

lemma identifier_of_Inr [accepted]: "identifier_of v name pat = Inr s \<longleftrightarrow> v = VStr s \<and> pat s"
  by (cases v) (auto simp: identifier_of_def)

lemma case_VList_Inr [accepted]:
  "(case v of VList vs \<Rightarrow> f vs | _ \<Rightarrow> Inl e) = Inr x \<longleftrightarrow> (\<exists>vs. v = VList vs \<and> f vs = Inr x)"
  by (cases v) auto

lemma case_VDict_Inr [accepted]:
  "(case v of VDict d \<Rightarrow> f d | _ \<Rightarrow> Inl e) = Inr x \<longleftrightarrow> (\<exists>d. v = VDict d \<and> f d = Inr x)"
  by (cases v) auto

lemma positive_of_Inr:
  "positive_of v name = Inr r \<longleftrightarrow> v = VNone \<and> r = None
    \<or> (\<exists>f. num_of v = Some (Inr f) \<and> r = Some f \<and> is_finite f \<and> \<not> fle f (Fin 0))"
  by (cases v) (auto simp: positive_of_def split: sum.splits)

definition rating_ok :: "pyfloat option \<Rightarrow> bool" where
  "rating_ok r \<longleftrightarrow> (case r of None \<Rightarrow> True | Some f \<Rightarrow> fvalid f \<and> is_finite f \<and> \<not> fle f (Fin 0))"

definition member_wf :: "member_topology \<Rightarrow> bool" where
  "member_wf m \<longleftrightarrow> 1 \<le> bms_id m \<and> bms_id m \<le> 65535 \<and> 1 \<le> member_cells m \<and> member_cells m \<le> MAX_CELLS_PER_MEMBER
     \<and> 1 \<le> member_temperatures m \<and> member_temperatures m \<le> 8
     \<and> rating_ok (capacity_ah m) \<and> rating_ok (member_charge_current m) \<and> rating_ok (member_discharge_current m)"

lemma positive_of_rating: "positive_of v name = Inr r \<Longrightarrow> value_ok v \<Longrightarrow> rating_ok r"
  by (auto simp: positive_of_Inr rating_ok_def intro: num_of_valid)

lemma member_of_wf:
  assumes "member_of v = Inr m" "value_ok v"
  shows "member_wf m"
proof -
  obtain d where d: "v = VDict d" using assms(1) by (auto simp: member_of_def accepted)
  then have "value_ok (vget d k)" for k using assms(2) value_ok_get by simp
  then show ?thesis using assms(1) d
    by (auto simp: member_of_def accepted member_wf_def dest: positive_of_rating)
qed

section \<open>The validated profile\<close>

lemma post_init_Inr: "post_init p = Inr q \<Longrightarrow> q = p \<and> post_init p = Inr p"
  by (auto simp: post_init_def profile_checks_def split: if_splits)

lemma dict_get_in:
  assumes "\<And>k v. (k, v) \<in> set fs \<Longrightarrow> P v" "P d"
  shows "P (dict_get n d fs)"
  using assms by (auto simp: dict_get_def split: option.splits dest: map_of_SomeD)

lemma profile_of_fields:
  assumes "\<And>k v. (k, v) \<in> set fs \<Longrightarrow> P v" "P (Fin 0)"
  shows "list_all (\<lambda>(n, f). P f) (profile_fields (profile_of fs))"
  using dict_get_in [of fs P "Fin 0", OF assms] by (simp add: profile_fields_def profile_of_def Let_def)

lemma mapM_in: "mapM f xs = Inr ys \<Longrightarrow> y \<in> set ys \<Longrightarrow> \<exists>x \<in> set xs. f x = Inr y"
  by (induction xs arbitrary: ys) auto

lemma field_number_Inr:
  "field_number d n = Inr (k, f) \<longleftrightarrow> k = n \<and> num_of (vget d n) = Some (Inr f) \<and> number_ok n f = Inr ()"
  by (auto simp: field_number_def split: option.splits sum.splits)

lemma fvalid_0 [simp]: "fvalid (Fin 0)"
  by (simp add: r64.rep_0)

lemma from_mapping_all:
  assumes "from_mapping v = Inr p" "P (Fin 0)"
    and P: "\<And>d n f. v = VDict d \<Longrightarrow> num_of (vget d n) = Some (Inr f) \<Longrightarrow> number_ok n f = Inr () \<Longrightarrow> P f"
  shows "list_all (\<lambda>(n, f). P f) (profile_fields p)"
proof -
  obtain d fs where d: "v = VDict d" "mapM (field_number d) (tl profile_names) = Inr fs" "p = profile_of fs"
    using assms(1) by (auto simp: from_mapping_def profile_checks_def split: pyval.splits if_splits)
  have all: "P f" if kf: "(k, f) \<in> set fs" for k f
  proof -
    obtain n where "field_number d n = Inr (k, f)" using mapM_in [OF d(2) kf] by blast
    then show ?thesis using P d(1) by (auto simp: field_number_Inr)
  qed
  show ?thesis unfolding d(3) by (rule profile_of_fields [of fs P, OF all assms(2)])
qed

lemma from_mapping_valid:
  assumes "from_mapping v = Inr p" "value_ok v"
  shows "list_all (\<lambda>(n, f). fvalid f) (profile_fields p)"
  by (rule from_mapping_all [OF assms(1)]) (use assms(2) num_of_valid value_ok_get r64.rep_0 in \<open>auto simp: r64.rep_0\<close>)

lemma from_mapping_checked:
  assumes "from_mapping v = Inr p"
  shows "max_charge_current p \<noteq> NaN" "max_discharge_current p \<noteq> NaN"
proof -
  have "list_all (\<lambda>(n, f). f \<noteq> NaN) (profile_fields p)"
    by (rule from_mapping_all [OF assms]) (auto simp: number_ok_def)
  then show "max_charge_current p \<noteq> NaN" "max_discharge_current p \<noteq> NaN"
    by (simp_all add: profile_fields_def)
qed

lemma fmin_list_le:
  assumes "\<forall>x \<in> set (y # ys). x \<noteq> NaN" "x \<in> set (y # ys)"
  shows "fle (fmin_list y ys) x"
  using min_by_le [of y ys id x] assms by (simp add: fmin_list_def)

lemma fmin_list_in: "fmin_list y ys \<in> set (y # ys)"
  using min_by_in [of id y ys] by (simp add: fmin_list_def)

lemma fmin_P: "P x \<Longrightarrow> P y \<Longrightarrow> P (fmin x y)"
  by (simp add: fmin_def)

lemma fmul_fvalid [simp]: "fvalid (fmul x y)"
  by (cases x; cases y) (auto simp: inf_of_def)

lemma ratings:
  assumes "\<forall>m \<in> set ms. member_wf m"
  shows "x \<in> set (List.map_filter member_charge_current ms) \<Longrightarrow> fvalid x \<and> x \<noteq> NaN"
    and "x \<in> set (List.map_filter member_discharge_current ms) \<Longrightarrow> fvalid x \<and> x \<noteq> NaN"
  using assms by (fastforce simp: List.map_filter_def member_wf_def rating_ok_def split: option.splits)+

lemma fmin_list_P: "P x \<Longrightarrow> (\<And>y. y \<in> set ys \<Longrightarrow> P y) \<Longrightarrow> P (fmin_list x ys)"
  using fmin_list_in [of x ys] by auto

lemma limited_profile_valid:
  assumes "list_all (\<lambda>(n, f). fvalid f) (profile_fields p)" "\<forall>m \<in> set ms. member_wf m"
  shows "list_all (\<lambda>(n, f). fvalid f) (profile_fields (limited_profile p ms))"
proof -
  have "fvalid (max_charge_current p)" "fvalid (max_discharge_current p)"
    using assms(1) by (simp_all add: profile_fields_def)
  then have "fvalid (fmin_list (max_charge_current p) (List.map_filter member_charge_current ms))"
    "fvalid (fmin_list (max_discharge_current p) (List.map_filter member_discharge_current ms))"
    using ratings [OF assms(2)] by (auto intro: fmin_list_P)
  moreover have "fvalid (fmin3 (min_charge_current p) x y)" if "fvalid x" "fvalid y" for x y
    using assms(1) that by (simp add: fmin3_def fmin_def profile_fields_def)
  ultimately show ?thesis using assms(1) by (simp add: profile_fields_def limited_profile_def Let_def)
qed

text \<open>A managed profile is validated again after the ratings were applied, and never exceeds a rating.\<close>

definition within_rating :: "dvcc_profile \<Rightarrow> member_topology \<Rightarrow> bool" where
  "within_rating p m \<longleftrightarrow> (\<exists>ch dis. member_charge_current m = Some ch \<and> member_discharge_current m = Some dis
     \<and> fle (max_charge_current p) ch \<and> fle (max_discharge_current p) dis)"

lemma limited_profile_rating:
  assumes "\<forall>m \<in> set ms. member_wf m" "list_all member_rated ms" "m \<in> set ms"
    and "max_charge_current p \<noteq> NaN" "max_discharge_current p \<noteq> NaN"
  shows "within_rating (limited_profile p ms) m"
proof -
  obtain ch dis where r: "member_charge_current m = Some ch" "member_discharge_current m = Some dis"
    using assms(2,3) by (auto simp: list_all_iff member_rated_def)
  have "ch \<in> set (List.map_filter member_charge_current ms)" "dis \<in> set (List.map_filter member_discharge_current ms)"
    using r assms(3) by (force simp: List.map_filter_def)+
  then have "fle (fmin_list (max_charge_current p) (List.map_filter member_charge_current ms)) ch"
    "fle (fmin_list (max_discharge_current p) (List.map_filter member_discharge_current ms)) dis"
    using ratings [OF assms(1)] assms(4,5) by (fastforce intro!: fmin_list_le)+
  then show ?thesis using r by (simp add: within_rating_def limited_profile_def Let_def)
qed

section \<open>A validated chain\<close>

definition chain_wf :: "chain_topology \<Rightarrow> bool" where
  "chain_wf c \<longleftrightarrow> members c \<noteq> [] \<and> member_count c \<le> MAX_MEMBERS \<and> distinct (map bms_id (members c))
     \<and> (\<forall>m \<in> set (members c). member_wf m)
     \<and> telemetry_schema c \<in> {1, 2} \<and> (telemetry_schema c = 1 \<longrightarrow> (\<forall>m \<in> set (members c). member_cells m = 4))
     \<and> 0 \<le> device_instance c \<and> device_instance c \<le> 65535
     \<and> id_pattern (chain_id c) \<and> topic_pattern (topic_prefix c) \<and> suffix_pattern (service_suffix c)
     \<and> chain_output c \<in> {''offline'', ''managed''}"

text \<open>What control may rely on: a managed chain has equal members and a profile validated for them.\<close>

definition profile_wf :: "chain_topology \<Rightarrow> bool" where
  "profile_wf c \<longleftrightarrow> (case protection_profile c of
     None \<Rightarrow> chain_output c = ''offline''
   | Some p \<Rightarrow> chain_output c = ''managed'' \<and> profile_ok p \<and> equal_cells (members c)
       \<and> (\<forall>m \<in> set (members c). within_rating p m)
       \<and> (\<exists>l n. system_voltage_limit c = Some l \<and> of_pyint (total_cells c) = Inr n
           \<and> \<not> flt l (fmul (cell_max_voltage p) n)))"

lemma protection_of_ok:
  assumes "protection_of v output ms = Inr r" "value_ok v" "\<forall>m \<in> set ms. member_wf m"
  shows "(r = None \<longrightarrow> output = ''offline'') \<and> (\<forall>p. r = Some p \<longrightarrow> output \<noteq> ''offline'' \<and> profile_ok p
    \<and> equal_cells ms \<and> (\<forall>m \<in> set ms. within_rating p m))"
proof (cases "output = ''offline''")
  case True
  then show ?thesis using assms(1) by (auto simp: protection_of_def split: if_splits)
next
  case False
  then obtain p q where p: "from_mapping v = Inr p" "post_init (limited_profile p ms) = Inr q" "r = Some q"
    and ms: "equal_cells ms" "list_all member_rated ms"
    using assms(1) by (auto simp: protection_of_def split: if_splits)
  have q: "q = limited_profile p ms" "post_init q = Inr q" using post_init_Inr [OF p(2)] by auto
  have f: "list_all (\<lambda>(n, f). fvalid f) (profile_fields p)" using from_mapping_valid [OF p(1) assms(2)] .
  then have "profile_ok q" using limited_profile_valid [OF f assms(3)] q by (simp add: profile_ok_def)
  moreover have "max_charge_current p \<noteq> NaN" "max_discharge_current p \<noteq> NaN"
    using from_mapping_checked [OF p(1)] by auto
  ultimately show ?thesis using q p(3) ms False limited_profile_rating [OF assms(3) ms(2)] by auto
qed

lemma members_of_ok:
  assumes "members_of row schema = Inr ms" "value_ok (VDict row)"
  shows "ms \<noteq> [] \<and> int (length ms) \<le> MAX_MEMBERS \<and> distinct (map bms_id ms) \<and> (\<forall>m \<in> set ms. member_wf m)
    \<and> (schema = 1 \<longrightarrow> (\<forall>m \<in> set ms. member_cells m = 4))"
proof -
  obtain vs where vs: "vget row ''members'' = VList vs" "1 \<le> int (length vs)" "int (length vs) \<le> MAX_MEMBERS"
    "mapM member_of vs = Inr ms" "distinct (map bms_id ms)" "schema = 1 \<longrightarrow> (\<forall>m \<in> set ms. member_cells m = 4)"
    using assms(1) by (auto simp: members_of_def accepted split: if_splits)
  have "list_all value_ok vs" using value_ok_get [OF assms(2), of "''members''"] vs(1) by simp
  then have "\<forall>m \<in> set ms. member_wf m" using mapM_in [OF vs(4)] member_of_wf by (fastforce simp: list_all_iff)
  then show ?thesis using vs mapM_length [OF vs(4)] by auto
qed

lemma chain_of_wf:
  assumes "chain_of uni v = Inr c" "value_ok v"
  shows "chain_wf c \<and> profile_wf c"
proof -
  obtain row ident prefix schema ms suffix inst product outp profile limit where
    c: "c = \<lparr>chain_id = ident, topic_prefix = prefix, telemetry_schema = schema, members = ms,
         service_suffix = suffix, device_instance = inst, product_name = product, chain_output = outp,
         protection_profile = profile, system_voltage_limit = limit\<rparr>"
    and row: "v = VDict row" and id: "id_pattern ident" "suffix_pattern suffix" "0 \<le> inst" "inst \<le> 65535"
    and src: "prefix_of row = Inr (prefix, schema)" and ms: "members_of row schema = Inr ms"
    and out: "output_of row = Inr outp" and prot: "protection_of (vget row ''protection_profile'') outp ms = Inr profile"
    and vo: "voltage_ok outp profile ms limit = Inr ()"
    using assms(1) unfolding chain_of_def by (auto simp: accepted simp del: split_paired_Ex)
  have vr: "value_ok (VDict row)" using assms(2) row by simp
  note m = members_of_ok [OF ms vr]
  have p: "topic_pattern prefix" "schema \<in> {1, 2}"
    using src by (auto simp: prefix_of_def accepted split: if_splits)
  have o: "outp \<in> {''offline'', ''managed''}"
    using out by (auto simp: output_of_def split: option.splits if_splits)
  have q: "(profile = None \<longrightarrow> outp = ''offline'') \<and> (\<forall>p. profile = Some p \<longrightarrow> outp \<noteq> ''offline'' \<and> profile_ok p
    \<and> equal_cells ms \<and> (\<forall>m \<in> set ms. within_rating p m))"
    using protection_of_ok [OF prot value_ok_get [OF vr]] m by blast
  have "\<exists>l n. limit = Some l \<and> of_pyint (total_cells c) = Inr n \<and> \<not> flt l (fmul (cell_max_voltage p) n)"
    if "profile = Some p" for p
    using vo q o that c by (auto simp: voltage_ok_def total_cells_def split: option.splits if_splits)
  then show ?thesis using m p id q o c
    by (auto simp: chain_wf_def profile_wf_def member_count_def split: option.splits)
qed

section \<open>A validated manifest\<close>

definition manifest_wf :: "chain_topology list \<Rightarrow> bool" where
  "manifest_wf cs \<longleftrightarrow> cs \<noteq> [] \<and> length cs \<le> 32 \<and> (\<forall>c \<in> set cs. chain_wf c \<and> profile_wf c)
     \<and> distinct (map chain_id cs) \<and> distinct (map service_suffix cs)
     \<and> distinct (map device_instance cs) \<and> distinct (map topic_prefix cs)"

lemma parse_manifest_ok:
  assumes "parse_manifest uni doc = Inr cs" "value_ok doc"
  shows "manifest_wf cs"
proof -
  obtain root vs where r: "doc = VDict root" "vget root ''chains'' = VList vs" "1 \<le> length vs" "length vs \<le> 32"
    "mapM (chain_of uni) vs = Inr cs" "unique_chains cs = Inr ()"
    using assms(1) by (auto simp: parse_manifest_def accepted split: if_splits)
  have "list_all value_ok vs" using value_ok_get [of root "''chains''"] assms(2) r by simp
  then have "\<forall>c \<in> set cs. chain_wf c \<and> profile_wf c"
    using mapM_in [OF r(5)] chain_of_wf by (fastforce simp: list_all_iff)
  moreover have "cs \<noteq> []" "length cs \<le> 32" using mapM_length [OF r(5)] r by auto
  ultimately show ?thesis using r(6) by (auto simp: manifest_wf_def unique_chains_def split: if_splits)
qed

lemma find_chain_Inr: "find_chain i cs = Inr c \<Longrightarrow> c \<in> set cs \<and> chain_id c = i"
  by (induction cs) (auto split: if_splits)

lemma find_chain_present: "i \<in> set (map chain_id cs) \<Longrightarrow> \<exists>c. find_chain i cs = Inr c"
  by (induction cs) auto

lemma select_chain_in: "select_chain cs w = Inr c \<Longrightarrow> c \<in> set cs"
  by (cases cs) (auto simp: select_chain_def split: option.splits if_splits dest: find_chain_Inr)

section \<open>The flattened numbering\<close>

lemma offsets_from_nth:
  "i < length ns \<Longrightarrow> offsets_from k ns ! i = k + sum_list (take i ns)"
  by (induction ns arbitrary: k i) (auto simp: nth_Cons' take_Cons')

lemma offsets_from_length [simp]: "length (offsets_from k ns) = length ns"
  by (induction ns arbitrary: k) auto

text \<open>Each flattened number belongs to exactly one member and one of its local numbers.\<close>

lemma flatten_exists:
  assumes "\<forall>n \<in> set ns. (1::int) \<le> n" "1 \<le> x" "x \<le> sum_list ns"
  shows "\<exists>i < length ns. \<exists>j. 1 \<le> j \<and> j \<le> ns ! i \<and> x = sum_list (take i ns) + j"
  using assms
proof (induction ns arbitrary: x)
  case (Cons n ns)
  show ?case
  proof (cases "x \<le> n")
    case True
    then show ?thesis using Cons.prems by (intro exI [of _ 0]) auto
  next
    case False
    then obtain i j where "i < length ns" "1 \<le> j" "j \<le> ns ! i" "x - n = sum_list (take i ns) + j"
      using Cons.IH [of "x - n"] Cons.prems by auto
    then show ?thesis by (intro exI [of _ "Suc i"]) auto
  qed
qed simp

lemma take_sum_mono: "\<forall>n \<in> set ns. (0::int) \<le> n \<Longrightarrow> i \<le> j \<Longrightarrow> sum_list (take i ns) \<le> sum_list (take j ns)"
proof (induction ns arbitrary: i j)
  case (Cons n ns)
  then show ?case by (cases i; cases j) (auto intro!: add_nonneg_nonneg sum_list_nonneg dest: in_set_takeD)
qed simp

lemma flatten_unique:
  assumes "\<forall>n \<in> set ns. (1::int) \<le> n" "i < length ns" "i' < length ns"
    and "1 \<le> j" "j \<le> ns ! i" "1 \<le> j'" "j' \<le> ns ! i'"
    and "sum_list (take i ns) + j = sum_list (take i' ns) + j'"
  shows "i = i' \<and> j = j'"
proof -
  have less: False if "a < b" "b < length ns" "y \<le> ns ! a" "1 \<le> z"
    "sum_list (take a ns) + y = sum_list (take b ns) + z" for a b y z
  proof -
    have "sum_list (take (Suc a) ns) \<le> sum_list (take b ns)"
      using assms(1) that(1) by (intro take_sum_mono) auto
    moreover have "sum_list (take (Suc a) ns) = sum_list (take a ns) + ns ! a"
      using that by (simp add: take_Suc_conv_app_nth)
    ultimately show False using that by linarith
  qed
  then have "i = i'" using assms by (metis linorder_neqE_nat)
  then show ?thesis using assms(8) by simp
qed

lemma unique_object_ok: "hook_ok unique_object"
  unfolding hook_ok_def
proof (intro allI impI)
  fix ps v
  let ?f = "\<lambda>(k, v) d. if k \<in> set (dict_keys d) then Inl (ValueError (''duplicate JSON field: '' @ k))
    else Inr (dict_set k v d)"
  assume ps: "value_ok (VDict ps)" and "unique_object ps = Inr v"
  then obtain d where d: "foldM ?f ps [] = Inr d" "v = VDict d" by (auto simp: unique_object_def)
  have "value_ok (VDict d)"
  proof (rule foldM_invariant [OF d(1), where P = "\<lambda>d. value_ok (VDict d)"])
    fix x s t assume x: "x \<in> set ps" "?f x s = Inr t" "value_ok (VDict s)"
    obtain k y where "x = (k, y)" by (cases x)
    with x ps have "value_ok y" "t = dict_set k y s" by (auto simp: list_all_iff split: if_splits)
    with x(3) show "value_ok (VDict t)" using value_ok_set by simp
  qed simp
  with d show "value_ok v" by simp
qed

lemma load_manifest_ok: "load_manifest uni file = Inr cs \<Longrightarrow> manifest_wf cs"
  using unique_object_ok
  by (auto simp: load_manifest_def Let_def json_loads_bytes_def split: if_splits
      intro: parse_manifest_ok json_loads_ok)

text \<open>\<open>object_pairs_hook\<close>: an accepted object repeats no field.\<close>

lemma dict_set_new: "k \<notin> set (dict_keys d) \<Longrightarrow> dict_set k v d = d @ [(k, v)]"
  by (induction d) (auto simp: dict_keys_def)

lemma unique_object_distinct:
  assumes "unique_object ps = Inr v"
  shows "distinct (map fst ps)" "v = VDict ps"
proof -
  let ?f = "\<lambda>(k, v) d. if k \<in> set (dict_keys d) then Inl (ValueError (''duplicate JSON field: '' @ k))
    else Inr (dict_set k v d)"
  have all: "d' = d @ ps \<and> distinct (map fst ps) \<and> set (map fst ps) \<inter> set (dict_keys d) = {}"
    if "foldM ?f ps d = Inr d'" for d d'
    using that
  proof (induction ps arbitrary: d)
    case (Cons p ps)
    obtain k x where p: "p = (k, x)" by (cases p)
    with Cons.prems have "k \<notin> set (dict_keys d)" "foldM ?f ps (dict_set k x d) = Inr d'"
      by (auto split: if_splits)
    with Cons.IH [OF this(2)] p show ?case
      by (auto simp: dict_set_new dict_keys_def simp del: set_map list.set_map)
  qed simp
  from assms obtain d where "foldM ?f ps [] = Inr d" "v = VDict d" by (auto simp: unique_object_def)
  with all show "distinct (map fst ps)" "v = VDict ps" by fastforce+
qed

end
