(* ===== verification/TopologyProps.thy ===== *)
theory TopologyProps
  imports Topology
begin

text \<open>
  The contract of the configured inventories: what a manifest file that is accepted yields, and
  two concrete manifests (an offline one as bytes, a managed one as a document) on which the
  properties are applied.
\<close>

section \<open>Properties of configured topologies\<close>

text \<open>C28: Every chain a manifest file yields has one to four members within the inventory bounds, schema 1
  only with four-cell members, a control profile exactly when it is managed; ids, service suffixes,
  device instances and topic prefixes are unique across the chains.\<close>

theorem manifest_validated:
  assumes "load_manifest uni file = Inr cs"
  shows "manifest_wf cs"
  using assms by (rule load_manifest_ok)

text \<open>C17: A managed chain's profile has passed the profile validation after the members' ratings were
  applied: both current ceilings are at most every member's rating and the charge voltage of the
  whole string is at most the configured system limit.\<close>

theorem managed_profile_safe:
  assumes "parse_manifest uni doc = Inr cs" "value_ok doc" "c \<in> set cs" "protection_profile c = Some p"
  shows "profile_ok p \<and> (\<forall>m \<in> set (members c). within_rating p m)
    \<and> (\<exists>l n. system_voltage_limit c = Some l \<and> of_pyint (total_cells c) = Inr n \<and> \<not> flt l (fmul (cell_max_voltage p) n))"
  using parse_manifest_ok [OF assms(1,2)] assms(3,4) by (fastforce simp: manifest_wf_def profile_wf_def)

text \<open>The flattened cell numbers 1 to \<open>total_cells\<close> are each the number of exactly one member's cell
  under the chain's offsets.\<close>

theorem flattened_cells_unique:
  assumes "chain_wf c" "1 \<le> x" "x \<le> total_cells c"
  shows "\<exists>!p. fst p < length (members c) \<and> 1 \<le> snd p \<and> snd p \<le> member_cells (members c ! fst p)
    \<and> x = cell_offsets c ! fst p + snd p"
proof -
  let ?ns = "map member_cells (members c)"
  have pos: "\<forall>n \<in> set ?ns. 1 \<le> n" using assms(1) by (auto simp: chain_wf_def member_wf_def)
  have off: "cell_offsets c ! i = sum_list (take i ?ns)" if "i < length (members c)" for i
    using that by (simp add: cell_offsets_def offsets_def offsets_from_nth)
  obtain i j where "i < length (members c)" "1 \<le> j" "j \<le> member_cells (members c ! i)" "x = sum_list (take i ?ns) + j"
    using flatten_exists [OF pos assms(2)] assms(3) by (auto simp: total_cells_def)
  moreover have "p = q" if "fst p < length (members c)" "fst q < length (members c)" "1 \<le> snd p" "1 \<le> snd q"
    "snd p \<le> member_cells (members c ! fst p)" "snd q \<le> member_cells (members c ! fst q)"
    "sum_list (take (fst p) ?ns) + snd p = sum_list (take (fst q) ?ns) + snd q" for p q
    using flatten_unique [OF pos, of "fst p" "fst q" "snd p" "snd q"] that by (simp add: prod_eq_iff)
  ultimately show ?thesis by (intro ex1I [of _ "(i, j)"]) (auto simp: off)
qed

section \<open>Profiles as documents\<close>

text \<open>The document of a profile, and that \<open>from_mapping\<close> reads it back.\<close>

definition profile_value :: "dvcc_profile \<Rightarrow> pyval" where
  "profile_value p = VDict ((''chemistry'', VStr ''lifepo4'') # map (\<lambda>(n, f). (n, VFloat f)) (profile_fields p))"

lemma profile_names_of: "map fst (profile_fields p) = tl profile_names"
  by (simp add: profile_names_def profile_fields_def)

lemma profile_names_distinct: "distinct (tl profile_names)" "''chemistry'' \<notin> set (tl profile_names)"
  by (simp_all add: profile_names_def profile_fields_def)

lemma profile_of_profile_fields: "profile_of (profile_fields p) = p"
  by (simp add: profile_of_def Let_def dict_get_def profile_fields_def)

lemma mapM_map: "(\<And>x. x \<in> set xs \<Longrightarrow> f (g x) = Inr (h x)) \<Longrightarrow> mapM f (map g xs) = Inr (map h xs)"
  by (induction xs) auto

lemma document_reads_back:
  assumes "post_init p = Inr p"
  shows "from_mapping (profile_value p) = Inr p"
proof -
  let ?d = "(''chemistry'', VStr ''lifepo4'') # map (\<lambda>(n, f). (n, VFloat f)) (profile_fields p)"
  have k: "dict_keys ?d = profile_names"
    using profile_names_of [of p] by (simp add: dict_keys_def comp_def case_prod_unfold profile_names_def)
  have ok: "number_ok n f = Inr ()" if "(n, f) \<in> set (profile_fields p)" for n f
  proof -
    have "foldM (\<lambda>x _. (\<lambda>(name, f). number_ok name f) x) (profile_fields p) () = Inr ()"
      using assms by (auto simp: post_init_def case_prod_unfold)
    from foldM_check_all [OF this that] show ?thesis by simp
  qed
  have "field_number ?d (fst x) = Inr x" if x: "x \<in> set (profile_fields p)" for x
  proof -
    obtain n f where nf: "x = (n, f)" by (cases x)
    have "distinct (map fst (profile_fields p))" "n \<noteq> ''chemistry''"
      using profile_names_distinct x nf by (auto simp: profile_names_of) (metis image_eqI list.set_map profile_names_of fst_conv)
    then have "map_of (profile_fields p) n = Some f" using x nf by simp
    then have "map_of (map (\<lambda>(n, f). (n, VFloat f)) (profile_fields p)) n = Some (VFloat f)"
      by (simp add: map_of_map)
    then show ?thesis using ok x nf \<open>n \<noteq> ''chemistry''\<close>
      by (simp add: field_number_def vget_def dict_get_def)
  qed
  then have "mapM (field_number ?d) (map fst (profile_fields p)) = Inr (map id (profile_fields p))"
    by (intro mapM_map) simp
  then have "mapM (field_number ?d) (tl profile_names) = Inr (profile_fields p)" by (simp add: profile_names_of)
  moreover have "profile_checks p = Inr p" using assms by (auto simp: post_init_def)
  ultimately show ?thesis using k
    by (simp add: profile_value_def from_mapping_def profile_of_profile_fields vget_def dict_get_def)
qed

text \<open>Reading back the document of a validated profile gives the same profile: every field is read from
  its own name and nothing is defaulted.\<close>

theorem profile_document_roundtrip:
  assumes "post_init p = Inr p"
  shows "from_mapping (profile_value p) = Inr p"
  using assms by (rule document_reads_back)

section \<open>Concrete manifests\<close>

definition offline_manifest :: string where
  \<open>offline_manifest = ''{"config_version":1,"chains":[{"id":"h","connection":"series","source":{"topic_prefix":"b","telemetry_schema":2},"members":[{"bms_id":7,"cells":8},{"bms_id":3,"cells":4}],"service_suffix":"h","device_instance":600,"aggregation":{"current":"voltage_weighted_bms_estimate","soc":"minimum_member","remaining_capacity":"minimum_remaining_ah"},"output":"offline","protection_profile":null}]}''\<close>

definition offline_document :: pyval where
  "offline_document = VDict [(''config_version'', VInt 1), (''chains'', VList [VDict [(''id'', VStr ''h''), (''connection'', VStr ''series''), (''source'', VDict [(''topic_prefix'', VStr ''b''), (''telemetry_schema'', VInt 2)]), (''members'', VList [VDict [(''bms_id'', VInt 7), (''cells'', VInt 8)], VDict [(''bms_id'', VInt 3), (''cells'', VInt 4)]]), (''service_suffix'', VStr ''h''), (''device_instance'', VInt 600), (''aggregation'', VDict [(''current'', VStr ''voltage_weighted_bms_estimate''), (''soc'', VStr ''minimum_member''), (''remaining_capacity'', VStr ''minimum_remaining_ah'')]), (''output'', VStr ''offline''), (''protection_profile'', VNone)]])]"

definition managed_row :: pyobj where
  "managed_row = [(''id'', VStr ''h''), (''connection'', VStr ''series''), (''source'', VDict [(''topic_prefix'', VStr ''b''), (''telemetry_schema'', VInt 2)]), (''members'', VList [VDict [(''bms_id'', VInt 7), (''cells'', VInt 8), (''capacity_ah'', VInt 100), (''max_charge_current'', VInt 60), (''max_discharge_current'', VInt 95)], VDict [(''bms_id'', VInt 3), (''cells'', VInt 8), (''capacity_ah'', VInt 120), (''max_charge_current'', VInt 70), (''max_discharge_current'', VInt 85)]]), (''service_suffix'', VStr ''h''), (''device_instance'', VInt 600), (''aggregation'', VDict [(''current'', VStr ''voltage_weighted_bms_estimate''), (''soc'', VStr ''minimum_member''), (''remaining_capacity'', VStr ''minimum_remaining_ah'')]), (''output'', VStr ''managed''), (''protection_profile'', profile_value default_profile), (''system_voltage_limit'', VInt 60)]"

definition managed_document :: pyval where
  "managed_document = VDict [(''config_version'', VInt 1), (''chains'', VList [VDict managed_row])]"

lemma offline_parses: "json_loads unique_object offline_manifest = Inr offline_document"
  by code_simp

lemma offline_chains: "is_ok (parse_manifest (\<lambda>_. True) offline_document)"
  by code_simp

lemma offline_valid: "utf8_valid offline_manifest" "\<not> starts_with [CHR 0xEF, CHR 0xBB, CHR 0xBF] offline_manifest"
  "length offline_manifest = 386"
  by code_simp+

lemma offline_loads: "\<exists>cs. load_manifest uni (Inr offline_manifest) = Inr cs" if "uni = (\<lambda>_. True)"
  using offline_chains offline_parses offline_valid
  by (simp add: load_manifest_def json_loads_bytes_def Let_def MAX_MANIFEST_BYTES_def is_ok_iff that)

theorem manifest_validated_witness:
  "\<exists>cs. load_manifest (\<lambda>_. True) (Inr offline_manifest) = Inr cs \<and> manifest_wf cs"
  using offline_loads manifest_validated by blast

definition string_profile :: dvcc_profile where
  "string_profile = default_profile\<lparr>max_charge_current := Fin 60, max_discharge_current := Fin 85\<rparr>"

definition string_members :: "member_topology list" where
  "string_members = [\<lparr>bms_id = 7, member_cells = 8, member_temperatures = 1, capacity_ah = Some (Fin 100),
       member_charge_current = Some (Fin 60), member_discharge_current = Some (Fin 95)\<rparr>,
     \<lparr>bms_id = 3, member_cells = 8, member_temperatures = 1, capacity_ah = Some (Fin 120),
       member_charge_current = Some (Fin 70), member_discharge_current = Some (Fin 85)\<rparr>]"

definition string_chain :: chain_topology where
  "string_chain = \<lparr>chain_id = ''h'', topic_prefix = ''b'', telemetry_schema = 2, members = string_members,
     service_suffix = ''h'', device_instance = 600, product_name = ''h'', chain_output = ''managed'',
     protection_profile = Some string_profile, system_voltage_limit = Some (Fin 60)\<rparr>"

lemma default_post_init: "post_init default_profile = Inr default_profile"
  using profile_ok_default by (simp add: profile_ok_def)

lemma string_literals:
  "fl (54043195528445955 / 4503599627370496) = Fin (12)" "fl (81064793292668925 / 4503599627370496) = Fin (18)" "fl (8219069319951155 / 140737488355328) = Fin (8219069319951155 / 140737488355328)"
  by code_simp+

lemma string_profile_limited: "limited_profile default_profile string_members = string_profile"
  by (simp add: limited_profile_def string_members_def string_profile_def Let_def List.map_filter_def
    fmin_list_def fmin3_def fmin_def constants literals string_literals)

lemma string_profile_checked: "post_init string_profile = Inr string_profile"
proof -
  have "profile_checks string_profile = Inr string_profile"
    by (simp add: profile_checks_def ordered_cells_def ordered_imbalance_def ordered_temps_def factor_fields_def
      fmin3_def fmin_def literals string_literals constants string_profile_def)
  moreover have "foldM (\<lambda>(name, f) _. number_ok name f) (profile_fields string_profile) () = Inr ()"
    by (simp add: profile_fields_def constants literals number_ok_small string_profile_def)
  ultimately show ?thesis by (simp add: post_init_def)
qed

lemma managed_protection:
  "protection_of (profile_value default_profile) ''managed'' string_members = Inr (Some string_profile)"
  using document_reads_back [OF default_post_init] string_profile_checked
  by (simp add: protection_of_def string_profile_limited) (simp add: string_members_def equal_cells_def member_rated_def)

lemma managed_members:
  "vget row ''members'' = VList [VDict [(''bms_id'', VInt 7), (''cells'', VInt 8), (''capacity_ah'', VInt 100), (''max_charge_current'', VInt 60), (''max_discharge_current'', VInt 95)], VDict [(''bms_id'', VInt 3), (''cells'', VInt 8), (''capacity_ah'', VInt 120), (''max_charge_current'', VInt 70), (''max_discharge_current'', VInt 85)]] \<Longrightarrow>
    members_of row 2 = Inr string_members"
  by (simp add: members_of_def vget_def dict_get_def get_default_def member_of_def object_of_def integer_of_def positive_of_def
    dict_keys_def MAX_MEMBERS_def MAX_CELLS_PER_MEMBER_def string_members_def of_pyint_exact)

lemma managed_checks:
  "id_pattern ''h''" "topic_pattern ''b''" "suffix_pattern ''h''" "is_printable (\<lambda>_. True) ''h''" "py_len ''h'' = 1" "py_len ''b'' = 1"
  by code_simp+

lemma managed_limit: "fmul (cell_max_voltage string_profile) (Fin 16) = Fin (8219069319951155 / 140737488355328)"
  by (simp add: string_profile_def constants literals string_literals)

lemmas row_simps = managed_row_def vget_def dict_get_def get_default_def dict_keys_def object_of_def

lemma managed_fields:
  "object_of (VDict managed_row) ''chain'' chain_required [''product_name'', ''system_voltage_limit''] = Inr managed_row"
  "identifier_of (vget managed_row ''id'') ''chain id'' id_pattern = Inr ''h''"
  "vget managed_row ''connection'' = VStr ''series''"
  "prefix_of managed_row = Inr (''b'', 2)"
  "members_of managed_row 2 = Inr string_members"
  "identifier_of (vget managed_row ''service_suffix'') ''service_suffix'' suffix_pattern = Inr ''h''"
  "integer_of (vget managed_row ''device_instance'') ''device_instance'' 0 65535 = Inr 600"
  "product_of (\<lambda>_. True) managed_row ''h'' = Inr ''h''"
  "policies_ok managed_row = Inr ()"
  "output_of managed_row = Inr ''managed''"
  "vget managed_row ''protection_profile'' = profile_value default_profile"
  "positive_of (vget managed_row ''system_voltage_limit'') ''system_voltage_limit'' = Inr (Some (Fin 60))"
  by (simp_all add: row_simps chain_required_def identifier_of_def prefix_of_def integer_of_def managed_members
    product_of_def policies_ok_def expected_policies_def output_of_def positive_of_def of_pyint_exact managed_checks)

lemma managed_voltage: "voltage_ok ''managed'' (Some string_profile) string_members (Some (Fin 60)) = Inr ()"
  using managed_limit by (simp add: voltage_ok_def string_members_def of_pyint_exact)

lemma managed_chain: "chain_of (\<lambda>_. True) (VDict managed_row) = Inr string_chain"
  by (simp add: chain_of_def managed_fields managed_protection managed_voltage string_chain_def check_def)

lemma managed_parses: "parse_manifest (\<lambda>_. True) managed_document = Inr [string_chain]"
  by (simp add: parse_manifest_def managed_document_def object_of_def dict_keys_def integer_of_def vget_def dict_get_def
    get_default_def unique_chains_def managed_chain) (simp add: string_chain_def)

lemma managed_value: "value_ok managed_document"
proof -
  have "list_all (\<lambda>(n, f). fvalid f) (profile_fields default_profile)"
    using profile_ok_default by (simp add: profile_ok_def)
  then have "value_ok (profile_value default_profile)"
    by (auto simp: profile_value_def list_all_iff)
  then show ?thesis by (simp add: managed_document_def managed_row_def)
qed

theorem managed_profile_safe_witness:
  "profile_ok string_profile \<and> list_all (within_rating string_profile) string_members"
  using managed_profile_safe [OF managed_parses managed_value, of string_chain string_profile]
  by (simp add: string_chain_def list_all_iff)

theorem flattened_cells_unique_witness:
  "\<exists>!p. fst p < length string_members \<and> 1 \<le> snd p \<and> snd p \<le> member_cells (string_members ! fst p)
    \<and> 11 = cell_offsets string_chain ! fst p + snd p"
proof -
  have "chain_wf string_chain"
    using parse_manifest_ok [OF managed_parses managed_value] by (simp add: manifest_wf_def)
  moreover have "total_cells string_chain = 16" by (simp add: total_cells_def string_chain_def string_members_def)
  moreover have "members string_chain = string_members" by (simp add: string_chain_def)
  ultimately show ?thesis using flattened_cells_unique [of string_chain 11] by simp
qed

theorem profile_document_roundtrip_witness:
  "from_mapping (profile_value default_profile) = Inr default_profile"
  by (rule profile_document_roundtrip) (rule default_post_init)

end
