(* ===== verification/BmsData.thy ===== *)
theory BmsData
  imports PyJson "HOL-Library.List_Lexorder" "HOL-Library.Char_ord"
begin

text \<open>
  \<open>dbus_mqtt_battery/bms_data.py\<close>: the container of one BMS unit.  \<open>battery_data\<close> is the
  class with its slots (the lock is the handler's atomicity), \<open>update\<close> the only writer of
  measurements, \<open>missing_fields\<close> the validity check.  Every method takes the monotonic
  clock reading it uses as the argument \<open>clk\<close>.  The lemmas say which operations may renew
  the freshness of which field and what a valid battery is.
\<close>

named_theorems battery_simps \<open>unfolding battery operations\<close>

definition STALE_TIMEOUT :: int where
  "STALE_TIMEOUT = 60"

definition float_keys :: "string list" where
  "float_keys = [''voltage'', ''current'', ''power'', ''soc'', ''capacity_remaining'', ''capacity_total'']"

definition int_keys :: "string list" where
  "int_keys = [''cycles'']"

definition bool_keys :: "string list" where
  "bool_keys = [''charging'', ''discharging'', ''balancing'', ''online'']"

definition live_keys :: "string list" where
  "live_keys = [''voltage'', ''current'', ''power'', ''soc'']"

record battery_data =
  battery_id :: int
  voltage :: "pyfloat option"
  current :: "pyfloat option"
  power :: "pyfloat option"
  soc :: "pyfloat option"
  capacity_remaining :: "pyfloat option"
  capacity_total :: "pyfloat option"
  cycles :: "int option"
  temperature :: "pyfloat option"
  temperatures :: "(int \<times> pyfloat) list"
  cells :: "(int \<times> pyfloat) list"
  cell_count :: int
  charging :: "bool option"
  discharging :: "bool option"
  balancing :: bool
  online :: "bool option"
  last_update :: pyfloat
  sample_times :: "(string \<times> pyfloat) list"

definition new_battery :: "int \<Rightarrow> int \<Rightarrow> battery_data" where
  "new_battery bid cells_per_bms = \<lparr>battery_id = bid, voltage = None, current = None, power = None,
     soc = None, capacity_remaining = None, capacity_total = None, cycles = None,
     temperature = None, temperatures = [], cells = [], cell_count = cells_per_bms,
     charging = None, discharging = None, balancing = False, online = None,
     last_update = Fin 0, sample_times = []\<rparr>"

text \<open>The values callers pass to \<open>update\<close>: MQTT payload text, decoded numbers and JSON booleans.\<close>

datatype upd_value = UStr string | UNum pyfloat | UBool bool

fun upd_text :: "upd_value \<Rightarrow> string option" where
  "upd_text (UStr s) = Some (py_upper s)"
| "upd_text (UBool b) = Some (if b then ''TRUE'' else ''FALSE'')"
| "upd_text (UNum f) = None"

fun upd_float :: "upd_value \<Rightarrow> pyfloat res" where
  "upd_float (UStr s) = (case float_of_str s of None \<Rightarrow> Inl (ValueError ''could not convert string to float'') | Some f \<Rightarrow> Inr f)"
| "upd_float (UNum f) = Inr f"
| "upd_float (UBool b) = Inr (Fin (if b then 1 else 0))"

text \<open>
  \<open>_update_boolean\<close>.  The decimal text of a float always holds a point, an exponent, \<open>inf\<close>
  or \<open>nan\<close>, so it is never one of the accepted words.
\<close>

definition set_status :: "string \<Rightarrow> bool option \<Rightarrow> battery_data \<Rightarrow> battery_data" where
  "set_status key v b =
     (if key = ''charging'' then b\<lparr>charging := v\<rparr>
      else if key = ''discharging'' then b\<lparr>discharging := v\<rparr>
      else if key = ''online'' then b\<lparr>online := v\<rparr>
      else if key = ''balancing'' then (case v of Some x \<Rightarrow> b\<lparr>balancing := x\<rparr> | None \<Rightarrow> b)
      else b)"

definition update_boolean :: "string \<Rightarrow> upd_value \<Rightarrow> battery_data \<Rightarrow> battery_data" where
  "update_boolean key value b =
     (let text = upd_text value;
          on = (case text of Some t \<Rightarrow> t \<in> set [''ON'', ''TRUE'', ''1''] | None \<Rightarrow> False);
          off = (case text of Some t \<Rightarrow> t \<in> set [''OFF'', ''FALSE'', ''0''] | None \<Rightarrow> False)
      in if \<not> on \<and> \<not> off
         then (if key \<in> set [''charging'', ''discharging'', ''online''] then set_status key None b else b)
         else set_status key (Some on) b)"

text \<open>\<open>_sensor_index\<close>: malformed or non-positive indices raise.\<close>

definition sensor_index :: "string \<Rightarrow> int res" where
  "sensor_index key = (case int_of_str (after_first (CHR ''_'') key) of
     None \<Rightarrow> Inl (ValueError ''invalid literal for int()'')
   | Some i \<Rightarrow> if i < 1 then Inl (ValueError ''Sensor index must be positive'') else Inr i)"

definition neg40 :: pyfloat where
  "neg40 = Fin (-40)"

text \<open>\<open>sum(xs) / len(xs)\<close>.\<close>

definition fmean :: "pyfloat list \<Rightarrow> pyfloat res" where
  "fmean xs = fdiv (fsum xs) (Fin (of_nat (length xs)))"

definition update_temperature_sensor :: "string \<Rightarrow> pyfloat \<Rightarrow> battery_data \<Rightarrow> battery_data res" where
  "update_temperature_sensor key value b = and_then (sensor_index key) (\<lambda>i.
     let temps = dict_set i value (temperatures b);
         valid_temps = filter (\<lambda>t. flt neg40 t) (dict_vals temps)
     in if valid_temps = [] then Inr (b\<lparr>temperatures := temps, temperature := None\<rparr>)
        else and_then (fmean valid_temps) (\<lambda>m. Inr (b\<lparr>temperatures := temps, temperature := Some m\<rparr>)))"

definition update_cell_voltage :: "string \<Rightarrow> pyfloat \<Rightarrow> battery_data \<Rightarrow> battery_data res" where
  "update_cell_voltage key value b = and_then (sensor_index key) (\<lambda>i.
     Inr (b\<lparr>cells := dict_set i value (cells b)\<rparr>))"

definition set_float_field :: "string \<Rightarrow> pyfloat \<Rightarrow> battery_data \<Rightarrow> battery_data" where
  "set_float_field key v b =
     (if key = ''voltage'' then b\<lparr>voltage := Some v\<rparr>
      else if key = ''current'' then b\<lparr>current := Some v\<rparr>
      else if key = ''power'' then b\<lparr>power := Some v\<rparr>
      else if key = ''soc'' then b\<lparr>soc := Some v\<rparr>
      else if key = ''capacity_remaining'' then b\<lparr>capacity_remaining := Some v\<rparr>
      else b\<lparr>capacity_total := Some v\<rparr>)"

text \<open>\<open>_store_numeric\<close>: the new battery and whether the key was recognised.\<close>

definition store_numeric :: "string \<Rightarrow> pyfloat \<Rightarrow> battery_data \<Rightarrow> (battery_data \<times> bool) res" where
  "store_numeric key numeric b =
     (if starts_with ''temperature_'' key
      then and_then (update_temperature_sensor key numeric b) (\<lambda>b'. Inr (b', True))
      else if starts_with ''cell_'' key
      then and_then (update_cell_voltage key numeric b) (\<lambda>b'. Inr (b', True))
      else if key \<in> set float_keys then Inr (set_float_field key numeric b, True)
      else if key \<in> set int_keys
      then and_then (ftrunc numeric) (\<lambda>n. Inr (b\<lparr>cycles := Some n\<rparr>, True))
      else Inr (b, False))"

text \<open>A failed reading of a known sample expires it at once.\<close>

definition expire_sample :: "string \<Rightarrow> battery_data \<Rightarrow> battery_data" where
  "expire_sample key b =
     (if map_of (sample_times b) key \<noteq> None
      then b\<lparr>sample_times := dict_set key NInf (sample_times b)\<rparr> else b)"

definition is_live_key :: "string \<Rightarrow> bool" where
  "is_live_key key = (key \<in> set live_keys \<or> starts_with ''cell_'' key \<or> starts_with ''temperature_'' key)"

definition canonical_key :: "string \<Rightarrow> string" where
  "canonical_key key = (if key = ''temperature'' then ''temperature_1'' else key)"

definition update :: "pyfloat \<Rightarrow> string \<Rightarrow> upd_value \<Rightarrow> battery_data \<Rightarrow> battery_data" where
  "update clk key0 value b =
     (let key = canonical_key key0 in
      if key \<in> set bool_keys then update_boolean key value b
      else case upd_float value of
        Inl e \<Rightarrow> expire_sample key b
      | Inr numeric \<Rightarrow>
          if \<not> is_finite numeric then expire_sample key b
          else case store_numeric key numeric b of
            Inl e \<Rightarrow> expire_sample key b
          | Inr (b', recognised) \<Rightarrow>
              if \<not> recognised then b'
              else if is_live_key key
              then b'\<lparr>last_update := clk, sample_times := dict_set key clk (sample_times b')\<rparr>
              else b')"

text \<open>\<open>copy\<close>: every slot, the dictionaries detached.  Values are immutable here, so the copy is the value.\<close>

definition copy :: "battery_data \<Rightarrow> battery_data" where
  "copy b = b"

text \<open>\<open>max(values, default=...)\<close> and \<open>min(values, default=...)\<close>.\<close>

definition fmax_default :: "pyfloat \<Rightarrow> pyfloat list \<Rightarrow> pyfloat" where
  "fmax_default d xs = (case xs of [] \<Rightarrow> d | y # ys \<Rightarrow> max_by id y ys)"

definition fmin_option :: "pyfloat list \<Rightarrow> pyfloat option" where
  "fmin_option xs = (case xs of [] \<Rightarrow> None | y # ys \<Rightarrow> Some (min_by id y ys))"

definition mark_sample_time :: "string list \<Rightarrow> pyfloat \<Rightarrow> battery_data \<Rightarrow> battery_data" where
  "mark_sample_time names sampled_at b =
     (let st = foldl (\<lambda>st f. dict_set f sampled_at st) (sample_times b) names
      in b\<lparr>sample_times := st, last_update := fmax_default sampled_at (dict_vals st)\<rparr>)"

definition min_temperature :: "battery_data \<Rightarrow> pyfloat option \<times> int" where
  "min_temperature b = (case filter (\<lambda>(i, t). flt neg40 t) (temperatures b) of
     [] \<Rightarrow> (temperature b, 1) | p # ps \<Rightarrow> (let m = min_by snd p ps in (Some (snd m), fst m)))"

definition max_temperature :: "battery_data \<Rightarrow> pyfloat option \<times> int" where
  "max_temperature b = (case filter (\<lambda>(i, t). flt neg40 t) (temperatures b) of
     [] \<Rightarrow> (temperature b, 1) | p # ps \<Rightarrow> (let m = max_by snd p ps in (Some (snd m), fst m)))"

definition min_cell_voltage :: "battery_data \<Rightarrow> pyfloat option \<times> int option" where
  "min_cell_voltage b = (case filter (\<lambda>(i, v). flt (Fin 0) v) (cells b) of
     [] \<Rightarrow> (None, None) | p # ps \<Rightarrow> (let m = min_by snd p ps in (Some (snd m), Some (fst m))))"

definition max_cell_voltage :: "battery_data \<Rightarrow> pyfloat option \<times> int option" where
  "max_cell_voltage b = (case filter (\<lambda>(i, v). flt (Fin 0) v) (cells b) of
     [] \<Rightarrow> (None, None) | p # ps \<Rightarrow> (let m = max_by snd p ps in (Some (snd m), Some (fst m))))"

definition cell_key :: "int \<Rightarrow> string" where
  "cell_key i = ''cell_'' @ show_int i"

definition temp_key :: "int \<Rightarrow> string" where
  "temp_key i = ''temperature_'' @ show_int i"

text \<open>\<open>0 <= clk - t < STALE_TIMEOUT\<close>.\<close>

definition fresh :: "pyfloat \<Rightarrow> pyfloat \<Rightarrow> bool" where
  "fresh clk t = (let d = fsub clk t in fle (Fin 0) d \<and> flt d (Fin (of_int STALE_TIMEOUT)))"

definition required_fields :: "battery_data \<Rightarrow> string list" where
  "required_fields b = [''voltage'', ''current'', ''soc''] @ map cell_key [1..cell_count b]
     @ (if temperatures b = [] then [''temperature_1''] else map temp_key (dict_keys (temperatures b)))"

definition stale_keys :: "pyfloat \<Rightarrow> battery_data \<Rightarrow> string list" where
  "stale_keys clk b = filter (\<lambda>k. case map_of (sample_times b) k of None \<Rightarrow> True | Some t \<Rightarrow> \<not> fresh clk t)
     (required_fields b @ dict_keys (sample_times b))"

text \<open>\<open>0 <= soc <= 100\<close> and the positivity checks, with their \<open>None\<close> cases.\<close>

definition positive_voltage :: "battery_data \<Rightarrow> bool" where
  "positive_voltage b = (case voltage b of None \<Rightarrow> False | Some v \<Rightarrow> \<not> fle v (Fin 0))"

definition soc_in_range :: "battery_data \<Rightarrow> bool" where
  "soc_in_range b = (case soc b of None \<Rightarrow> False | Some s \<Rightarrow> fle (Fin 0) s \<and> fle s (Fin 100))"

definition positive_cells :: "battery_data \<Rightarrow> bool" where
  "positive_cells b = list_all (\<lambda>i. \<not> fle (dict_get i (Fin 0) (cells b)) (Fin 0)) [1..cell_count b]"

definition missing_fields :: "pyfloat \<Rightarrow> battery_data \<Rightarrow> string list" where
  "missing_fields clk b = sort (remdups (stale_keys clk b))
     @ (if charging b = None then [''charging''] else [])
     @ (if discharging b = None then [''discharging''] else [])
     @ (if online b \<noteq> Some True then [''online''] else [])
     @ (if \<not> positive_voltage b then [''positive_voltage''] else [])
     @ (if \<not> soc_in_range b then [''soc_range''] else [])
     @ (if \<not> positive_cells b then [''positive_cells''] else [])
     @ (if temperature b = None then [''temperature''] else [])"

definition is_valid :: "pyfloat \<Rightarrow> battery_data \<Rightarrow> bool" where
  "is_valid clk b = (missing_fields clk b = [])"

definition oldest_sample_time :: "battery_data \<Rightarrow> pyfloat option" where
  "oldest_sample_time b = fmin_option (dict_vals (sample_times b))"

section \<open>Which operation may renew which sample\<close>

abbreviation sample :: "battery_data \<Rightarrow> string \<Rightarrow> pyfloat option" where
  "sample b k \<equiv> map_of (sample_times b) k"

lemma set_status_frame [simp]:
  "sample_times (set_status k v b) = sample_times b"
  "last_update (set_status k v b) = last_update b"
  "battery_id (set_status k v b) = battery_id b"
  "cell_count (set_status k v b) = cell_count b"
  "temperatures (set_status k v b) = temperatures b"
  "cells (set_status k v b) = cells b"
  "voltage (set_status k v b) = voltage b" "current (set_status k v b) = current b"
  "power (set_status k v b) = power b" "soc (set_status k v b) = soc b"
  "temperature (set_status k v b) = temperature b"
  "capacity_remaining (set_status k v b) = capacity_remaining b"
  "capacity_total (set_status k v b) = capacity_total b" "cycles (set_status k v b) = cycles b"
  by (auto simp: set_status_def split: option.splits)

lemma update_boolean_frame [simp]:
  "sample_times (update_boolean k v b) = sample_times b"
  "last_update (update_boolean k v b) = last_update b"
  "battery_id (update_boolean k v b) = battery_id b"
  "cell_count (update_boolean k v b) = cell_count b"
  "temperatures (update_boolean k v b) = temperatures b"
  "cells (update_boolean k v b) = cells b"
  "voltage (update_boolean k v b) = voltage b" "current (update_boolean k v b) = current b"
  "power (update_boolean k v b) = power b" "soc (update_boolean k v b) = soc b"
  "temperature (update_boolean k v b) = temperature b"
  "capacity_remaining (update_boolean k v b) = capacity_remaining b"
  "capacity_total (update_boolean k v b) = capacity_total b" "cycles (update_boolean k v b) = cycles b"
  by (auto simp: update_boolean_def Let_def)

lemma expire_sample_frame [simp]:
  "battery_id (expire_sample k b) = battery_id b" "cell_count (expire_sample k b) = cell_count b"
  "temperatures (expire_sample k b) = temperatures b" "cells (expire_sample k b) = cells b"
  "voltage (expire_sample k b) = voltage b" "current (expire_sample k b) = current b"
  "power (expire_sample k b) = power b" "soc (expire_sample k b) = soc b"
  "temperature (expire_sample k b) = temperature b" "charging (expire_sample k b) = charging b"
  "discharging (expire_sample k b) = discharging b" "online (expire_sample k b) = online b"
  "capacity_remaining (expire_sample k b) = capacity_remaining b"
  "capacity_total (expire_sample k b) = capacity_total b"
  "last_update (expire_sample k b) = last_update b"
  by (simp_all add: expire_sample_def)

lemma sample_expire_sample:
  "sample (expire_sample k b) j = (if j = k \<and> sample b k \<noteq> None then Some NInf else sample b j)"
  by (simp add: expire_sample_def)

lemma set_float_field_frame [simp]:
  "sample_times (set_float_field k v b) = sample_times b"
  "last_update (set_float_field k v b) = last_update b"
  "battery_id (set_float_field k v b) = battery_id b"
  "cell_count (set_float_field k v b) = cell_count b"
  "temperatures (set_float_field k v b) = temperatures b"
  "temperature (set_float_field k v b) = temperature b"
  "cells (set_float_field k v b) = cells b" "cycles (set_float_field k v b) = cycles b"
  "charging (set_float_field k v b) = charging b" "discharging (set_float_field k v b) = discharging b"
  "online (set_float_field k v b) = online b" "balancing (set_float_field k v b) = balancing b"
  by (simp_all add: set_float_field_def)

lemma update_temperature_sensor_Inr:
  assumes "update_temperature_sensor k x b = Inr b'"
  obtains i m where "sensor_index k = Inr i"
    "b' = b\<lparr>temperatures := dict_set i x (temperatures b), temperature := m\<rparr>"
  using assms by (auto simp: update_temperature_sensor_def Let_def split: if_splits)

lemma update_cell_voltage_Inr:
  assumes "update_cell_voltage k x b = Inr b'"
  obtains i where "sensor_index k = Inr i" "b' = b\<lparr>cells := dict_set i x (cells b)\<rparr>"
  using assms by (auto simp: update_cell_voltage_def)

text \<open>What a successful store changes.\<close>

lemma store_numeric_cases:
  assumes "store_numeric k x b = Inr (b', r)"
  obtains (temp) i m where "sensor_index k = Inr i" "r"
      "b' = b\<lparr>temperatures := dict_set i x (temperatures b), temperature := m\<rparr>"
  | (cell) i where "sensor_index k = Inr i" "r" "b' = b\<lparr>cells := dict_set i x (cells b)\<rparr>"
  | (scalar) "b' = set_float_field k x b" "r" "k \<in> set float_keys"
  | (cycle) n where "b' = b\<lparr>cycles := Some n\<rparr>" "r"
  | (none) "b' = b" "\<not> r"
proof -
  note eq = assms [unfolded store_numeric_def]
  show ?thesis
  proof (cases "starts_with ''temperature_'' k")
    case True
    with eq have r: "update_temperature_sensor k x b = Inr b'" "r" by simp_all
    from r(1) show ?thesis by (rule update_temperature_sensor_Inr) (rule temp, assumption, rule r(2))
  next
    case nt: False
    show ?thesis
    proof (cases "starts_with ''cell_'' k")
      case True
      with nt eq have r: "update_cell_voltage k x b = Inr b'" "r" by simp_all
      from r(1) show ?thesis by (rule update_cell_voltage_Inr) (rule cell, assumption, rule r(2))
    next
      case nc: False
      show ?thesis
      proof (cases "k \<in> set float_keys")
        case True
        with nt nc eq show ?thesis by (intro scalar) simp_all
      next
        case nf: False
        show ?thesis
        proof (cases "k \<in> set int_keys")
          case True
          with nt nc nf eq obtain n where "b' = b\<lparr>cycles := Some n\<rparr>" "r" by auto
          then show ?thesis by (rule cycle)
        next
          case False
          with nt nc nf eq show ?thesis by (intro none) simp_all
        qed
      qed
    qed
  qed
qed

lemma store_numeric_frame:
  "store_numeric k x b = Inr (b', r) \<Longrightarrow> sample_times b' = sample_times b \<and> last_update b' = last_update b
     \<and> battery_id b' = battery_id b \<and> cell_count b' = cell_count b \<and> charging b' = charging b
     \<and> discharging b' = discharging b \<and> online b' = online b \<and> balancing b' = balancing b"
  by (erule store_numeric_cases) simp_all

lemma store_numeric_unrecognised: "store_numeric k x b = Inr (b', False) \<Longrightarrow> b' = b"
  by (erule store_numeric_cases) simp_all

text \<open>The four ways an update ends.\<close>

lemma update_cases:
  obtains (status) "canonical_key k \<in> set bool_keys" "update clk k v b = update_boolean (canonical_key k) v b"
  | (failed) "canonical_key k \<notin> set bool_keys" "update clk k v b = expire_sample (canonical_key k) b"
  | (ignored) "canonical_key k \<notin> set bool_keys" "update clk k v b = b"
  | (stored) x b' where "canonical_key k \<notin> set bool_keys" "upd_float v = Inr x" "is_finite x"
      "store_numeric (canonical_key k) x b = Inr (b', True)"
      "update clk k v b = (if is_live_key (canonical_key k)
         then b'\<lparr>last_update := clk, sample_times := dict_set (canonical_key k) clk (sample_times b')\<rparr> else b')"
proof (cases "canonical_key k \<in> set bool_keys")
  case True
  then show ?thesis by (intro status) (simp_all add: update_def Let_def)
next
  case False
  note nb = this
  show ?thesis
  proof (cases "upd_float v")
    case (Inl e)
    with nb show ?thesis by (intro failed) (simp_all add: update_def Let_def)
  next
    case (Inr x)
    show ?thesis
    proof (cases "is_finite x")
      case False
      with nb Inr show ?thesis by (intro failed) (simp_all add: update_def Let_def)
    next
      case True
      show ?thesis
      proof (cases "store_numeric (canonical_key k) x b")
        case (Inl e)
        with nb Inr True show ?thesis by (intro failed) (simp_all add: update_def Let_def)
      next
        case (Inr p)
        then obtain b' r where p: "store_numeric (canonical_key k) x b = Inr (b', r)" by (cases p) auto
        show ?thesis
        proof (cases r)
          case True
          with nb \<open>upd_float v = Inr x\<close> \<open>is_finite x\<close> p show ?thesis
            by (intro stored [of x b']) (simp_all add: update_def Let_def)
        next
          case False
          with nb \<open>upd_float v = Inr x\<close> \<open>is_finite x\<close> p store_numeric_unrecognised [of "canonical_key k" x b b']
          show ?thesis by (intro ignored) (simp_all add: update_def Let_def)
        qed
      qed
    qed
  qed
qed

lemma update_other_sample:
  "j \<noteq> canonical_key k \<Longrightarrow> sample (update clk k v b) j = sample b j"
  by (cases rule: update_cases [where k = k and clk = clk and v = v and b = b])
    (auto simp: sample_expire_sample dest!: store_numeric_frame)

lemma update_sample_value:
  "sample (update clk k v b) j = Some t \<Longrightarrow> t = clk \<or> t = NInf \<or> sample b j = Some t"
  by (cases rule: update_cases [where k = k and clk = clk and v = v and b = b])
    (auto simp: sample_expire_sample dest!: store_numeric_frame split: if_splits)

lemma update_inventory [simp]:
  "battery_id (update clk k v b) = battery_id b" "cell_count (update clk k v b) = cell_count b"
  by (cases rule: update_cases [where k = k and clk = clk and v = v and b = b]; auto dest!: store_numeric_frame)+

text \<open>Status, capacity and cycle updates never renew a measurement.\<close>

lemma update_not_live:
  assumes "\<not> is_live_key (canonical_key k)"
  shows "sample (update clk k v b) j = sample b j \<or> sample (update clk k v b) j = Some NInf"
  using assms by (cases rule: update_cases [where k = k and clk = clk and v = v and b = b])
    (auto simp: sample_expire_sample dest!: store_numeric_frame)

section \<open>Freshness\<close>

definition clock :: "pyfloat \<Rightarrow> bool" where
  "clock t \<longleftrightarrow> is_finite t \<and> fvalid t"

lemma clock_iff: "clock t \<longleftrightarrow> (\<exists>c. t = Fin c \<and> is_dbl c \<and> \<bar>c\<bar> < fmax)"
  by (cases t) (auto simp: clock_def)

lemma sixty_dbl [simp]: "is_dbl 60"
  using is_dbl_of_int [of 60] by simp

lemma fl_less_60: "flt (fl x) (Fin 60) \<Longrightarrow> x < 60"
proof (rule ccontr)
  assume a: "flt (fl x) (Fin 60)" "\<not> x < 60"
  then have "60 \<le> round64 x" by (intro r64.rnd_ge) auto
  with a(1) fmax_pos show False by (auto simp: fl_def Let_def split: if_splits)
qed

lemma fl_nonneg_imp: "fle (Fin 0) (fl (x - y)) \<Longrightarrow> is_dbl x \<Longrightarrow> is_dbl y \<Longrightarrow> y \<le> x"
proof (rule ccontr)
  assume a: "fle (Fin 0) (fl (x - y))" "is_dbl x" "is_dbl y" "\<not> y \<le> x"
  then have "0 < round64 (y - x)" by (intro round64_diff_pos) auto
  then have "round64 (x - y) < 0" using round64_uminus [of "y - x"] by simp
  with a(1) fmax_pos show False by (auto simp: fl_def Let_def split: if_splits)
qed

lemma fresh_bounds:
  assumes "fresh (Fin c) (Fin t)" "is_dbl c" "is_dbl t"
  shows "t \<le> c" and "c < t + 60"
  using assms fl_nonneg_imp [of c t] fl_less_60 [of "c - t"]
  by (auto simp: fresh_def Let_def STALE_TIMEOUT_def)

lemma fresh_NInf [simp]: "\<not> fresh (Fin c) NInf"
  by (simp add: fresh_def fsub_def)

lemma fresh_earlier:
  assumes "fresh (Fin c') (Fin t)" "c \<le> c'" "t \<le> c"
  shows "fresh (Fin c) (Fin t)"
proof -
  have r: "0 \<le> round64 (c - t)" "round64 (c - t) \<le> round64 (c' - t)"
    using assms by (auto intro: round64_nonneg round64_mono)
  have "flt (fl (c' - t)) (Fin 60)" using assms(1) by (simp add: fresh_def Let_def STALE_TIMEOUT_def)
  then have "round64 (c' - t) < 60 \<and> round64 (c' - t) < fmax"
    using fmax_pos r by (auto simp: fl_def Let_def split: if_splits)
  with r fmax_pos show ?thesis
    by (auto simp: fresh_def STALE_TIMEOUT_def fl_def Let_def)
qed

section \<open>What a valid battery is\<close>

lemma stale_keys_Nil_iff:
  "stale_keys clk b = [] \<longleftrightarrow>
     (\<forall>k \<in> set (required_fields b) \<union> dom (map_of (sample_times b)). \<exists>t. sample b k = Some t \<and> fresh clk t)"
proof -
  have "(\<not> (case sample b k of None \<Rightarrow> True | Some t \<Rightarrow> \<not> fresh clk t)) \<longleftrightarrow> (\<exists>t. sample b k = Some t \<and> fresh clk t)" for k
    by (cases "sample b k") auto
  then show ?thesis
    by (simp add: stale_keys_def filter_empty_conv set_dict_keys ball_Un)
qed

lemma sort_remdups_Nil: "sort (remdups xs) = [] \<longleftrightarrow> xs = []"
  by (metis remdups_eq_nil_iff length_0_conv length_sort)

lemma is_valid_iff:
  "is_valid clk b \<longleftrightarrow>
     (\<forall>k \<in> set (required_fields b) \<union> dom (map_of (sample_times b)). \<exists>t. sample b k = Some t \<and> fresh clk t)
     \<and> charging b \<noteq> None \<and> discharging b \<noteq> None \<and> online b = Some True
     \<and> positive_voltage b \<and> soc_in_range b \<and> positive_cells b \<and> temperature b \<noteq> None"
  unfolding is_valid_def missing_fields_def
  by (simp only: append_is_Nil_conv sort_remdups_Nil stale_keys_Nil_iff) auto

lemma valid_sample_fresh: "is_valid clk b \<Longrightarrow> sample b k = Some t \<Longrightarrow> fresh clk t"
  unfolding is_valid_iff by (metis UnI2 domI option.inject)

lemma valid_required: "is_valid clk b \<Longrightarrow> k \<in> set (required_fields b) \<Longrightarrow> \<exists>t. sample b k = Some t \<and> fresh clk t"
  unfolding is_valid_iff by blast

lemma fmin_option_in: "fmin_option xs = Some m \<Longrightarrow> m \<in> set xs"
  using min_by_in by (fastforce simp: fmin_option_def split: list.splits)

lemma fmin_option_le:
  "fmin_option xs = Some m \<Longrightarrow> NaN \<notin> set xs \<Longrightarrow> x \<in> set xs \<Longrightarrow> fle m x"
  using min_by_le [where key = id and y = x] by (cases xs) (simp_all add: fmin_option_def, metis)

lemma fmin_option_None [simp]: "fmin_option xs = None \<longleftrightarrow> xs = []"
  by (simp add: fmin_option_def split: list.splits)

lemma oldest_in: "oldest_sample_time b = Some t \<Longrightarrow> distinct (dict_keys (sample_times b)) \<Longrightarrow> \<exists>k. sample b k = Some t"
  by (force simp: oldest_sample_time_def dict_vals_def dict_keys_def dest!: fmin_option_in)

lemma valid_oldest_fresh:
  assumes "is_valid clk b" "distinct (dict_keys (sample_times b))"
  shows "\<exists>t. oldest_sample_time b = Some t \<and> fresh clk t"
proof -
  have "''voltage'' \<in> set (required_fields b)" by (simp add: required_fields_def)
  with assms(1) obtain tv where "sample b ''voltage'' = Some tv" using valid_required by blast
  then have "sample_times b \<noteq> []" by auto
  then obtain t where t: "oldest_sample_time b = Some t"
    by (cases "oldest_sample_time b") (auto simp: oldest_sample_time_def dict_vals_def)
  moreover from oldest_in [OF t assms(2)] obtain k where "sample b k = Some t" by blast
  ultimately show ?thesis using valid_sample_fresh [OF assms(1)] by blast
qed

section \<open>The representation invariant\<close>

text \<open>Stored numbers are finite, dictionaries have distinct keys, sensor indices are positive, and sample times are clock readings or the expiry mark.\<close>

definition finite_opt :: "pyfloat option \<Rightarrow> bool" where
  "finite_opt v = (case v of None \<Rightarrow> True | Some f \<Rightarrow> is_finite f)"

definition battery_wf :: "battery_data \<Rightarrow> bool" where
  "battery_wf b \<longleftrightarrow> finite_opt (voltage b) \<and> finite_opt (current b) \<and> finite_opt (power b) \<and> finite_opt (soc b)
     \<and> finite_opt (capacity_remaining b) \<and> finite_opt (capacity_total b)
     \<and> distinct (dict_keys (temperatures b)) \<and> distinct (dict_keys (cells b)) \<and> distinct (dict_keys (sample_times b))
     \<and> (\<forall>(i, t) \<in> set (temperatures b). 1 \<le> i \<and> is_finite t)
     \<and> (\<forall>(i, v) \<in> set (cells b). 1 \<le> i \<and> is_finite v)
     \<and> (\<forall>(k, t) \<in> set (sample_times b). t = NInf \<or> clock t)"

lemma battery_wf_new [simp]: "battery_wf (new_battery i n)"
  by (simp add: battery_wf_def new_battery_def finite_opt_def dict_keys_def)

lemma sensor_index_pos: "sensor_index k = Inr i \<Longrightarrow> 1 \<le> i"
  by (auto simp: sensor_index_def split: option.splits if_splits)

lemma store_numeric_wf:
  assumes "store_numeric k x b = Inr (b', r)" "is_finite x" "battery_wf b"
  shows "battery_wf b'"
  using assms(1)
proof (cases rule: store_numeric_cases)
  case (temp i m)
  with assms(2,3) sensor_index_pos [of k i] show ?thesis
    by (auto simp: battery_wf_def dest!: in_set_dict_set)
next
  case (cell i)
  with assms(2,3) sensor_index_pos [of k i] show ?thesis
    by (auto simp: battery_wf_def dest!: in_set_dict_set)
next
  case scalar
  then show ?thesis using assms(2,3) by (simp add: battery_wf_def set_float_field_def finite_opt_def)
qed (use assms in \<open>simp_all add: battery_wf_def\<close>)

lemma expire_sample_wf: "battery_wf b \<Longrightarrow> battery_wf (expire_sample k b)"
  by (auto simp: expire_sample_def battery_wf_def dest!: in_set_dict_set)

lemma update_boolean_wf: "battery_wf b \<Longrightarrow> battery_wf (update_boolean k v b)"
  by (simp add: battery_wf_def)

lemma update_wf:
  assumes "battery_wf b" "clock clk"
  shows "battery_wf (update clk k v b)"
proof (cases rule: update_cases [where k = k and clk = clk and v = v and b = b])
  case (stored x b')
  then have "battery_wf b'" using assms store_numeric_wf by blast
  then have "battery_wf (b'\<lparr>last_update := clk, sample_times := dict_set (canonical_key k) clk (sample_times b')\<rparr>)"
    using assms(2) by (auto simp: battery_wf_def dest!: in_set_dict_set)
  with stored \<open>battery_wf b'\<close> show ?thesis by simp
qed (simp_all add: assms expire_sample_wf update_boolean_wf)

lemma foldl_mark_map_of:
  "map_of (foldl (\<lambda>st f. dict_set f t st) st fs) k = (if k \<in> set fs then Some t else map_of st k)"
  by (induction fs arbitrary: st) auto

lemma foldl_mark_keys:
  "distinct (dict_keys st) \<Longrightarrow> distinct (dict_keys (foldl (\<lambda>st f. dict_set f t st) st fs))"
  by (induction fs arbitrary: st) auto

lemma foldl_mark_set:
  "p \<in> set (foldl (\<lambda>st f. dict_set f t st) st fs) \<Longrightarrow> snd p = t \<or> p \<in> set st"
  by (induction fs arbitrary: st) (simp, fastforce dest: in_set_dict_set)

lemma sample_mark [simp]:
  "sample (mark_sample_time fs t b) k = (if k \<in> set fs then Some t else sample b k)"
  by (simp add: mark_sample_time_def foldl_mark_map_of Let_def)

lemma mark_sample_time_wf: "battery_wf b \<Longrightarrow> t = NInf \<or> clock t \<Longrightarrow> battery_wf (mark_sample_time fs t b)"
  by (auto simp: battery_wf_def mark_sample_time_def Let_def foldl_mark_keys dest!: foldl_mark_set)

lemma mark_sample_time_frame [simp]:
  "battery_id (mark_sample_time fs t b) = battery_id b" "cell_count (mark_sample_time fs t b) = cell_count b"
  "charging (mark_sample_time fs t b) = charging b" "discharging (mark_sample_time fs t b) = discharging b"
  "online (mark_sample_time fs t b) = online b" "voltage (mark_sample_time fs t b) = voltage b"
  "cells (mark_sample_time fs t b) = cells b" "temperatures (mark_sample_time fs t b) = temperatures b"
  by (simp_all add: mark_sample_time_def Let_def)

text \<open>Every sequence of updates keeps the invariant and the configured inventory.\<close>

type_synonym battery_event = "pyfloat \<times> string \<times> upd_value"

definition update_step :: "battery_event \<Rightarrow> battery_data \<Rightarrow> battery_data" where
  "update_step e b = (case e of (clk, k, v) \<Rightarrow> update clk k v b)"

definition reading_ok :: "battery_event \<Rightarrow> bool" where
  "reading_ok e = clock (fst e)"

interpretation bms: monotone_system update_step reading_ok battery_wf
  "\<lambda>b b'. battery_id b' = battery_id b \<and> cell_count b' = cell_count b"
  by unfold_locales (auto simp: update_step_def reading_ok_def update_wf split: prod.splits)

end
