(* ===== verification/Telemetry.thy ===== *)
theory Telemetry
  imports BmsData
begin

unbundle bit_operations_syntax

text \<open>
  \<open>dbus_mqtt_battery/telemetry.py\<close>: decoding of schema-1 frames.  A complete frame builds
  detached batteries; a partial frame merges evidenced fields into copies of the previous
  ones.  \<open>now\<close> is the receipt time the caller passes, \<open>clk\<close> the clock the batteries read.
\<close>

type_synonym battery_map = "(int \<times> battery_data) list"

section \<open>Definitions\<close>

definition valid_boot_id :: "pyval \<Rightarrow> bool" where
  "valid_boot_id v = (case as_str v of None \<Rightarrow> False | Some s \<Rightarrow> 1 \<le> py_len s \<and> py_len s \<le> 128)"

definition decode_header :: "string \<Rightarrow> (pyobj \<times> string \<times> int) res" where
  "decode_header payload = and_then (json_loads dict_hook payload) (\<lambda>doc.
     case doc of VDict frame \<Rightarrow>
       if as_int (vget frame ''schema'') \<noteq> Some 1 then Inl (ValueError ''unsupported telemetry schema'')
       else if \<not> valid_boot_id (vget frame ''boot_id'') then Inl (ValueError ''invalid boot_id'')
       else (case (as_str (vget frame ''boot_id''), as_int (vget frame ''seq'')) of
         (Some boot_id, Some sequence) \<Rightarrow>
           if sequence < 0 then Inl (ValueError ''invalid sequence'')
           else if as_bool (vget frame ''ready'') = None then Inl (ValueError ''ready must be a boolean'')
           else Inr (frame, boot_id, sequence)
       | _ \<Rightarrow> Inl (ValueError ''invalid sequence''))
     | _ \<Rightarrow> Inl (ValueError ''unsupported telemetry schema''))"

definition frame_ready :: "pyobj \<Rightarrow> bool" where
  "frame_ready frame = (vget frame ''ready'' = VBool True)"

definition number :: "pyval \<Rightarrow> string \<Rightarrow> pyfloat res" where
  "number v key = (case num_of v of
     Some (Inr f) \<Rightarrow> if is_finite f then Inr f else Inl (ValueError (''invalid '' @ key))
   | _ \<Rightarrow> Inl (ValueError (''invalid '' @ key)))"

definition row_number :: "pyobj \<Rightarrow> string \<Rightarrow> pyfloat res" where
  "row_number row key = number (vget row key) key"

definition seconds_of :: "pyfloat \<Rightarrow> pyfloat res" where
  "seconds_of ms = fdiv ms (Fin 1000)"

definition stale_timeout :: pyfloat where
  "stale_timeout = Fin (of_int STALE_TIMEOUT)"

definition complete_evidence :: "pyobj \<Rightarrow> int \<Rightarrow> (pyfloat \<times> pyval list) res" where
  "complete_evidence row cells_per_bms =
     (if (has_key row ''seen_mask'' \<or> has_key row ''valid_mask'')
         \<and> (\<not> eq_int (vget row ''seen_mask'') 511 \<or> \<not> eq_int (vget row ''valid_mask'') 511)
      then Inl (ValueError ''ready frame has incomplete physical evidence'')
      else and_then (row_number row ''age_ms'') (\<lambda>ms. and_then (seconds_of ms) (\<lambda>age.
        if \<not> (fle (Fin 0) age \<and> flt age stale_timeout) then Inl (ValueError ''physical sample is expired'')
        else case vget row ''cells'' of
          VList cs \<Rightarrow> if int (length cs) \<noteq> cells_per_bms then Inl (ValueError ''missing configured cell voltages'')
            else Inr (age, cs)
        | _ \<Rightarrow> Inl (ValueError ''missing configured cell voltages''))))"

text \<open>\<open>enumerate(xs, 1)\<close>.\<close>

definition enum1 :: "'a list \<Rightarrow> (int \<times> 'a) list" where
  "enum1 xs = zip [1..int (length xs)] xs"

definition put_number :: "pyfloat \<Rightarrow> string \<Rightarrow> pyfloat res \<Rightarrow> battery_data \<Rightarrow> battery_data res" where
  "put_number clk key r b = and_then r (\<lambda>v. Inr (update clk key (UNum v) b))"

definition put_temperatures :: "pyfloat \<Rightarrow> pyobj \<Rightarrow> battery_data \<Rightarrow> battery_data res" where
  "put_temperatures clk row b = (case vget row ''temperatures'' of
     VNone \<Rightarrow> Inr b
   | VList ts \<Rightarrow> if ts = [] then Inl (ValueError ''invalid temperatures array'')
       else foldM (\<lambda>(i, t). put_number clk (temp_key i) (number t ''temperature'')) (enum1 ts) b
   | _ \<Rightarrow> Inl (ValueError ''invalid temperatures array''))"

definition put_cell :: "pyfloat \<Rightarrow> int \<times> pyval \<Rightarrow> battery_data \<Rightarrow> battery_data res" where
  "put_cell clk p b = (case p of (i, c) \<Rightarrow> and_then (number c ''cell'') (\<lambda>v.
     if fle v (Fin 0) then Inl (ValueError ''invalid cell voltage'')
     else Inr (update clk (cell_key i) (UNum v) b)))"

definition update_measurements :: "pyfloat \<Rightarrow> pyobj \<Rightarrow> pyval list \<Rightarrow> battery_data \<Rightarrow> battery_data res" where
  "update_measurements clk row cs b =
     and_then (foldM (\<lambda>f. put_number clk f (row_number row f)) [''voltage'', ''current'', ''soc'', ''temperature''] b)
       (\<lambda>b1. and_then (put_temperatures clk row b1) (foldM (put_cell clk) (enum1 cs)))"

fun is_integer :: "pyfloat \<Rightarrow> bool" where
  "is_integer (Fin x) = (of_int \<lfloor>x\<rfloor> = x)"
| "is_integer _ = False"

definition put_optional :: "pyfloat \<Rightarrow> pyobj \<Rightarrow> string \<times> string \<Rightarrow> battery_data \<Rightarrow> battery_data" where
  "put_optional clk row p b = (case p of (field, target) \<Rightarrow>
     if \<not> has_key row field then b
     else case row_number row field of Inl e \<Rightarrow> b
       | Inr v \<Rightarrow> if fle (Fin 0) v \<and> (field \<noteq> ''cycles'' \<or> is_integer v) then update clk target (UNum v) b else b)"

definition update_optional_fields :: "pyfloat \<Rightarrow> pyobj \<Rightarrow> battery_data \<Rightarrow> battery_data" where
  "update_optional_fields clk row b =
     fold (put_optional clk row) [(''capacity'', ''capacity_remaining''), (''cycles'', ''cycles'')] b"

definition put_status :: "pyfloat \<Rightarrow> pyobj \<Rightarrow> string \<Rightarrow> battery_data \<Rightarrow> battery_data res" where
  "put_status clk row field b = (case vget row field of
     VBool v \<Rightarrow> Inr (update clk field (UBool v) b)
   | _ \<Rightarrow> Inl (ValueError (''missing '' @ field @ '' status'')))"

definition status_fields :: "string list" where
  "status_fields = [''charging'', ''discharging'', ''online'']"

text \<open>\<open>battery._sample_times = {key: t for key in battery._sample_times}\<close>.\<close>

definition retime :: "pyfloat \<Rightarrow> battery_data \<Rightarrow> battery_data" where
  "retime t b = b\<lparr>sample_times := map (\<lambda>(k, _). (k, t)) (sample_times b)\<rparr>"

definition decode_complete_row :: "pyfloat \<Rightarrow> pyobj \<Rightarrow> battery_data \<Rightarrow> int \<Rightarrow> pyfloat \<Rightarrow> battery_data res" where
  "decode_complete_row clk row b cells_per_bms now =
     and_then (complete_evidence row cells_per_bms) (\<lambda>(age, cs).
     and_then (update_measurements clk row cs b) (\<lambda>b1.
     and_then (foldM (put_status clk row) status_fields b1) (\<lambda>b2.
       let t = fsub now age;
           b3 = (mark_sample_time status_fields t (retime t (update_optional_fields clk row b2)))\<lparr>last_update := t\<rparr>
       in if is_valid clk b3 then Inr b3
          else Inl (ValueError ''invalid or offline BMS in ready frame''))))"

definition empty_slots :: "int \<Rightarrow> int \<Rightarrow> battery_map" where
  "empty_slots battery_count cells_per_bms = map (\<lambda>i. (i, new_battery i cells_per_bms)) [1..battery_count]"

definition decode_row :: "pyfloat \<Rightarrow> int \<Rightarrow> int \<Rightarrow> pyfloat \<Rightarrow> pyval \<Rightarrow> battery_map \<times> int list \<Rightarrow> (battery_map \<times> int list) res" where
  "decode_row clk bms_first cells_per_bms now v s = (case s of (bats, seen) \<Rightarrow>
     case v of VDict row \<Rightarrow>
       (case as_int (vget row ''id'') of None \<Rightarrow> Inl (ValueError ''invalid BMS id'')
        | Some i \<Rightarrow> let slot = i - bms_first + 1 in
          (case map_of bats slot of None \<Rightarrow> Inr (bats, seen)
           | Some b \<Rightarrow> if slot \<in> set seen then Inl (ValueError ''duplicate BMS id'')
               else and_then (decode_complete_row clk row b cells_per_bms now) (\<lambda>b'.
                 Inr (dict_set slot b' bats, slot # seen))))
     | _ \<Rightarrow> Inl (ValueError ''invalid BMS id''))"

definition decode_batteries :: "pyfloat \<Rightarrow> pyobj \<Rightarrow> int \<Rightarrow> int \<Rightarrow> int \<Rightarrow> pyfloat \<Rightarrow> battery_map res" where
  "decode_batteries clk frame battery_count bms_first cells_per_bms now =
     (let bats = empty_slots battery_count cells_per_bms in
      if \<not> frame_ready frame then Inr bats
      else case vget frame ''batteries'' of
        VList rows \<Rightarrow>
          if int (length rows) < battery_count then Inl (ValueError ''telemetry must contain every configured BMS'')
          else and_then (foldM (decode_row clk bms_first cells_per_bms now) rows (bats, []))
            (\<lambda>(bats', seen). if int (length seen) \<noteq> battery_count
              then Inl (ValueError ''telemetry is missing a configured BMS'') else Inr bats')
      | _ \<Rightarrow> Inl (ValueError ''telemetry must contain every configured BMS''))"

subsection \<open>Partial frames\<close>

definition partial_evidence :: "pyobj \<Rightarrow> battery_data \<Rightarrow> (int \<times> pyfloat) res" where
  "partial_evidence row b =
     (if cell_count b \<noteq> 4 then Inl (ValueError ''partial schema 1 evidence requires four cells per BMS'')
      else case (as_int (vget row ''seen_mask''), as_int (vget row ''valid_mask'')) of
        (Some seen, Some valid) \<Rightarrow>
          if \<not> (0 \<le> seen \<and> seen \<le> 511) \<or> \<not> (0 \<le> valid \<and> valid \<le> 511) \<or> valid AND NOT seen \<noteq> 0
          then Inl (ValueError ''invalid partial evidence masks'')
          else if seen \<noteq> valid then Inl (ValueError ''producer observed an invalid physical field'')
          else and_then (row_number row ''observed_age_ms'') (\<lambda>ms. and_then (seconds_of ms) (\<lambda>age.
            if \<not> (fle (Fin 0) age \<and> fle age stale_timeout) \<or> (seen \<noteq> 0 \<and> fle stale_timeout age)
            then Inl (ValueError ''partial physical evidence expired'') else Inr (seen, age)))
      | _ \<Rightarrow> Inl (ValueError ''invalid partial evidence masks''))"

definition partial_sample_time :: "battery_data \<Rightarrow> pyfloat \<Rightarrow> bool \<Rightarrow> pyfloat" where
  "partial_sample_time b sampled_at refresh =
     (if \<not> refresh then case oldest_sample_time b of Some p \<Rightarrow> fmin sampled_at p | None \<Rightarrow> sampled_at
      else sampled_at)"

definition observed_key :: "nat \<Rightarrow> string" where
  "observed_key index = (if index < 4 then [''voltage'', ''current'', ''soc'', ''temperature''] ! index
     else cell_key (int index - 3))"

definition observed_field :: "pyobj \<Rightarrow> pyval list \<Rightarrow> nat \<Rightarrow> (string \<times> pyfloat) res" where
  "observed_field row cs index = (let key = observed_key index in
     and_then (if index < 4 then row_number row key else number (cs ! (index - 4)) key) (\<lambda>value.
       if (index = 0 \<or> 4 \<le> index) \<and> fle value (Fin 0) then Inl (ValueError ''invalid observed voltage'')
       else if key = ''soc'' \<and> \<not> (fle (Fin 0) value \<and> fle value (Fin 100)) then Inl (ValueError ''invalid observed SoC'')
       else Inr (key, value)))"

definition merge_number :: "pyfloat \<Rightarrow> pyobj \<Rightarrow> pyval list \<Rightarrow> int \<Rightarrow> pyfloat \<Rightarrow> bool \<Rightarrow> nat \<Rightarrow> battery_data \<Rightarrow> battery_data res" where
  "merge_number clk row cs seen sampled refresh index b =
     (if \<not> bit seen index then Inr b
      else and_then (observed_field row cs index) (\<lambda>(key, value).
        let t = partial_sample_time b sampled refresh
        in Inr (mark_sample_time [canonical_key key] t (update clk key (UNum value) b))))"

definition merge_partial_numbers :: "pyfloat \<Rightarrow> pyobj \<Rightarrow> int \<Rightarrow> pyfloat \<Rightarrow> pyfloat \<Rightarrow> bool \<Rightarrow> battery_data \<Rightarrow> battery_data res" where
  "merge_partial_numbers clk row seen age now refresh b = (case vget row ''cells'' of
     VList cs \<Rightarrow> if length cs \<noteq> 4 then Inl (ValueError ''invalid partial cells'')
       else foldM (merge_number clk row cs seen (fsub now age) refresh) [0..<8] b
   | _ \<Rightarrow> Inl (ValueError ''invalid partial cells''))"

definition merge_veto :: "pyfloat \<Rightarrow> pyobj \<Rightarrow> string \<Rightarrow> battery_data \<Rightarrow> battery_data res" where
  "merge_veto clk row field b = (case vget row field of
     VBool p \<Rightarrow> Inr (if p then b else update clk field (UBool False) b)
   | _ \<Rightarrow> Inl (ValueError ''invalid observed MOS status''))"

definition merge_partial_status :: "pyfloat \<Rightarrow> pyobj \<Rightarrow> int \<Rightarrow> pyfloat \<Rightarrow> bool \<Rightarrow> battery_data \<Rightarrow> battery_data res" where
  "merge_partial_status clk row seen sampled_at refresh b =
     and_then (if bit seen 8
       then and_then (foldM (merge_veto clk row) [''charging'', ''discharging''] b)
         (\<lambda>b1. Inr (if refresh then mark_sample_time status_fields sampled_at b1 else b1))
       else Inr b)
     (\<lambda>b2. if seen = 511 \<and> vget row ''online'' \<noteq> VBool True
       then Inl (ValueError ''complete observed BMS explicitly offline'') else Inr b2)"

definition merge_battery :: "pyfloat \<Rightarrow> pyobj \<Rightarrow> pyfloat \<Rightarrow> bool \<Rightarrow> battery_data \<Rightarrow> battery_data res" where
  "merge_battery clk row now refresh b = and_then (partial_evidence row b) (\<lambda>(seen, age).
     if seen = 0 then Inr b
     else and_then (merge_partial_numbers clk row seen age now refresh b)
       (merge_partial_status clk row seen (fsub now age) refresh))"

definition merge_row :: "pyfloat \<Rightarrow> int \<Rightarrow> pyfloat \<Rightarrow> bool \<Rightarrow> pyval \<Rightarrow> battery_map \<times> int list \<Rightarrow> (battery_map \<times> int list) res" where
  "merge_row clk bms_first now refresh v s = (case s of (bats, found) \<Rightarrow>
     case v of VDict row \<Rightarrow>
       (case as_int (vget row ''id'') of None \<Rightarrow> Inl (ValueError ''invalid partial BMS id'')
        | Some i \<Rightarrow> let slot = i - bms_first + 1 in
          (case map_of bats slot of None \<Rightarrow> Inr (bats, found)
           | Some b \<Rightarrow> if slot \<in> set found then Inl (ValueError ''duplicate partial BMS id'')
               else and_then (merge_battery clk row now refresh b) (\<lambda>b'.
                 Inr (dict_set slot b' bats, slot # found))))
     | _ \<Rightarrow> Inl (ValueError ''invalid partial BMS id''))"

definition merge_partial :: "pyfloat \<Rightarrow> pyobj \<Rightarrow> battery_map \<Rightarrow> int \<Rightarrow> pyfloat \<Rightarrow> bool \<Rightarrow> battery_map res" where
  "merge_partial clk frame previous bms_first now refresh = (case vget frame ''batteries'' of
     VList rows \<Rightarrow> and_then (foldM (merge_row clk bms_first now refresh) rows (previous, []))
       (\<lambda>(bats, found). if length found \<noteq> length previous
         then Inl (ValueError ''partial frame missing a configured BMS row'') else Inr bats)
   | _ \<Rightarrow> Inl (TypeError ''partial frame has no BMS rows''))"

section \<open>The row loop\<close>

text \<open>
  Every decoder of rows has one contract: a row either leaves the slots alone or replaces the
  slot of a tag that no earlier row has used.  Schema 1 tags a row by its slot, the strict
  decoder of configured inventories by the physical BMS id.
\<close>

locale row_loop =
  fixes step :: "pyval \<Rightarrow> battery_map \<times> 'k list \<Rightarrow> (battery_map \<times> 'k list) res"
    and slot_of :: "'k \<Rightarrow> int option"
    and decode :: "int \<Rightarrow> pyobj \<Rightarrow> battery_data \<Rightarrow> battery_data res"
  assumes step_Inr: "step v (bats, seen) = Inr (bats', seen') \<Longrightarrow>
     bats' = bats \<and> seen' = seen \<or>
     (\<exists>row tag slot b b'. v = VDict row \<and> tag \<notin> set seen \<and> slot_of tag = Some slot
        \<and> map_of bats slot = Some b \<and> decode slot row b = Inr b'
        \<and> bats' = dict_set slot b' bats \<and> seen' = tag # seen)"
    and slot_inj: "slot_of t = Some slot \<Longrightarrow> slot_of u = Some slot \<Longrightarrow> t = u"
begin

definition covered :: "pyval set \<Rightarrow> battery_map \<Rightarrow> battery_map \<Rightarrow> 'k list \<Rightarrow> bool" where
  "covered rows bats0 bats seen \<longleftrightarrow> dict_keys bats = dict_keys bats0 \<and> distinct seen
     \<and> slot_of ` set seen \<subseteq> Some ` set (dict_keys bats0)
     \<and> (\<forall>tag \<in> set seen. \<forall>slot. slot_of tag = Some slot \<longrightarrow>
          (\<exists>row b b'. VDict row \<in> rows \<and> map_of bats0 slot = Some b \<and> decode slot row b = Inr b'
             \<and> map_of bats slot = Some b'))
     \<and> (\<forall>slot. Some slot \<notin> slot_of ` set seen \<longrightarrow> map_of bats slot = map_of bats0 slot)"

lemma covered_start: "covered rows bats bats []"
  by (simp add: covered_def)

lemma covered_step:
  assumes "covered rows bats0 bats seen" "step v (bats, seen) = Inr (bats', seen')" "v \<in> rows"
  shows "covered rows bats0 bats' seen'"
proof (cases "bats' = bats \<and> seen' = seen")
  case False
  then obtain row tag slot b b' where s: "tag \<notin> set seen" "slot_of tag = Some slot" "map_of bats slot = Some b"
    "decode slot row b = Inr b'" "bats' = dict_set slot b' bats" "seen' = tag # seen" "VDict row \<in> rows"
    using step_Inr [OF assms(2)] assms(3) by blast
  have k: "slot \<in> set (dict_keys bats)" using s(3) by (auto simp: set_dict_keys)
  then have keys: "dict_keys bats' = dict_keys bats"
    using s(5) by (simp add: dict_keys_def update_keys)
  have new: "Some slot \<notin> slot_of ` set seen"
  proof
    assume "Some slot \<in> slot_of ` set seen"
    then obtain u where "u \<in> set seen" "slot_of u = Some slot" by auto
    with s(1,2) slot_inj show False by blast
  qed
  then have b0: "map_of bats0 slot = Some b" using assms(1) s(3) by (simp add: covered_def)
  have "map_of bats' j = map_of bats j" if "j \<noteq> slot" for j using that s(5) by simp
  moreover have "slot_of u \<noteq> Some slot" if "u \<in> set seen" for u using that new by force
  ultimately show ?thesis
    using assms(1) s b0 keys k unfolding covered_def by (auto simp: image_iff)
qed (use assms(1) in simp)

lemma covered_loop:
  assumes "foldM step rows (bats, seen) = Inr (bats', seen')" "covered R bats0 bats seen" "set rows \<subseteq> R"
  shows "covered R bats0 bats' seen'"
  using assms
proof (induction rows arbitrary: bats seen)
  case (Cons v rows)
  then obtain bats1 seen1 where "step v (bats, seen) = Inr (bats1, seen1)"
    "foldM step rows (bats1, seen1) = Inr (bats', seen')" by auto
  moreover have "v \<in> R" "set rows \<subseteq> R" using Cons.prems(3) by auto
  ultimately show ?case using Cons.IH Cons.prems(2) covered_step by blast
qed simp

lemma loop_keys:
  "foldM step rows (bats, []) = Inr (bats', seen) \<Longrightarrow> dict_keys bats' = dict_keys bats"
  using covered_loop [OF _ covered_start order_refl] by (simp add: covered_def)

text \<open>When every slot was seen, every battery is the image of its predecessor under a row.\<close>

lemma loop_complete:
  assumes "foldM step rows (bats, []) = Inr (bats', seen)" "length seen = length bats"
    "map_of bats' slot = Some b'" "distinct (dict_keys bats)"
  shows "\<exists>row b. VDict row \<in> set rows \<and> map_of bats slot = Some b \<and> decode slot row b = Inr b'"
proof -
  have c: "covered (set rows) bats bats' seen" using covered_loop [OF assms(1) covered_start order_refl] .
  let ?K = "Some ` set (dict_keys bats)"
  have "card ?K = length bats"
    using distinct_card [OF assms(4)] by (simp add: card_image dict_keys_def)
  moreover have "inj_on slot_of (set seen)"
    using c slot_inj by (auto simp: inj_on_def covered_def)
  then have "card (slot_of ` set seen) = length seen" using c by (simp add: card_image covered_def distinct_card)
  ultimately have "card (slot_of ` set seen) = card ?K" using assms(2) by simp
  then have all: "slot_of ` set seen = ?K"
    using c by (intro card_subset_eq) (auto simp: covered_def)
  have "slot \<in> set (dict_keys bats')" using assms(3) by (auto simp: set_dict_keys)
  then have "Some slot \<in> slot_of ` set seen" using c all by (simp add: covered_def)
  then show ?thesis using c assms(3) by (fastforce simp: covered_def)
qed

end

interpretation complete_rows: row_loop "decode_row clk bms_first cells_per_bms now" Some
  "\<lambda>slot row b. decode_complete_row clk row b cells_per_bms now"
  by unfold_locales (auto simp: decode_row_def Let_def split: pyval.splits option.splits if_splits)

interpretation partial_rows: row_loop "merge_row clk bms_first now refresh" Some
  "\<lambda>slot row b. merge_battery clk row now refresh b"
  by unfold_locales (auto simp: merge_row_def Let_def split: pyval.splits option.splits if_splits)

section \<open>Complete frames\<close>

lemma bool_key_canonical [simp]:
  "canonical_key ''charging'' = ''charging''" "canonical_key ''discharging'' = ''discharging''"
  "canonical_key ''online'' = ''online''"
  by (simp_all add: canonical_key_def)

lemma update_status:
  "update clk ''charging'' (UBool v) b = b\<lparr>charging := Some v\<rparr>"
  "update clk ''discharging'' (UBool v) b = b\<lparr>discharging := Some v\<rparr>"
  "update clk ''online'' (UBool v) b = b\<lparr>online := Some v\<rparr>"
  by (cases v; simp add: update_def bool_keys_def update_boolean_def set_status_def Let_def)+

lemma put_number_Inr: "put_number clk k r b = Inr b' \<Longrightarrow> \<exists>v. r = Inr v \<and> b' = update clk k (UNum v) b"
  by (auto simp: put_number_def)

lemma put_cell_Inr: "put_cell clk p b = Inr b' \<Longrightarrow> \<exists>k v. b' = update clk k (UNum v) b"
  by (auto simp: put_cell_def split: prod.splits if_splits)

lemma put_optional_eq: "put_optional clk row p b = b \<or> (\<exists>k v. put_optional clk row p b = update clk k (UNum v) b)"
  by (auto simp: put_optional_def split: prod.splits sum.splits)

text \<open>Whatever every numeric update keeps, measurements and optional fields keep.\<close>

lemma update_measurements_keeps:
  assumes "update_measurements clk row cs b = Inr b'" "P b"
    and step: "\<And>k v b. P b \<Longrightarrow> P (update clk k (UNum v) b)"
  shows "P b'"
proof -
  obtain b1 b2 where s:
    "foldM (\<lambda>f. put_number clk f (row_number row f)) [''voltage'', ''current'', ''soc'', ''temperature''] b = Inr b1"
    "put_temperatures clk row b1 = Inr b2" "foldM (put_cell clk) (enum1 cs) b2 = Inr b'"
    using assms(1) by (auto simp: update_measurements_def)
  have "P b1"
    using s(1) assms(2) by (rule foldM_invariant) (auto dest!: put_number_Inr intro: step)
  then have "P b2"
    using s(2) by (auto simp: put_temperatures_def split: pyval.splits if_splits
        elim!: foldM_invariant [where P = P] dest!: put_number_Inr intro: step)
  with s(3) show "P b'"
    by (rule foldM_invariant) (auto dest!: put_cell_Inr intro: step)
qed

lemma update_optional_fields_keeps:
  assumes "P b" and step: "\<And>k v b. P b \<Longrightarrow> P (update clk k (UNum v) b)"
  shows "P (update_optional_fields clk row b)"
proof -
  have "P (put_optional clk row p b)" if "P b" for p b
    using put_optional_eq [of clk row p b] that step by auto
  then show ?thesis using assms(1) by (simp add: update_optional_fields_def)
qed

lemma update_UNum_status:
  "canonical_key k \<notin> set bool_keys \<Longrightarrow> charging (update clk k v b) = charging b
     \<and> discharging (update clk k v b) = discharging b \<and> online (update clk k v b) = online b"
  by (cases rule: update_cases [where k = k and clk = clk and v = v and b = b])
    (auto dest!: store_numeric_frame)

lemma update_optional_status:
  "charging (update_optional_fields clk row b) = charging b"
  "discharging (update_optional_fields clk row b) = discharging b"
  "online (update_optional_fields clk row b) = online b"
  by (auto simp: update_optional_fields_def put_optional_def canonical_key_def bool_keys_def
      update_UNum_status split: sum.splits)

lemma map_of_retime: "sample (retime t b) k = map_option (\<lambda>_. t) (sample b k)"
proof -
  have "map_of (map (\<lambda>(k, _). (k, t)) xs) k = map_option (\<lambda>_. t) (map_of xs k)" for xs :: "(string \<times> pyfloat) list"
    by (induction xs) auto
  then show ?thesis by (simp add: retime_def)
qed

lemma retime_frame [simp]:
  "battery_id (retime t b) = battery_id b" "cell_count (retime t b) = cell_count b"
  "charging (retime t b) = charging b" "discharging (retime t b) = discharging b"
  "online (retime t b) = online b" "dict_keys (sample_times (retime t b)) = dict_keys (sample_times b)"
  by (auto simp: retime_def dict_keys_def)

text \<open>
  What a decoded battery is: the configured identity and inventory, valid on arrival, the
  permissions of the row, and every sample stamped with the producer's age.
\<close>

definition decoded :: "pyfloat \<Rightarrow> pyfloat \<Rightarrow> battery_data \<Rightarrow> bool" where
  "decoded clk now b \<longleftrightarrow> is_valid clk b \<and> (\<exists>age. fle (Fin 0) age \<and> flt age stale_timeout
     \<and> last_update b = fsub now age \<and> (\<forall>k t. sample b k = Some t \<longrightarrow> t = fsub now age))"

lemma foldM_put_status:
  assumes "foldM (put_status clk row) status_fields b = Inr b'"
  obtains c d n where "vget row ''charging'' = VBool c" "vget row ''discharging'' = VBool d"
    "vget row ''online'' = VBool n" "b' = b\<lparr>charging := Some c, discharging := Some d, online := Some n\<rparr>"
  using assms by (auto simp: status_fields_def put_status_def update_status split: pyval.splits)

lemma decode_complete_row_facts:
  assumes "decode_complete_row clk row b n now = Inr b'"
  shows "decoded clk now b'" and "battery_id b' = battery_id b" and "cell_count b' = cell_count b"
    and "charging b' = as_bool (vget row ''charging'')"
    and "discharging b' = as_bool (vget row ''discharging'')"
proof -
  obtain age cs b1 b2 where s: "complete_evidence row n = Inr (age, cs)"
    "update_measurements clk row cs b = Inr b1" "foldM (put_status clk row) status_fields b1 = Inr b2"
    and b': "b' = (mark_sample_time status_fields (fsub now age) (retime (fsub now age)
          (update_optional_fields clk row b2)))\<lparr>last_update := fsub now age\<rparr>" "is_valid clk b'"
    using assms by (auto simp: decode_complete_row_def Let_def split: if_splits)
  have age: "fle (Fin 0) age" "flt age stale_timeout"
    using s(1) by (auto simp: complete_evidence_def split: if_splits pyval.splits)
  have i1: "battery_id b1 = battery_id b \<and> cell_count b1 = cell_count b"
    using s(2) by (rule update_measurements_keeps) auto
  obtain c d m where st: "vget row ''charging'' = VBool c" "vget row ''discharging'' = VBool d"
    "vget row ''online'' = VBool m" "b2 = b1\<lparr>charging := Some c, discharging := Some d, online := Some m\<rparr>"
    using s(3) by (rule foldM_put_status)
  have "battery_id (update_optional_fields clk row b2) = battery_id b2
      \<and> cell_count (update_optional_fields clk row b2) = cell_count b2"
    by (rule update_optional_fields_keeps) auto
  with i1 st b' show "battery_id b' = battery_id b" "cell_count b' = cell_count b"
    "charging b' = as_bool (vget row ''charging'')" "discharging b' = as_bool (vget row ''discharging'')"
    by (simp_all add: update_optional_status)
  have "t = fsub now age" if "sample b' k = Some t" for k t
    using that b'(1) by (auto simp: map_of_retime split: if_splits)
  with age b' show "decoded clk now b'" unfolding decoded_def
    by (metis battery_data.select_convs(17) battery_data.surjective battery_data.update_convs(17))
qed

lemma upto_int_length: "length [1..n] = nat n"
  by simp

lemma empty_slots_keys [simp]: "dict_keys (empty_slots n c) = [1..n]"
  by (simp add: empty_slots_def dict_keys_def o_def)

lemma map_of_empty_slots: "map_of (empty_slots n c) i = (if 1 \<le> i \<and> i \<le> n then Some (new_battery i c) else None)"
  by (auto simp: empty_slots_def map_of_map_restrict restrict_map_def)

text \<open>A ready frame that decodes yields exactly the configured slots, each decoded from a row of its own.\<close>

lemma decode_batteries_complete:
  assumes "decode_batteries clk frame count first n now = Inr bats" "frame_ready frame"
  shows "dict_keys bats = [1..count]"
    and "map_of bats i = Some b \<Longrightarrow> decoded clk now b \<and> battery_id b = i \<and> cell_count b = n"
proof -
  obtain rows seen where r: "foldM (decode_row clk first n now) rows (empty_slots count n, []) = Inr (bats, seen)"
    "int (length seen) = count"
    using assms by (auto simp: decode_batteries_def Let_def split: pyval.splits if_splits)
  show "dict_keys bats = [1..count]" using complete_rows.loop_keys [OF r(1)] by simp
  assume b: "map_of bats i = Some b"
  have len: "length seen = length (empty_slots count n)" using r(2) by (simp add: empty_slots_def)
  obtain row b0 where "map_of (empty_slots count n) i = Some b0" "decode_complete_row clk row b0 n now = Inr b"
    using complete_rows.loop_complete [OF r(1) len b] by auto
  then show "decoded clk now b \<and> battery_id b = i \<and> cell_count b = n"
    using decode_complete_row_facts [of clk row b0 n now b]
    by (auto simp: map_of_empty_slots new_battery_def split: if_splits)
qed

section \<open>Partial frames\<close>

text \<open>The marks a merge leaves: a sample is the previous one or no newer than \<open>m\<close>.\<close>

definition not_renewed :: "pyfloat \<Rightarrow> battery_data \<Rightarrow> battery_data \<Rightarrow> bool" where
  "not_renewed m b b' \<longleftrightarrow> (\<forall>k t. sample b' k = Some t \<longrightarrow> sample b k = Some t \<or> fle t m)"

definition no_new_grant :: "battery_data \<Rightarrow> battery_data \<Rightarrow> bool" where
  "no_new_grant b b' \<longleftrightarrow> (charging b' = Some True \<longrightarrow> charging b = Some True)
     \<and> (discharging b' = Some True \<longrightarrow> discharging b = Some True) \<and> online b' = online b
     \<and> battery_id b' = battery_id b \<and> cell_count b' = cell_count b"

lemma cell_key_not_status [simp]: "canonical_key (cell_key j) = cell_key j" "cell_key j \<notin> set bool_keys"
  by (simp_all add: canonical_key_def cell_key_def bool_keys_def)

lemma observed_key_not_status: "canonical_key (observed_key i) \<notin> set bool_keys"
proof (cases "i < 4")
  case True
  then have "i = 0 \<or> i = 1 \<or> i = 2 \<or> i = 3" by arith
  then show ?thesis by (auto simp: observed_key_def canonical_key_def bool_keys_def)
next
  case False
  then show ?thesis unfolding observed_key_def by simp
qed

lemma observed_field_key: "observed_field row cs i = Inr (k, v) \<Longrightarrow> k = observed_key i"
  by (auto simp: observed_field_def Let_def split: if_splits)

lemma merge_number_no_grant: "merge_number clk row cs seen t r i b = Inr b' \<Longrightarrow> no_new_grant b b'"
  using update_UNum_status [OF observed_key_not_status [of i]]
  by (auto simp: merge_number_def no_new_grant_def Let_def split: if_splits dest!: observed_field_key)

lemma no_new_grant_trans: "no_new_grant a b \<Longrightarrow> no_new_grant b c \<Longrightarrow> no_new_grant a c"
  by (auto simp: no_new_grant_def)

lemma no_new_grant_refl [simp]: "no_new_grant b b"
  by (simp add: no_new_grant_def)

lemma merge_veto_no_grant:
  "merge_veto clk row f b = Inr b' \<Longrightarrow> f = ''charging'' \<or> f = ''discharging'' \<Longrightarrow> no_new_grant b b'"
  by (auto simp: merge_veto_def no_new_grant_def update_status split: pyval.splits if_splits)

lemma merge_partial_status_no_grant:
  assumes "merge_partial_status clk row seen t r b = Inr b'"
  shows "no_new_grant b b'"
proof -
  have "no_new_grant b b1" if "foldM (merge_veto clk row) [''charging'', ''discharging''] b = Inr b1" for b1
    using that by simp (meson merge_veto_no_grant no_new_grant_trans)
  moreover have "no_new_grant b1 (mark_sample_time fs t b1)" for b1 fs by (simp add: no_new_grant_def)
  ultimately show ?thesis
    using assms no_new_grant_trans
    by (auto simp: merge_partial_status_def split: if_splits)
qed

lemma merge_battery_no_grant:
  assumes "merge_battery clk row now r b = Inr b'"
  shows "no_new_grant b b'"
proof -
  have "no_new_grant b b1" if "foldM (merge_number clk row cs seen t r) ixs b = Inr b1" for cs seen t ixs b1
    using that no_new_grant_refl
    by (rule foldM_invariant [where P = "no_new_grant b"])
      (blast intro: no_new_grant_trans merge_number_no_grant)
  then show ?thesis
    using assms merge_partial_status_no_grant no_new_grant_trans
    by (auto simp: merge_battery_def merge_partial_numbers_def split: if_splits pyval.splits) blast
qed

subsection \<open>A merge that may not refresh\<close>

text \<open>The invariant of the numeric loop when \<open>refresh\<close> is off: the oldest sample never moves forward, so no field is stamped newer than it.\<close>

definition held :: "pyfloat \<Rightarrow> battery_data \<Rightarrow> battery_data \<Rightarrow> bool" where
  "held m b b' \<longleftrightarrow> not_renewed m b b' \<and> battery_wf b'
     \<and> (\<exists>m'. oldest_sample_time b' = Some m' \<and> fle m' m)"

lemma wf_sample_not_NaN: "battery_wf b \<Longrightarrow> NaN \<notin> set (dict_vals (sample_times b))"
  by (auto simp: battery_wf_def dict_vals_def clock_def)

lemma oldest_le_sample:
  assumes "battery_wf b" "sample b k = Some t" "oldest_sample_time b = Some m"
  shows "fle m t"
proof -
  have "t \<in> set (dict_vals (sample_times b))"
    using map_of_SomeD [OF assms(2)] by (force simp: dict_vals_def)
  then show ?thesis
    using fmin_option_le wf_sample_not_NaN [OF assms(1)] assms(3)
    unfolding oldest_sample_time_def by blast
qed

lemma oldest_exists: "sample b k = Some t \<Longrightarrow> \<exists>m. oldest_sample_time b = Some m"
  by (cases "oldest_sample_time b") (auto simp: oldest_sample_time_def dict_vals_def)

lemma merge_number_held:
  assumes "held m b b1" "merge_number clk row cs seen sampled False i b1 = Inr b2"
    and clk: "clock clk" and sampled: "clock sampled"
  shows "held m b b2"
proof (cases "bit seen i")
  case False
  then show ?thesis using assms by (simp add: merge_number_def)
next
  case True
  obtain v m1 where v: "observed_field row cs i = Inr (observed_key i, v)"
    and m1: "oldest_sample_time b1 = Some m1" "fle m1 m"
    using assms True observed_field_key
    by (auto simp: merge_number_def held_def split: prod.splits)
  let ?k = "canonical_key (observed_key i)" and ?u = "update clk (observed_key i) (UNum v) b1"
  let ?t = "fmin sampled m1"
  have b2: "b2 = mark_sample_time [?k] ?t ?u"
    using assms(2) True v m1 by (simp add: merge_number_def partial_sample_time_def)
  have wf1: "battery_wf b1" using assms(1) by (simp add: held_def)
  have m1_in: "m1 \<in> set (dict_vals (sample_times b1))"
    using m1(1) fmin_option_in by (simp add: oldest_sample_time_def)
  then have m1_ok: "m1 = NInf \<or> clock m1" using wf1 by (auto simp: battery_wf_def dict_vals_def)
  then have t_ok: "?t = NInf \<or> clock ?t" using sampled by (simp add: fmin_def)
  have "m1 \<noteq> NaN" "sampled \<noteq> NaN" using m1_ok sampled by (auto simp: clock_def)
  then have "fle ?t m1" using fmin_le by blast
  then have t_le: "fle ?t m" using m1(2) fle_trans by blast
  have wf2: "battery_wf b2" using b2 wf1 clk t_ok update_wf mark_sample_time_wf by blast
  have nr: "not_renewed m b b2"
    using assms(1) b2 t_le update_other_sample [of _ "observed_key i" clk "UNum v" b1]
    by (auto simp: not_renewed_def held_def split: if_splits)
  have s: "sample b2 ?k = Some ?t" using b2 by simp
  obtain m2 where "oldest_sample_time b2 = Some m2" using oldest_exists [OF s] by blast
  moreover have "fle m2 m" using oldest_le_sample [OF wf2 s calculation] t_le fle_trans by blast
  ultimately show ?thesis using nr wf2 by (simp add: held_def)
qed

lemma merge_veto_samples:
  "merge_veto clk row f b = Inr b' \<Longrightarrow> f = ''charging'' \<or> f = ''discharging'' \<Longrightarrow> sample_times b' = sample_times b"
  by (auto simp: merge_veto_def update_status split: pyval.splits if_splits)

lemma merge_partial_status_samples:
  "merge_partial_status clk row seen t False b = Inr b' \<Longrightarrow> sample_times b' = sample_times b"
  by (auto simp: merge_partial_status_def split: if_splits dest!: merge_veto_samples)

lemma merge_veto_wf: "merge_veto clk row f b = Inr b' \<Longrightarrow> f = ''charging'' \<or> f = ''discharging'' \<Longrightarrow> battery_wf b \<Longrightarrow> battery_wf b'"
  by (auto simp: merge_veto_def update_status battery_wf_def split: pyval.splits if_splits)

lemma merge_partial_status_wf:
  assumes "merge_partial_status clk row seen t r b = Inr b'" "battery_wf b" "clock t"
  shows "battery_wf b'"
  using assms mark_sample_time_wf
  by (auto simp: merge_partial_status_def split: if_splits dest!: merge_veto_wf)

lemma merge_battery_parts:
  assumes "merge_battery clk row now r b = Inr b'"
  obtains "b' = b"
  | seen age cs b1 where "fle (Fin 0) age" "fle age stale_timeout"
    "foldM (merge_number clk row cs seen (fsub now age) r) [0..<8] b = Inr b1"
    "merge_partial_status clk row seen (fsub now age) r b1 = Inr b'"
proof -
  obtain seen age where e: "partial_evidence row b = Inr (seen, age)"
    and rest: "seen = 0 \<and> b' = b \<or> (\<exists>b1. merge_partial_numbers clk row seen age now r b = Inr b1
        \<and> merge_partial_status clk row seen (fsub now age) r b1 = Inr b')"
    using assms(1) by (auto simp: merge_battery_def split: if_splits)
  have "fle (Fin 0) age" "fle age stale_timeout"
    using e by (auto simp: partial_evidence_def split: if_splits option.splits)
  with rest that show thesis
    by (auto simp: merge_partial_numbers_def split: pyval.splits if_splits)
qed

lemma merge_battery_held:
  assumes "merge_battery clk row now False b = Inr b'" "battery_wf b" "clock clk"
    and "oldest_sample_time b = Some m" "\<And>age. fle (Fin 0) age \<Longrightarrow> fle age stale_timeout \<Longrightarrow> clock (fsub now age)"
  shows "held m b b'"
proof -
  have "m \<noteq> NaN" using wf_sample_not_NaN [OF assms(2)] assms(4) fmin_option_in
    by (auto simp: oldest_sample_time_def)
  then have start: "held m b b" using assms(2,4) by (auto simp: held_def not_renewed_def fle_refl)
  from assms(1) show ?thesis
  proof (cases rule: merge_battery_parts)
    case 1
    with start show ?thesis by simp
  next
    case (2 seen age cs b1)
    then have c: "clock (fsub now age)" using assms(5) by blast
    from 2(3) start have h: "held m b b1"
      by (rule foldM_invariant) (blast intro: merge_number_held assms(3) c)
    then have "battery_wf b'" using merge_partial_status_wf [OF 2(4) _ c] by (simp add: held_def)
    with h show ?thesis
      using merge_partial_status_samples [OF 2(4)] by (simp add: held_def not_renewed_def oldest_sample_time_def)
  qed
qed

lemma merge_battery_not_renewed:
  assumes "merge_battery clk row now False b = Inr b'" "battery_wf b" "clock clk"
    and "oldest_sample_time b = Some m" "\<And>age. fle (Fin 0) age \<Longrightarrow> fle age stale_timeout \<Longrightarrow> clock (fsub now age)"
  shows "not_renewed m b b'"
  using merge_battery_held [OF assms] by (simp add: held_def)

subsection \<open>Merges and the representation invariant\<close>

lemma partial_sample_time_ok:
  assumes "battery_wf b" "clock t"
  shows "partial_sample_time b t r = NInf \<or> clock (partial_sample_time b t r)"
proof (cases "oldest_sample_time b")
  case (Some m)
  then have "m = NInf \<or> clock m" using assms(1) fmin_option_in [of "dict_vals (sample_times b)" m]
    by (auto simp: battery_wf_def oldest_sample_time_def dict_vals_def)
  with Some assms(2) show ?thesis by (auto simp: partial_sample_time_def fmin_def)
qed (simp add: partial_sample_time_def assms(2))

lemma merge_number_wf:
  assumes "merge_number clk row cs seen t r i b = Inr b'" "battery_wf b" "clock clk" "clock t"
  shows "battery_wf b'"
  using assms partial_sample_time_ok [OF assms(2,4)]
  by (auto simp: merge_number_def Let_def split: if_splits intro!: mark_sample_time_wf update_wf)

lemma mark_sample_time_nonempty: "fs \<noteq> [] \<Longrightarrow> sample_times (mark_sample_time fs t b) \<noteq> []"
proof -
  assume "fs \<noteq> []"
  then have "sample (mark_sample_time fs t b) (hd fs) = Some t" by simp
  then show ?thesis by (metis map_of.simps(1) option.distinct(1))
qed

lemma merge_number_samples:
  "merge_number clk row cs seen t r i b = Inr b' \<Longrightarrow> sample_times b \<noteq> [] \<Longrightarrow> sample_times b' \<noteq> []"
  by (auto simp: merge_number_def mark_sample_time_nonempty Let_def split: if_splits)

lemma merge_status_samples:
  "merge_partial_status clk row seen t r b = Inr b' \<Longrightarrow> sample_times b \<noteq> [] \<Longrightarrow> sample_times b' \<noteq> []"
  by (auto simp: merge_partial_status_def mark_sample_time_nonempty status_fields_def split: if_splits
      dest!: merge_veto_samples)

lemma merge_battery_wf:
  assumes "merge_battery clk row now r b = Inr b'" "battery_wf b" "clock clk"
    and "\<And>age. fle (Fin 0) age \<Longrightarrow> fle age stale_timeout \<Longrightarrow> clock (fsub now age)"
  shows "battery_wf b'" and "sample_times b \<noteq> [] \<Longrightarrow> sample_times b' \<noteq> []"
proof -
  show "battery_wf b'"
    using assms(1)
  proof (cases rule: merge_battery_parts)
    case (2 seen age cs b1)
    then have c: "clock (fsub now age)" using assms(4) by blast
    from 2(3) assms(2) have "battery_wf b1"
      by (rule foldM_invariant) (blast intro: merge_number_wf assms(3) c)
    with 2(4) c show ?thesis by (blast intro: merge_partial_status_wf)
  qed (simp add: assms(2))
  assume s: "sample_times b \<noteq> []"
  from assms(1) show "sample_times b' \<noteq> []"
  proof (cases rule: merge_battery_parts)
    case (2 seen age cs b1)
    from 2(3) s have "sample_times b1 \<noteq> []"
      by (rule foldM_invariant) (blast dest: merge_number_samples)
    with 2(4) show ?thesis by (blast dest: merge_status_samples)
  qed (simp add: s)
qed

lemma merge_partial_slots:
  assumes "merge_partial clk frame previous first now r = Inr bats" "distinct (dict_keys previous)"
  shows "dict_keys bats = dict_keys previous"
    and "map_of bats i = Some b' \<Longrightarrow>
       \<exists>row b. map_of previous i = Some b \<and> merge_battery clk row now r b = Inr b'"
proof -
  obtain rows seen where l: "foldM (merge_row clk first now r) rows (previous, []) = Inr (bats, seen)"
    "length seen = length previous"
    using assms(1) by (auto simp: merge_partial_def split: pyval.splits if_splits)
  show "dict_keys bats = dict_keys previous" by (rule partial_rows.loop_keys [OF l(1)])
  show "map_of bats i = Some b' \<Longrightarrow>
       \<exists>row b. map_of previous i = Some b \<and> merge_battery clk row now r b = Inr b'"
    using partial_rows.loop_complete [OF l _ assms(2)] by blast
qed

section \<open>Decoded batteries are well-formed\<close>

lemma clock_minus_age:
  assumes "\<bar>c\<bar> \<le> pow2 60" "fle (Fin 0) age" "fle age stale_timeout"
  shows "clock (fsub (Fin c) age)"
proof -
  obtain a where a: "age = Fin a" "0 \<le> a" "a \<le> 60"
    using assms(2,3) by (cases age) (auto simp: stale_timeout_def STALE_TIMEOUT_def)
  have "pow2 60 + 60 \<le> pow2 61" using pow2_nat [of 60] pow2_nat [of 61] by simp
  then have "\<bar>c - a\<bar> \<le> pow2 61" using a assms(1) by linarith
  then have "fl (c - a) = Fin (round64 (c - a))"
    by (rule fl_finite) (simp_all add: is_dbl_pow2 fmax_def)
  then show ?thesis using a fvalid_fl [of "c - a"] by (simp add: clock_def del: fvalid_fl)
qed

lemma retime_wf: "battery_wf b \<Longrightarrow> clock t \<Longrightarrow> battery_wf (retime t b)"
  by (auto simp: battery_wf_def retime_def dict_keys_def comp_def case_prod_unfold)

lemma valid_sampled: "is_valid clk b \<Longrightarrow> sample_times b \<noteq> []"
  using valid_required [of clk b "''voltage''"] by (auto simp: required_fields_def)

lemma decode_complete_row_wf:
  assumes "decode_complete_row clk row b n now = Inr b'" "battery_wf b" "clock clk"
    and "\<And>age. fle (Fin 0) age \<Longrightarrow> fle age stale_timeout \<Longrightarrow> clock (fsub now age)"
  shows "battery_wf b'"
proof -
  obtain age cs b1 b2 where s: "complete_evidence row n = Inr (age, cs)"
    "update_measurements clk row cs b = Inr b1" "foldM (put_status clk row) status_fields b1 = Inr b2"
    and b': "b' = (mark_sample_time status_fields (fsub now age) (retime (fsub now age)
          (update_optional_fields clk row b2)))\<lparr>last_update := fsub now age\<rparr>"
    using assms(1) by (auto simp: decode_complete_row_def Let_def split: if_splits)
  have "fle (Fin 0) age" "fle age stale_timeout"
    using s(1) flt_imp_fle by (auto simp: complete_evidence_def split: if_splits pyval.splits)
  then have t: "clock (fsub now age)" using assms(4) by blast
  have "battery_wf b1" using s(2) assms(2) by (rule update_measurements_keeps) (rule update_wf [OF _ assms(3)])
  with s(3) have "battery_wf b2" by (rule_tac foldM_put_status) (auto simp: battery_wf_def)
  then have "battery_wf (update_optional_fields clk row b2)"
    by (rule update_optional_fields_keeps) (rule update_wf [OF _ assms(3)])
  with t have "battery_wf (mark_sample_time status_fields (fsub now age) (retime (fsub now age) (update_optional_fields clk row b2)))"
    by (blast intro: mark_sample_time_wf retime_wf)
  then show ?thesis unfolding b' by (simp add: battery_wf_def)
qed

lemma decode_batteries_wf:
  assumes "decode_batteries clk frame count first n now = Inr bats" "frame_ready frame" "clock clk"
    and "\<And>age. fle (Fin 0) age \<Longrightarrow> fle age stale_timeout \<Longrightarrow> clock (fsub now age)"
    and "map_of bats i = Some b"
  shows "battery_wf b" "sample_times b \<noteq> []"
proof -
  obtain rows seen where r: "foldM (decode_row clk first n now) rows (empty_slots count n, []) = Inr (bats, seen)"
    "int (length seen) = count"
    using assms(1,2) by (auto simp: decode_batteries_def Let_def split: pyval.splits if_splits)
  have len: "length seen = length (empty_slots count n)" using r(2) by (simp add: empty_slots_def)
  obtain row b0 where b0: "map_of (empty_slots count n) i = Some b0" "decode_complete_row clk row b0 n now = Inr b"
    using complete_rows.loop_complete [OF r(1) len assms(5)] by auto
  then have "battery_wf b0" by (auto simp: map_of_empty_slots split: if_splits)
  with b0 show "battery_wf b" using decode_complete_row_wf assms(3,4) by blast
  show "sample_times b \<noteq> []"
    using decode_batteries_complete(2) [OF assms(1,2,5)] valid_sampled by (auto simp: decoded_def)
qed

end
