(* ===== verification/TelemetryV2.thy ===== *)
theory TelemetryV2
  imports Telemetry Topology
begin

unbundle bit_operations_syntax

text \<open>
  \<open>dbus_mqtt_battery/telemetry_v2.py\<close>: strict complete frames for configured inventories.  A
  frame that is not ready yields empty batteries; a ready one must hold exactly the configured
  members.  The JSON hook is the manifest's \<open>unique_object\<close>, which the module repeats.
\<close>

definition MAX_FRAME_BYTES :: nat where "MAX_FRAME_BYTES = 262144"

text \<open>\<open>required_mask\<close>: bits 0 to 3 and 8, bits 4 to 7 for the first four cells, bits from 11 for the rest.\<close>

definition cell_bit :: "nat \<Rightarrow> nat" where
  "cell_bit c = (if c < 4 then 4 + c else 7 + c)"

definition required_mask :: "int \<Rightarrow> int res" where
  "required_mask n =
     (if \<not> (1 \<le> n \<and> n \<le> 32) then Inl (ValueError ''unsupported configured cell count'')
      else Inr (fold (\<lambda>c mask. mask OR push_bit (cell_bit c) 1) [0..<nat n] (15 OR push_bit 8 1)))"

definition decode_header :: "string \<Rightarrow> chain_topology \<Rightarrow> (pyobj \<times> string \<times> int) res" where
  "decode_header payload topo =
     (if MAX_FRAME_BYTES < py_len payload then Inl (ValueError ''telemetry frame is too large'')
      else and_then (json_loads unique_object payload) (\<lambda>doc. case doc of
        VDict frame \<Rightarrow>
          if as_int (vget frame ''schema'') \<noteq> Some (telemetry_schema topo)
          then Inl (ValueError ''telemetry schema does not match configured topology'')
          else if \<not> valid_boot_id (vget frame ''boot_id'') then Inl (ValueError ''invalid boot_id'')
          else (case (as_str (vget frame ''boot_id''), as_int (vget frame ''seq'')) of
            (Some boot_id, Some sequence) \<Rightarrow>
              if \<not> (0 \<le> sequence \<and> sequence \<le> 2 ^ 64 - 1) then Inl (ValueError ''invalid sequence'')
              else if as_bool (vget frame ''ready'') = None then Inl (ValueError ''ready must be a boolean'')
              else Inr (frame, boot_id, sequence)
          | _ \<Rightarrow> Inl (ValueError ''invalid sequence''))
      | _ \<Rightarrow> Inl (ValueError ''telemetry schema does not match configured topology'')))"

text \<open>A field that schema 2 requires and schema 1 checks only when it is present.\<close>

definition declared :: "pyobj \<Rightarrow> int \<Rightarrow> string \<Rightarrow> bool" where
  "declared row schema name = (schema = 2 \<or> has_key row name)"

definition inventory :: "pyobj \<Rightarrow> member_topology \<Rightarrow> int \<Rightarrow> pyval list res" where
  "inventory row m schema = (case vget row ''cells'' of VList cs \<Rightarrow>
       if int (length cs) \<noteq> member_cells m
       then Inl (ValueError ''cell array does not match configured inventory'')
       else and_then (required_mask (member_cells m)) (\<lambda>expected.
         if as_int (vget row ''seen_mask'') \<noteq> Some expected \<or> as_int (vget row ''valid_mask'') \<noteq> Some expected
         then Inl (ValueError ''ready frame has incomplete physical evidence'')
         else if declared row schema ''required_mask'' \<and> as_int (vget row ''required_mask'') \<noteq> Some expected
         then Inl (ValueError ''producer required_mask does not match local inventory'')
         else if declared row schema ''cell_count'' \<and> as_int (vget row ''cell_count'') \<noteq> Some (member_cells m)
         then Inl (ValueError ''producer cell_count does not match local inventory'')
         else if declared row schema ''reported_cell_count''
         then and_then (number (vget row ''reported_cell_count'') ''reported_cell_count'') (\<lambda>v.
           if v \<noteq> Fin (of_int (member_cells m))
           then Inl (ValueError ''BMS reported_cell_count does not match local inventory'') else Inr cs)
         else Inr cs)
     | _ \<Rightarrow> Inl (ValueError ''cell array does not match configured inventory''))"

definition sensor_temperature :: "pyval \<Rightarrow> pyfloat res" where
  "sensor_temperature v = and_then (number v ''temperature'') (\<lambda>t.
     if fle t neg40 then Inl (ValueError ''configured temperature is outside the valid sensor range'') else Inr t)"

definition configured_temperatures :: "pyfloat \<Rightarrow> pyobj \<Rightarrow> member_topology \<Rightarrow> battery_data \<Rightarrow> battery_data res" where
  "configured_temperatures clk row m b = (case vget row ''temperatures'' of
       VNone \<Rightarrow> if member_temperatures m \<noteq> 1 then Inl (ValueError ''missing configured temperatures'') else Inr b
     | VList ts \<Rightarrow> if int (length ts) \<noteq> member_temperatures m
         then Inl (ValueError ''temperatures do not match configured inventory'')
         else foldM (\<lambda>(i, t). put_number clk (temp_key i) (sensor_temperature t)) (enum1 ts) b
     | _ \<Rightarrow> Inl (ValueError ''temperatures do not match configured inventory''))"

definition put_positive_cell :: "pyfloat \<Rightarrow> int \<times> pyval \<Rightarrow> battery_data \<Rightarrow> battery_data res" where
  "put_positive_cell clk p b = (case p of (i, c) \<Rightarrow> and_then (number c ''cell voltage'') (\<lambda>v.
     if fle v (Fin 0) then Inl (ValueError ''cell voltage must be positive'')
     else Inr (update clk (cell_key i) (UNum v) b)))"

definition measurements :: "pyfloat \<Rightarrow> pyobj \<Rightarrow> member_topology \<Rightarrow> pyval list \<Rightarrow> battery_data \<Rightarrow> battery_data res" where
  "measurements clk row m cs b =
     and_then (foldM (\<lambda>f. put_number clk f (row_number row f)) [''voltage'', ''current'', ''soc''] b) (\<lambda>b1.
     and_then (put_number clk ''temperature'' (sensor_temperature (vget row ''temperature'')) b1) (\<lambda>b2.
     and_then (configured_temperatures clk row m b2) (\<lambda>b3.
     and_then (foldM (put_positive_cell clk) (enum1 cs) b3) (\<lambda>b4.
     and_then (foldM (put_status clk row) status_fields b4) (\<lambda>b5.
       Inr (update_optional_fields clk row b5))))))"

definition dict_of :: "('k \<times> 'v) list \<Rightarrow> ('k \<times> 'v) list" where
  "dict_of ps = foldl (\<lambda>d (k, v). dict_set k v d) [] ps"

definition configured_slots :: "chain_topology \<Rightarrow> battery_map" where
  "configured_slots topo = map (\<lambda>(i, m). (i, new_battery i (member_cells m))) (enum1 (members topo))"

definition expected_rows :: "chain_topology \<Rightarrow> (int \<times> int \<times> member_topology) list" where
  "expected_rows topo = dict_of (map (\<lambda>(i, m). (bms_id m, i, m)) (enum1 (members topo)))"

definition decode_member :: "pyfloat \<Rightarrow> chain_topology \<Rightarrow> pyfloat \<Rightarrow> member_topology \<Rightarrow> pyobj \<Rightarrow> battery_data \<Rightarrow> battery_data res" where
  "decode_member clk topo now m row b =
     and_then (inventory row m (telemetry_schema topo)) (\<lambda>cs.
     and_then (and_then (number (vget row ''age_ms'') ''age_ms'') seconds_of) (\<lambda>age.
       if \<not> (fle (Fin 0) age \<and> flt age stale_timeout) then Inl (ValueError ''physical sample is expired'')
       else and_then (measurements clk row m cs b) (\<lambda>b1.
         let t = fsub now age; b2 = mark_sample_time status_fields t (retime t b1)
         in if is_valid clk b2 then Inr b2
            else Inl (ValueError ''invalid or offline BMS in ready frame''))))"

definition member_row :: "pyfloat \<Rightarrow> chain_topology \<Rightarrow> pyfloat \<Rightarrow> pyval \<Rightarrow> battery_map \<times> int list \<Rightarrow> (battery_map \<times> int list) res" where
  "member_row clk topo now v s = (case s of (bats, seen) \<Rightarrow>
     case v of VDict row \<Rightarrow>
       (case as_int (vget row ''id'') of None \<Rightarrow> Inl (ValueError ''invalid physical BMS id'')
        | Some ident \<Rightarrow> (case map_of (expected_rows topo) ident of
            None \<Rightarrow> Inl (ValueError ''unexpected or duplicate physical BMS id'')
          | Some (slot, m) \<Rightarrow>
              if ident \<in> set seen then Inl (ValueError ''unexpected or duplicate physical BMS id'')
              else (case map_of bats slot of None \<Rightarrow> Inl (KeyError (show_int slot))
                | Some b \<Rightarrow> and_then (decode_member clk topo now m row b) (\<lambda>b'.
                    Inr (dict_set slot b' bats, ident # seen)))))
     | _ \<Rightarrow> Inl (ValueError ''invalid physical BMS id''))"

definition decode_batteries :: "pyfloat \<Rightarrow> pyobj \<Rightarrow> chain_topology \<Rightarrow> pyfloat \<Rightarrow> battery_map res" where
  "decode_batteries clk frame topo now =
     (if as_int (vget frame ''schema'') \<noteq> Some (telemetry_schema topo)
      then Inl (ValueError ''telemetry schema does not match configured topology'')
      else case as_bool (vget frame ''ready'') of
        None \<Rightarrow> Inl (ValueError ''ready must be a boolean'')
      | Some False \<Rightarrow> Inr (configured_slots topo)
      | Some True \<Rightarrow> (case vget frame ''batteries'' of VList rows \<Rightarrow>
            if int (length rows) \<noteq> member_count topo
            then Inl (ValueError ''telemetry must contain exactly the configured members'')
            else if (has_key frame ''valid_mask'' \<or> telemetry_schema topo = 2)
                \<and> as_int (vget frame ''valid_mask'') \<noteq> Some (push_bit (length rows) 1 - 1)
            then Inl (ValueError ''telemetry member readiness mask is incomplete'')
            else and_then (foldM (member_row clk topo now) rows (configured_slots topo, [])) (\<lambda>(bats, seen). Inr bats)
          | _ \<Rightarrow> Inl (ValueError ''telemetry must contain exactly the configured members'')))"

section \<open>The evidence mask\<close>

lemma required_mask_bits:
  assumes "required_mask n = Inr m"
  shows "bit m i \<longleftrightarrow> i < 4 \<or> i = 8 \<or> (\<exists>c < nat n. i = cell_bit c)"
proof -
  have f: "bit (fold (\<lambda>c mask. mask OR push_bit (cell_bit c) 1) cs x) i \<longleftrightarrow> bit x i \<or> (\<exists>c \<in> set cs. i = cell_bit c)"
    for x :: int and cs
    by (induction cs arbitrary: x) (auto simp: bit_or_iff bit_exp_iff)
  have e: "(15 OR push_bit 8 1 :: int) = mask 4 OR push_bit 8 1" by (simp add: mask_numeral)
  have "bit (15 OR push_bit 8 1 :: int) i \<longleftrightarrow> i < 4 \<or> i = 8"
    unfolding e bit_or_iff bit_mask_iff bit_push_bit_iff bit_1_iff by auto
  then show ?thesis using assms f [of "[0..<nat n]" "15 OR push_bit 8 1"]
    by (auto simp: required_mask_def split: if_splits)
qed

text \<open>The mask determines the cell count: a producer with another inventory cannot present it.\<close>

lemma cell_bit_inj: "cell_bit c = cell_bit d \<longleftrightarrow> c = d"
  by (auto simp: cell_bit_def split: if_splits)

lemma cell_bit_free: "4 \<le> cell_bit c" "cell_bit c \<noteq> 8"
  by (auto simp: cell_bit_def)

lemma required_mask_cells:
  assumes "required_mask n = Inr m"
  shows "bit m (cell_bit c) \<longleftrightarrow> c < nat n"
  using required_mask_bits [OF assms, of "cell_bit c"] cell_bit_free [of c] by (auto simp: cell_bit_inj)

lemma required_mask_inj:
  assumes "required_mask n = Inr m" "required_mask k = Inr m"
  shows "n = k"
proof -
  have "c < nat n \<longleftrightarrow> c < nat k" for c
    using required_mask_cells [OF assms(1), of c] required_mask_cells [OF assms(2), of c] by simp
  then have "nat n = nat k" using linorder_neq_iff by blast
  moreover have "1 \<le> n" "1 \<le> k" using assms by (auto simp: required_mask_def split: if_splits)
  ultimately show ?thesis by simp
qed

section \<open>Strict complete frames\<close>

lemma dict_of_keys: "set (dict_keys (dict_of ps)) = fst ` set ps"
proof -
  have "set (dict_keys (foldl (\<lambda>d (k, v). dict_set k v d) d ps)) = set (dict_keys d) \<union> fst ` set ps" for d
    by (induction ps arbitrary: d) (auto split: prod.splits)
  from this [of "[]"] show ?thesis by (simp add: dict_of_def dict_keys_def)
qed

lemma map_of_dict_of_in: "map_of (dict_of ps) k = Some v \<Longrightarrow> (k, v) \<in> set ps"
proof -
  have "map_of (foldl (\<lambda>d (k, v). dict_set k v d) d ps) k = Some v \<Longrightarrow> (k, v) \<in> set ps \<or> map_of d k = Some v" for d
  proof (induction ps arbitrary: d)
    case (Cons p ps)
    obtain j w where p: "p = (j, w)" by (cases p)
    with Cons.prems have "map_of (foldl (\<lambda>d (k, v). dict_set k v d) (dict_set j w d) ps) k = Some v" by simp
    from Cons.IH [OF this] p show ?case by (auto split: if_splits)
  qed simp
  from this [of "[]"] show "map_of (dict_of ps) k = Some v \<Longrightarrow> (k, v) \<in> set ps" by (simp add: dict_of_def)
qed

lemma enum1_nth: "(i, x) \<in> set (enum1 xs) \<longleftrightarrow> 1 \<le> i \<and> i \<le> int (length xs) \<and> x = xs ! nat (i - 1)"
proof
  assume "(i, x) \<in> set (enum1 xs)"
  then show "1 \<le> i \<and> i \<le> int (length xs) \<and> x = xs ! nat (i - 1)"
    by (auto simp: enum1_def in_set_zip)
next
  assume a: "1 \<le> i \<and> i \<le> int (length xs) \<and> x = xs ! nat (i - 1)"
  then show "(i, x) \<in> set (enum1 xs)"
    unfolding enum1_def in_set_zip by (intro exI [of _ "nat (i - 1)"]) auto
qed

lemma expected_rows_in:
  assumes "map_of (expected_rows topo) ident = Some (slot, m)"
  shows "1 \<le> slot" "slot \<le> member_count topo" "m = members topo ! nat (slot - 1)" "bms_id m = ident"
  using map_of_dict_of_in [OF assms [unfolded expected_rows_def]]
  by (auto simp: member_count_def enum1_nth)

text \<open>The loop over rows, tagged by the physical id: the row of a slot carries the id of its configured member.\<close>

definition slot_row :: "chain_topology \<Rightarrow> int \<Rightarrow> pyobj \<Rightarrow> bool" where
  "slot_row topo slot row \<longleftrightarrow> as_int (vget row ''id'') = Some (bms_id (members topo ! nat (slot - 1)))"

interpretation member_rows: row_loop "member_row clk topo now"
  "\<lambda>ident. map_option fst (map_of (expected_rows topo) ident)"
  "\<lambda>slot row b. and_then (check (slot_row topo slot row) (ValueError [])) (\<lambda>_.
     decode_member clk topo now (members topo ! nat (slot - 1)) row b)"
proof unfold_locales
  fix v bats seen bats' seen'
  assume "member_row clk topo now v (bats, seen) = Inr (bats', seen')"
  then obtain row ident slot m b b' where r: "v = VDict row" "map_of (expected_rows topo) ident = Some (slot, m)"
    "ident \<notin> set seen" "map_of bats slot = Some b" "decode_member clk topo now m row b = Inr b'"
    "bats' = dict_set slot b' bats" "seen' = ident # seen" "as_int (vget row ''id'') = Some ident"
    by (auto simp: member_row_def split: pyval.splits option.splits if_splits)
  have a: "map_option fst (map_of (expected_rows topo) ident) = Some slot" using r(2) by simp
  have "slot_row topo slot row" using expected_rows_in(3,4) [OF r(2)] r(8) by (simp add: slot_row_def)
  then have d: "and_then (check (slot_row topo slot row) (ValueError [])) (\<lambda>_.
      decode_member clk topo now (members topo ! nat (slot - 1)) row b) = Inr b'"
    using expected_rows_in(3) [OF r(2)] r(5) by (simp add: check_def)
  show "bats' = bats \<and> seen' = seen \<or> (\<exists>row tag slot b b'. v = VDict row \<and> tag \<notin> set seen
      \<and> map_option fst (map_of (expected_rows topo) tag) = Some slot \<and> map_of bats slot = Some b
      \<and> and_then (check (slot_row topo slot row) (ValueError [])) (\<lambda>_.
          decode_member clk topo now (members topo ! nat (slot - 1)) row b) = Inr b'
      \<and> bats' = dict_set slot b' bats \<and> seen' = tag # seen)"
    by (intro disjI2 exI conjI; (rule r(1) r(3) a r(4) d r(6) r(7)))
next
  fix t u slot
  assume "map_option fst (map_of (expected_rows topo) t) = Some slot"
    "map_option fst (map_of (expected_rows topo) u) = Some slot"
  then obtain m k where "map_of (expected_rows topo) t = Some (slot, m)" "map_of (expected_rows topo) u = Some (slot, k)"
    by auto
  from expected_rows_in(3,4) [OF this(1)] expected_rows_in(3,4) [OF this(2)] show "t = u" by simp
qed

lemma member_rows_length:
  "foldM (member_row clk topo now) rows (bats, seen) = Inr (bats', seen') \<Longrightarrow>
    length seen' = length seen + length rows"
proof (induction rows arbitrary: bats seen)
  case (Cons v rows)
  then obtain bats1 seen1 where "member_row clk topo now v (bats, seen) = Inr (bats1, seen1)"
    "foldM (member_row clk topo now) rows (bats1, seen1) = Inr (bats', seen')" by auto
  moreover from this(1) have "length seen1 = Suc (length seen)"
    by (auto simp: member_row_def split: pyval.splits option.splits if_splits)
  ultimately show ?case using Cons.IH by fastforce
qed simp

lemma configured_slots_keys [simp]: "dict_keys (configured_slots topo) = [1..member_count topo]"
  by (simp add: configured_slots_def dict_keys_def member_count_def enum1_def case_prod_unfold comp_def)

lemma map_of_configured_slots:
  "map_of (configured_slots topo) i = Some b \<Longrightarrow>
    1 \<le> i \<and> i \<le> member_count topo \<and> b = new_battery i (member_cells (members topo ! nat (i - 1)))"
  by (auto simp: configured_slots_def member_count_def enum1_nth dest!: map_of_SomeD)

lemma configured_temperatures_keeps:
  assumes "configured_temperatures clk row m b = Inr b'" "P b" "\<And>k v b. P b \<Longrightarrow> P (update clk k (UNum v) b)"
  shows "P b'"
  using assms(1,2) by (auto simp: configured_temperatures_def split: pyval.splits if_splits
      elim!: foldM_invariant [where P = P] dest!: put_number_Inr intro: assms(3))

lemma measurements_keeps:
  assumes "measurements clk row m cs b = Inr b'" "P b"
    and step: "\<And>k v b. P b \<Longrightarrow> P (update clk k (UNum v) b)"
    and status: "\<And>b x y z. P b \<Longrightarrow> P (b\<lparr>charging := x, discharging := y, online := z\<rparr>)"
  shows "P b'"
proof -
  obtain b1 b2 b3 b4 b5 where s:
    "foldM (\<lambda>f. put_number clk f (row_number row f)) [''voltage'', ''current'', ''soc''] b = Inr b1"
    "put_number clk ''temperature'' (sensor_temperature (vget row ''temperature'')) b1 = Inr b2"
    "configured_temperatures clk row m b2 = Inr b3" "foldM (put_positive_cell clk) (enum1 cs) b3 = Inr b4"
    "foldM (put_status clk row) status_fields b4 = Inr b5" "b' = update_optional_fields clk row b5"
    using assms(1) by (auto simp: measurements_def)
  have "P b1" using s(1) assms(2) by (rule foldM_invariant) (auto dest!: put_number_Inr intro: step)
  with s(2) have "P b2" by (auto dest!: put_number_Inr intro: step)
  with s(3) have "P b3" by (rule configured_temperatures_keeps) (rule step)
  with s(4) have "P b4"
    by (rule foldM_invariant) (auto simp: put_positive_cell_def split: prod.splits if_splits intro: step)
  with s(5) have "P b5" by (rule_tac foldM_put_status) (auto intro: status)
  with s(6) show ?thesis by (auto intro: update_optional_fields_keeps step)
qed

text \<open>The age a row reports, in seconds.\<close>

definition row_age :: "pyobj \<Rightarrow> pyfloat \<Rightarrow> bool" where
  "row_age row age \<longleftrightarrow> (\<exists>ms. number (vget row ''age_ms'') ''age_ms'' = Inr ms \<and> fdiv ms (Fin 1000) = Inr age)"

lemma decode_member_facts:
  assumes "decode_member clk topo now m row b = Inr b'"
  shows "is_valid clk b'" "battery_id b' = battery_id b" "cell_count b' = cell_count b"
    "\<exists>age. row_age row age \<and> fle (Fin 0) age \<and> flt age stale_timeout \<and> (\<forall>k t. sample b' k = Some t \<longrightarrow> t = fsub now age)"
    "\<exists>cs. inventory row m (telemetry_schema topo) = Inr cs"
proof -
  obtain cs age b1 where s: "inventory row m (telemetry_schema topo) = Inr cs"
    "fle (Fin 0) age" "flt age stale_timeout" "measurements clk row m cs b = Inr b1"
    "b' = mark_sample_time status_fields (fsub now age) (retime (fsub now age) b1)" "is_valid clk b'"
    "and_then (number (vget row ''age_ms'') ''age_ms'') seconds_of = Inr age"
    using assms by (auto simp: decode_member_def Let_def split: if_splits)
  have i: "battery_id b1 = battery_id b \<and> cell_count b1 = cell_count b"
    using s(4) by (rule measurements_keeps) auto
  show "is_valid clk b'" "\<exists>cs. inventory row m (telemetry_schema topo) = Inr cs" using s by auto
  show "battery_id b' = battery_id b" "cell_count b' = cell_count b" using i s(5) by auto
  have "t = fsub now age" if "sample b' k = Some t" for k t
    using that s(5) by (auto simp: map_of_retime split: if_splits)
  moreover have "row_age row age" using s(7) by (auto simp: row_age_def seconds_of_def)
  ultimately show "\<exists>age. row_age row age \<and> fle (Fin 0) age \<and> flt age stale_timeout
      \<and> (\<forall>k t. sample b' k = Some t \<longrightarrow> t = fsub now age)" using s(2,3) by blast
qed

text \<open>What a ready frame yields in each slot: the battery decoded from the frame's row with the id of the slot's member,
  every sample stamped at the receipt time minus the age that row reports.\<close>

definition member_decoded :: "pyfloat \<Rightarrow> pyfloat \<Rightarrow> pyobj \<Rightarrow> int \<Rightarrow> member_topology \<Rightarrow> battery_data \<Rightarrow> bool" where
  "member_decoded clk now frame i m b \<longleftrightarrow> is_valid clk b \<and> battery_id b = i \<and> cell_count b = member_cells m
     \<and> (\<exists>rows row age. vget frame ''batteries'' = VList rows \<and> VDict row \<in> set rows
          \<and> as_int (vget row ''id'') = Some (bms_id m) \<and> row_age row age \<and> fle (Fin 0) age \<and> flt age stale_timeout
          \<and> (\<forall>k t. sample b k = Some t \<longrightarrow> t = fsub now age))"

lemma ready_rows:
  assumes "decode_batteries clk frame topo now = Inr bats" "frame_ready frame"
  obtains rows seen where "vget frame ''batteries'' = VList rows" "length seen = length (configured_slots topo)"
    "foldM (member_row clk topo now) rows (configured_slots topo, []) = Inr (bats, seen)"
proof -
  obtain rows seen where r: "int (length rows) = member_count topo" "vget frame ''batteries'' = VList rows"
    "foldM (member_row clk topo now) rows (configured_slots topo, []) = Inr (bats, seen)"
    using assms by (auto simp: decode_batteries_def frame_ready_def split: pyval.splits if_splits)
  have "length (configured_slots topo) = length (members topo)"
    by (simp add: configured_slots_def enum1_def)
  then have "length seen = length (configured_slots topo)"
    using member_rows_length [OF r(3)] r(1) by (simp add: member_count_def)
  with r show thesis using that by blast
qed

lemma ready_slot:
  assumes "decode_batteries clk frame topo now = Inr bats" "frame_ready frame" "map_of bats i = Some b"
  obtains rows row b0 where "vget frame ''batteries'' = VList rows" "VDict row \<in> set rows" "slot_row topo i row"
    "map_of (configured_slots topo) i = Some b0" "decode_member clk topo now (members topo ! nat (i - 1)) row b0 = Inr b"
proof -
  obtain rows seen where r: "vget frame ''batteries'' = VList rows" "length seen = length (configured_slots topo)"
    "foldM (member_row clk topo now) rows (configured_slots topo, []) = Inr (bats, seen)"
    by (rule ready_rows [OF assms(1,2)])
  have "distinct (dict_keys (configured_slots topo))" by simp
  from member_rows.loop_complete [OF r(3,2) assms(3) this] r(1) show thesis
    by (auto simp: check_def intro: that split: if_splits)
qed

lemma decode_ready:
  assumes "decode_batteries clk frame topo now = Inr bats" "frame_ready frame"
  shows "dict_keys bats = [1..member_count topo]"
    and "map_of bats i = Some b \<Longrightarrow> member_decoded clk now frame i (members topo ! nat (i - 1)) b"
proof -
  obtain rows seen where r: "foldM (member_row clk topo now) rows (configured_slots topo, []) = Inr (bats, seen)"
    by (rule ready_rows [OF assms])
  show "dict_keys bats = [1..member_count topo]" using member_rows.loop_keys [OF r] by simp
  assume "map_of bats i = Some b"
  then obtain rows row b0 where b: "vget frame ''batteries'' = VList rows" "VDict row \<in> set rows" "slot_row topo i row"
    "map_of (configured_slots topo) i = Some b0" "decode_member clk topo now (members topo ! nat (i - 1)) row b0 = Inr b"
    by (rule ready_slot [OF assms])
  have "battery_id b0 = i" "cell_count b0 = member_cells (members topo ! nat (i - 1))"
    using map_of_configured_slots [OF b(4)] by (auto simp: new_battery_def)
  with decode_member_facts(1-4) [OF b(5)] b(1-3) show "member_decoded clk now frame i (members topo ! nat (i - 1)) b"
    unfolding member_decoded_def slot_row_def by auto
qed

lemma decode_member_wf:
  assumes "decode_member clk topo now m row b = Inr b'" "battery_wf b" "clock clk"
    and "\<And>age. fle (Fin 0) age \<Longrightarrow> fle age stale_timeout \<Longrightarrow> clock (fsub now age)"
  shows "battery_wf b'"
proof -
  obtain cs age b1 where s: "fle (Fin 0) age" "fle age stale_timeout" "measurements clk row m cs b = Inr b1"
    "b' = mark_sample_time status_fields (fsub now age) (retime (fsub now age) b1)"
    using assms(1) flt_imp_fle by (auto simp: decode_member_def Let_def split: if_splits)
  have "battery_wf b1" using s(3) assms(2)
    by (rule measurements_keeps) (rule update_wf [OF _ assms(3)], simp_all add: battery_wf_def)
  then show ?thesis using s(1,2,4) assms(4) by (blast intro: mark_sample_time_wf retime_wf)
qed

lemma decode_ready_wf:
  assumes "decode_batteries clk frame topo now = Inr bats" "frame_ready frame" "clock clk"
    and "\<And>age. fle (Fin 0) age \<Longrightarrow> fle age stale_timeout \<Longrightarrow> clock (fsub now age)"
    and "map_of bats i = Some b"
  shows "battery_wf b" "sample_times b \<noteq> []"
proof -
  obtain row b0 where b: "map_of (configured_slots topo) i = Some b0"
    "decode_member clk topo now (members topo ! nat (i - 1)) row b0 = Inr b"
    using ready_slot [OF assms(1,2,5)] by metis
  have "battery_wf b0" using map_of_configured_slots [OF b(1)] by simp
  with b(2) show "battery_wf b" using decode_member_wf assms(3,4) by blast
  show "sample_times b \<noteq> []"
    using decode_ready(2) [OF assms(1,2,5)] valid_sampled by (auto simp: member_decoded_def)
qed

end
