(* ===== verification/TelemetryProps.thy ===== *)
theory TelemetryProps
  imports TelemetryV2
begin

text \<open>
  The contract of the battery container and of the three decoders, with one concrete battery,
  frame and inventory on which the properties are applied.
\<close>

section \<open>Properties of one battery\<close>

text \<open>An update touches the sample time of its own field only: the new time is the clock reading, the
  expiry mark, or the old value; status, capacity and cycle topics never renew anything, and the
  configured identity and inventory stay.\<close>

theorem update_scope:
  shows "(sample (update clk k v b) j = Some t \<longrightarrow> t = clk \<or> t = NInf \<or> sample b j = Some t)
    \<and> (j \<noteq> canonical_key k \<longrightarrow> sample (update clk k v b) j = sample b j)
    \<and> (\<not> is_live_key (canonical_key k) \<longrightarrow>
        sample (update clk k v b) j = sample b j \<or> sample (update clk k v b) j = Some NInf)
    \<and> battery_id (update clk k v b) = battery_id b \<and> cell_count (update clk k v b) = cell_count b"
  using update_sample_value update_other_sample update_not_live by fastforce

text \<open>A valid battery has a fresh sample and a positive voltage for every configured cell, a positive
  total, a state of charge between 0 and 100, known permissions and an explicit online status.\<close>

theorem valid_battery_complete:
  assumes "is_valid clk b"
  shows "(\<forall>i. 1 \<le> i \<and> i \<le> cell_count b \<longrightarrow> (\<exists>t. sample b (cell_key i) = Some t \<and> fresh clk t)
      \<and> \<not> fle (dict_get i (Fin 0) (cells b)) (Fin 0))
    \<and> (\<forall>k \<in> {''voltage'', ''current'', ''soc''}. \<exists>t. sample b k = Some t \<and> fresh clk t)
    \<and> (\<exists>v. voltage b = Some v \<and> \<not> fle v (Fin 0)) \<and> (\<exists>s. soc b = Some s \<and> fle (Fin 0) s \<and> fle s (Fin 100))
    \<and> charging b \<noteq> None \<and> discharging b \<noteq> None \<and> online b = Some True"
proof -
  have "k \<in> set (required_fields b) \<Longrightarrow> \<exists>t. sample b k = Some t \<and> fresh clk t" for k
    using valid_required [OF assms] .
  moreover have "cell_key i \<in> set (required_fields b)" if "1 \<le> i" "i \<le> cell_count b" for i
    using that by (simp add: required_fields_def)
  moreover have "{''voltage'', ''current'', ''soc''} \<subseteq> set (required_fields b)" by (auto simp: required_fields_def)
  ultimately show ?thesis using assms
    by (auto simp: is_valid_iff positive_voltage_def soc_in_range_def positive_cells_def list_all_iff split: option.splits)
qed

text \<open>Validity expires: a well-formed battery that is valid at \<open>c\<close> has an oldest sample less than a
  minute old, and is invalid at every clock a minute or more after that sample.\<close>

theorem validity_expires:
  assumes "battery_wf b" "is_valid (Fin c) b" "is_dbl c"
  shows "\<exists>t. oldest_sample_time b = Some (Fin t) \<and> t \<le> c \<and> c < t + 60
    \<and> (\<forall>c'. is_dbl c' \<and> t + 60 \<le> c' \<longrightarrow> \<not> is_valid (Fin c') b)"
proof -
  have d: "distinct (dict_keys (sample_times b))" using assms(1) by (simp add: battery_wf_def)
  obtain s where s: "oldest_sample_time b = Some s" "fresh (Fin c) s" using valid_oldest_fresh [OF assms(2) d] by blast
  obtain k where k: "sample b k = Some s" using oldest_in [OF s(1) d] by blast
  then have "s = NInf \<or> clock s" using assms(1) by (force simp: battery_wf_def dest: map_of_SomeD)
  with s(2) obtain t where t: "s = Fin t" "is_dbl t" by (auto simp: clock_iff)
  have "\<not> is_valid (Fin c') b" if "is_dbl c'" "t + 60 \<le> c'" for c'
  proof
    assume "is_valid (Fin c') b"
    then have "fresh (Fin c') (Fin t)" using valid_sample_fresh k t(1) by blast
    with fresh_bounds(2) [OF this that(1) t(2)] that(2) show False by simp
  qed
  moreover have "t \<le> c" "c < t + 60" using fresh_bounds s(2) t assms(3) by auto
  ultimately show ?thesis using s(1) t(1) by blast
qed

text \<open>Whatever sequence of updates arrives, at whatever clock readings, a battery's stored numbers are
  finite, its dictionaries have distinct keys and positive indices, and its identity and configured
  cell count never change.\<close>

theorem battery_invariant:
  assumes "list_all reading_ok es"
  shows "battery_wf (run update_step es (new_battery i n))
    \<and> battery_id (run update_step es (new_battery i n)) = i \<and> cell_count (run update_step es (new_battery i n)) = n"
proof -
  have "battery_id (new_battery i n) = i" "cell_count (new_battery i n) = n" by (simp_all add: new_battery_def)
  then show ?thesis
    using bms.inv_run [OF battery_wf_new assms] bms.below_run [OF battery_wf_new assms] by metis
qed

section \<open>Properties of schema-1 frames\<close>

text \<open>A ready frame that decodes yields exactly the configured slots, each decoded from a row of its own.\<close>

theorem complete_frame_exact:
  assumes "Telemetry.decode_batteries clk frame count first n now = Inr bats" "frame_ready frame"
  shows "dict_keys bats = [1..count] \<and> (\<forall>i b. map_of bats i = Some b \<longrightarrow>
    decoded clk now b \<and> battery_id b = i \<and> cell_count b = n)"
  using decode_batteries_complete [OF assms] by blast

text \<open>C20: A partial frame keeps the slots and only takes permissions away: no merge grants charging or
  discharging, and none changes the online status.\<close>

theorem partial_frame_no_grant:
  assumes "merge_partial clk frame previous first now refresh = Inr bats" "distinct (dict_keys previous)"
  shows "dict_keys bats = dict_keys previous \<and> (\<forall>i b'. map_of bats i = Some b' \<longrightarrow>
    (\<exists>b. map_of previous i = Some b \<and> no_new_grant b b'))"
  using merge_partial_slots [OF assms] merge_battery_no_grant by blast

text \<open>A partial frame that may not refresh never renews: every sample of a merged battery is one it
  had before or no newer than its oldest previous sample.\<close>

theorem partial_frame_not_renewed:
  assumes "merge_partial clk frame previous first now False = Inr bats" "distinct (dict_keys previous)"
    and "clock clk" "now = Fin c" "\<bar>c\<bar> \<le> pow2 60"
    and "map_of bats i = Some b'" "map_of previous i = Some b" "battery_wf b" "oldest_sample_time b = Some m"
  shows "\<forall>k t. sample b' k = Some t \<longrightarrow> sample b k = Some t \<or> fle t m"
proof -
  obtain row b0 where "map_of previous i = Some b0" "merge_battery clk row now False b0 = Inr b'"
    using merge_partial_slots(2) [OF assms(1,2,6)] by blast
  then have "merge_battery clk row now False b = Inr b'" using assms(7) by simp
  then have "not_renewed m b b'"
    by (rule merge_battery_not_renewed [OF _ assms(8,3,9)]) (simp add: assms(4) clock_minus_age [OF assms(5)])
  then show ?thesis by (simp add: not_renewed_def)
qed

section \<open>Properties of strict frames\<close>

text \<open>C27: A ready frame that decodes yields exactly the configured slots, each with its configured number of
  cells, valid on arrival.  Each comes from a row of the frame that carries the id of the slot's member, and every
  sample is stamped at the receipt time minus the age in seconds that this row reports, which is below the stale
  timeout.\<close>

theorem strict_frame_exact:
  assumes "TelemetryV2.decode_batteries clk frame topo now = Inr bats" "frame_ready frame"
  shows "dict_keys bats = [1..member_count topo] \<and> (\<forall>i b. map_of bats i = Some b \<longrightarrow>
    member_decoded clk now frame i (members topo ! nat (i - 1)) b)"
  using decode_ready [OF assms] by blast

text \<open>A frame that is not ready yields empty batteries, none of them valid at any clock.\<close>

theorem strict_frame_not_ready:
  assumes "TelemetryV2.decode_batteries clk frame topo now = Inr bats" "\<not> frame_ready frame" "map_of bats i = Some b"
  shows "\<not> is_valid t b \<and> sample_times b = []"
proof -
  have "bats = configured_slots topo"
    using assms(1,2) by (auto simp: TelemetryV2.decode_batteries_def frame_ready_def split: option.splits bool.splits if_splits)
      (cases "vget frame ''ready''"; auto)
  with map_of_configured_slots assms(3) have "b = new_battery i (member_cells (members topo ! nat (i - 1)))" by blast
  then show ?thesis using valid_required [of t b] by (auto simp: new_battery_def is_valid_def missing_fields_def)
qed

text \<open>The evidence mask determines the cell count, so a producer configured for another inventory can
  never present the expected mask.\<close>

theorem evidence_mask_injective:
  assumes "required_mask n = Inr m" "required_mask k = Inr m"
  shows "n = k"
  using required_mask_inj [OF assms] .

definition single_chain :: chain_topology where
  "single_chain = \<lparr>chain_id = ''h'', topic_prefix = ''b'', telemetry_schema = 2,
     members = [\<lparr>bms_id = 7, member_cells = 1, member_temperatures = 1, capacity_ah = None,
       member_charge_current = None, member_discharge_current = None\<rparr>],
     service_suffix = ''h'', device_instance = 600, product_name = ''h'', chain_output = ''offline'',
     protection_profile = None, system_voltage_limit = None\<rparr>"

definition single_frame :: "bool \<Rightarrow> pyobj" where
  "single_frame ready = [(''schema'', VInt 2), (''ready'', VBool ready), (''valid_mask'', VInt 1),
     (''batteries'', VList [VDict [(''id'', VInt 7), (''cells'', VList [VInt 3]), (''seen_mask'', VInt 287),
        (''valid_mask'', VInt 287), (''required_mask'', VInt 287), (''cell_count'', VInt 1),
        (''reported_cell_count'', VInt 1), (''age_ms'', VInt 1000), (''voltage'', VInt 3), (''current'', VInt 1),
        (''soc'', VInt 50), (''temperature'', VInt 20), (''charging'', VBool True), (''discharging'', VBool True),
        (''online'', VBool True)]])]"

lemma single_mask: "required_mask 1 = Inr 287"
  by code_simp

lemma fl_numeral: "(numeral k :: int) \<le> 2 ^ 53 \<Longrightarrow> fl (numeral k) = Fin (numeral k)"
  using of_pyint_exact [of "numeral k"] by (cases "fl (numeral k)") (auto simp: of_pyint_def)

lemma update_voltage: "update clk ''voltage'' (UNum (Fin x)) b = b\<lparr>voltage := Some (Fin x), last_update := clk,
    sample_times := dict_set ''voltage'' clk (sample_times b)\<rparr>"
  by (simp add: update_def canonical_key_def bool_keys_def store_numeric_def starts_with_def float_keys_def
      set_float_field_def is_live_key_def live_keys_def)
lemma update_current: "update clk ''current'' (UNum (Fin x)) b = b\<lparr>current := Some (Fin x), last_update := clk,
    sample_times := dict_set ''current'' clk (sample_times b)\<rparr>"
  by (simp add: update_def canonical_key_def bool_keys_def store_numeric_def starts_with_def float_keys_def
      set_float_field_def is_live_key_def live_keys_def)
lemma update_soc: "update clk ''soc'' (UNum (Fin x)) b = b\<lparr>soc := Some (Fin x), last_update := clk,
    sample_times := dict_set ''soc'' clk (sample_times b)\<rparr>"
  by (simp add: update_def canonical_key_def bool_keys_def store_numeric_def starts_with_def float_keys_def
      set_float_field_def is_live_key_def live_keys_def)
lemma sensor_one: "sensor_index ''temperature_1'' = Inr 1" "sensor_index ''cell_1'' = Inr 1"
  by code_simp+
lemma update_temp: "temperatures b = [] \<Longrightarrow> update clk ''temperature'' (UNum (Fin 20)) b = b\<lparr>temperatures := [(1, Fin 20)],
    temperature := Some (Fin 20), last_update := clk, sample_times := dict_set ''temperature_1'' clk (sample_times b)\<rparr>"
proof -
  have m: "fmean [Fin 20] = Inr (Fin 20)" by code_simp
  assume "temperatures b = []"
  with m show ?thesis
  by (simp add: update_def canonical_key_def bool_keys_def store_numeric_def starts_with_def 
      is_live_key_def live_keys_def update_temperature_sensor_def sensor_one dict_vals_def neg40_def Let_def)
qed
lemma update_cell1: "update clk ''cell_1'' (UNum (Fin x)) b = b\<lparr>cells := dict_set 1 (Fin x) (cells b), last_update := clk,
     sample_times := dict_set ''cell_1'' clk (sample_times b)\<rparr>"
  by (simp add: update_def canonical_key_def bool_keys_def store_numeric_def starts_with_def 
      is_live_key_def live_keys_def update_cell_voltage_def sensor_one)

lemmas update_known = update_voltage update_current update_soc update_temp update_cell1 update_status

lemma fl_small: "fl 99 = Fin 99" "fl 3 = Fin 3" "fl 7 = Fin 7"
  by (simp_all add: fl_numeral)

definition single_battery :: battery_data where
  "single_battery = (new_battery 1 1)\<lparr>voltage := Some (Fin 3), current := Some (Fin 1), soc := Some (Fin 50),
     temperatures := [(1, Fin 20)], temperature := Some (Fin 20), cells := [(1, Fin 3)],
     charging := Some True, discharging := Some True, online := Some True, last_update := Fin 100,
     sample_times := map (\<lambda>k. (k, Fin 100)) [''voltage'', ''current'', ''soc'', ''temperature_1'', ''cell_1'']\<rparr>"

definition single_row :: pyobj where
  "single_row = (case single_frame True of _ # _ # _ # (_, VList [VDict r]) # _ \<Rightarrow> r | _ \<Rightarrow> [])"

lemma single_numbers:
  "row_number single_row ''voltage'' = Inr (Fin 3)" "row_number single_row ''current'' = Inr (Fin 1)"
  "row_number single_row ''soc'' = Inr (Fin 50)" "vget single_row ''temperature'' = VInt 20"
  "vget single_row ''temperatures'' = VNone" "vget single_row ''charging'' = VBool True"
  "vget single_row ''discharging'' = VBool True" "vget single_row ''online'' = VBool True"
  "\<not> has_key single_row ''capacity''" "\<not> has_key single_row ''cycles''"
  by (simp_all add: row_number_def number_def single_row_def single_frame_def vget_def dict_get_def has_key_def of_pyint_exact)

lemma cell_key_1: "cell_key 1 = ''cell_1''" by code_simp

lemma single_measurements:
  "measurements (Fin 100) single_row (hd (members single_chain)) [VInt 3] (new_battery 1 1) = Inr single_battery"
  by (simp add: measurements_def put_number_def single_numbers update_known sensor_temperature_def number_def of_pyint_exact
      configured_temperatures_def single_chain_def put_positive_cell_def enum1_def cell_key_1 foldM.simps status_fields_def
      put_status_def update_optional_fields_def put_optional_def new_battery_def neg40_def)
    (simp add: single_battery_def new_battery_def)


lemma temp_key_1: "temp_key 1 = ''temperature_1''" by code_simp

lemma single_valid:
  "is_valid (Fin 100) (mark_sample_time status_fields (Fin 99) (retime (Fin 99) single_battery))"
proof -
  have k: "stale_keys (Fin 100) (mark_sample_time status_fields (Fin 99) (retime (Fin 99) single_battery)) = []"
    by (simp add: stale_keys_def required_fields_def single_battery_def new_battery_def mark_sample_time_def retime_def
      status_fields_def cell_key_1 temp_key_1 dict_keys_def fresh_def Let_def STALE_TIMEOUT_def)
  show ?thesis unfolding is_valid_def missing_fields_def k
    by (simp add: mark_sample_time_def retime_def single_battery_def new_battery_def Let_def positive_voltage_def
      soc_in_range_def positive_cells_def dict_get_def)
qed

lemma single_member:
  "decode_member (Fin 100) single_chain (Fin 100) (hd (members single_chain)) single_row (new_battery 1 1)
    = Inr (mark_sample_time status_fields (Fin 99) (retime (Fin 99) single_battery))"
proof -
  have "inventory single_row (hd (members single_chain)) 2 = Inr [VInt 3]"
    by (simp add: inventory_def single_row_def single_frame_def single_chain_def vget_def dict_get_def has_key_def
      declared_def single_mask number_def of_pyint_exact)
  moreover have "number (vget single_row ''age_ms'') ''age_ms'' = Inr (Fin 1000)"
    by (simp add: single_row_def single_frame_def vget_def dict_get_def number_def of_pyint_exact)
  moreover have "telemetry_schema single_chain = 2" by (simp add: single_chain_def)
  ultimately show ?thesis using single_valid single_measurements
    by (simp add: decode_member_def seconds_of_def stale_timeout_def STALE_TIMEOUT_def Let_def fl_small)
qed

lemma single_decodes:
  "is_ok (TelemetryV2.decode_batteries (Fin 100) (single_frame True) single_chain (Fin 100))"
proof -
  have r: "vget (single_frame True) ''batteries'' = VList [VDict single_row]"
    "as_int (vget (single_frame True) ''schema'') = Some 2" "as_bool (vget (single_frame True) ''ready'') = Some True"
    "as_int (vget (single_frame True) ''valid_mask'') = Some 1" "as_int (vget single_row ''id'') = Some 7"
    by (simp_all add: single_frame_def single_row_def vget_def dict_get_def)
  have m: "member_count single_chain = 1" "telemetry_schema single_chain = 2"
    "expected_rows single_chain = [(7, 1, hd (members single_chain))]"
    "configured_slots single_chain = [(1, new_battery 1 1)]"
    by (simp_all add: member_count_def single_chain_def expected_rows_def dict_of_def enum1_def configured_slots_def)
  show ?thesis
    by (simp add: TelemetryV2.decode_batteries_def r m member_row_def single_member)
qed

theorem strict_frame_exact_witness:
  "\<exists>bats b. TelemetryV2.decode_batteries (Fin 100) (single_frame True) single_chain (Fin 100) = Inr bats
    \<and> dict_keys bats = [1] \<and> map_of bats 1 = Some b \<and> sample b ''voltage'' = Some (Fin 99)"
proof -
  obtain bats where bats: "TelemetryV2.decode_batteries (Fin 100) (single_frame True) single_chain (Fin 100) = Inr bats"
    using single_decodes by (auto simp: is_ok_iff)
  have "frame_ready (single_frame True)" by (simp add: frame_ready_def single_frame_def vget_def dict_get_def)
  note exact = strict_frame_exact [OF bats this]
  have one: "member_count single_chain = 1" by (simp add: member_count_def single_chain_def)
  have "dict_keys bats = [1]" using conjunct1 [OF exact] one by simp
  then have "1 \<in> set (dict_keys bats)" by simp
  then obtain b where b: "map_of bats 1 = Some b" by (auto simp: set_dict_keys)
  then have d: "member_decoded (Fin 100) (Fin 100) (single_frame True) 1 (members single_chain ! 0) b" using conjunct2 [OF exact] by fastforce
  obtain rows row age where r: "vget (single_frame True) ''batteries'' = VList rows" "VDict row \<in> set rows"
    "row_age row age" "\<forall>k t. sample b k = Some t \<longrightarrow> t = fsub (Fin 100) age"
    using d unfolding member_decoded_def by blast
  have "vget row ''age_ms'' = VInt 1000" using r(1,2) by (auto simp: single_frame_def vget_def dict_get_def)
  moreover have "of_pyint 1000 = Inr (Fin 1000)" using of_pyint_exact [of 1000] by simp
  ultimately have "age = Fin 1" using r(3) by (auto simp: row_age_def number_def)
  moreover have "sample b ''voltage'' \<noteq> None"
    using d valid_required [of "Fin 100" b "''voltage''"] by (auto simp: member_decoded_def required_fields_def)
  ultimately have "sample b ''voltage'' = Some (Fin 99)" using r(4) by (auto simp: fl_numeral)
  with bats exact one b show ?thesis by auto
qed

theorem strict_frame_not_ready_witness:
  "\<not> is_valid (Fin 100) (new_battery 1 1)"
  using strict_frame_not_ready [of "Fin 100" "single_frame False" single_chain "Fin 100"
      "[(1, new_battery 1 1)]" 1 "new_battery 1 1" "Fin 100"]
  by (simp add: TelemetryV2.decode_batteries_def frame_ready_def single_frame_def vget_def dict_get_def single_chain_def
      configured_slots_def enum1_def)

theorem evidence_mask_injective_witness: "required_mask 4 = Inr 511 \<and> (4::int) = 4"
proof -
  have "required_mask 4 = Inr 511" by code_simp
  with evidence_mask_injective [OF this this] show ?thesis by simp
qed


section \<open>Concrete batteries and legacy frames\<close>

definition stamped_battery :: battery_data where
  "stamped_battery = mark_sample_time status_fields (Fin 99) (retime (Fin 99) single_battery)"

lemma stamped_valid: "is_valid (Fin 100) stamped_battery"
  using single_valid by (simp add: stamped_battery_def)

lemma clock_99: "clock (Fin 99)" "clock (Fin 100)"
  using is_dbl_of_int [of 99] is_dbl_of_int [of 100] pow2_less_iff [of 7 1024] pow2_nat [of 7]
  by (simp_all add: clock_def fmax_def del: pow2_less_iff)

lemma stamped_wf: "battery_wf stamped_battery"
proof -
  have "battery_wf (retime (Fin 99) single_battery)"
    using clock_99 by (simp add: battery_wf_def retime_def single_battery_def new_battery_def finite_opt_def dict_keys_def)
  then show ?thesis unfolding stamped_battery_def using clock_99 by (intro mark_sample_time_wf) auto
qed

theorem battery_invariant_witness:
  "battery_wf (run update_step [(Fin 100, ''voltage'', UNum (Fin 3)), (Fin 99, ''online'', UBool True)] (new_battery 1 4))"
  by (rule battery_invariant [THEN conjunct1]) (simp add: reading_ok_def clock_99)

theorem update_scope_witness:
  "sample (update (Fin 100) ''cycles'' (UNum (Fin 5)) stamped_battery) ''voltage'' = sample stamped_battery ''voltage''"
  using update_scope [of "Fin 100" "''cycles''" "UNum (Fin 5)" stamped_battery "''voltage''" "Fin 99"]
  by (simp add: canonical_key_def)

theorem valid_battery_complete_witness:
  "(\<exists>t. sample stamped_battery (cell_key 1) = Some t \<and> fresh (Fin 100) t) \<and> online stamped_battery = Some True"
  using valid_battery_complete [OF stamped_valid] by (simp add: stamped_battery_def single_battery_def new_battery_def)

theorem validity_expires_witness:
  "\<not> is_valid (Fin 200) stamped_battery"
proof -
  have d: "is_dbl 100" "is_dbl 200" using is_dbl_of_int [of 100] is_dbl_of_int [of 200] by simp_all
  obtain t where "t \<le> 100" "\<forall>c'. is_dbl c' \<and> t + 60 \<le> c' \<longrightarrow> \<not> is_valid (Fin c') stamped_battery"
    using validity_expires [OF stamped_wf stamped_valid d(1)] by blast
  then show ?thesis using d(2) by auto
qed

definition legacy_row :: pyobj where
  "legacy_row = [(''id'', VInt 1), (''cells'', VList [VInt 3]), (''age_ms'', VInt 1000), (''voltage'', VInt 3),
     (''current'', VInt 1), (''soc'', VInt 50), (''temperature'', VInt 20), (''charging'', VBool True),
     (''discharging'', VBool True), (''online'', VBool True)]"

definition legacy_frame :: pyobj where
  "legacy_frame = [(''schema'', VInt 1), (''ready'', VBool True), (''batteries'', VList [VDict legacy_row])]"

lemma legacy_values:
  "row_number legacy_row ''voltage'' = Inr (Fin 3)" "row_number legacy_row ''current'' = Inr (Fin 1)"
  "row_number legacy_row ''soc'' = Inr (Fin 50)" "row_number legacy_row ''temperature'' = Inr (Fin 20)"
  "row_number legacy_row ''age_ms'' = Inr (Fin 1000)" "vget legacy_row ''cells'' = VList [VInt 3]"
  "vget legacy_row ''temperatures'' = VNone" "vget legacy_row ''charging'' = VBool True"
  "vget legacy_row ''discharging'' = VBool True" "vget legacy_row ''online'' = VBool True"
  "\<not> has_key legacy_row ''capacity''" "\<not> has_key legacy_row ''cycles''" "\<not> has_key legacy_row ''seen_mask''"
  "\<not> has_key legacy_row ''valid_mask''"
  by (simp_all add: row_number_def number_def legacy_row_def vget_def dict_get_def has_key_def of_pyint_exact)

lemma legacy_measurements:
  "update_measurements (Fin 100) legacy_row [VInt 3] (new_battery 1 1)
    = Inr (single_battery\<lparr>charging := None, discharging := None, online := None\<rparr>)"
  by (simp add: update_measurements_def put_number_def legacy_values update_known put_temperatures_def put_cell_def enum1_def
      cell_key_1 number_def of_pyint_exact new_battery_def)
    (simp add: single_battery_def new_battery_def)

lemma legacy_row_decodes:
  "decode_complete_row (Fin 100) legacy_row (new_battery 1 1) 1 (Fin 100) = Inr (stamped_battery\<lparr>last_update := Fin 99\<rparr>)"
proof -
  have e: "complete_evidence legacy_row 1 = Inr (Fin 1, [VInt 3])"
    by (simp add: complete_evidence_def legacy_values seconds_of_def stale_timeout_def STALE_TIMEOUT_def)
  have st: "foldM (put_status (Fin 100) legacy_row) status_fields (single_battery\<lparr>charging := None, discharging := None, online := None\<rparr>)
    = Inr single_battery"
    by (simp add: status_fields_def put_status_def legacy_values update_status) (simp add: single_battery_def)
  have v: "is_valid (Fin 100) (stamped_battery\<lparr>last_update := Fin 99\<rparr>)"
    using stamped_valid by (simp add: is_valid_iff required_fields_def positive_voltage_def soc_in_range_def positive_cells_def)
  show ?thesis
    using e st v by (simp add: decode_complete_row_def legacy_measurements update_optional_fields_def put_optional_def
        legacy_values fl_small Let_def stamped_battery_def)
qed

theorem complete_frame_exact_witness:
  "\<exists>bats. Telemetry.decode_batteries (Fin 100) legacy_frame 1 1 1 (Fin 100) = Inr bats \<and> dict_keys bats = [1]"
proof -
  have r: "frame_ready legacy_frame" "vget legacy_frame ''batteries'' = VList [VDict legacy_row]"
    "as_int (vget legacy_row ''id'') = Some 1"
    by (simp_all add: frame_ready_def legacy_frame_def legacy_row_def vget_def dict_get_def)
  have "\<exists>bats. Telemetry.decode_batteries (Fin 100) legacy_frame 1 1 1 (Fin 100) = Inr bats"
    using r by (simp add: Telemetry.decode_batteries_def empty_slots_def decode_row_def legacy_row_decodes)
  with complete_frame_exact [OF _ r(1), of "Fin 100" 1 1 1 "Fin 100"] show ?thesis by auto
qed

section \<open>A concrete partial frame\<close>

definition quad_battery :: battery_data where
  "quad_battery = (new_battery 1 4)\<lparr>voltage := Some (Fin 3), charging := Some True, discharging := Some True,
     sample_times := [(''voltage'', Fin 99)]\<rparr>"

definition partial_row :: pyobj where
  "partial_row = [(''id'', VInt 1), (''seen_mask'', VInt 257), (''valid_mask'', VInt 257), (''observed_age_ms'', VInt 0),
     (''cells'', VList [VInt 3, VInt 3, VInt 3, VInt 3]), (''voltage'', VInt 7), (''charging'', VBool False),
     (''discharging'', VBool True)]"

definition partial_frame :: pyobj where
  "partial_frame = [(''batteries'', VList [VDict partial_row])]"

lemma partial_values:
  "vget partial_frame ''batteries'' = VList [VDict partial_row]" "as_int (vget partial_row ''id'') = Some 1"
  "as_int (vget partial_row ''seen_mask'') = Some 257" "as_int (vget partial_row ''valid_mask'') = Some 257"
  "row_number partial_row ''observed_age_ms'' = Inr (Fin 0)" "row_number partial_row ''voltage'' = Inr (Fin 7)"
  "vget partial_row ''cells'' = VList [VInt 3, VInt 3, VInt 3, VInt 3]"
  "vget partial_row ''charging'' = VBool False" "vget partial_row ''discharging'' = VBool True"
  by (simp_all add: row_number_def number_def partial_frame_def partial_row_def vget_def dict_get_def of_pyint_exact)

definition merged_quad :: battery_data where
  "merged_quad = quad_battery\<lparr>voltage := Some (Fin 7), charging := Some False, last_update := Fin 99\<rparr>"

lemma observed_bits: "bit (257::int) 0" "bit (257::int) 8" "\<not> bit (257::int) (Suc 0)" "\<not> bit (257::int) 2"
  "\<not> bit (257::int) 3" "\<not> bit (257::int) 4" "\<not> bit (257::int) 5" "\<not> bit (257::int) 6" "\<not> bit (257::int) 7"
  "(257::int) AND NOT 257 = 0"
  by simp_all

lemma quad_merges: "merge_battery (Fin 100) partial_row (Fin 100) False quad_battery = Inr merged_quad"
proof -
  have e: "partial_evidence partial_row quad_battery = Inr (257, Fin 0)"
    by (simp add: partial_evidence_def partial_values quad_battery_def new_battery_def seconds_of_def stale_timeout_def
        STALE_TIMEOUT_def)
  have f: "observed_field partial_row [VInt 3, VInt 3, VInt 3, VInt 3] 0 = Inr (''voltage'', Fin 7)"
    by (simp add: observed_field_def observed_key_def partial_values)
  have "merge_partial_numbers (Fin 100) partial_row 257 (Fin 0) (Fin 100) False quad_battery
    = Inr (quad_battery\<lparr>voltage := Some (Fin 7), last_update := Fin 99\<rparr>)"
    by (simp add: merge_partial_numbers_def partial_values upt_rec merge_number_def observed_bits f Let_def update_known
        canonical_key_def partial_sample_time_def quad_battery_def new_battery_def oldest_sample_time_def dict_vals_def
        fmin_option_def fmin_def mark_sample_time_def fmax_default_def fl_numeral)
  then show ?thesis
    by (simp add: merge_battery_def e merge_partial_status_def observed_bits merge_veto_def partial_values update_status
       merged_quad_def)
qed

lemma quad_frame: "merge_partial (Fin 100) partial_frame [(1, quad_battery)] 1 (Fin 100) False = Inr [(1, merged_quad)]"
  by (simp add: merge_partial_def partial_values merge_row_def quad_merges)

lemma quad_wf: "battery_wf quad_battery"
  using clock_99 by (simp add: battery_wf_def quad_battery_def new_battery_def finite_opt_def dict_keys_def)

theorem partial_frame_no_grant_witness: "charging merged_quad = Some False \<and> no_new_grant quad_battery merged_quad"
proof -
  have "\<exists>b. map_of [(1 :: int, quad_battery)] 1 = Some b \<and> no_new_grant b merged_quad"
    by (rule partial_frame_no_grant [OF quad_frame, THEN conjunct2, rule_format]) (simp_all add: dict_keys_def)
  then show ?thesis by (simp add: merged_quad_def)
qed

theorem partial_frame_not_renewed_witness:
  "sample merged_quad ''voltage'' = Some (Fin 99)"
proof -
  have "oldest_sample_time quad_battery = Some (Fin 99)"
    by (simp add: quad_battery_def oldest_sample_time_def dict_vals_def fmin_option_def)
  moreover have "\<bar>100\<bar> \<le> pow2 60" using pow2_nat [of 60] by simp
  ultimately have "\<forall>k t. sample merged_quad k = Some t \<longrightarrow> sample quad_battery k = Some t \<or> fle t (Fin 99)"
    using quad_wf clock_99 by (intro partial_frame_not_renewed [OF quad_frame, of 100 1 merged_quad quad_battery]) (simp_all add: dict_keys_def)
  then show ?thesis by (simp add: merged_quad_def quad_battery_def)
qed

end
