(* ===== verification/LocalBroker.thy ===== *)
theory LocalBroker
  imports PyText
begin

text \<open>
  \<open>config.local_broker_address\<close>: a connection that must stay on the machine is pinned to a
  numeric loopback address.  \<open>parse_v4\<close> and \<open>parse_v6\<close> are the address parsers of the standard
  library's \<open>ipaddress\<close> module as of CPython 3.13, which also calls an IPv4-mapped loopback
  address loopback.
\<close>

datatype ip = V4 int | V6 int "string option"

definition octet :: "string \<Rightarrow> int option" where
  "octet s = (if s = [] \<or> \<not> list_all is_digit s \<or> 3 < length s \<or> (s \<noteq> ''0'' \<and> hd s = CHR ''0'') then None
     else let n = nat_of_digits (map dval s) in if 255 < n then None else Some n)"

definition parse_v4 :: "string \<Rightarrow> int option" where
  "parse_v4 s = (case map octet (py_split (CHR ''.'') s) of
     [Some a, Some b, Some c, Some d] \<Rightarrow> Some (((a * 256 + b) * 256 + c) * 256 + d)
   | _ \<Rightarrow> None)"

definition hex_digit :: "char \<Rightarrow> int option" where
  "hex_digit c = (if is_digit c then Some (dval c)
     else let n = code (ascii_lower c) in if 97 \<le> n \<and> n \<le> 102 then Some (n - 87) else None)"

definition hextet :: "string \<Rightarrow> int option" where
  "hextet s = (if s = [] \<or> 4 < length s \<or> None \<in> set (map hex_digit s) then None
     else Some (foldl (\<lambda>a d. 16 * a + d) 0 (map (the \<circ> hex_digit) s)))"

text \<open>The sixteen-bit groups of an address text, with a dotted tail read as two groups.\<close>

definition v6_groups :: "string \<Rightarrow> string list option" where
  "v6_groups s = (let parts = py_split (CHR '':'') s in
     if length parts < 3 then None
     else if CHR ''.'' \<in> set (last parts)
     then (case parse_v4 (last parts) of None \<Rightarrow> None | Some _ \<Rightarrow> Some (butlast parts @ [''0'', last parts]))
     else Some parts)"

definition group_value :: "string \<Rightarrow> int option" where
  "group_value s = (if CHR ''.'' \<in> set s then parse_v4 s else hextet s)"

definition all_groups :: "string list \<Rightarrow> int option" where
  "all_groups gs = (if None \<in> set (map group_value gs) then None
     else Some (foldl (\<lambda>a v. 65536 * a + v) 0 (map (the \<circ> group_value) gs)))"

text \<open>The positions of inner empty groups: at most one \<open>::\<close> may occur.\<close>

definition skips :: "string list \<Rightarrow> nat list" where
  "skips parts = filter (\<lambda>i. parts ! i = []) [1..<length parts - 1]"

definition split_v6 :: "string list \<Rightarrow> (string list \<times> string list) option" where
  "split_v6 parts =
     (if 9 < length parts then None
      else case skips parts of
        [] \<Rightarrow> if length parts \<noteq> 8 \<or> hd parts = [] \<or> last parts = [] then None else Some (parts, [])
      | [k] \<Rightarrow>
         let hi = take k parts; lo = drop (k + 1) parts;
             hi' = (if hd parts = [] then tl hi else hi);
             lo' = (if last parts = [] then butlast lo else lo)
         in if (hd parts = [] \<and> hi' \<noteq> []) \<or> (last parts = [] \<and> lo' \<noteq> []) \<or> 8 < length hi' + length lo' + 1
            then None else Some (hi', lo')
      | _ \<Rightarrow> None)"

definition parse_v6_number :: "string \<Rightarrow> int option" where
  "parse_v6_number s = (case v6_groups s of None \<Rightarrow> None | Some parts \<Rightarrow>
     (case split_v6 parts of None \<Rightarrow> None | Some (hi, lo) \<Rightarrow>
       (case (all_groups hi, all_groups lo) of
          (Some h, Some l) \<Rightarrow> Some (h * 65536 ^ (8 - length hi) + l)
        | _ \<Rightarrow> None)))"

definition parse_v6 :: "string \<Rightarrow> ip option" where
  "parse_v6 s = (let addr = takeWhile (\<lambda>c. c \<noteq> CHR ''%'') s; rest = dropWhile (\<lambda>c. c \<noteq> CHR ''%'') s;
       scope = (if rest = [] then None else Some (tl rest))
     in if CHR ''/'' \<in> set s \<or> (\<exists>z \<in> set_option scope. z = [] \<or> CHR ''%'' \<in> set z) then None
        else map_option (\<lambda>n. V6 n scope) (parse_v6_number addr))"

definition ip_address :: "string \<Rightarrow> ip option" where
  "ip_address s = (case parse_v4 s of Some n \<Rightarrow> Some (V4 n) | None \<Rightarrow> parse_v6 s)"

definition loopback_v4 :: "int \<Rightarrow> bool" where
  "loopback_v4 n = (n div 2 ^ 24 = 127)"

fun is_loopback :: "ip \<Rightarrow> bool" where
  "is_loopback (V4 n) = loopback_v4 n"
| "is_loopback (V6 n scope) = (if n div 2 ^ 32 = 65535 then loopback_v4 (n mod 2 ^ 32) else n = 1)"

definition dotted :: "int \<Rightarrow> string" where
  "dotted n = join_with ''.'' (map show_int [n div 2 ^ 24, n div 2 ^ 16 mod 256, n div 256 mod 256, n mod 256])"

text \<open>\<open>str(address)\<close> of the addresses that pass the loopback test.\<close>

fun loopback_text :: "ip \<Rightarrow> string" where
  "loopback_text (V4 n) = dotted n"
| "loopback_text (V6 n scope) = (if n = 1 then ''::1'' else ''::ffff:'' @ dotted (n mod 2 ^ 32))
     @ (case scope of None \<Rightarrow> [] | Some z \<Rightarrow> CHR ''%'' # z)"

definition local_broker_address :: "string \<Rightarrow> string res" where
  "local_broker_address broker =
     (if py_lower broker = ''localhost'' then Inr ''127.0.0.1''
      else case ip_address broker of
        Some a \<Rightarrow> if is_loopback a then Inr (loopback_text a)
          else Inl (ValueError ''local_only requires localhost or a numeric loopback address'')
      | None \<Rightarrow> Inl (ValueError ''local_only requires localhost or a numeric loopback address''))"

end
