(* ===== verification/LocalProps.thy ===== *)
theory LocalProps
  imports LocalBroker
begin

text \<open>
  What pinning a local-only broker gives: a numeric text that reads back as a loopback address.
\<close>

section \<open>Splitting\<close>

lemma py_split_nonempty [simp]: "py_split c s \<noteq> []"
  by (cases s) (auto split: list.splits)

lemma py_split_none: "c \<notin> set s \<Longrightarrow> py_split c s = [s]"
  by (induction s) auto

lemma py_split_sep: "c \<notin> set s \<Longrightarrow> py_split c (s @ c # t) = s # py_split c t"
  by (induction s) auto

lemma py_split_hd: "hd (py_split c (s @ t)) = (if c \<in> set s then hd (py_split c s) else s @ hd (py_split c t))"
  by (induction s) (auto split: list.splits)

section \<open>Dotted texts\<close>

lemma nat_of_digits_nonneg: "\<forall>d \<in> set ds. 0 \<le> d \<Longrightarrow> 0 \<le> nat_of_digits ds"
proof (induction ds rule: rev_induct)
  case Nil
  show ?case by (simp add: nat_of_digits_def)
qed (simp add: nat_of_digits_snoc)

lemma octet_range: "octet s = Some n \<Longrightarrow> 0 \<le> n \<and> n \<le> 255"
  by (auto simp: octet_def Let_def dval_def is_digit_def list_all_iff split: if_splits intro!: nat_of_digits_nonneg)

lemma digit_char_zero: "0 \<le> n \<Longrightarrow> n < 10 \<Longrightarrow> digit_char n = CHR ''0'' \<longleftrightarrow> n = 0"
proof -
  assume n: "0 \<le> n" "n < 10"
  have "digit_char 0 = CHR ''0''" "dval (CHR ''0'') = 0" by code_simp+
  then show ?thesis using dval_digit_char [OF n] by auto
qed

lemma show_zero: "show_nat 0 = ''0''" and octet_zero: "octet ''0'' = Some 0"
  by code_simp+

lemma octet_show: "0 \<le> n \<Longrightarrow> n \<le> 255 \<Longrightarrow> octet (show_int n) = Some n"
  using show_nat_digits [of n] length_show_nat [of n 3] hd_show_nat [of n]
  by (cases "n = 0") (auto simp: octet_zero show_zero show_int_def, auto simp: octet_def show_int_def nat_of_digits_show list_all_iff Let_def)

lemma show_int_clean: "0 \<le> n \<Longrightarrow> \<not> is_digit c \<Longrightarrow> c \<notin> set (show_int n)"
  using show_nat_digits [of n] by (auto simp: show_int_def)

lemma octet_clean: "octet s = Some n \<Longrightarrow> \<not> is_digit c \<Longrightarrow> c \<notin> set s"
  by (auto simp: octet_def list_all_iff split: if_splits)

definition octets :: "int \<Rightarrow> int list" where
  "octets n = [n div 2 ^ 24, n div 2 ^ 16 mod 256, n div 256 mod 256, n mod 256]"

lemma octets_range: "0 \<le> n \<Longrightarrow> n < 2 ^ 32 \<Longrightarrow> \<forall>k \<in> set (octets n). 0 \<le> k \<and> k \<le> 255"
  by (auto simp: octets_def)

lemma octets_value: "((n div 2 ^ 24 * 256 + n div 2 ^ 16 mod 256) * 256 + n div 256 mod 256) * 256 + n mod 256 = (n::int)"
proof -
  have "n div 2 ^ 24 = n div 2 ^ 16 div 256" "n div 2 ^ 16 = n div 256 div 256"
    using zdiv_zmult2_eq [of 256 n "2 ^ 16"] zdiv_zmult2_eq [of 256 n 256] by simp_all
  then show ?thesis by (simp only: div_mult_mod_eq)
qed

lemma dotted_split:
  assumes "0 \<le> n" "n < 2 ^ 32"
  shows "py_split (CHR ''.'') (dotted n) = map show_int (octets n)"
proof -
  have "CHR ''.'' \<notin> set (show_int k)" if "k \<in> set (octets n)" for k
    using that octets_range [OF assms] show_int_clean [of k "CHR ''.''"] by (auto simp: is_digit_def code_def)
  then show ?thesis by (simp add: dotted_def octets_def py_split_sep py_split_none)
qed

lemma parse_dotted:
  assumes "0 \<le> n" "n < 2 ^ 32"
  shows "parse_v4 (dotted n) = Some n"
proof -
  have "map octet (map show_int (octets n)) = map Some (octets n)"
    using octets_range [OF assms] octet_show by simp
  then have "parse_v4 (dotted n) = (case map Some (octets n) of
     [Some a, Some b, Some c, Some d] \<Rightarrow> Some (((a * 256 + b) * 256 + c) * 256 + d) | _ \<Rightarrow> None)"
    by (simp only: parse_v4_def dotted_split [OF assms])
  then show ?thesis by (simp only: octets_def list.map list.case option.case octets_value)
qed

lemma parse_v4_range:
  assumes "parse_v4 s = Some n"
  shows "0 \<le> n \<and> n < 2 ^ 32"
proof -
  obtain a b c d where "map octet (py_split (CHR ''.'') s) = [Some a, Some b, Some c, Some d]"
    and n: "n = ((a * 256 + b) * 256 + c) * 256 + d"
    using assms by (auto simp: parse_v4_def split: list.splits option.splits)
  then have "\<forall>k \<in> {a, b, c, d}. \<exists>t. octet t = Some k" by (auto simp: map_eq_Cons_conv)
  then have "\<forall>k \<in> {a, b, c, d}. 0 \<le> k \<and> k \<le> 255" using octet_range by blast
  then show ?thesis by (simp add: n)
qed

section \<open>Pinned addresses\<close>

lemma colon_not_v4:
  assumes "CHR '':'' \<in> set s"
  shows "parse_v4 s = None"
proof -
  have "\<exists>w \<in> set (py_split c s). x \<in> set w" if "x \<in> set s" "x \<noteq> c" for x c s
    using that by (induction s) (auto split: list.splits)
  then obtain w where w: "w \<in> set (py_split (CHR ''.'') s)" "CHR '':'' \<in> set w" using assms by force
  have "octet w = None" using w(2) octet_clean [of w _ "CHR '':''"] by (cases "octet w") (auto simp: is_digit_def code_def)
  then have "None \<in> set (map octet (py_split (CHR ''.'') s))" using w(1) by force
  then show ?thesis by (auto simp: parse_v4_def split: list.splits option.splits)
qed

definition scope_ok :: "string option \<Rightarrow> bool" where
  "scope_ok scope \<longleftrightarrow> (case scope of None \<Rightarrow> True | Some z \<Rightarrow> z \<noteq> [] \<and> CHR ''%'' \<notin> set z \<and> CHR ''/'' \<notin> set z)"

definition scope_text :: "string option \<Rightarrow> string" where
  "scope_text scope = (case scope of None \<Rightarrow> [] | Some z \<Rightarrow> CHR ''%'' # z)"

lemma parse_v6_scope:
  assumes "parse_v6 s = Some a"
  shows "\<exists>n scope. a = V6 n scope \<and> scope_ok scope"
proof -
  have "CHR ''/'' \<notin> set (tl (dropWhile P s))" if "CHR ''/'' \<notin> set s" for P
    using that by (metis list.set_sel(2) set_dropWhileD tl_Nil)
  then show ?thesis using assms by (auto simp: parse_v6_def Let_def scope_ok_def split: if_splits)
qed

lemma parse_v6_text:
  assumes "CHR ''%'' \<notin> set h" "CHR ''/'' \<notin> set h" "scope_ok scope"
  shows "parse_v6 (h @ scope_text scope) = map_option (\<lambda>n. V6 n scope) (parse_v6_number h)"
proof -
  have tail: "takeWhile (\<lambda>c. c \<noteq> CHR ''%'') (scope_text scope) = []" "dropWhile (\<lambda>c. c \<noteq> CHR ''%'') (scope_text scope) = scope_text scope"
    by (simp_all add: scope_text_def split: option.splits)
  have clean: "x \<noteq> CHR ''%''" if "x \<in> set h" for x using that assms(1) by blast
  have t: "takeWhile (\<lambda>c. c \<noteq> CHR ''%'') (h @ scope_text scope) = h"
    by (simp only: takeWhile_append2 [of h "\<lambda>c. c \<noteq> CHR ''%''", OF clean] tail append_Nil2)
  have d: "dropWhile (\<lambda>c. c \<noteq> CHR ''%'') (h @ scope_text scope) = scope_text scope"
    by (simp only: dropWhile_append2 [of h "\<lambda>c. c \<noteq> CHR ''%''", OF clean] tail)
  show ?thesis
    unfolding parse_v6_def Let_def t d
    using assms(2,3) by (cases scope) (simp_all add: scope_ok_def scope_text_def)
qed

lemma dotted_clean: "0 \<le> n \<Longrightarrow> n < 2 ^ 32 \<Longrightarrow> \<not> is_digit c \<Longrightarrow> c \<noteq> CHR ''.'' \<Longrightarrow> c \<notin> set (dotted n)"
  using octets_range [of n] show_int_clean by (auto simp: dotted_def octets_def)

lemma marks_not_digits: "\<not> is_digit (CHR ''%'')" "\<not> is_digit (CHR ''/'')" "\<not> is_digit (CHR '':'')"
  by code_simp+

lemma mapped_number:
  assumes "0 \<le> m" "m < 2 ^ 32"
  shows "parse_v6_number (''::ffff:'' @ dotted m) = Some (65535 * 2 ^ 32 + m)"
proof -
  have "CHR '':'' \<notin> set (dotted m)" using dotted_clean [OF assms marks_not_digits(3)] by simp
  then have parts: "py_split (CHR '':'') (''::ffff:'' @ dotted m) = [[], [], ''ffff'', dotted m]"
    by (simp add: py_split_none)
  have dot: "CHR ''.'' \<in> set (dotted m)" by (simp add: dotted_def)
  have "hextet ''ffff'' = Some 65535" "hextet ''0'' = Some 0" by code_simp+
  then have groups: "all_groups [''ffff'', ''0'', dotted m] = Some (65535 * 2 ^ 32 + m)"
    using dot by (simp add: all_groups_def group_value_def parse_dotted [OF assms])
  have "skips [[], [], ''ffff'', ''0'', dotted m] = [1]"
    by (simp add: skips_def upt_conv_Cons)
  then have "split_v6 [[], [], ''ffff'', ''0'', dotted m] = Some ([], [''ffff'', ''0'', dotted m])"
    using dot by (cases "dotted m") (auto simp: split_v6_def Let_def)
  moreover have "v6_groups (''::ffff:'' @ dotted m) = Some [[], [], ''ffff'', ''0'', dotted m]"
    using dot by (simp only: v6_groups_def parts Let_def) (simp add: parse_dotted [OF assms])
  ultimately show ?thesis using groups by (simp add: parse_v6_number_def) (simp add: all_groups_def)
qed

lemma loopback_v6_text:
  assumes "is_loopback (V6 n scope)" "scope_ok scope"
  shows "ip_address (loopback_text (V6 n scope)) = Some (V6 n scope)"
proof -
  let ?h = "if n = 1 then ''::1'' else ''::ffff:'' @ dotted (n mod 2 ^ 32)"
  have one: "parse_v6_number ''::1'' = Some 1" by code_simp
  have n: "n = 1 \<or> n = 65535 * 2 ^ 32 + n mod 2 ^ 32"
    using assms(1) div_mult_mod_eq [of n "2 ^ 32"] by (auto split: if_splits; presburger)
  have m: "0 \<le> n mod 2 ^ 32" "n mod 2 ^ 32 < 2 ^ 32" by simp_all
  have "parse_v6_number ?h = Some n" using n one mapped_number [OF m] by auto
  moreover have "CHR ''%'' \<notin> set ?h" "CHR ''/'' \<notin> set ?h"
    using dotted_clean [OF m marks_not_digits(1)] dotted_clean [OF m marks_not_digits(2)] by auto
  moreover have "loopback_text (V6 n scope) = ?h @ scope_text scope" by (simp add: scope_text_def)
  moreover have "parse_v4 (?h @ scope_text scope) = None" by (rule colon_not_v4) simp
  ultimately show ?thesis using parse_v6_text assms(2) by (simp add: ip_address_def)
qed

text \<open>Whatever broker text a local-only connection is given, the address it is pinned to is the text of a
  loopback address: reading it back gives one, the same as the given text when that was numeric.\<close>

theorem pinned_address_loopback:
  assumes "local_broker_address b = Inr a"
  shows "\<exists>x. ip_address a = Some x \<and> is_loopback x \<and> (py_lower b \<noteq> ''localhost'' \<longrightarrow> ip_address b = Some x)"
proof (cases "py_lower b = ''localhost''")
  case True
  have "(case ip_address ''127.0.0.1'' of Some x \<Rightarrow> is_loopback x | None \<Rightarrow> False)" by code_simp
  then show ?thesis using assms True by (auto simp: local_broker_address_def split: option.splits)
next
  case False
  then obtain x where x: "ip_address b = Some x" "is_loopback x" "a = loopback_text x"
    using assms by (auto simp: local_broker_address_def split: option.splits if_splits)
  have "ip_address a = Some x"
  proof (cases "parse_v4 b")
    case None
    then obtain n scope where "x = V6 n scope" "scope_ok scope" using x(1) parse_v6_scope [of b x] by (auto simp: ip_address_def)
    then show ?thesis using loopback_v6_text x by simp
  next
    case (Some n)
    then have "x = V4 n" "0 \<le> n" "n < 2 ^ 32" using x(1) parse_v4_range by (auto simp: ip_address_def)
    then show ?thesis using x(3) parse_dotted [of n] by (simp add: ip_address_def)
  qed
  then show ?thesis using x by blast
qed

theorem pinned_address_loopback_witness:
  "\<exists>a x. local_broker_address ''::ffff:127.0.0.2'' = Inr a \<and> ip_address a = Some x \<and> is_loopback x"
proof -
  have "is_ok (local_broker_address ''::ffff:127.0.0.2'')" by code_simp
  then obtain a where "local_broker_address ''::ffff:127.0.0.2'' = Inr a" by (auto simp: is_ok_iff)
  then show ?thesis using pinned_address_loopback by blast
qed

end
