(* ===== verification/Config.thy ===== *)
theory Config
  imports LocalBroker Topology
begin

text \<open>
  \<open>dbus_mqtt_battery/config.py\<close>: the settings with their defaults, the INI file, the command line
  and how the two are merged.  The standard library's \<open>configparser\<close> is modelled from the raw
  options of a parsed file on (defaults section, interpolation, conversions); that parse, the
  environment's file names and argparse's recognition of option strings are the inputs: a command
  line is the list of the recognised options with their texts.
\<close>

section \<open>Settings\<close>

record mqtt_config =
  mq_broker :: string
  mq_port :: int
  mq_prefix :: string
  mq_mode :: string
  mq_local :: bool

record battery_config =
  bat_count :: int
  bat_capacity :: pyfloat
  bat_cells :: int
  bat_temps :: int
  bat_first :: int
  low_soc :: int
  low_soc_critical :: int
  low_cell_voltage :: pyfloat
  low_cell_critical :: pyfloat
  high_cell_voltage :: pyfloat
  high_cell_critical :: pyfloat
  cell_imbalance :: pyfloat
  high_temp :: int
  high_temp_critical :: int
  low_temp :: int
  low_temp_critical :: int

record dbus_config =
  db_instance :: int
  db_suffix :: string
  db_product :: string

record config =
  cfg_mqtt :: mqtt_config
  cfg_battery :: battery_config
  cfg_dbus :: dbus_config
  cfg_topology :: "chain_topology option"

definition default_mqtt :: mqtt_config where
  "default_mqtt = \<lparr>mq_broker = ''localhost'', mq_port = 1883, mq_prefix = ''battery'', mq_mode = ''atomic'', mq_local = False\<rparr>"

definition default_battery :: battery_config where
  "default_battery = \<lparr>bat_count = 4, bat_capacity = Fin 280, bat_cells = 4, bat_temps = 2, bat_first = 1,
     low_soc = 10, low_soc_critical = 5, low_cell_voltage = fl (29 / 10), low_cell_critical = fl (27 / 10),
     high_cell_voltage = fl (355 / 100), high_cell_critical = fl (365 / 100), cell_imbalance = fl (1 / 10),
     high_temp = 45, high_temp_critical = 55, low_temp = 0, low_temp_critical = -10\<rparr>"

definition default_dbus :: dbus_config where
  "default_dbus = \<lparr>db_instance = 512, db_suffix = ''mqtt_chain'', db_product = ''JBD Battery Chain''\<rparr>"

definition default_config :: config where
  "default_config = \<lparr>cfg_mqtt = default_mqtt, cfg_battery = default_battery, cfg_dbus = default_dbus, cfg_topology = None\<rparr>"

definition validate :: "config \<Rightarrow> unit res" where
  "validate c =
     and_then (if mq_local (cfg_mqtt c) then map_sum id (\<lambda>_. ()) (local_broker_address (mq_broker (cfg_mqtt c))) else Inr ()) (\<lambda>_.
     and_then (check (1 \<le> bat_temps (cfg_battery c)) (ValueError ''temps_per_bms must be >= 1'')) (\<lambda>_.
     check (mq_mode (cfg_mqtt c) \<in> {''atomic'', ''legacy''}) (ValueError ''telemetry_mode must be atomic or legacy'')))"

section \<open>INI files\<close>

text \<open>A parsed file: the options of the \<open>DEFAULT\<close> section and of the others, as raw text.\<close>

record ini =
  ini_defaults :: "(string \<times> string) list"
  ini_sections :: "(string \<times> (string \<times> string) list) list"

definition has_section :: "ini \<Rightarrow> string \<Rightarrow> bool" where
  "has_section f sec = (sec \<in> set (dict_keys (ini_sections f)))"

text \<open>An option of a section, with the defaults behind it.\<close>

definition raw_option :: "ini \<Rightarrow> string \<Rightarrow> string \<Rightarrow> string option" where
  "raw_option f sec opt = (case map_of (dict_get sec [] (ini_sections f)) opt of
     Some v \<Rightarrow> Some v | None \<Rightarrow> map_of (ini_defaults f) opt)"

definition interpolation_error :: "string \<Rightarrow> exn" where
  "interpolation_error kind = OtherError (''Interpolation'' @ kind @ ''Error'') []"

text \<open>
  \<open>BasicInterpolation\<close>: \<open>%%\<close> is a percent sign, \<open>%(name)s\<close> the value of another option, expanded
  to a depth of ten.
\<close>

function interpolate :: "(string \<Rightarrow> string option) \<Rightarrow> nat \<Rightarrow> string \<Rightarrow> string res" where
  "interpolate env d [] = Inr []"
| "interpolate env d (c # s) =
     (if d = 0 then Inl (interpolation_error ''Depth'')
      else if c \<noteq> CHR ''%'' then and_then (interpolate env d s) (\<lambda>t. Inr (c # t))
      else case s of
        [] \<Rightarrow> Inl (interpolation_error ''Syntax'')
      | e # r \<Rightarrow>
         if e = CHR ''%'' then and_then (interpolate env d r) (\<lambda>t. Inr (CHR ''%'' # t))
         else if e \<noteq> CHR ''('' then Inl (interpolation_error ''Syntax'')
         else (let name = takeWhile (\<lambda>x. x \<noteq> CHR '')'') r; after = dropWhile (\<lambda>x. x \<noteq> CHR '')'') r in
           if name = [] \<or> take 2 after \<noteq> '')s'' then Inl (interpolation_error ''Syntax'')
           else case env (py_lower name) of
             None \<Rightarrow> Inl (interpolation_error ''MissingOption'')
           | Some v \<Rightarrow> and_then (if CHR ''%'' \<in> set v then interpolate env (d - 1) v else Inr v)
               (\<lambda>x. and_then (interpolate env d (drop 2 after)) (\<lambda>t. Inr (x @ t)))))"
  by pat_completeness auto
termination
  by (relation "measures [\<lambda>(env, d, s). d, \<lambda>(env, d, s). length s]")
    (auto simp: less_Suc_eq_le intro!: le_SucI le_trans [OF diff_le_self length_dropWhile_le])

text \<open>\<open>config.get(section, option, fallback=...)\<close>: nothing when the option is absent.\<close>

definition ini_get :: "ini \<Rightarrow> string \<Rightarrow> string \<Rightarrow> string option res" where
  "ini_get f sec opt = (case raw_option f sec opt of
     None \<Rightarrow> Inr None
   | Some v \<Rightarrow> and_then (interpolate (raw_option f sec) 10 v) (\<lambda>t. Inr (Some t)))"

definition boolean_states :: "(string \<times> bool) list" where
  "boolean_states = [(''1'', True), (''yes'', True), (''true'', True), (''on'', True),
     (''0'', False), (''no'', False), (''false'', False), (''off'', False)]"

definition conv_int :: "string \<Rightarrow> int res" where
  "conv_int s = (case int_of_str s of Some i \<Rightarrow> Inr i
     | None \<Rightarrow> Inl (ValueError ''invalid literal for int() with base 10''))"

definition conv_float :: "string \<Rightarrow> pyfloat res" where
  "conv_float s = (case float_of_str s of Some x \<Rightarrow> Inr x
     | None \<Rightarrow> Inl (ValueError ''could not convert string to float''))"

definition conv_bool :: "string \<Rightarrow> bool res" where
  "conv_bool s = (case map_of boolean_states (py_lower s) of Some b \<Rightarrow> Inr b
     | None \<Rightarrow> Inl (ValueError (''Not a boolean: '' @ s)))"

text \<open>
  One setting of a section: its option name, which is also its command-line destination save for
  the battery count, and how it is read and written.
\<close>

datatype 'r setting =
    IntSetting string "'r \<Rightarrow> int" "int \<Rightarrow> 'r \<Rightarrow> 'r"
  | FloatSetting string "'r \<Rightarrow> pyfloat" "pyfloat \<Rightarrow> 'r \<Rightarrow> 'r"
  | StrSetting string "'r \<Rightarrow> string" "string \<Rightarrow> 'r \<Rightarrow> 'r"
  | BoolSetting string "'r \<Rightarrow> bool" "bool \<Rightarrow> 'r \<Rightarrow> 'r"

definition read_with :: "(string \<Rightarrow> 'a res) \<Rightarrow> ini \<Rightarrow> string \<Rightarrow> string \<Rightarrow> ('a \<Rightarrow> 'r \<Rightarrow> 'r) \<Rightarrow> 'r \<Rightarrow> 'r res" where
  "read_with conv f sec opt put r = and_then (ini_get f sec opt) (\<lambda>v. case v of
     None \<Rightarrow> Inr r | Some s \<Rightarrow> and_then (conv s) (\<lambda>x. Inr (put x r)))"

fun read_setting :: "ini \<Rightarrow> string \<Rightarrow> 'r setting \<Rightarrow> 'r \<Rightarrow> 'r res" where
  "read_setting f sec (IntSetting n get put) r = read_with conv_int f sec n put r"
| "read_setting f sec (FloatSetting n get put) r = read_with conv_float f sec n put r"
| "read_setting f sec (StrSetting n get put) r = read_with Inr f sec n put r"
| "read_setting f sec (BoolSetting n get put) r = read_with conv_bool f sec n put r"

definition read_section :: "ini \<Rightarrow> string \<Rightarrow> 'r setting list \<Rightarrow> 'r \<Rightarrow> 'r res" where
  "read_section f sec settings r = (if has_section f sec then foldM (read_setting f sec) settings r else Inr r)"

definition mqtt_settings :: "mqtt_config setting list" where
  "mqtt_settings = [
     BoolSetting ''local_only'' mq_local (\<lambda>v r. r\<lparr>mq_local := v\<rparr>),
     StrSetting ''broker'' mq_broker (\<lambda>v r. r\<lparr>mq_broker := v\<rparr>),
     IntSetting ''port'' mq_port (\<lambda>v r. r\<lparr>mq_port := v\<rparr>),
     StrSetting ''topic_prefix'' mq_prefix (\<lambda>v r. r\<lparr>mq_prefix := v\<rparr>),
     StrSetting ''telemetry_mode'' mq_mode (\<lambda>v r. r\<lparr>mq_mode := v\<rparr>)]"

definition inventory_settings :: "string \<Rightarrow> battery_config setting list" where
  "inventory_settings count_name = [
     IntSetting count_name bat_count (\<lambda>v r. r\<lparr>bat_count := v\<rparr>),
     FloatSetting ''capacity'' bat_capacity (\<lambda>v r. r\<lparr>bat_capacity := v\<rparr>),
     IntSetting ''cells_per_bms'' bat_cells (\<lambda>v r. r\<lparr>bat_cells := v\<rparr>),
     IntSetting ''temps_per_bms'' bat_temps (\<lambda>v r. r\<lparr>bat_temps := v\<rparr>),
     IntSetting ''bms_first'' bat_first (\<lambda>v r. r\<lparr>bat_first := v\<rparr>)]"

definition alarm_settings :: "battery_config setting list" where
  "alarm_settings = [
     IntSetting ''alarm_low_soc'' low_soc (\<lambda>v r. r\<lparr>low_soc := v\<rparr>),
     IntSetting ''alarm_low_soc_critical'' low_soc_critical (\<lambda>v r. r\<lparr>low_soc_critical := v\<rparr>),
     FloatSetting ''alarm_low_cell_voltage'' low_cell_voltage (\<lambda>v r. r\<lparr>low_cell_voltage := v\<rparr>),
     FloatSetting ''alarm_low_cell_critical'' low_cell_critical (\<lambda>v r. r\<lparr>low_cell_critical := v\<rparr>),
     FloatSetting ''alarm_high_cell_voltage'' high_cell_voltage (\<lambda>v r. r\<lparr>high_cell_voltage := v\<rparr>),
     FloatSetting ''alarm_high_cell_critical'' high_cell_critical (\<lambda>v r. r\<lparr>high_cell_critical := v\<rparr>),
     FloatSetting ''alarm_cell_imbalance'' cell_imbalance (\<lambda>v r. r\<lparr>cell_imbalance := v\<rparr>),
     IntSetting ''alarm_high_temp'' high_temp (\<lambda>v r. r\<lparr>high_temp := v\<rparr>),
     IntSetting ''alarm_high_temp_critical'' high_temp_critical (\<lambda>v r. r\<lparr>high_temp_critical := v\<rparr>),
     IntSetting ''alarm_low_temp'' low_temp (\<lambda>v r. r\<lparr>low_temp := v\<rparr>),
     IntSetting ''alarm_low_temp_critical'' low_temp_critical (\<lambda>v r. r\<lparr>low_temp_critical := v\<rparr>)]"

definition dbus_settings :: "dbus_config setting list" where
  "dbus_settings = [
     IntSetting ''instance'' db_instance (\<lambda>v r. r\<lparr>db_instance := v\<rparr>),
     StrSetting ''service_suffix'' db_suffix (\<lambda>v r. r\<lparr>db_suffix := v\<rparr>),
     StrSetting ''product_name'' db_product (\<lambda>v r. r\<lparr>db_product := v\<rparr>)]"

text \<open>A file that cannot be opened is skipped, which leaves no section.\<close>

definition no_sections :: ini where
  "no_sections = \<lparr>ini_defaults = [], ini_sections = []\<rparr>"

definition from_file :: "(string \<Rightarrow> ini option res) \<Rightarrow> string \<Rightarrow> config res" where
  "from_file files path = and_then (files path) (\<lambda>found. let f = (case found of Some f \<Rightarrow> f | None \<Rightarrow> no_sections) in
     and_then (read_section f ''mqtt'' mqtt_settings default_mqtt) (\<lambda>mqtt.
     and_then (read_section f ''battery'' (inventory_settings ''count'' @ alarm_settings) default_battery) (\<lambda>battery.
     and_then (read_section f ''dbus'' dbus_settings default_dbus) (\<lambda>dbus.
     Inr \<lparr>cfg_mqtt = mqtt, cfg_battery = battery, cfg_dbus = dbus, cfg_topology = None\<rparr>))))"

text \<open>The search path; \<open>home\<close> is what \<open>~\<close> expands to.\<close>

definition CONFIG_FILE_LOCATIONS :: "string \<Rightarrow> string list" where
  "CONFIG_FILE_LOCATIONS home = [''/etc/dbus-mqtt-battery.conf'', ''/data/dbus-mqtt-battery.conf'',
     home @ ''/.config/dbus-mqtt-battery.conf'', home @ ''/.config/dbus-mqtt-battery.ini'',
     ''config.ini'', ''dbus-mqtt-battery.ini'']"

definition find_and_load_config :: "string \<Rightarrow> (string \<Rightarrow> bool) \<Rightarrow> (string \<Rightarrow> ini option res) \<Rightarrow> config res" where
  "find_and_load_config home exists files = (case find exists (CONFIG_FILE_LOCATIONS home) of
     Some path \<Rightarrow> from_file files path | None \<Rightarrow> Inr default_config)"

section \<open>The command line\<close>

datatype arg_value = ANone | AStr string | AInt int | AFloat pyfloat | ABool bool

datatype arg_type = TStr | TInt | TFloat | TChoice "string list" | TFlag | TVersion

record argument =
  flags :: "string list"
  dest :: string
  arg_type :: arg_type
  arg_default :: "arg_value option"

text \<open>An option that leaves no trace when it is not given (\<open>argparse.SUPPRESS\<close>), and one with a default.\<close>

definition suppressed :: "string \<Rightarrow> string \<Rightarrow> arg_type \<Rightarrow> argument" where
  "suppressed flag d t = \<lparr>flags = [flag], dest = d, arg_type = t, arg_default = None\<rparr>"

definition defaulted :: "string list \<Rightarrow> string \<Rightarrow> arg_type \<Rightarrow> arg_value \<Rightarrow> argument" where
  "defaulted fs d t v = \<lparr>flags = fs, dest = d, arg_type = t, arg_default = Some v\<rparr>"

definition general_arguments :: "argument list" where
  "general_arguments = [
     suppressed ''--version'' ''version'' TVersion,
     defaulted [''--config'', ''-c''] ''config'' TStr ANone,
     defaulted [''--topology''] ''topology'' TStr ANone,
     defaulted [''--chain''] ''chain'' TStr ANone,
     defaulted [''--validate-topology''] ''validate_topology'' TFlag (ABool False),
     defaulted [''--observe-seconds''] ''observe_seconds'' TInt (AInt 0)]"

definition mqtt_arguments :: "argument list" where
  "mqtt_arguments = [
     suppressed ''--broker'' ''broker'' TStr,
     suppressed ''--port'' ''port'' TInt,
     suppressed ''--topic-prefix'' ''topic_prefix'' TStr,
     suppressed ''--telemetry-mode'' ''telemetry_mode'' (TChoice [''atomic'', ''legacy'']),
     suppressed ''--local-only'' ''local_only'' TFlag]"

definition battery_arguments :: "argument list" where
  "battery_arguments = [
     (suppressed ''--batteries'' ''battery_count'' TInt)\<lparr>flags := [''--batteries'', ''--count'']\<rparr>,
     suppressed ''--capacity'' ''capacity'' TFloat,
     suppressed ''--cells-per-bms'' ''cells_per_bms'' TInt,
     suppressed ''--temps-per-bms'' ''temps_per_bms'' TInt,
     suppressed ''--bms-first'' ''bms_first'' TInt,
     suppressed ''--alarm-low-soc'' ''alarm_low_soc'' TInt,
     suppressed ''--alarm-low-soc-critical'' ''alarm_low_soc_critical'' TInt,
     suppressed ''--alarm-low-cell-voltage'' ''alarm_low_cell_voltage'' TFloat,
     suppressed ''--alarm-low-cell-critical'' ''alarm_low_cell_critical'' TFloat,
     suppressed ''--alarm-high-cell-voltage'' ''alarm_high_cell_voltage'' TFloat,
     suppressed ''--alarm-high-cell-critical'' ''alarm_high_cell_critical'' TFloat,
     suppressed ''--alarm-cell-imbalance'' ''alarm_cell_imbalance'' TFloat,
     suppressed ''--alarm-high-temp'' ''alarm_high_temp'' TInt,
     suppressed ''--alarm-high-temp-critical'' ''alarm_high_temp_critical'' TInt,
     suppressed ''--alarm-low-temp'' ''alarm_low_temp'' TInt,
     suppressed ''--alarm-low-temp-critical'' ''alarm_low_temp_critical'' TInt]"

definition dbus_arguments :: "argument list" where
  "dbus_arguments = [
     suppressed ''--instance'' ''instance'' TInt,
     suppressed ''--service-suffix'' ''service_suffix'' TStr,
     suppressed ''--product-name'' ''product_name'' TStr]"

definition create_argument_parser :: "argument list" where
  "create_argument_parser = general_arguments @ mqtt_arguments @ battery_arguments @ dbus_arguments"

type_synonym namespace = "(string \<times> arg_value) list"

definition system_exit :: "string \<Rightarrow> exn" where
  "system_exit m = OtherError ''SystemExit'' m"

definition convert_arg :: "arg_type \<Rightarrow> string \<Rightarrow> arg_value res" where
  "convert_arg t s = (case t of
     TStr \<Rightarrow> Inr (AStr s)
   | TInt \<Rightarrow> (case int_of_str s of Some i \<Rightarrow> Inr (AInt i) | None \<Rightarrow> Inl (system_exit ''invalid int value''))
   | TFloat \<Rightarrow> (case float_of_str s of Some x \<Rightarrow> Inr (AFloat x) | None \<Rightarrow> Inl (system_exit ''invalid float value''))
   | TChoice cs \<Rightarrow> if s \<in> set cs then Inr (AStr s) else Inl (system_exit ''invalid choice'')
   | TFlag \<Rightarrow> Inr (ABool True)
   | TVersion \<Rightarrow> Inl (system_exit ''dbus-mqtt-battery 2.8.0''))"

text \<open>One recognised option with its text; the last occurrence of an option wins.\<close>

definition apply_option :: "string \<times> string \<Rightarrow> namespace \<Rightarrow> namespace res" where
  "apply_option given ns = (case find (\<lambda>a. fst given \<in> set (flags a)) create_argument_parser of
     None \<Rightarrow> Inl (system_exit (''unrecognized arguments: '' @ fst given))
   | Some a \<Rightarrow> and_then (convert_arg (arg_type a) (snd given)) (\<lambda>v. Inr (dict_set (dest a) v ns)))"

definition parser_defaults :: namespace where
  "parser_defaults = List.map_filter (\<lambda>a. map_option (\<lambda>v. (dest a, v)) (arg_default a)) create_argument_parser"

definition parse_args :: "(string \<times> string) list \<Rightarrow> namespace res" where
  "parse_args argv = foldM apply_option argv parser_defaults"

section \<open>Merging\<close>

fun merge_setting :: "namespace \<Rightarrow> 'r setting \<Rightarrow> 'r \<Rightarrow> 'r" where
  "merge_setting ns (IntSetting n get put) r = (case map_of ns n of Some (AInt v) \<Rightarrow> put v r | _ \<Rightarrow> r)"
| "merge_setting ns (FloatSetting n get put) r = (case map_of ns n of Some (AFloat v) \<Rightarrow> put v r | _ \<Rightarrow> r)"
| "merge_setting ns (StrSetting n get put) r = (case map_of ns n of Some (AStr v) \<Rightarrow> put v r | _ \<Rightarrow> r)"
| "merge_setting ns (BoolSetting n get put) r = (case map_of ns n of Some (ABool v) \<Rightarrow> put v r | _ \<Rightarrow> r)"

definition merge_mqtt_args :: "namespace \<Rightarrow> config \<Rightarrow> config" where
  "merge_mqtt_args ns c = c\<lparr>cfg_mqtt := fold (merge_setting ns) mqtt_settings (cfg_mqtt c)\<rparr>"

definition merge_battery_args :: "namespace \<Rightarrow> config \<Rightarrow> config" where
  "merge_battery_args ns c = c\<lparr>cfg_battery := fold (merge_setting ns) (inventory_settings ''battery_count'') (cfg_battery c)\<rparr>"

definition merge_alarms_args :: "namespace \<Rightarrow> config \<Rightarrow> config" where
  "merge_alarms_args ns c = c\<lparr>cfg_battery := fold (merge_setting ns) alarm_settings (cfg_battery c)\<rparr>"

definition merge_dbus_args :: "namespace \<Rightarrow> config \<Rightarrow> config" where
  "merge_dbus_args ns c = c\<lparr>cfg_dbus := fold (merge_setting ns) dbus_settings (cfg_dbus c)\<rparr>"

definition merge_config_and_args :: "config \<Rightarrow> namespace \<Rightarrow> config res" where
  "merge_config_and_args c ns =
     (let m = merge_dbus_args ns (merge_alarms_args ns (merge_battery_args ns (merge_mqtt_args ns c)))
      in and_then (validate m) (\<lambda>_. Inr m))"

section \<open>Loading\<close>

text \<open>The truth value of an argument: a text counts when it is not empty.\<close>

definition str_arg :: "namespace \<Rightarrow> string \<Rightarrow> string option" where
  "str_arg ns n = (case map_of ns n of Some (AStr s) \<Rightarrow> if s = [] then None else Some s | _ \<Rightarrow> None)"

definition raw_str_arg :: "namespace \<Rightarrow> string \<Rightarrow> string option" where
  "raw_str_arg ns n = (case map_of ns n of Some (AStr s) \<Rightarrow> Some s | _ \<Rightarrow> None)"

definition observe_arg :: "namespace \<Rightarrow> int" where
  "observe_arg ns = (case map_of ns ''observe_seconds'' of Some (AInt i) \<Rightarrow> i | _ \<Rightarrow> 0)"

definition conflict_names :: "string list" where
  "conflict_names = [''battery_count'', ''capacity'', ''cells_per_bms'', ''temps_per_bms'', ''bms_first'',
     ''topic_prefix'', ''telemetry_mode'', ''instance'', ''service_suffix'', ''product_name'']"

definition conflicting :: "namespace \<Rightarrow> string list" where
  "conflicting ns = filter (\<lambda>n. n \<in> set conflict_names \<or> starts_with ''alarm_'' n) (map fst ns)"

definition topology_battery :: "chain_topology \<Rightarrow> member_topology \<Rightarrow> member_topology list \<Rightarrow> battery_config" where
  "topology_battery chain m ms = default_battery\<lparr>bat_count := member_count chain, bat_cells := member_cells m,
     bat_temps := fold max (map member_temperatures ms) (member_temperatures m), bat_first := bms_id m,
     bat_capacity := (case installed_capacity chain of Some c \<Rightarrow> c | None \<Rightarrow> Fin 0)\<rparr>"

definition topology_dbus :: "chain_topology \<Rightarrow> dbus_config" where
  "topology_dbus chain = \<lparr>db_instance = device_instance chain, db_suffix = service_suffix chain, db_product = product_name chain\<rparr>"

definition with_topology :: "chain_topology \<Rightarrow> config \<Rightarrow> config res" where
  "with_topology chain c = (case members chain of
     [] \<Rightarrow> Inl (OtherError ''IndexError'' ''tuple index out of range'')
   | m # ms \<Rightarrow> Inr (c\<lparr>cfg_topology := Some chain,
       cfg_mqtt := (cfg_mqtt c)\<lparr>mq_prefix := topic_prefix chain, mq_mode := ''atomic''\<rparr>,
       cfg_battery := topology_battery chain m ms, cfg_dbus := topology_dbus chain\<rparr>))"

text \<open>\<open>parser.error\<close> for the errors a manifest raises; any other leaves \<open>load_config\<close> as it is.\<close>

fun as_parser_error :: "exn \<Rightarrow> exn" where
  "as_parser_error (ValueError m) = system_exit m"
| "as_parser_error (TypeError m) = system_exit m"
| "as_parser_error (OSError m) = system_exit m"
| "as_parser_error e = e"

text \<open>What \<open>load_config\<close> reads: the INI files, the manifests, the files that exist and the home directory.\<close>

record environment =
  env_ini :: "string \<Rightarrow> ini option res"
  env_manifest :: "string \<Rightarrow> string res"
  env_exists :: "string \<Rightarrow> bool"
  env_home :: string
  env_uni :: "string \<Rightarrow> bool"

definition topology_config :: "environment \<Rightarrow> namespace \<Rightarrow> string \<Rightarrow> config res" where
  "topology_config env ns path =
     and_then (case str_arg ns ''config'' of Some f \<Rightarrow> from_file (env_ini env) f | None \<Rightarrow> Inr default_config) (\<lambda>c.
     and_then (map_sum as_parser_error id (load_topology (env_uni env) (env_manifest env path) (raw_str_arg ns ''chain''))) (\<lambda>chain.
     and_then (with_topology chain c) (\<lambda>t. let m = merge_mqtt_args ns t in
     and_then (validate m) (\<lambda>_. Inr m))))"

definition load_config :: "environment \<Rightarrow> (string \<times> string) list \<Rightarrow> (config \<times> namespace) res" where
  "load_config env argv = and_then (parse_args argv) (\<lambda>ns.
     if observe_arg ns < 0 \<or> 3600 < observe_arg ns
     then Inl (system_exit ''--observe-seconds must be between 0 and 3600'')
     else if (str_arg ns ''chain'' \<noteq> None \<or> map_of ns ''validate_topology'' = Some (ABool True)) \<and> str_arg ns ''topology'' = None
     then Inl (system_exit ''--chain and --validate-topology require --topology'')
     else case str_arg ns ''topology'' of
       Some path \<Rightarrow> if conflicting ns \<noteq> []
         then Inl (system_exit ''topology cannot be combined with legacy inventory, identity or alarm overrides'')
         else and_then (topology_config env ns path) (\<lambda>c. Inr (c, ns))
     | None \<Rightarrow> and_then (case str_arg ns ''config'' of Some f \<Rightarrow> from_file (env_ini env) f
           | None \<Rightarrow> find_and_load_config (env_home env) (env_exists env) (env_ini env)) (\<lambda>c.
         and_then (merge_config_and_args c ns) (\<lambda>m. Inr (m, ns))))"

end
