(* ===== verification/ConfigProps.thy ===== *)
theory ConfigProps
  imports Config TopologyProps
begin

text \<open>
  The contract of the configuration: every option given on the command line is the one the program
  runs with, what a loaded configuration guarantees, and that a manifest's identity is not mixed
  with other settings.
\<close>

section \<open>The settings as typed slots\<close>

fun setting_name :: "'r setting \<Rightarrow> string" where
  "setting_name (IntSetting n get put) = n"
| "setting_name (FloatSetting n get put) = n"
| "setting_name (StrSetting n get put) = n"
| "setting_name (BoolSetting n get put) = n"

fun value_of :: "'r setting \<Rightarrow> 'r \<Rightarrow> arg_value" where
  "value_of (IntSetting n get put) r = AInt (get r)"
| "value_of (FloatSetting n get put) r = AFloat (get r)"
| "value_of (StrSetting n get put) r = AStr (get r)"
| "value_of (BoolSetting n get put) r = ABool (get r)"

fun put_value :: "'r setting \<Rightarrow> arg_value \<Rightarrow> 'r \<Rightarrow> 'r" where
  "put_value (IntSetting n get put) (AInt v) r = put v r"
| "put_value (FloatSetting n get put) (AFloat v) r = put v r"
| "put_value (StrSetting n get put) (AStr v) r = put v r"
| "put_value (BoolSetting n get put) (ABool v) r = put v r"
| "put_value s v r = r"

fun accepts :: "'r setting \<Rightarrow> arg_value \<Rightarrow> bool" where
  "accepts (IntSetting n get put) v = (\<exists>i. v = AInt i)"
| "accepts (FloatSetting n get put) v = (\<exists>x. v = AFloat x)"
| "accepts (StrSetting n get put) v = (\<exists>s. v = AStr s)"
| "accepts (BoolSetting n get put) v = (\<exists>b. v = ABool b)"

lemma merge_setting_put:
  "merge_setting ns s r = (case map_of ns (setting_name s) of None \<Rightarrow> r | Some v \<Rightarrow> put_value s v r)"
  by (cases s) (auto split: option.splits arg_value.splits)

text \<open>The laws of a section: a value written is read back, and no slot touches another.\<close>

locale settings_section =
  fixes ss :: "'r setting list"
  assumes put_value_of: "s \<in> set ss \<Longrightarrow> accepts s v \<Longrightarrow> value_of s (put_value s v r) = v"
    and value_of_other: "s \<in> set ss \<Longrightarrow> t \<in> set ss \<Longrightarrow> setting_name s \<noteq> setting_name t \<Longrightarrow>
      value_of s (put_value t v r) = value_of s r"
    and distinct_names: "distinct (map setting_name ss)"
begin

lemma merge_other:
  assumes "s \<in> set ss" "set ts \<subseteq> set ss" "setting_name s \<notin> set (map setting_name ts)"
  shows "value_of s (fold (merge_setting ns) ts r) = value_of s r"
  using assms by (induction ts arbitrary: r) (auto simp: merge_setting_put value_of_other split: option.splits)

lemma merge_value:
  assumes "s \<in> set ss" and "\<And>v. map_of ns (setting_name s) = Some v \<Longrightarrow> accepts s v"
  shows "value_of s (fold (merge_setting ns) ss r) =
    (case map_of ns (setting_name s) of Some v \<Rightarrow> v | None \<Rightarrow> value_of s r)"
proof -
  obtain as bs where ss: "ss = as @ s # bs" using assms(1) by (meson split_list)
  have sub: "set as \<subseteq> set ss" "set bs \<subseteq> set ss" unfolding ss by auto
  have "setting_name s \<notin> set (map setting_name as)" "setting_name s \<notin> set (map setting_name bs)"
    using distinct_names by (simp_all add: ss)
  then have "value_of s (fold (merge_setting ns) ss r) = value_of s (merge_setting ns s (fold (merge_setting ns) as r))"
    "value_of s (fold (merge_setting ns) as r) = value_of s r"
    using merge_other [OF assms(1) sub(2)] merge_other [OF assms(1) sub(1)] by (simp_all add: ss)
  then show ?thesis
    using put_value_of [OF assms] by (auto simp: merge_setting_put split: option.splits)
qed

end

definition battery_settings :: "string \<Rightarrow> battery_config setting list" where
  "battery_settings count_name = inventory_settings count_name @ alarm_settings"

lemmas settings_defs = mqtt_settings_def battery_settings_def inventory_settings_def alarm_settings_def dbus_settings_def

lemma put_value_cases:
  "put_value (IntSetting n get put) v r = (case v of AInt i \<Rightarrow> put i r | _ \<Rightarrow> r)"
  "put_value (FloatSetting n fget fput) v r = (case v of AFloat x \<Rightarrow> fput x r | _ \<Rightarrow> r)"
  "put_value (StrSetting n sget sput) v r = (case v of AStr x \<Rightarrow> sput x r | _ \<Rightarrow> r)"
  "put_value (BoolSetting n bget bput) v r = (case v of ABool b \<Rightarrow> bput b r | _ \<Rightarrow> r)"
  by (cases v; simp)+

interpretation mqtt_slots: settings_section mqtt_settings
  by unfold_locales (auto simp: settings_defs put_value_cases split: arg_value.splits)

interpretation dbus_slots: settings_section dbus_settings
  by unfold_locales (auto simp: settings_defs put_value_cases split: arg_value.splits)

interpretation battery_slots: settings_section "battery_settings ''battery_count''"
proof unfold_locales
  fix s t :: "battery_config setting" and v r
  assume s: "s \<in> set (battery_settings ''battery_count'')" and t: "t \<in> set (battery_settings ''battery_count'')"
    and ne: "setting_name s \<noteq> setting_name t"
  have "list_all (\<lambda>s. list_all (\<lambda>t. setting_name s = setting_name t \<or> value_of s (put_value t v r) = value_of s r)
      (battery_settings ''battery_count'')) (battery_settings ''battery_count'')"
    by (cases v) (simp_all add: settings_defs)
  then show "value_of s (put_value t v r) = value_of s r" using s t ne by (auto simp: list_all_iff)
qed (auto simp: settings_defs put_value_cases split: arg_value.splits)

section \<open>The types of parsed arguments\<close>

fun typed_arg :: "arg_type \<Rightarrow> arg_value \<Rightarrow> bool" where
  "typed_arg TStr v = (\<exists>s. v = AStr s)"
| "typed_arg TInt v = (\<exists>i. v = AInt i)"
| "typed_arg TFloat v = (\<exists>x. v = AFloat x)"
| "typed_arg (TChoice cs) v = (\<exists>s. v = AStr s \<and> s \<in> set cs)"
| "typed_arg TFlag v = (v = ABool True)"
| "typed_arg TVersion v = False"

definition arg_ok :: "string \<times> arg_value \<Rightarrow> bool" where
  "arg_ok p \<longleftrightarrow> (\<exists>a \<in> set create_argument_parser. dest a = fst p \<and> (arg_default a = Some (snd p) \<or> typed_arg (arg_type a) (snd p)))"

lemma convert_arg_typed: "convert_arg t s = Inr v \<Longrightarrow> typed_arg t v"
  by (cases t) (auto simp: convert_arg_def split: option.splits if_splits)

lemma apply_option_ok:
  assumes "apply_option p ns = Inr ms" "\<forall>x \<in> set ns. arg_ok x"
  shows "\<forall>x \<in> set ms. arg_ok x"
proof
  fix x assume x: "x \<in> set ms"
  obtain a v where a: "find (\<lambda>a. fst p \<in> set (flags a)) create_argument_parser = Some a"
    "convert_arg (arg_type a) (snd p) = Inr v" "ms = dict_set (dest a) v ns"
    using assms(1) by (auto simp: apply_option_def split: option.splits)
  from x a(3) consider "x = (dest a, v)" | "x \<in> set ns" by (auto dest: in_set_dict_set)
  then show "arg_ok x"
  proof cases
    case 1
    have "a \<in> set create_argument_parser" using a(1) by (auto simp: find_Some_iff)
    then show ?thesis using convert_arg_typed [OF a(2)] 1 by (auto simp: arg_ok_def)
  qed (use assms(2) in auto)
qed

lemma parser_defaults_ok: "x \<in> set parser_defaults \<Longrightarrow> arg_ok x"
  by (auto simp: parser_defaults_def arg_ok_def List.map_filter_def)

lemma parse_args_ok: "parse_args argv = Inr ns \<Longrightarrow> \<forall>x \<in> set ns. arg_ok x"
  unfolding parse_args_def
  by (erule foldM_invariant [where P = "\<lambda>ns. \<forall>x \<in> set ns. arg_ok x"]) (auto intro: parser_defaults_ok dest: apply_option_ok)

lemmas parser_defs = create_argument_parser_def general_arguments_def mqtt_arguments_def battery_arguments_def
  dbus_arguments_def suppressed_def defaulted_def

lemma parsed_accepts:
  assumes "parse_args argv = Inr ns" "map_of ns (setting_name s) = Some v"
    and s: "s \<in> set ss" and ss: "list_all (\<lambda>s. list_all (\<lambda>a. dest a \<noteq> setting_name s
      \<or> (arg_default a = None \<and> (\<forall>v. typed_arg (arg_type a) v \<longrightarrow> accepts s v))) create_argument_parser) ss"
  shows "accepts s v"
proof -
  have "arg_ok (setting_name s, v)" using parse_args_ok [OF assms(1)] map_of_SomeD [OF assms(2)] by blast
  then show ?thesis using s ss by (fastforce simp: arg_ok_def list_all_iff)
qed

lemma settings_parsed:
  "list_all (\<lambda>s. list_all (\<lambda>a. dest a \<noteq> setting_name s
      \<or> (arg_default a = None \<and> (\<forall>v. typed_arg (arg_type a) v \<longrightarrow> accepts s v))) create_argument_parser) mqtt_settings"
  "list_all (\<lambda>s. list_all (\<lambda>a. dest a \<noteq> setting_name s
      \<or> (arg_default a = None \<and> (\<forall>v. typed_arg (arg_type a) v \<longrightarrow> accepts s v))) create_argument_parser) (battery_settings ''battery_count'')"
  "list_all (\<lambda>s. list_all (\<lambda>a. dest a \<noteq> setting_name s
      \<or> (arg_default a = None \<and> (\<forall>v. typed_arg (arg_type a) v \<longrightarrow> accepts s v))) create_argument_parser) dbus_settings"
  by (auto simp: settings_defs parser_defs)

section \<open>Properties of the configuration\<close>

text \<open>The value a setting must end with: the command line's when it has one, else the earlier one.\<close>

definition final_value :: "namespace \<Rightarrow> 'r \<Rightarrow> 'r \<Rightarrow> 'r setting \<Rightarrow> bool" where
  "final_value ns before after s \<longleftrightarrow>
     value_of s after = (case map_of ns (setting_name s) of Some v \<Rightarrow> v | None \<Rightarrow> value_of s before)"

text \<open>Each of the 24 settings ends with the value given on the command line when the option was given
  and with the configuration's own value otherwise; merging touches nothing else, the topology included.\<close>

theorem command_line_wins:
  assumes "parse_args argv = Inr ns" "merge_config_and_args c ns = Inr m"
  shows "list_all (final_value ns (cfg_mqtt c) (cfg_mqtt m)) mqtt_settings
    \<and> list_all (final_value ns (cfg_battery c) (cfg_battery m)) (battery_settings ''battery_count'')
    \<and> list_all (final_value ns (cfg_dbus c) (cfg_dbus m)) dbus_settings
    \<and> cfg_topology m = cfg_topology c"
proof -
  have m: "cfg_mqtt m = fold (merge_setting ns) mqtt_settings (cfg_mqtt c)"
    "cfg_battery m = fold (merge_setting ns) (battery_settings ''battery_count'') (cfg_battery c)"
    "cfg_dbus m = fold (merge_setting ns) dbus_settings (cfg_dbus c)" "cfg_topology m = cfg_topology c"
    using assms(2) by (auto simp: merge_config_and_args_def Let_def merge_mqtt_args_def merge_battery_args_def
      merge_alarms_args_def merge_dbus_args_def battery_settings_def)
  have "\<forall>s \<in> set mqtt_settings. final_value ns (cfg_mqtt c) (cfg_mqtt m) s"
    unfolding final_value_def m(1)
    by (intro ballI mqtt_slots.merge_value) (auto intro: parsed_accepts [OF assms(1) _ _ settings_parsed(1)])
  moreover have "\<forall>s \<in> set (battery_settings ''battery_count''). final_value ns (cfg_battery c) (cfg_battery m) s"
    unfolding final_value_def m(2)
    by (intro ballI battery_slots.merge_value) (auto intro: parsed_accepts [OF assms(1) _ _ settings_parsed(2)])
  moreover have "\<forall>s \<in> set dbus_settings. final_value ns (cfg_dbus c) (cfg_dbus m) s"
    unfolding final_value_def m(3)
    by (intro ballI dbus_slots.merge_value) (auto intro: parsed_accepts [OF assms(1) _ _ settings_parsed(3)])
  ultimately show ?thesis using m(4) by (simp add: list_all_iff)
qed

lemma validate_Inr:
  "validate c = Inr u \<longleftrightarrow> (mq_local (cfg_mqtt c) \<longrightarrow> is_ok (local_broker_address (mq_broker (cfg_mqtt c))))
     \<and> 1 \<le> bat_temps (cfg_battery c) \<and> (mq_mode (cfg_mqtt c) = ''atomic'' \<or> mq_mode (cfg_mqtt c) = ''legacy'')"
  by (cases "local_broker_address (mq_broker (cfg_mqtt c))") (auto simp: validate_def)

text \<open>The two ways a configuration is loaded.\<close>

definition base_config :: "environment \<Rightarrow> namespace \<Rightarrow> config res" where
  "base_config env ns = (case str_arg ns ''config'' of Some f \<Rightarrow> from_file (env_ini env) f
     | None \<Rightarrow> find_and_load_config (env_home env) (env_exists env) (env_ini env))"

lemma load_config_parsed: "load_config env argv = Inr (c, ns) \<Longrightarrow> parse_args argv = Inr ns"
  by (auto simp: load_config_def split: if_splits option.splits)

lemma load_config_cases:
  assumes "load_config env argv = Inr (c, ns)"
  shows "0 \<le> observe_arg ns \<and> observe_arg ns \<le> 3600" (is ?A)
    and "(\<exists>path. conflicting ns = [] \<and> topology_config env ns path = Inr c)
      \<or> (\<exists>d. base_config env ns = Inr d \<and> merge_config_and_args d ns = Inr c)" (is ?B)
proof -
  have "?A \<and> ?B"
    using assms load_config_parsed [OF assms]
    by (cases "str_arg ns ''topology''") (auto simp: load_config_def base_config_def simp del: not_None_eq split: if_splits)
  then show ?A ?B by auto
qed

lemma load_config_validated:
  assumes "load_config env argv = Inr (c, ns)"
  shows "validate c = Inr ()"
  using load_config_cases(2) [OF assms] by (auto simp: topology_config_def merge_config_and_args_def Let_def)

text \<open>C29: Every configuration the program starts with has been validated: temperature numbering has room, the
  telemetry mode is one the client knows, a local-only broker is a loopback address, and the observation
  time is within its hour.\<close>

theorem loaded_config_valid:
  assumes "load_config env argv = Inr (c, ns)"
  shows "1 \<le> bat_temps (cfg_battery c) \<and> (mq_mode (cfg_mqtt c) = ''atomic'' \<or> mq_mode (cfg_mqtt c) = ''legacy'')
    \<and> (mq_local (cfg_mqtt c) \<longrightarrow> is_ok (local_broker_address (mq_broker (cfg_mqtt c))))
    \<and> 0 \<le> observe_arg ns \<and> observe_arg ns \<le> 3600"
  using load_config_validated [OF assms] load_config_cases(1) [OF assms] by (auto simp: validate_Inr)

definition topology_identity :: "chain_topology \<Rightarrow> config \<Rightarrow> bool" where
  "topology_identity chain c \<longleftrightarrow> cfg_dbus c = topology_dbus chain
     \<and> cfg_battery c = topology_battery chain (hd (members chain)) (tl (members chain))
     \<and> mq_prefix (cfg_mqtt c) = topic_prefix chain \<and> mq_mode (cfg_mqtt c) = ''atomic''"

lemma merge_unset:
  assumes "map_of ns n = None" "StrSetting n get put \<in> set mqtt_settings"
  shows "get (fold (merge_setting ns) mqtt_settings r) = get r"
  using mqtt_slots.merge_value [OF assms(2), of ns r] assms(1) by simp

lemma merge_topology: "merge_config_and_args d ns = Inr m \<Longrightarrow> cfg_topology m = cfg_topology d"
  by (auto simp: merge_config_and_args_def Let_def merge_mqtt_args_def merge_battery_args_def
    merge_alarms_args_def merge_dbus_args_def)

lemma not_conflicting: "conflicting ns = [] \<Longrightarrow> n \<in> set conflict_names \<Longrightarrow> map_of ns n = None"
  by (force simp: conflicting_def filter_empty_conv map_of_eq_None_iff)

lemma topology_isolated:
  assumes "load_config env argv = Inr (c, ns)" "cfg_topology c = Some chain"
  shows "topology_identity chain c \<and> chain_wf chain \<and> profile_wf chain \<and> conflicting ns = []"
proof -
  have inis: "cfg_topology d = None" if "from_file f p = Inr d" for f p d
    using that by (auto simp: from_file_def Let_def)
  have found: "cfg_topology d = None" if "find_and_load_config h e f = Inr d" for h e f d
    using that by (auto simp: find_and_load_config_def default_config_def split: option.splits dest: inis)
  have "cfg_topology d = None" if "base_config env ns = Inr d" for d
    using that by (auto simp: base_config_def split: option.splits dest: inis found)
  then obtain path where path: "conflicting ns = []" "topology_config env ns path = Inr c"
    using load_config_cases(2) [OF assms(1)] assms(2) merge_topology by fastforce
  obtain c0 t chain' where t: "map_sum as_parser_error id (load_topology (env_uni env) (env_manifest env path) (raw_str_arg ns ''chain'')) = Inr chain'"
    "with_topology chain' c0 = Inr t" "c = merge_mqtt_args ns t"
    using path(2) by (auto simp: topology_config_def Let_def)
  have ch: "chain' = chain" using t assms(2)
    by (auto simp: with_topology_def merge_mqtt_args_def split: list.splits)
  have "load_topology (env_uni env) (env_manifest env path) (raw_str_arg ns ''chain'') = Inr chain"
    using t(1) ch by (cases "load_topology (env_uni env) (env_manifest env path) (raw_str_arg ns ''chain'')") simp_all
  then obtain cs where cs: "load_manifest (env_uni env) (env_manifest env path) = Inr cs" "chain \<in> set cs"
    by (auto simp: load_topology_def intro: select_chain_in)
  have wf: "chain_wf chain \<and> profile_wf chain" using load_manifest_ok [OF cs(1)] cs(2) by (auto simp: manifest_wf_def)
  obtain m ms where ms: "members chain = m # ms" using wf by (cases "members chain") (auto simp: chain_wf_def)
  have unset: "map_of ns ''topic_prefix'' = None" "map_of ns ''telemetry_mode'' = None"
    by (rule not_conflicting [OF path(1)], simp add: conflict_names_def)+
  have slots: "StrSetting ''topic_prefix'' mq_prefix (\<lambda>v r. r\<lparr>mq_prefix := v\<rparr>) \<in> set mqtt_settings"
    "StrSetting ''telemetry_mode'' mq_mode (\<lambda>v r. r\<lparr>mq_mode := v\<rparr>) \<in> set mqtt_settings"
    by (simp_all add: mqtt_settings_def)
  have "topology_identity chain c"
    using t(2,3) ms ch merge_unset [OF unset(1) slots(1)] merge_unset [OF unset(2) slots(2)]
    by (auto simp: with_topology_def topology_identity_def merge_mqtt_args_def)
  then show ?thesis using wf path(1) by simp
qed

text \<open>C21: A configuration with a topology carries one chain of the validated manifest, and its battery
  inventory, D-Bus identity, topic and telemetry mode are that chain's alone, whatever the INI file
  says; an option that would change them was refused.\<close>

theorem topology_identity_isolated:
  assumes "load_config env argv = Inr (c, ns)" "cfg_topology c = Some chain"
  shows "topology_identity chain c \<and> chain_wf chain \<and> profile_wf chain \<and> conflicting ns = []"
  by (rule topology_isolated [OF assms])

section \<open>Concrete command lines\<close>

definition legacy_argv :: "(string \<times> string) list" where
  "legacy_argv = [(''--port'', ''1884''), (''--count'', ''6''), (''--alarm-cell-imbalance'', ''0.2''), (''--local-only'', [])]"

definition topology_argv :: "(string \<times> string) list" where
  "topology_argv = [(''--topology'', ''chains.json''), (''--broker'', ''127.0.0.1''), (''--local-only'', [])]"

definition plain_environment :: environment where
  "plain_environment = \<lparr>env_ini = (\<lambda>_. Inr None), env_manifest = (\<lambda>_. Inr offline_manifest), env_exists = (\<lambda>_. False),
     env_home = ''/home/root'', env_uni = (\<lambda>_. True)\<rparr>"

definition parsed :: "(string \<times> string) list \<Rightarrow> namespace" where
  "parsed argv = (case parse_args argv of Inr ns \<Rightarrow> ns | Inl _ \<Rightarrow> [])"

lemma legacy_parsed: "is_ok (parse_args legacy_argv)" "is_ok (merge_config_and_args default_config (parsed legacy_argv))"
  by code_simp+

theorem command_line_wins_witness:
  "\<exists>ns m. parse_args legacy_argv = Inr ns \<and> merge_config_and_args default_config ns = Inr m
    \<and> list_all (final_value ns (cfg_mqtt default_config) (cfg_mqtt m)) mqtt_settings"
proof -
  obtain ns where ns: "parse_args legacy_argv = Inr ns" using legacy_parsed(1) by (auto simp: is_ok_iff)
  moreover from this obtain m where m: "merge_config_and_args default_config ns = Inr m"
    using legacy_parsed(2) by (auto simp: is_ok_iff parsed_def)
  ultimately show ?thesis using command_line_wins [OF ns m] by blast
qed

lemma plain_loads: "is_ok (load_config plain_environment legacy_argv)"
  by code_simp

theorem loaded_config_valid_witness:
  "\<exists>c ns. load_config plain_environment legacy_argv = Inr (c, ns) \<and> 1 \<le> bat_temps (cfg_battery c)"
proof -
  obtain c ns where "load_config plain_environment legacy_argv = Inr (c, ns)" using plain_loads by (auto simp: is_ok_iff)
  then show ?thesis using loaded_config_valid by blast
qed

lemma topology_parsed: "parse_args topology_argv = Inr (parsed topology_argv)" "str_arg (parsed topology_argv) ''topology'' = Some ''chains.json''"
  "str_arg (parsed topology_argv) ''config'' = None" "raw_str_arg (parsed topology_argv) ''chain'' = None"
  "conflicting (parsed topology_argv) = []" "observe_arg (parsed topology_argv) = 0"
  by code_simp+

lemma topology_chain: "is_ok (and_then (parse_manifest (\<lambda>_. True) offline_document) (\<lambda>cs. and_then (select_chain cs None) (\<lambda>chain.
    and_then (with_topology chain default_config) (\<lambda>t. validate (merge_mqtt_args (parsed topology_argv) t)))))"
  by code_simp

lemma topology_loads: "\<exists>c chain. load_config plain_environment topology_argv = Inr (c, parsed topology_argv) \<and> cfg_topology c = Some chain"
proof -
  obtain cs chain t u where t: "parse_manifest (\<lambda>_. True) offline_document = Inr cs" "select_chain cs None = Inr chain"
    "with_topology chain default_config = Inr t" "validate (merge_mqtt_args (parsed topology_argv) t) = Inr u"
    using topology_chain by (auto simp: is_ok_iff)
  have "load_topology (\<lambda>_. True) (Inr offline_manifest) None = Inr chain"
    using t(1,2) offline_parses offline_valid
    by (simp add: load_topology_def load_manifest_def json_loads_bytes_def Let_def MAX_MANIFEST_BYTES_def)
  then have "topology_config plain_environment (parsed topology_argv) ''chains.json'' = Inr (merge_mqtt_args (parsed topology_argv) t)"
    using t(3,4) topology_parsed(3,4) by (simp add: topology_config_def plain_environment_def Let_def)
  moreover have "cfg_topology (merge_mqtt_args (parsed topology_argv) t) = Some chain"
    using t(3) by (auto simp: merge_mqtt_args_def with_topology_def split: list.splits)
  ultimately show ?thesis using topology_parsed by (simp add: load_config_def)
qed

theorem topology_identity_isolated_witness:
  "\<exists>c chain. load_config plain_environment topology_argv = Inr (c, parsed topology_argv) \<and> cfg_topology c = Some chain
    \<and> topology_identity chain c"
proof -
  obtain c chain where "load_config plain_environment topology_argv = Inr (c, parsed topology_argv)" "cfg_topology c = Some chain"
    using topology_loads by blast
  then show ?thesis using topology_identity_isolated by blast
qed

end
