(* ===== verification/MqttClient.thy ===== *)
theory MqttClient
  imports TelemetryV2 LocalBroker
begin

text \<open>
  \<open>dbus_mqtt_battery/mqtt_client.py\<close>: the client that owns the batteries.  \<open>mqtt_client\<close> is the
  object without the paho handle; each callback is a function from the state before to the
  state after, run under the data lock.  \<open>clk\<close> is the monotonic clock of the call, \<open>wall\<close> the
  wall clock.  Payloads are the bytes of the message.  Log output is not modelled, nor is the
  position text of a UTF-8 decoding error.
\<close>

section \<open>State\<close>

definition MAX_RETIRED_BOOT_IDS :: nat where
  "MAX_RETIRED_BOOT_IDS = 4096"

record mqtt_client =
  cl_topology :: "chain_topology option"
  broker :: string
  port :: int
  battery_count :: int
  cl_prefix :: string
  cl_capacity :: pyfloat
  bms_first :: int
  cells_per_bms :: int
  temps_per_bms :: int
  batteries :: battery_map
  telemetry_source :: string
  telemetry_error :: string
  boot_id :: "string option"
  sequence :: int
  has_full_snapshot :: bool
  boot_ready :: bool
  telemetry_partial :: bool
  retired_boot_ids :: "string list"
  total_voltage :: pyfloat
  total_current :: pyfloat
  total_power :: pyfloat
  total_soc :: pyfloat
  total_capacity :: pyfloat
  total_updated :: "(string \<times> pyfloat) list"
  current_total_seen :: bool
  soc_total_seen :: bool
  last_message_time :: pyfloat
  connected :: bool

definition empty_batteries :: "mqtt_client \<Rightarrow> battery_map" where
  "empty_batteries s = (case cl_topology s of
     Some topo \<Rightarrow> configured_slots topo
   | None \<Rightarrow> empty_slots (battery_count s) (cells_per_bms s))"

definition configured_cells :: "mqtt_client \<Rightarrow> int" where
  "configured_cells s = (case cl_topology s of Some topo \<Rightarrow> total_cells topo
   | None \<Rightarrow> battery_count s * cells_per_bms s)"

definition uniform_cells_per_bms :: "mqtt_client \<Rightarrow> int option" where
  "uniform_cells_per_bms s = (case cl_topology s of
     Some topo \<Rightarrow> if \<not> equal_cells (members topo) then None else Some (cells_per_bms s)
   | None \<Rightarrow> Some (cells_per_bms s))"

text \<open>The constructor's arguments.\<close>

record client_args =
  arg_broker :: string
  arg_port :: int
  arg_battery_count :: int
  arg_prefix :: string
  arg_capacity :: pyfloat
  arg_bms_first :: int
  arg_cells :: int
  arg_temps :: int
  arg_mode :: string
  arg_local_only :: bool
  arg_topology :: "chain_topology option"

definition float_or_zero :: "pyfloat option \<Rightarrow> pyfloat" where
  "float_or_zero v = (case v of None \<Rightarrow> Fin 0 | Some f \<Rightarrow> f)"

text \<open>The arguments an explicit topology replaces.\<close>

definition topology_args :: "client_args \<Rightarrow> client_args res" where
  "topology_args a = (case arg_topology a of None \<Rightarrow> Inr a
   | Some topo \<Rightarrow> (case members topo of [] \<Rightarrow> Inl (ValueError ''tuple index out of range'')
      | m # ms \<Rightarrow> if arg_mode a \<noteq> ''atomic'' then Inl (ValueError ''explicit topology requires atomic telemetry'')
         else Inr (a\<lparr>arg_battery_count := member_count topo, arg_prefix := topic_prefix topo,
           arg_capacity := float_or_zero (installed_capacity topo), arg_bms_first := bms_id m,
           arg_cells := member_cells m, arg_temps := fold max (map member_temperatures ms) (member_temperatures m)\<rparr>)))"

text \<open>The fields before the battery containers are created.\<close>

definition initial_client :: "client_args \<Rightarrow> string \<Rightarrow> mqtt_client" where
  "initial_client a address = \<lparr>cl_topology = arg_topology a, broker = address, port = arg_port a,
     battery_count = arg_battery_count a, cl_prefix = arg_prefix a, cl_capacity = arg_capacity a,
     bms_first = max 1 (arg_bms_first a), cells_per_bms = arg_cells a, temps_per_bms = max 1 (arg_temps a),
     batteries = [], telemetry_source = arg_mode a,
     telemetry_error = ''Waiting for first complete live BMS readings'',
     boot_id = None, sequence = -1, has_full_snapshot = False, boot_ready = False,
     telemetry_partial = False, retired_boot_ids = [],
     total_voltage = Fin 0, total_current = Fin 0, total_power = Fin 0, total_soc = Fin 0,
     total_capacity = Fin 0, total_updated = [], current_total_seen = False, soc_total_seen = False,
     last_message_time = Fin 0, connected = False\<rparr>"

definition new_client :: "client_args \<Rightarrow> mqtt_client res" where
  "new_client a0 = and_then (topology_args a0) (\<lambda>a.
     and_then (if arg_local_only a then local_broker_address (arg_broker a) else Inr (arg_broker a)) (\<lambda>address.
       if arg_mode a \<noteq> ''atomic'' \<and> arg_mode a \<noteq> ''legacy''
       then Inl (ValueError ''telemetry_mode must be atomic or legacy'')
       else Inr ((initial_client a address)\<lparr>batteries := empty_batteries (initial_client a address)\<rparr>)))"

section \<open>Transport\<close>

definition invalidate_samples :: "string \<Rightarrow> mqtt_client \<Rightarrow> mqtt_client" where
  "invalidate_samples reason s = s\<lparr>has_full_snapshot := False, boot_ready := False, telemetry_partial := False,
     batteries := empty_batteries s, total_updated := [], telemetry_error := reason\<rparr>"

text \<open>The connection callback and the topic it subscribes to.\<close>

definition on_connect :: "int \<Rightarrow> mqtt_client \<Rightarrow> mqtt_client \<times> string option" where
  "on_connect rc s = (if rc = 0 then (s\<lparr>connected := True\<rparr>, Some (cl_prefix s @ ''/#'')) else (s, None))"

definition on_disconnect :: "mqtt_client \<Rightarrow> mqtt_client" where
  "on_disconnect s0 = (let s = s0\<lparr>connected := False, boot_ready := False\<rparr> in
     if cl_topology s \<noteq> None
     then invalidate_samples ''MQTT disconnected; topology requires a complete live frame'' s
     else if telemetry_source s = ''atomic'' \<and> has_full_snapshot s
     then s\<lparr>telemetry_partial := True, telemetry_error := ''MQTT disconnected; using unexpired physical evidence''\<rparr>
     else invalidate_samples ''MQTT disconnected; waiting for new live readings'' s)"

section \<open>Legacy topics\<close>

definition total_names :: "(string \<times> string) list" where
  "total_names = [(''voltage_total'', ''total_voltage''), (''current_total'', ''total_current''),
     (''power_total'', ''total_power''), (''soc_total'', ''total_soc''), (''capacity_total'', ''total_capacity'')]"

definition set_total :: "string \<Rightarrow> pyfloat \<Rightarrow> mqtt_client \<Rightarrow> mqtt_client" where
  "set_total name v s =
     (if name = ''total_voltage'' then s\<lparr>total_voltage := v\<rparr>
      else if name = ''total_current'' then s\<lparr>total_current := v, current_total_seen := True\<rparr>
      else if name = ''total_power'' then s\<lparr>total_power := v\<rparr>
      else if name = ''total_soc'' then s\<lparr>total_soc := v, soc_total_seen := True\<rparr>
      else s\<lparr>total_capacity := v\<rparr>)"

definition update_total :: "pyfloat \<Rightarrow> string \<Rightarrow> string \<Rightarrow> mqtt_client \<Rightarrow> mqtt_client" where
  "update_total clk sensor_name payload s = (case map_of total_names sensor_name of
     None \<Rightarrow> s
   | Some name \<Rightarrow> (case float_of_str payload of
       None \<Rightarrow> s
     | Some v \<Rightarrow> if \<not> is_finite v then s
         else (set_total name v s)\<lparr>total_updated := dict_set name clk (total_updated s)\<rparr>))"

text \<open>
  \<open>re.search(r"bms(\d+)$", name)\<close>: the digits of the tail, or none; \<open>$\<close> also matches before a
  final line feed, which \<open>re.sub\<close> keeps.
\<close>

definition chomp :: "string \<Rightarrow> string" where
  "chomp s = (if s \<noteq> [] \<and> last s = CHR 0x0A then butlast s else s)"

definition digit_tail :: "string \<Rightarrow> string" where
  "digit_tail s = rev (takeWhile is_digit (rev (chomp s)))"

definition bms_match :: "string \<Rightarrow> string option" where
  "bms_match s = (let ds = digit_tail s in
     if ds \<noteq> [] \<and> ends_with (''bms'' @ ds) (chomp s) then Some ds else None)"

definition sub_bms :: "string \<Rightarrow> string" where
  "sub_bms s = (let tail = ''_bms'' @ digit_tail s in
     if digit_tail s \<noteq> [] \<and> ends_with tail (chomp s)
     then take (length (chomp s) - length tail) s @ drop (length (chomp s)) s else s)"

definition legacy_mapping :: "(string \<times> string) list" where
  "legacy_mapping = [(''voltage'', ''voltage''), (''current'', ''current''), (''power'', ''power''), (''soc'', ''soc''),
     (''capacity_remaining'', ''capacity_remaining''), (''capacity'', ''capacity_total''), (''cycles'', ''cycles''),
     (''charging'', ''charging''), (''discharging'', ''discharging''), (''balancing'', ''balancing''),
     (''online'', ''online'')]"

definition legacy_key :: "string \<Rightarrow> string option" where
  "legacy_key sensor_key =
     (if starts_with ''voltage_cell'' sensor_key then Some (''cell_'' @ py_remove ''voltage_cell'' sensor_key)
      else if starts_with ''temperature'' sensor_key
      then (let num = py_remove ''temperature'' sensor_key in
        if num \<noteq> [] then Some (''temperature_'' @ num) else Some ''temperature'')
      else map_of legacy_mapping sensor_key)"

definition update_battery :: "pyfloat \<Rightarrow> int \<Rightarrow> string \<Rightarrow> string \<Rightarrow> mqtt_client \<Rightarrow> mqtt_client res" where
  "update_battery clk slot key payload s = (case map_of (batteries s) slot of
     None \<Rightarrow> Inl (KeyError (show_int slot))
   | Some b \<Rightarrow> Inr (s\<lparr>batteries := dict_set slot (update clk key (UStr payload) b) (batteries s)\<rparr>))"

definition process_legacy_topic :: "pyfloat \<Rightarrow> string \<Rightarrow> string \<Rightarrow> mqtt_client \<Rightarrow> mqtt_client res" where
  "process_legacy_topic clk topic payload s =
     (if \<not> starts_with (cl_prefix s @ ''/'') topic then Inr s
      else case py_split (CHR ''/'') (drop (length (cl_prefix s) + 1) topic) of
        _ # sensor_name # _ # _ \<Rightarrow>
          if ends_with ''_total'' sensor_name then Inr (update_total clk sensor_name payload s)
          else (case bms_match sensor_name of
            None \<Rightarrow> Inr s
          | Some ds \<Rightarrow> (case int_of_str ds of
              None \<Rightarrow> Inl (ValueError ''Exceeds the limit for integer string conversion'')
            | Some idx \<Rightarrow> let slot = idx - bms_first s + 1 in
                if slot < 1 \<or> battery_count s < slot then Inr s
                else (case legacy_key (sub_bms sensor_name) of
                  None \<Rightarrow> Inr s | Some key \<Rightarrow> update_battery clk slot key payload s)))
      | _ \<Rightarrow> Inr s)"

section \<open>Telemetry sessions\<close>

definition header_of :: "string \<Rightarrow> mqtt_client \<Rightarrow> (pyobj \<times> string \<times> int) res" where
  "header_of payload s = (case cl_topology s of
     Some topo \<Rightarrow> TelemetryV2.decode_header payload topo
   | None \<Rightarrow> Telemetry.decode_header payload)"

definition replayed :: "string \<Rightarrow> int \<Rightarrow> mqtt_client \<Rightarrow> bool" where
  "replayed boot sq s = (boot \<in> set (retired_boot_ids s) \<or> (Some boot = boot_id s \<and> sq \<le> sequence s))"

definition new_session :: "string \<Rightarrow> mqtt_client \<Rightarrow> bool" where
  "new_session boot s = (boot_id s \<noteq> None \<and> boot_id s \<noteq> Some boot)"

definition history_full :: "mqtt_client \<Rightarrow> bool" where
  "history_full s = (MAX_RETIRED_BOOT_IDS \<le> length (retired_boot_ids s))"

definition history_reason :: string where
  "history_reason = ''Producer-session history full; restart driver to admit a new boot''"

definition refuse_session :: "mqtt_client \<Rightarrow> mqtt_client" where
  "refuse_session s = (if cl_topology s \<noteq> None then invalidate_samples history_reason s
     else s\<lparr>telemetry_error := history_reason, telemetry_partial := True\<rparr>)"

text \<open>\<open>_retired_boot_ids.add\<close> and the new session's identity; the set is a list without duplicates.\<close>

definition admit :: "string \<Rightarrow> int \<Rightarrow> mqtt_client \<Rightarrow> mqtt_client" where
  "admit boot sq s =
     (let s1 = (case boot_id s of
          Some old \<Rightarrow> if old \<noteq> boot then s\<lparr>retired_boot_ids := List.insert old (retired_boot_ids s), boot_ready := False\<rparr> else s
        | None \<Rightarrow> s)
      in s1\<lparr>boot_id := Some boot, sequence := sq\<rparr>)"

definition install_batteries :: "string \<Rightarrow> battery_map \<Rightarrow> mqtt_client \<Rightarrow> mqtt_client" where
  "install_batteries reason bats s = s\<lparr>batteries := bats, total_updated := [], telemetry_error := reason\<rparr>"

definition accept_frame :: "pyfloat \<Rightarrow> pyobj \<Rightarrow> mqtt_client \<Rightarrow> mqtt_client res" where
  "accept_frame clk frame s =
     (if frame_ready frame then
        and_then (case cl_topology s of
            Some topo \<Rightarrow> TelemetryV2.decode_batteries clk frame topo clk
          | None \<Rightarrow> Telemetry.decode_batteries clk frame (battery_count s) (bms_first s) (cells_per_bms s) clk)
          (\<lambda>bats. Inr (install_batteries [] bats
             (s\<lparr>has_full_snapshot := True, boot_ready := True, telemetry_partial := False\<rparr>)))
      else if cl_topology s \<noteq> None
      then Inr (invalidate_samples ''Incomplete topology frame; every configured member is required'' s)
      else if has_full_snapshot s then
        and_then (merge_partial clk frame (batteries s) (bms_first s) clk (boot_ready s))
          (\<lambda>bats. Inr (install_batteries ''Incomplete poll; missing fields keep original expiry'' bats
             (s\<lparr>telemetry_partial := True\<rparr>)))
      else Inr (invalidate_samples ''Waiting for first complete physical BMS frame'' s))"

fun exn_text :: "exn \<Rightarrow> string" where
  "exn_text (ValueError m) = m"
| "exn_text (TypeError m) = m"
| "exn_text (KeyError m) = m"
| "exn_text (OverflowError m) = m"
| "exn_text ZeroDivisionError = ''division by zero''"
| "exn_text (OSError m) = m"
| "exn_text (RuntimeError m) = m"
| "exn_text TimeoutError = ''timed out''"
| "exn_text (OtherError name m) = m"

text \<open>The exceptions \<open>_process_telemetry\<close> catches; the message handler catches the rest.\<close>

fun rejected_here :: "exn \<Rightarrow> bool" where
  "rejected_here (ValueError m) = True"
| "rejected_here (TypeError m) = True"
| "rejected_here (KeyError m) = True"
| "rejected_here (OverflowError m) = True"
| "rejected_here _ = False"

definition reject :: "exn \<Rightarrow> mqtt_client \<Rightarrow> mqtt_client" where
  "reject e s = invalidate_samples ((if rejected_here e then ''Rejected atomic telemetry: ''
     else ''Unreadable atomic telemetry: '') @ exn_text e) s"

definition process_telemetry :: "pyfloat \<Rightarrow> string \<Rightarrow> mqtt_client \<Rightarrow> mqtt_client" where
  "process_telemetry clk payload s = (case header_of payload s of
     Inl e \<Rightarrow> reject e s
   | Inr (frame, boot, sq) \<Rightarrow>
       if replayed boot sq s then s
       else if new_session boot s \<and> history_full s then refuse_session s
       else let s1 = admit boot sq s in
         (case accept_frame clk frame s1 of Inl e \<Rightarrow> reject e s1 | Inr s2 \<Rightarrow> s2))"

section \<open>Messages\<close>

definition telemetry_topic :: "mqtt_client \<Rightarrow> string" where
  "telemetry_topic s = cl_prefix s @ ''/telemetry''"

definition producer_offline :: "mqtt_client \<Rightarrow> mqtt_client" where
  "producer_offline s =
     (if cl_topology s \<noteq> None
      then invalidate_samples ''Producer offline; topology requires a complete live frame'' s
      else let s1 = s\<lparr>boot_ready := False\<rparr> in
        if has_full_snapshot s1
        then s1\<lparr>telemetry_partial := True, telemetry_error := ''Producer offline; using unexpired physical evidence''\<rparr>
        else s1)"

definition process_text :: "pyfloat \<Rightarrow> string \<Rightarrow> string \<Rightarrow> mqtt_client \<Rightarrow> mqtt_client" where
  "process_text clk topic payload s =
     (if topic = telemetry_topic s then process_telemetry clk payload (s\<lparr>telemetry_source := ''atomic''\<rparr>)
      else if telemetry_source s = ''atomic''
      then (if topic = cl_prefix s @ ''/status'' \<and> py_lower payload = ''offline'' then producer_offline s else s)
      else case process_legacy_topic clk topic payload s of Inl e \<Rightarrow> s | Inr s' \<Rightarrow> s')"

definition process_message :: "pyfloat \<Rightarrow> pyfloat \<Rightarrow> string \<Rightarrow> string \<Rightarrow> mqtt_client \<Rightarrow> mqtt_client" where
  "process_message clk wall topic payload s0 = (let s = s0\<lparr>last_message_time := wall\<rparr> in
     if utf8_valid payload then process_text clk topic (py_strip payload) s
     else if topic = telemetry_topic s
     then invalidate_samples ''Unreadable atomic telemetry: invalid UTF-8'' (s\<lparr>telemetry_source := ''atomic''\<rparr>)
     else s)"

definition on_message :: "pyfloat \<Rightarrow> pyfloat \<Rightarrow> bool \<Rightarrow> string \<Rightarrow> string \<Rightarrow> mqtt_client \<Rightarrow> mqtt_client" where
  "on_message clk wall retain topic payload s =
     (if retain then s else process_message clk wall topic payload s)"

end
