(* ===== verification/Aggregate.thy ===== *)
theory Aggregate
  imports MqttClient
begin

text \<open>
  \<open>get_aggregate_data\<close> of \<open>mqtt_client.py\<close>: one snapshot of the valid batteries, the extremes with
  their global sensor numbers, and the electrical totals, published as one record.
\<close>

section \<open>Snapshots\<close>

record battery_snapshot =
  snap_id :: int
  snap_voltage :: pyfloat
  snap_current :: pyfloat
  snap_power :: pyfloat
  snap_soc :: pyfloat
  snap_capacity :: "pyfloat option"
  snap_temperature :: pyfloat
  snap_temperatures :: "(int \<times> pyfloat) list"
  snap_cells :: "(int \<times> pyfloat) list"
  snap_cell_count :: int
  snap_charging :: bool
  snap_discharging :: bool
  snap_cycles :: "int option"
  snap_online :: bool

text \<open>
  The copy of one battery with its oldest sample time.  A valid battery always has a state of
  charge and a temperature, so the cases the code does not test do not arise.
\<close>

definition snapshot :: "battery_data \<Rightarrow> (battery_snapshot \<times> pyfloat) option" where
  "snapshot b = (case (voltage b, current b, oldest_sample_time b, soc b, temperature b) of
     (Some v, Some i, Some oldest, Some q, Some t) \<Rightarrow>
       Some (\<lparr>snap_id = battery_id b, snap_voltage = v, snap_current = i,
         snap_power = (case power b of Some p \<Rightarrow> p | None \<Rightarrow> fmul v i), snap_soc = q,
         snap_capacity = capacity_remaining b, snap_temperature = t, snap_temperatures = temperatures b,
         snap_cells = cells b, snap_cell_count = cell_count b, snap_charging = (charging b = Some True),
         snap_discharging = (discharging b = Some True), snap_cycles = cycles b,
         snap_online = (online b = Some True)\<rparr>, oldest)
   | _ \<Rightarrow> None)"

definition battery_snapshots :: "pyfloat \<Rightarrow> mqtt_client \<Rightarrow> (battery_snapshot \<times> pyfloat) list" where
  "battery_snapshots clk s = List.map_filter (\<lambda>b. if is_valid clk b then snapshot b else None) (dict_vals (batteries s))"

definition fresh_totals :: "pyfloat \<Rightarrow> mqtt_client \<Rightarrow> (string \<times> pyfloat) list" where
  "fresh_totals clk s = (let value = (\<lambda>name.
       if name = ''total_voltage'' then total_voltage s else if name = ''total_current'' then total_current s
       else if name = ''total_power'' then total_power s else if name = ''total_soc'' then total_soc s
       else total_capacity s)
     in List.map_filter (\<lambda>(name, t). if fresh clk t then Some (name, value name) else None) (total_updated s))"

definition missing_data_reason :: "pyfloat \<Rightarrow> mqtt_client \<Rightarrow> string" where
  "missing_data_reason clk s =
     (let number = (\<lambda>i. case cl_topology s of Some topo \<Rightarrow> bms_id (members topo ! nat (i - 1)) | None \<Rightarrow> i + bms_first s - 1);
          text = join_with ''; '' (map (\<lambda>(i, b). ''BMS '' @ show_int (number i) @ '': '' @ join_with '', '' (missing_fields clk b))
            (filter (\<lambda>(i, b). \<not> is_valid clk b) (batteries s)))
      in if text = [] then telemetry_error s else text)"

section \<open>Sensors\<close>

definition cell_base :: "mqtt_client \<Rightarrow> int \<Rightarrow> int" where
  "cell_base s bid = (case cl_topology s of
     Some topo \<Rightarrow> cell_offsets topo ! nat (bid - 1)
   | None \<Rightarrow> (bms_first s - 1) * cells_per_bms s + (bid - 1) * cells_per_bms s)"

definition cell_voltages :: "mqtt_client \<Rightarrow> battery_snapshot \<Rightarrow> (int \<times> pyfloat) list" where
  "cell_voltages s b = map (\<lambda>(i, v). (cell_base s (snap_id b) + i, v))
     (filter (\<lambda>(i, v). flt (Fin 0) v) (snap_cells b))"

definition temp_limit :: "mqtt_client \<Rightarrow> int \<Rightarrow> int" where
  "temp_limit s bid = (case cl_topology s of
     Some topo \<Rightarrow> member_temperatures (members topo ! nat (bid - 1)) | None \<Rightarrow> temps_per_bms s)"

definition temp_base :: "mqtt_client \<Rightarrow> int \<Rightarrow> int" where
  "temp_base s bid = (case cl_topology s of
     Some topo \<Rightarrow> temp_offsets topo ! nat (bid - 1) | None \<Rightarrow> (bid - 1) * temps_per_bms s)"

text \<open>The sensors above the disconnected mark of -40, as (battery, index, value).\<close>

definition live_temps :: "battery_snapshot \<Rightarrow> (int \<times> int \<times> pyfloat) list" where
  "live_temps b = map (\<lambda>(i, t). (snap_id b, i, t)) (filter (\<lambda>(i, t). flt neg40 t) (snap_temperatures b))"

record sensors =
  sens_cells :: "(int \<times> pyfloat) list"
  sens_temps :: "(int \<times> pyfloat) list"
  sens_values :: "pyfloat list"
  sens_unambiguous :: bool

definition collect_sensors :: "mqtt_client \<Rightarrow> battery_snapshot list \<Rightarrow> sensors" where
  "collect_sensors s bs =
     (let found = concat (map live_temps bs);
          numbered = map (\<lambda>(bid, i, t). (temp_base s bid + i, t)) found;
          clean = list_all (\<lambda>(bid, i, t). i \<le> temp_limit s bid) found \<and> distinct (map fst numbered)
      in \<lparr>sens_cells = concat (map (cell_voltages s) bs), sens_temps = (if clean then numbered else []),
          sens_values = map (\<lambda>(bid, i, t). t) found, sens_unambiguous = clean\<rparr>)"

text \<open>The extremes of numbered readings: lowest with its number, highest with its number.\<close>

definition extremes :: "(int \<times> pyfloat) list \<Rightarrow> ((pyfloat \<times> int) \<times> (pyfloat \<times> int)) option" where
  "extremes xs = (case xs of [] \<Rightarrow> None
   | p # ps \<Rightarrow> (let lo = min_by snd p ps; hi = max_by snd p ps in Some ((snd lo, fst lo), (snd hi, fst hi))))"

section \<open>Electrical totals\<close>

record totals =
  tot_voltage :: pyfloat
  tot_current :: pyfloat
  tot_power :: pyfloat
  tot_soc :: pyfloat
  tot_capacity :: "pyfloat option"

text \<open>\<open>min\<close> over a key of a list that is not empty, and \<open>sum(xs) / len(xs)\<close>.\<close>

definition fmin_of :: "pyfloat list \<Rightarrow> pyfloat" where
  "fmin_of xs = (case xs of [] \<Rightarrow> NaN | y # ys \<Rightarrow> fmin_list y ys)"

definition fmax_of :: "pyfloat list \<Rightarrow> pyfloat" where
  "fmax_of xs = (case xs of [] \<Rightarrow> NaN | y # ys \<Rightarrow> max_by id y ys)"

definition topology_capacity :: "mqtt_client \<Rightarrow> battery_snapshot list \<Rightarrow> pyfloat option" where
  "topology_capacity s bs = (let remaining = map snap_capacity bs in
     if None \<in> set remaining then None
     else let c = fmin_of (map the remaining) in
       if flt (Fin 0) (cl_capacity s) \<and> flt (cl_capacity s) c then None else Some c)"

definition topology_totals :: "mqtt_client \<Rightarrow> battery_snapshot list \<Rightarrow> totals res" where
  "topology_totals s bs =
     (let v = fsum (map snap_voltage bs); p = fsum (map (\<lambda>b. fmul (snap_voltage b) (snap_current b)) bs) in
      and_then (fdiv p v) (\<lambda>i. let q = fmin_of (map snap_soc bs) in
      and_then (fmean (map snap_temperature bs)) (\<lambda>t.
        if list_all is_finite [v, i, p, q, t]
        then Inr \<lparr>tot_voltage = v, tot_current = i, tot_power = p, tot_soc = q, tot_capacity = topology_capacity s bs\<rparr>
        else Inl (ValueError ''non-finite topology aggregate''))))"

definition measured_totals :: "(string \<times> pyfloat) list \<Rightarrow> pyfloat \<Rightarrow> battery_snapshot list \<Rightarrow> totals res" where
  "measured_totals tot remaining bs =
     (let v0 = dict_get ''total_voltage'' (Fin 0) tot;
          v = (if fle v0 (Fin 0) then fsum (map snap_voltage bs) else v0);
          lowest = fmin_of (map snap_soc bs)
      in and_then (fmean (map snap_current bs)) (\<lambda>mean.
        let i = dict_get ''total_current'' mean tot;
            sum_p = fsum (map snap_power bs);
            p = (case map_of tot ''total_power'' of Some p \<Rightarrow> p
              | None \<Rightarrow> if map_of tot ''total_current'' \<noteq> None then fmul v i
                 else if flt (fabs sum_p) (Fin 1) then fmul v i else sum_p);
            q0 = dict_get ''total_soc'' lowest tot;
            c0 = dict_get ''total_capacity'' remaining tot
        in Inr \<lparr>tot_voltage = v, tot_current = i, tot_power = p,
             tot_soc = (if flt q0 (Fin 0) then lowest else q0),
             tot_capacity = Some (if flt c0 (Fin 0) then remaining else c0)\<rparr>))"

definition electrical_totals :: "mqtt_client \<Rightarrow> (string \<times> pyfloat) list \<Rightarrow> pyfloat \<Rightarrow> battery_snapshot list \<Rightarrow> totals res" where
  "electrical_totals s tot remaining bs =
     (if cl_topology s \<noteq> None then topology_totals s bs else measured_totals tot remaining bs)"

section \<open>The aggregate\<close>

record aggregate =
  data_complete :: bool
  agg_oldest :: pyfloat
  agg_source :: string
  agg_partial :: bool
  agg_missing :: string
  agg_totals :: totals
  capacity_full :: pyfloat
  agg_min_cell :: "(pyfloat \<times> int) option"
  agg_max_cell :: "(pyfloat \<times> int) option"
  agg_min_temp :: pyfloat
  agg_min_temp_id :: "int option"
  agg_max_temp :: pyfloat
  agg_max_temp_id :: "int option"
  agg_temperature :: pyfloat
  agg_cell_count :: int
  allow_charge :: bool
  allow_discharge :: bool
  agg_cycles :: "int option"
  modules_online :: int
  modules_offline :: int
  blocking_discharge :: int
  blocking_charge :: int
  all_cells :: "(int \<times> pyfloat) list"
  agg_temperatures :: "(int \<times> pyfloat) list"

text \<open>The published temperature extremes: numbered, else unnumbered, else the average.\<close>

definition temp_extremes :: "sensors \<Rightarrow> pyfloat \<Rightarrow> (pyfloat \<times> int option) \<times> (pyfloat \<times> int option)" where
  "temp_extremes sens average = (case extremes (sens_temps sens) of
     Some ((lo, i), (hi, j)) \<Rightarrow> ((lo, Some i), (hi, Some j))
   | None \<Rightarrow> if sens_values sens \<noteq> [] then ((fmin_of (sens_values sens), None), (fmax_of (sens_values sens), None))
       else ((average, None), (average, None)))"

definition count_of :: "('a \<Rightarrow> bool) \<Rightarrow> 'a list \<Rightarrow> int" where
  "count_of f xs = int (length (filter f xs))"

definition max_option :: "int list \<Rightarrow> int option" where
  "max_option xs = (case xs of [] \<Rightarrow> None | y # ys \<Rightarrow> Some (fold max ys y))"

definition build_aggregate :: "pyfloat \<Rightarrow> mqtt_client \<Rightarrow> (battery_snapshot \<times> pyfloat) list \<Rightarrow> totals \<Rightarrow> pyfloat \<Rightarrow> aggregate" where
  "build_aggregate clk s snaps tot average =
     (let bs = map fst snaps; missing = battery_count s - int (length bs); complete = (missing = 0);
          sens = collect_sensors s bs; temps = temp_extremes sens average
      in \<lparr>data_complete = complete, agg_oldest = fmin_of (map snd snaps), agg_source = telemetry_source s,
          agg_partial = telemetry_partial s,
          agg_missing = (if \<not> complete \<or> telemetry_partial s then missing_data_reason clk s else []),
          agg_totals = tot, capacity_full = cl_capacity s,
          agg_min_cell = map_option fst (extremes (sens_cells sens)),
          agg_max_cell = map_option snd (extremes (sens_cells sens)),
          agg_min_temp = fst (fst temps), agg_min_temp_id = snd (fst temps),
          agg_max_temp = fst (snd temps), agg_max_temp_id = snd (snd temps),
          agg_temperature = average, agg_cell_count = sum_list (map snap_cell_count bs),
          allow_charge = (complete \<and> list_all snap_charging bs),
          allow_discharge = (complete \<and> list_all snap_discharging bs),
          agg_cycles = max_option (List.map_filter snap_cycles bs),
          modules_online = count_of snap_online bs, modules_offline = missing,
          blocking_discharge = missing + count_of (\<lambda>b. \<not> snap_discharging b) bs,
          blocking_charge = missing + count_of (\<lambda>b. \<not> snap_charging b) bs,
          all_cells = sens_cells sens,
          agg_temperatures = dict_of (map (\<lambda>b. (snap_id b, snap_temperature b)) bs)\<rparr>)"

text \<open>
  The data of one poll and the client after it.  Without a topology an arithmetic error leaves
  the method; with one it invalidates the evidence.
\<close>

definition get_aggregate_data :: "pyfloat \<Rightarrow> mqtt_client \<Rightarrow> aggregate option res \<times> mqtt_client" where
  "get_aggregate_data clk s =
     (let snaps = battery_snapshots clk s; bs = map fst snaps in
      if snaps = [] \<or> (cl_topology s \<noteq> None \<and> int (length snaps) \<noteq> battery_count s) then (Inr None, s)
      else case and_then (fmean (map snap_temperature bs)) (\<lambda>average.
          and_then (fmean (map snap_soc bs)) (\<lambda>soc. and_then (fdiv (fmul (cl_capacity s) soc) (Fin 100)) (\<lambda>remaining.
            Inr (average, remaining)))) of
        Inl e \<Rightarrow> (Inl e, s)
      | Inr (average, remaining) \<Rightarrow>
         (case electrical_totals s (fresh_totals clk s) remaining bs of
            Inr tot \<Rightarrow> (Inr (Some (build_aggregate clk s snaps tot average)), s)
          | Inl e \<Rightarrow> if cl_topology s = None then (Inl e, s)
              else (Inr None, invalidate_samples ''Invalid computed topology aggregate'' s)))"

end
