(* ===== verification/MqttSafety.thy ===== *)
theory MqttSafety
  imports Aggregate
begin

text \<open>
  The client as a system of handler calls: its invariant, the order in which producer sessions
  are admitted, and what a lost connection leaves behind.
\<close>

section \<open>Events\<close>

datatype client_event =
    Connect int
  | Disconnect
  | Message pyfloat pyfloat bool string string
  | Poll pyfloat

fun client_step :: "client_event \<Rightarrow> mqtt_client \<Rightarrow> mqtt_client" where
  "client_step (Connect rc) s = fst (on_connect rc s)"
| "client_step Disconnect s = on_disconnect s"
| "client_step (Message clk wall retain topic payload) s = on_message clk wall retain topic payload s"
| "client_step (Poll clk) s = snd (get_aggregate_data clk s)"

text \<open>A reading of the monotonic clock: a double below \<open>2 ^ 60\<close> seconds.\<close>

definition tick :: "pyfloat \<Rightarrow> bool" where
  "tick t \<longleftrightarrow> (\<exists>c. t = Fin c \<and> is_dbl c \<and> \<bar>c\<bar> \<le> pow2 60)"

fun event_ok :: "client_event \<Rightarrow> bool" where
  "event_ok (Message clk wall retain topic payload) = tick clk"
| "event_ok (Poll clk) = tick clk"
| "event_ok _ = True"

lemma tick_clock: "tick t \<Longrightarrow> clock t"
proof -
  have "pow2 60 < fmax"
  proof -
    have "pow2 60 < pow2 61" by simp
    also have "pow2 61 \<le> fmax" by (simp add: fmax_def)
    finally show ?thesis .
  qed
  then show "tick t \<Longrightarrow> clock t" by (force simp: tick_def clock_iff)
qed

lemma tick_minus_age: "tick t \<Longrightarrow> fle (Fin 0) age \<Longrightarrow> fle age stale_timeout \<Longrightarrow> clock (fsub t age)"
  using clock_minus_age by (auto simp: tick_def)

section \<open>The invariant\<close>

text \<open>Each part speaks of the fields it constrains, so a handler that leaves them alone keeps it.\<close>

definition slot_cells :: "chain_topology option \<Rightarrow> int \<Rightarrow> int \<Rightarrow> int" where
  "slot_cells topo n i = (case topo of Some t \<Rightarrow> member_cells (members t ! nat (i - 1)) | None \<Rightarrow> n)"

definition count_wf :: "chain_topology option \<Rightarrow> int \<Rightarrow> bool" where
  "count_wf topo count \<longleftrightarrow> (case topo of None \<Rightarrow> True | Some t \<Rightarrow> count = member_count t)"

definition slots_wf :: "chain_topology option \<Rightarrow> int \<Rightarrow> int \<Rightarrow> battery_map \<Rightarrow> bool" where
  "slots_wf topo count n bats \<longleftrightarrow> dict_keys bats = [1..count]
     \<and> (\<forall>i b. map_of bats i = Some b \<longrightarrow> battery_wf b \<and> battery_id b = i \<and> cell_count b = slot_cells topo n i)"

definition sessions_wf :: "string option \<Rightarrow> string list \<Rightarrow> bool" where
  "sessions_wf boot retired \<longleftrightarrow> distinct retired \<and> length retired \<le> MAX_RETIRED_BOOT_IDS
     \<and> (\<forall>x. boot = Some x \<longrightarrow> x \<notin> set retired) \<and> (boot = None \<longrightarrow> retired = [])"

definition evidence_wf :: "bool \<Rightarrow> bool \<Rightarrow> battery_map \<Rightarrow> bool" where
  "evidence_wf ready full bats \<longleftrightarrow> (ready \<longrightarrow> full)
     \<and> (full \<longrightarrow> (\<forall>i b. map_of bats i = Some b \<longrightarrow> sample_times b \<noteq> []))"

definition client_wf :: "mqtt_client \<Rightarrow> bool" where
  "client_wf s \<longleftrightarrow> slots_wf (cl_topology s) (battery_count s) (cells_per_bms s) (batteries s)
     \<and> count_wf (cl_topology s) (battery_count s) \<and> sessions_wf (boot_id s) (retired_boot_ids s)
     \<and> evidence_wf (boot_ready s) (has_full_snapshot s) (batteries s)
     \<and> list_all is_finite [total_voltage s, total_current s, total_power s, total_soc s, total_capacity s]
     \<and> telemetry_source s \<in> {''atomic'', ''legacy''}"

text \<open>The configuration never changes, retired sessions stay retired, the atomic protocol stays latched.\<close>

definition same_config :: "mqtt_client \<Rightarrow> mqtt_client \<Rightarrow> bool" where
  "same_config s t \<longleftrightarrow> cl_topology t = cl_topology s \<and> battery_count t = battery_count s \<and> cl_prefix t = cl_prefix s
     \<and> cl_capacity t = cl_capacity s \<and> bms_first t = bms_first s \<and> cells_per_bms t = cells_per_bms s
     \<and> temps_per_bms t = temps_per_bms s \<and> broker t = broker s \<and> port t = port s"

definition advances :: "mqtt_client \<Rightarrow> mqtt_client \<Rightarrow> bool" where
  "advances s t \<longleftrightarrow> same_config s t \<and> set (retired_boot_ids s) \<subseteq> set (retired_boot_ids t)
     \<and> (telemetry_source s = ''atomic'' \<longrightarrow> telemetry_source t = ''atomic'')
     \<and> (current_total_seen s \<longrightarrow> current_total_seen t) \<and> (soc_total_seen s \<longrightarrow> soc_total_seen t)"

lemma advances_refl [simp]: "advances s s"
  by (simp add: advances_def same_config_def)

lemma advances_trans: "advances s t \<Longrightarrow> advances t u \<Longrightarrow> advances s u"
  by (auto simp: advances_def same_config_def)

section \<open>Invalidation\<close>

lemma new_battery_inventory [simp]:
  "battery_id (new_battery i n) = i" "cell_count (new_battery i n) = n" "sample_times (new_battery i n) = []"
  by (simp_all add: new_battery_def)

lemma empty_slots_wf:
  assumes "count_wf (cl_topology s) (battery_count s)"
  shows "slots_wf (cl_topology s) (battery_count s) (cells_per_bms s) (empty_batteries s)"
proof (cases "cl_topology s")
  case None
  then show ?thesis
    by (auto simp: slots_wf_def empty_batteries_def slot_cells_def map_of_empty_slots split: if_splits)
next
  case (Some topo)
  then show ?thesis using assms map_of_configured_slots [of topo]
    by (fastforce simp: slots_wf_def empty_batteries_def slot_cells_def count_wf_def)
qed

lemma invalidate_frame [simp]:
  "cl_topology (invalidate_samples r s) = cl_topology s" "battery_count (invalidate_samples r s) = battery_count s"
  "cells_per_bms (invalidate_samples r s) = cells_per_bms s" "boot_id (invalidate_samples r s) = boot_id s"
  "sequence (invalidate_samples r s) = sequence s" "retired_boot_ids (invalidate_samples r s) = retired_boot_ids s"
  "telemetry_source (invalidate_samples r s) = telemetry_source s" "cl_prefix (invalidate_samples r s) = cl_prefix s"
  "has_full_snapshot (invalidate_samples r s) = False" "boot_ready (invalidate_samples r s) = False"
  "batteries (invalidate_samples r s) = empty_batteries s"
  by (simp_all add: invalidate_samples_def)

lemma invalidate_advances [simp]: "advances s (invalidate_samples r s)"
  by (simp add: advances_def same_config_def invalidate_samples_def)

lemma invalidate_wf: "client_wf s \<Longrightarrow> client_wf (invalidate_samples r s)"
  using empty_slots_wf [of s] by (simp add: client_wf_def evidence_wf_def invalidate_samples_def)

lemma flags_wf:
  assumes "client_wf s"
  shows "client_wf (s\<lparr>connected := x\<rparr>)" "client_wf (s\<lparr>last_message_time := w\<rparr>)" "client_wf (s\<lparr>boot_ready := False\<rparr>)"
    "client_wf (s\<lparr>telemetry_partial := p, telemetry_error := e\<rparr>)" "client_wf (s\<lparr>telemetry_source := ''atomic''\<rparr>)"
  using assms by (simp_all add: client_wf_def evidence_wf_def)

lemma flags_advance [simp]:
  "advances s (s\<lparr>connected := x\<rparr>)" "advances s (s\<lparr>last_message_time := w\<rparr>)" "advances s (s\<lparr>boot_ready := x\<rparr>)"
  "advances s (s\<lparr>telemetry_partial := x, telemetry_error := e\<rparr>)" "advances s (s\<lparr>telemetry_source := ''atomic''\<rparr>)"
  "advances s (install_batteries r bats s)"
  by (simp_all add: advances_def same_config_def install_batteries_def)

section \<open>Sessions\<close>

text \<open>What the replay check reads of the state.\<close>

definition session :: "mqtt_client \<Rightarrow> string option \<times> int \<times> string list" where
  "session s = (boot_id s, sequence s, retired_boot_ids s)"

lemma session_invalidate [simp]: "session (invalidate_samples r s) = session s"
  by (simp add: session_def)

lemma session_flags [simp]:
  "session (s\<lparr>connected := x\<rparr>) = session s" "session (s\<lparr>last_message_time := w\<rparr>) = session s"
  "session (s\<lparr>boot_ready := y\<rparr>) = session s" "session (s\<lparr>telemetry_source := z\<rparr>) = session s"
  "session (s\<lparr>telemetry_partial := p, telemetry_error := e\<rparr>) = session s"
  "session (install_batteries r bats s) = session s"
  "session (s\<lparr>has_full_snapshot := f\<rparr>) = session s"
  "session (s\<lparr>telemetry_partial := p\<rparr>) = session s"
  by (simp_all add: session_def install_batteries_def)

lemma reject_eq: "\<exists>r. reject e s = invalidate_samples r s"
  by (auto simp: reject_def)

lemma accept_frame_cases:
  assumes "accept_frame clk frame s = Inr s'"
  obtains (strict) topo bats where "frame_ready frame" "cl_topology s = Some topo"
      "TelemetryV2.decode_batteries clk frame topo clk = Inr bats"
      "s' = install_batteries [] bats (s\<lparr>has_full_snapshot := True, boot_ready := True, telemetry_partial := False\<rparr>)"
  | (complete) bats where "frame_ready frame" "cl_topology s = None"
      "Telemetry.decode_batteries clk frame (battery_count s) (bms_first s) (cells_per_bms s) clk = Inr bats"
      "s' = install_batteries [] bats (s\<lparr>has_full_snapshot := True, boot_ready := True, telemetry_partial := False\<rparr>)"
  | (partial) bats where "\<not> frame_ready frame" "cl_topology s = None" "has_full_snapshot s"
      "merge_partial clk frame (batteries s) (bms_first s) clk (boot_ready s) = Inr bats"
      "s' = install_batteries ''Incomplete poll; missing fields keep original expiry'' bats (s\<lparr>telemetry_partial := True\<rparr>)"
  | (waiting) r where "\<not> frame_ready frame" "s' = invalidate_samples r s"
  using assms by (auto simp: accept_frame_def split: if_splits option.splits)

lemma accept_frame_session: "accept_frame clk frame s = Inr s' \<Longrightarrow> session s' = session s"
  by (erule accept_frame_cases) simp_all

lemma process_telemetry_cases:
  obtains (bad) r e where "header_of payload s = Inl e" "process_telemetry clk payload s = invalidate_samples r s"
  | (replay) frame boot sq where "header_of payload s = Inr (frame, boot, sq)" "replayed boot sq s"
      "process_telemetry clk payload s = s"
  | (full) frame boot sq where "header_of payload s = Inr (frame, boot, sq)" "\<not> replayed boot sq s"
      "new_session boot s" "history_full s" "process_telemetry clk payload s = refuse_session s"
  | (rejected) frame boot sq r where "header_of payload s = Inr (frame, boot, sq)" "\<not> replayed boot sq s"
      "\<not> (new_session boot s \<and> history_full s)"
      "process_telemetry clk payload s = invalidate_samples r (admit boot sq s)"
  | (accepted) frame boot sq s' where "header_of payload s = Inr (frame, boot, sq)" "\<not> replayed boot sq s"
      "\<not> (new_session boot s \<and> history_full s)" "accept_frame clk frame (admit boot sq s) = Inr s'"
      "process_telemetry clk payload s = s'"
proof (cases "header_of payload s")
  case (Inl e)
  then show thesis using bad reject_eq [of e s] by (auto simp: process_telemetry_def)
next
  case (Inr h)
  obtain frame boot sq where h: "header_of payload s = Inr (frame, boot, sq)" using Inr by (cases h) auto
  show thesis
  proof (cases "replayed boot sq s \<or> new_session boot s \<and> history_full s")
    case True
    then show thesis using h replay full by (auto simp: process_telemetry_def)
  next
    case False
    show thesis
    proof (cases "accept_frame clk frame (admit boot sq s)")
      case (Inl e)
      then show thesis using False h rejected reject_eq [of e "admit boot sq s"] by (auto simp: process_telemetry_def)
    next
      case (Inr s')
      then show thesis using False h accepted by (auto simp: process_telemetry_def)
    qed
  qed
qed

section \<open>Handlers keep the invariant\<close>

lemma admit_fields [simp]:
  "cl_topology (admit b q s) = cl_topology s" "battery_count (admit b q s) = battery_count s"
  "cells_per_bms (admit b q s) = cells_per_bms s" "batteries (admit b q s) = batteries s"
  "has_full_snapshot (admit b q s) = has_full_snapshot s" "telemetry_source (admit b q s) = telemetry_source s"
  "bms_first (admit b q s) = bms_first s" "boot_id (admit b q s) = Some b" "sequence (admit b q s) = q"
  by (auto simp: admit_def Let_def split: option.splits)

lemma admit_retired:
  "retired_boot_ids (admit b q s) =
     (case boot_id s of Some old \<Rightarrow> if old \<noteq> b then List.insert old (retired_boot_ids s) else retired_boot_ids s
      | None \<Rightarrow> retired_boot_ids s)"
  by (simp add: admit_def Let_def split: option.splits)

lemma admit_totals:
  "total_voltage (admit b q s) = total_voltage s" "total_current (admit b q s) = total_current s"
  "total_power (admit b q s) = total_power s" "total_soc (admit b q s) = total_soc s"
  "total_capacity (admit b q s) = total_capacity s" "boot_ready (admit b q s) \<longrightarrow> boot_ready s"
  by (auto simp: admit_def Let_def split: option.splits)

lemma admit_advances: "advances s (admit b q s)"
  by (auto simp: advances_def same_config_def admit_def Let_def split: option.splits)

lemma admit_sessions_wf:
  assumes "sessions_wf (boot_id s) (retired_boot_ids s)" "\<not> replayed b q s" "\<not> (new_session b s \<and> history_full s)"
  shows "sessions_wf (Some b) (retired_boot_ids (admit b q s))"
  using assms by (auto simp: sessions_wf_def replayed_def new_session_def history_full_def admit_retired
      split: option.splits)

lemma admit_wf:
  assumes "client_wf s" "\<not> replayed b q s" "\<not> (new_session b s \<and> history_full s)"
  shows "client_wf (admit b q s)"
  using assms admit_sessions_wf [OF _ assms(2,3)] admit_totals [of b q s]
  by (auto simp: client_wf_def evidence_wf_def)

lemma install_wf:
  assumes "client_wf s" "slots_wf (cl_topology s) (battery_count s) (cells_per_bms s) bats"
    and "\<And>i b. map_of bats i = Some b \<Longrightarrow> sample_times b \<noteq> []"
    and "boot_ready s \<longrightarrow> has_full_snapshot s"
  shows "client_wf (install_batteries r bats s)"
    "client_wf (install_batteries r bats (s\<lparr>has_full_snapshot := True, boot_ready := True, telemetry_partial := p\<rparr>))"
    "client_wf (install_batteries r bats (s\<lparr>telemetry_partial := p\<rparr>))"
  using assms by (auto simp: client_wf_def evidence_wf_def install_batteries_def)

lemma accept_frame_wf:
  assumes "accept_frame clk frame s = Inr s'" "client_wf s" "tick clk"
  shows "client_wf s'"
  using assms(1)
proof (cases rule: accept_frame_cases)
  case (strict topo bats)
  have count: "battery_count s = member_count topo" using assms(2) strict(2) by (simp add: client_wf_def count_wf_def)
  have wf: "battery_wf b" "sample_times b \<noteq> []" "battery_id b = i" "cell_count b = slot_cells (cl_topology s) (cells_per_bms s) i"
    if "map_of bats i = Some b" for i b
    using decode_ready_wf [OF strict(3,1) tick_clock [OF assms(3)] tick_minus_age [OF assms(3)] that]
      decode_ready(2) [OF strict(3,1) that] strict(2) by (auto simp: member_decoded_def slot_cells_def)
  have "slots_wf (cl_topology s) (battery_count s) (cells_per_bms s) bats"
    using wf decode_ready(1) [OF strict(3,1)] count by (simp add: slots_wf_def)
  then show ?thesis unfolding strict(4)
    using assms(2) wf(2) by (intro install_wf) (auto simp: client_wf_def evidence_wf_def)
next
  case (complete bats)
  have wf: "battery_wf b" "sample_times b \<noteq> []" "battery_id b = i" "cell_count b = slot_cells (cl_topology s) (cells_per_bms s) i"
    if "map_of bats i = Some b" for i b
    using decode_batteries_wf [OF complete(3,1) tick_clock [OF assms(3)] tick_minus_age [OF assms(3)] that]
      decode_batteries_complete(2) [OF complete(3,1) that] complete(2) by (auto simp: slot_cells_def)
  have "slots_wf (cl_topology s) (battery_count s) (cells_per_bms s) bats"
    using wf decode_batteries_complete(1) [OF complete(3,1)] by (simp add: slots_wf_def)
  then show ?thesis unfolding complete(4)
    using assms(2) wf(2) by (intro install_wf) (auto simp: client_wf_def evidence_wf_def)
next
  case (partial bats)
  have old: "slots_wf (cl_topology s) (battery_count s) (cells_per_bms s) (batteries s)"
    "\<And>i b. map_of (batteries s) i = Some b \<Longrightarrow> sample_times b \<noteq> []"
    using assms(2) partial(3) by (auto simp: client_wf_def evidence_wf_def)
  have d: "distinct (dict_keys (batteries s))" using old(1) by (simp add: slots_wf_def)
  have new: "battery_wf b' \<and> sample_times b' \<noteq> [] \<and> battery_id b' = i
      \<and> cell_count b' = slot_cells (cl_topology s) (cells_per_bms s) i" if m: "map_of bats i = Some b'" for i b'
  proof -
    obtain row b where b: "map_of (batteries s) i = Some b" "merge_battery clk row clk (boot_ready s) b = Inr b'"
      using merge_partial_slots(2) [OF partial(4) d m] by blast
    have wf: "battery_wf b" using old(1) b(1) by (simp add: slots_wf_def)
    show ?thesis
      using merge_battery_wf [OF b(2) wf tick_clock [OF assms(3)] tick_minus_age [OF assms(3)]]
        merge_battery_no_grant [OF b(2)] old b(1) by (auto simp: slots_wf_def no_new_grant_def)
  qed
  have "slots_wf (cl_topology s) (battery_count s) (cells_per_bms s) bats"
    using new old(1) merge_partial_slots(1) [OF partial(4) d] by (simp add: slots_wf_def)
  then show ?thesis unfolding partial(5)
    using assms(2) new by (intro install_wf) (auto simp: client_wf_def evidence_wf_def)
next
  case (waiting r)
  then show ?thesis using assms(2) by (simp add: invalidate_wf)
qed

lemma accept_frame_advances: "accept_frame clk frame s = Inr s' \<Longrightarrow> advances s s'"
  by (erule accept_frame_cases) (auto simp: advances_def same_config_def install_batteries_def invalidate_samples_def)

lemma refuse_session_ok: "client_wf s \<Longrightarrow> client_wf (refuse_session s)" "advances s (refuse_session s)"
proof -
  assume "client_wf s"
  moreover from this have "client_wf (s\<lparr>telemetry_error := history_reason, telemetry_partial := True\<rparr>)"
    by (simp add: client_wf_def)
  ultimately show "client_wf (refuse_session s)" by (simp add: refuse_session_def invalidate_wf)
qed (auto simp: refuse_session_def advances_def same_config_def invalidate_samples_def)

lemma process_telemetry_ok:
  assumes "client_wf s" "tick clk"
  shows "client_wf (process_telemetry clk payload s)" "advances s (process_telemetry clk payload s)"
proof -
  have "client_wf (process_telemetry clk payload s) \<and> advances s (process_telemetry clk payload s)"
  proof (cases rule: process_telemetry_cases [of payload s clk])
    case (accepted frame boot sq s')
    then show ?thesis
      using assms admit_wf accept_frame_wf accept_frame_advances admit_advances advances_trans by metis
  next
    case (rejected frame boot sq r)
    then show ?thesis
      using assms admit_wf invalidate_wf admit_advances invalidate_advances advances_trans by metis
  qed (use assms invalidate_wf refuse_session_ok in auto)
  then show "client_wf (process_telemetry clk payload s)" "advances s (process_telemetry clk payload s)" by auto
qed

lemma dict_set_nonempty [simp]: "dict_set k v al \<noteq> []"
  by (cases al) auto

lemma update_samples_nonempty: "sample_times b \<noteq> [] \<Longrightarrow> sample_times (update clk k v b) \<noteq> []"
  by (cases rule: update_cases [where k = k and clk = clk and v = v and b = b])
    (auto simp: expire_sample_def dest!: store_numeric_frame)

lemma update_battery_ok:
  assumes "update_battery clk slot key payload s = Inr s'" "client_wf s" "tick clk"
  shows "client_wf s'" "advances s s'" "session s' = session s"
proof -
  obtain b where b: "map_of (batteries s) slot = Some b"
    "s' = s\<lparr>batteries := dict_set slot (update clk key (UStr payload) b) (batteries s)\<rparr>"
    using assms(1) by (auto simp: update_battery_def split: option.splits)
  have k: "dict_keys (dict_set slot x (batteries s)) = dict_keys (batteries s)" for x
    using b(1) by (simp add: dict_keys_def update_keys dom_map_of_conv_image_fst [symmetric] domI)
  show "advances s s'" "session s' = session s" using b(2) by (simp_all add: advances_def same_config_def session_def)
  have "slots_wf (cl_topology s) (battery_count s) (cells_per_bms s) (dict_set slot (update clk key (UStr payload) b) (batteries s))"
    using assms(2) b(1) k update_wf [OF _ tick_clock [OF assms(3)]] by (auto simp: client_wf_def slots_wf_def)
  then show "client_wf s'" using assms(2) b update_samples_nonempty
    by (auto simp: client_wf_def evidence_wf_def)
qed

lemma set_total_fields [simp]:
  "cl_topology (set_total n v s) = cl_topology s" "battery_count (set_total n v s) = battery_count s"
  "cells_per_bms (set_total n v s) = cells_per_bms s" "batteries (set_total n v s) = batteries s"
  "boot_id (set_total n v s) = boot_id s" "sequence (set_total n v s) = sequence s"
  "retired_boot_ids (set_total n v s) = retired_boot_ids s" "boot_ready (set_total n v s) = boot_ready s"
  "has_full_snapshot (set_total n v s) = has_full_snapshot s" "telemetry_source (set_total n v s) = telemetry_source s"
  by (simp_all add: set_total_def)

lemma update_total_ok:
  assumes "client_wf s"
  shows "client_wf (update_total clk n p s)" "advances s (update_total clk n p s)" "session (update_total clk n p s) = session s"
proof -
  show "client_wf (update_total clk n p s)" using assms
    by (simp add: update_total_def client_wf_def split: option.splits)
      (simp add: set_total_def)
  show "advances s (update_total clk n p s)" "session (update_total clk n p s) = session s"
    by (simp_all add: update_total_def advances_def same_config_def session_def split: option.splits)
      (simp add: set_total_def)
qed

lemma process_legacy_ok:
  assumes "process_legacy_topic clk topic payload s = Inr s'" "client_wf s" "tick clk"
  shows "client_wf s'" "advances s s'" "session s' = session s"
proof -
  have "s' = s \<or> (\<exists>n. s' = update_total clk n payload s) \<or> (\<exists>slot key. update_battery clk slot key payload s = Inr s')"
    using assms(1) by (auto simp: process_legacy_topic_def Let_def split: if_splits list.splits option.splits)
  then show "client_wf s'" "advances s s'" "session s' = session s"
    using assms(2,3) update_total_ok update_battery_ok by auto
qed

lemma producer_offline_ok:
  "client_wf s \<Longrightarrow> client_wf (producer_offline s)" "advances s (producer_offline s)" "session (producer_offline s) = session s"
proof -
  assume "client_wf s"
  then show "client_wf (producer_offline s)"
    using flags_wf(3) [of s] flags_wf(4) [of "s\<lparr>boot_ready := False\<rparr>"]
    by (simp add: producer_offline_def Let_def invalidate_wf)
qed (auto simp: producer_offline_def Let_def advances_def same_config_def session_def invalidate_samples_def)

lemma on_disconnect_ok:
  "client_wf s \<Longrightarrow> client_wf (on_disconnect s)" "advances s (on_disconnect s)" "session (on_disconnect s) = session s"
proof -
  assume "client_wf s"
  then have "client_wf (s\<lparr>connected := False, boot_ready := False\<rparr>)" by (simp add: client_wf_def evidence_wf_def)
  from this flags_wf(4) [OF this] show "client_wf (on_disconnect s)"
    by (simp add: on_disconnect_def Let_def invalidate_wf)
qed (auto simp: on_disconnect_def Let_def advances_def same_config_def session_def invalidate_samples_def)

lemma process_text_ok:
  assumes "client_wf s" "tick clk"
  shows "client_wf (process_text clk topic payload s)" "advances s (process_text clk topic payload s)"
proof -
  let ?a = "s\<lparr>telemetry_source := ''atomic''\<rparr>"
  have a: "client_wf ?a" "advances s ?a" using assms(1) flags_wf(5) by simp_all
  have "client_wf (process_text clk topic payload s) \<and> advances s (process_text clk topic payload s)"
    using process_telemetry_ok(1) [OF a(1) assms(2)] advances_trans [OF a(2) process_telemetry_ok(2) [OF a(1) assms(2)]]
      producer_offline_ok(1,2) process_legacy_ok(1,2) [OF _ assms] assms(1)
    by (auto simp: process_text_def split: sum.split)
  then show "client_wf (process_text clk topic payload s)" "advances s (process_text clk topic payload s)" by auto
qed

lemma on_message_ok:
  assumes "client_wf s" "tick clk"
  shows "client_wf (on_message clk wall retain topic payload s)" "advances s (on_message clk wall retain topic payload s)"
proof -
  let ?m = "s\<lparr>last_message_time := wall\<rparr>"
  have m: "client_wf ?m" "advances s ?m" using assms(1) flags_wf(2) by simp_all
  have u: "client_wf (invalidate_samples r (?m\<lparr>telemetry_source := ''atomic''\<rparr>))"
    "advances s (invalidate_samples r (?m\<lparr>telemetry_source := ''atomic''\<rparr>))" for r
    using invalidate_wf [OF flags_wf(5) [OF m(1)]]
    by (simp_all add: advances_def same_config_def invalidate_samples_def)
  show "client_wf (on_message clk wall retain topic payload s)"
    using assms m u process_text_ok(1) [OF m(1) assms(2)] by (simp add: on_message_def process_message_def Let_def)
  show "advances s (on_message clk wall retain topic payload s)"
    using u(2) advances_trans [OF m(2) process_text_ok(2) [OF m(1) assms(2)]] m(2)
    by (simp add: on_message_def process_message_def Let_def)
qed

lemma poll_cases: "snd (get_aggregate_data clk s) = s \<or> (\<exists>r. snd (get_aggregate_data clk s) = invalidate_samples r s)"
  by (auto simp: get_aggregate_data_def Let_def split: sum.splits)

lemma client_step_ok:
  assumes "client_wf s" "event_ok e"
  shows "client_wf (client_step e s)" "advances s (client_step e s)"
proof -
  have "client_wf (client_step e s) \<and> advances s (client_step e s)"
  proof (cases e)
    case (Connect rc)
    then show ?thesis using assms(1) flags_wf(1) by (simp add: on_connect_def)
  next
    case Disconnect
    then show ?thesis using assms(1) on_disconnect_ok by simp
  next
    case (Message clk wall retain topic payload)
    then show ?thesis using assms on_message_ok by simp
  next
    case (Poll clk)
    then show ?thesis using assms(1) poll_cases [of clk s] invalidate_wf by auto
  qed
  then show "client_wf (client_step e s)" "advances s (client_step e s)" by auto
qed

interpretation client: monotone_system client_step event_ok client_wf advances
  by unfold_locales (auto simp: client_step_ok intro: advances_trans)

end
