(* ===== verification/MqttProps.thy ===== *)
theory MqttProps
  imports MqttSafety TelemetryProps
begin

text \<open>
  The contract of the client: which frames it admits and in which order, what a lost connection
  leaves behind, and what the published aggregate grants.
\<close>

section \<open>Admission of producer sessions\<close>

definition frame_admitted :: "string \<Rightarrow> mqtt_client \<Rightarrow> (string \<times> int) option" where
  "frame_admitted payload s = (case header_of payload s of
     Inl e \<Rightarrow> None
   | Inr (frame, boot, sq) \<Rightarrow>
       if replayed boot sq s \<or> new_session boot s \<and> history_full s then None else Some (boot, sq))"

text \<open>The session and sequence number of the frame that a handler call admits, if it does.\<close>

fun admitted :: "client_event \<Rightarrow> mqtt_client \<Rightarrow> (string \<times> int) option" where
  "admitted (Message clk wall retain topic payload) s =
     (if retain \<or> \<not> utf8_valid payload \<or> topic \<noteq> telemetry_topic s then None
      else frame_admitted (py_strip payload) s)"
| "admitted _ s = None"

fun admissions :: "client_event list \<Rightarrow> mqtt_client \<Rightarrow> (string \<times> int) list" where
  "admissions [] s = []"
| "admissions (e # es) s = (case admitted e s of None \<Rightarrow> [] | Some p \<Rightarrow> [p]) @ admissions es (client_step e s)"

lemma header_of_flags [simp]:
  "header_of p (s\<lparr>last_message_time := w\<rparr>) = header_of p s" "header_of p (s\<lparr>telemetry_source := x\<rparr>) = header_of p s"
  by (simp_all add: header_of_def)

lemma session_reads:
  assumes "session s = session t"
  shows "replayed b q s = replayed b q t" "new_session b s = new_session b t" "history_full s = history_full t"
    "session (admit b q s) = session (admit b q t)"
  using assms by (simp_all add: session_def replayed_def new_session_def history_full_def admit_retired split: option.split)

lemma process_telemetry_session:
  "session (process_telemetry clk payload s) =
     (case frame_admitted payload s of None \<Rightarrow> session s | Some (b, q) \<Rightarrow> session (admit b q s))"
proof (cases rule: process_telemetry_cases [of payload s clk])
  case (full frame boot sq)
  then have "session (refuse_session s) = session s"
    by (simp add: refuse_session_def) (simp add: session_def)
  with full show ?thesis by (simp add: frame_admitted_def)
next
  case (accepted frame boot sq s')
  then have "session (process_telemetry clk payload s) = session (admit boot sq s)"
    using accept_frame_session by simp
  with accepted(1-3) show ?thesis by (auto simp: frame_admitted_def)
qed (auto simp: frame_admitted_def)

lemma step_session:
  "session (client_step e s) = (case admitted e s of None \<Rightarrow> session s | Some (b, q) \<Rightarrow> session (admit b q s))"
proof (cases e)
  case (Connect rc)
  then show ?thesis by (simp add: on_connect_def)
next
  case Disconnect
  then show ?thesis using on_disconnect_ok(3) by simp
next
  case (Poll clk)
  then show ?thesis using poll_cases [of clk s] by auto
next
  case (Message clk wall retain topic payload)
  let ?m = "s\<lparr>last_message_time := wall\<rparr>" and ?text = "py_strip payload"
  have sess: "session ?m = session s" "telemetry_topic ?m = telemetry_topic s" "cl_prefix ?m = cl_prefix s"
    by (simp_all add: telemetry_topic_def)
  have adm: "frame_admitted ?text (?m\<lparr>telemetry_source := x\<rparr>) = frame_admitted ?text s" for x
    using session_reads [of "?m\<lparr>telemetry_source := x\<rparr>" s] by (simp add: frame_admitted_def split: sum.split prod.split)
  have legacy: "process_legacy_topic clk topic ?text ?m = Inr s' \<Longrightarrow> session s' = session s" for s'
  proof -
    assume "process_legacy_topic clk topic ?text ?m = Inr s'"
    then have "s' = ?m \<or> (\<exists>n. s' = update_total clk n ?text ?m) \<or> (\<exists>slot key. update_battery clk slot key ?text ?m = Inr s')"
      by (auto simp: process_legacy_topic_def Let_def split: if_splits list.splits option.splits)
    then show ?thesis
      by (auto simp: update_total_def update_battery_def session_def split: option.splits)
  qed
  have atomic: "session (admit b q (?m\<lparr>telemetry_source := ''atomic''\<rparr>)) = session (admit b q s)" for b q
    by (rule session_reads) simp
  have "session (process_text clk topic ?text ?m) =
      (if topic \<noteq> telemetry_topic s then session s
       else case frame_admitted ?text s of None \<Rightarrow> session s | Some (b, q) \<Rightarrow> session (admit b q s))"
    using legacy atomic
    by (auto simp: process_text_def sess adm process_telemetry_session producer_offline_ok(3) split: sum.split option.split)
  then show ?thesis using Message sess
    by (auto simp: on_message_def process_message_def Let_def split: option.split)
qed

text \<open>What a state remembers of the frames admitted so far.\<close>

definition remembered :: "mqtt_client \<Rightarrow> string \<times> int \<Rightarrow> bool" where
  "remembered s p \<longleftrightarrow> fst p \<in> set (retired_boot_ids s) \<or> (boot_id s = Some (fst p) \<and> snd p \<le> sequence s)"

definition precedes :: "string \<times> int \<Rightarrow> string \<times> int \<Rightarrow> bool" where
  "precedes p q \<longleftrightarrow> (fst p = fst q \<longrightarrow> snd p < snd q)"

lemma admitted_not_replayed: "admitted e s = Some p \<Longrightarrow> \<not> replayed (fst p) (snd p) s"
  by (cases e) (auto simp: frame_admitted_def split: if_splits sum.splits)

lemma remembered_admit:
  assumes "remembered s p" "\<not> replayed b q s"
  shows "remembered (admit b q s) p"
  using assms by (auto simp: remembered_def replayed_def admit_retired split: option.splits)

lemma remembered_session: "session s = session t \<Longrightarrow> remembered s p = remembered t p"
  by (simp add: remembered_def session_def)

lemma remembered_step:
  assumes "remembered s p"
  shows "remembered (client_step e s) p"
proof (cases "admitted e s")
  case None
  then have "session (client_step e s) = session s" by (simp add: step_session)
  from remembered_session [OF this] assms show ?thesis by simp
next
  case (Some r)
  then have "session (client_step e s) = session (admit (fst r) (snd r) s)"
    by (simp add: step_session case_prod_unfold)
  from remembered_session [OF this] show ?thesis
    using remembered_admit [OF assms admitted_not_replayed [OF Some]] by simp
qed

lemma admitted_remembered:
  assumes "admitted e s = Some p"
  shows "remembered (client_step e s) p"
proof -
  have "session (client_step e s) = session (admit (fst p) (snd p) s)"
    using assms by (simp add: step_session case_prod_unfold)
  from remembered_session [OF this] show ?thesis by (simp add: remembered_def)
qed

lemma remembered_precedes:
  "remembered s p \<Longrightarrow> q \<in> set (admissions es s) \<Longrightarrow> precedes p q"
proof (induction es arbitrary: s)
  case (Cons e es)
  from Cons.prems(2) consider "admitted e s = Some q" | "q \<in> set (admissions es (client_step e s))"
    by (auto split: option.splits)
  then show ?case
  proof cases
    case 1
    then show ?thesis using admitted_not_replayed [OF 1] Cons.prems(1)
      by (auto simp: remembered_def replayed_def precedes_def)
  next
    case 2
    then show ?thesis using Cons.IH remembered_step [OF Cons.prems(1)] by blast
  qed
qed simp

lemma admissions_ordered: "sorted_wrt precedes (admissions es s)"
proof (induction es arbitrary: s)
  case (Cons e es)
  show ?case
  proof (cases "admitted e s")
    case None
    then show ?thesis using Cons.IH by simp
  next
    case (Some p)
    then show ?thesis using Cons.IH remembered_precedes [OF admitted_remembered [OF Some]] by simp
  qed
qed simp

text \<open>C6: Whatever messages arrive, in whatever order and however often repeated, with connections lost in
  between: frames of one producer session are admitted in strictly increasing order of their
  sequence numbers, so no frame is admitted twice.\<close>

theorem frames_admitted_once:
  "sorted_wrt precedes (admissions es s) \<and> distinct (admissions es s)"
proof -
  have "sorted_wrt precedes xs \<Longrightarrow> distinct xs" for xs
    by (induction xs) (auto simp: precedes_def)
  then show ?thesis using admissions_ordered by blast
qed

section \<open>Evidence after a lost connection\<close>

text \<open>What a live session owes the client: the frame is none of those admitted so far (its session is not retired, and
  its number is above the last one of the current session), and a change of session finds room in the bounded history of
  4096 retired sessions.  It is stated over the remembered sessions, not through the guards of the handler.\<close>

definition live_frame :: "mqtt_client \<Rightarrow> string \<times> int \<Rightarrow> bool" where
  "live_frame s p \<longleftrightarrow> \<not> remembered s p
     \<and> (boot_id s = None \<or> boot_id s = Some (fst p) \<or> length (retired_boot_ids s) < 4096)"

lemma live_frame_guards: "live_frame s (boot, sq) \<longleftrightarrow> \<not> replayed boot sq s \<and> \<not> (new_session boot s \<and> history_full s)"
  by (auto simp: live_frame_def remembered_def replayed_def new_session_def history_full_def MAX_RETIRED_BOOT_IDS_def)

text \<open>A message that carries a ready frame of a live session.  A replayed ready frame, one of a retired session and one
  refused for a full history are none: they are among the messages that must not extend the evidence.\<close>

fun ready_event :: "client_event \<Rightarrow> mqtt_client \<Rightarrow> bool" where
  "ready_event (Message clk wall retain topic payload) s =
     (case header_of (py_strip payload) s of Inl e \<Rightarrow> False
      | Inr (frame, boot, sq) \<Rightarrow>
          \<not> retain \<and> utf8_valid payload \<and> topic = telemetry_topic s \<and> frame_ready frame \<and> live_frame s (boot, sq))"
| "ready_event _ s = False"

fun never_ready :: "client_event list \<Rightarrow> mqtt_client \<Rightarrow> bool" where
  "never_ready [] s = True"
| "never_ready (e # es) s = (\<not> ready_event e s \<and> never_ready es (client_step e s))"

text \<open>No battery holds evidence whose oldest sample is newer than \<open>limit\<close>, and no merge may refresh it.\<close>

definition ageing :: "pyfloat \<Rightarrow> mqtt_client \<Rightarrow> bool" where
  "ageing limit s \<longleftrightarrow> telemetry_source s = ''atomic'' \<and> \<not> boot_ready s
     \<and> (\<forall>i b. map_of (batteries s) i = Some b \<longrightarrow>
          sample_times b = [] \<or> has_full_snapshot s \<and> (\<exists>m. oldest_sample_time b = Some m \<and> fle m limit))"

lemma ageing_flags [simp]:
  "ageing l (s\<lparr>connected := x\<rparr>) = ageing l s" "ageing l (s\<lparr>last_message_time := w\<rparr>) = ageing l s"
  "ageing l (s\<lparr>telemetry_partial := p, telemetry_error := r\<rparr>) = ageing l s"
  by (simp_all add: ageing_def)

lemma ageing_invalidated:
  assumes "telemetry_source s = ''atomic''"
  shows "ageing l (invalidate_samples r s)"
proof -
  have "sample_times b = []" if "map_of (empty_batteries s) i = Some b" for i b
    using that by (auto simp: empty_batteries_def map_of_empty_slots split: option.splits if_splits dest: map_of_configured_slots)
  then show ?thesis using assms by (simp add: ageing_def)
qed

lemma ageing_invalidate: "ageing l s \<Longrightarrow> ageing l (invalidate_samples r s)"
  by (rule ageing_invalidated) (simp add: ageing_def)

lemma ageing_unready: "ageing l s \<Longrightarrow> ageing l (s\<lparr>boot_ready := False\<rparr>)"
  by (simp add: ageing_def)

lemma ageing_offline: "ageing l s \<Longrightarrow> ageing l (producer_offline s)"
  using ageing_invalidate ageing_unready by (auto simp: producer_offline_def Let_def)

lemma ageing_merge:
  assumes "ageing l s" "client_wf s" "tick clk" "merge_partial clk frame (batteries s) first clk False = Inr bats"
    and "has_full_snapshot s" "map_of bats i = Some b'"
  shows "\<exists>m. oldest_sample_time b' = Some m \<and> fle m l"
proof -
  have d: "distinct (dict_keys (batteries s))" using assms(2) by (simp add: client_wf_def slots_wf_def)
  obtain row b where b: "map_of (batteries s) i = Some b" "merge_battery clk row clk False b = Inr b'"
    using merge_partial_slots(2) [OF assms(4) d assms(6)] by blast
  have wf: "battery_wf b" "sample_times b \<noteq> []"
    using assms(2,5) b(1) by (auto simp: client_wf_def slots_wf_def evidence_wf_def)
  then obtain m where m: "oldest_sample_time b = Some m" "fle m l" using assms(1) b(1) by (auto simp: ageing_def)
  have "held m b b'"
    using merge_battery_held [OF b(2) wf(1) tick_clock [OF assms(3)] m(1) tick_minus_age [OF assms(3)]] .
  then show ?thesis using m(2) fle_trans by (auto simp: held_def)
qed

lemma ageing_admit: "ageing l s \<Longrightarrow> ageing l (admit b q s)"
  using admit_totals(6) [of b q s] by (auto simp: ageing_def)

lemma ageing_telemetry:
  assumes "ageing l s" "client_wf s" "tick clk"
    and "\<And>frame boot sq. header_of payload s = Inr (frame, boot, sq) \<Longrightarrow> live_frame s (boot, sq) \<Longrightarrow> \<not> frame_ready frame"
  shows "ageing l (process_telemetry clk payload s)"
proof (cases rule: process_telemetry_cases [of payload s clk])
  case (bad r e)
  then show ?thesis using ageing_invalidate [OF assms(1)] by simp
next
  case (replay frame boot sq)
  then show ?thesis using assms(1) by simp
next
  case (full frame boot sq)
  have "ageing l (s\<lparr>telemetry_error := history_reason, telemetry_partial := True\<rparr>)" using assms(1) by (simp add: ageing_def)
  then show ?thesis using full(5) ageing_invalidate [OF assms(1)] by (simp add: refuse_session_def)
next
  case (rejected frame boot sq r)
  then show ?thesis using ageing_invalidate [OF ageing_admit [OF assms(1)]] by simp
next
  case (accepted frame boot sq s')
  let ?a = "admit boot sq s"
  have a: "ageing l ?a" "client_wf ?a" using ageing_admit admit_wf accepted(2,3) assms(1,2) by blast+
  have nr: "\<not> frame_ready frame" using assms(4) [OF accepted(1)] accepted(2,3) by (auto simp: live_frame_guards)
  from accepted(4) have "ageing l s'"
  proof (cases rule: accept_frame_cases)
    case (partial bats)
    have "\<not> boot_ready ?a" using a(1) by (simp add: ageing_def)
    then have "\<exists>m. oldest_sample_time b' = Some m \<and> fle m l" if "map_of bats i = Some b'" for i b'
      using ageing_merge [OF a assms(3) _ partial(3) that] partial(4) by simp
    then show ?thesis using a(1) partial(3,5) by (simp add: ageing_def install_batteries_def)
  next
    case (waiting r)
    then show ?thesis using ageing_invalidate [OF a(1)] by simp
  qed (use nr in simp_all)
  with accepted(5) show ?thesis by simp
qed

lemma ageing_step:
  assumes "ageing l s" "client_wf s" "event_ok e" "\<not> ready_event e s"
  shows "ageing l (client_step e s)"
proof (cases e)
  case (Connect rc)
  then show ?thesis using assms(1) by (simp add: on_connect_def)
next
  case Disconnect
  have src: "telemetry_source s = ''atomic''" using assms(1) by (simp add: ageing_def)
  have "ageing l (invalidate_samples r (s\<lparr>connected := False, boot_ready := False\<rparr>))" for r
    by (rule ageing_invalidated) (simp add: src)
  moreover have "ageing l (s\<lparr>connected := False, boot_ready := False\<rparr>)" using assms(1) by (simp add: ageing_def)
  ultimately show ?thesis using Disconnect by (simp add: on_disconnect_def Let_def)
next
  case (Poll clk)
  then show ?thesis using assms(1) poll_cases [of clk s] ageing_invalidate by auto
next
  case (Message clk wall retain topic payload)
  let ?m = "s\<lparr>last_message_time := wall\<rparr>" and ?t = "py_strip payload"
  have src: "telemetry_source s = ''atomic''" using assms(1) by (simp add: ageing_def)
  let ?a = "s\<lparr>last_message_time := wall, telemetry_source := ''atomic''\<rparr>"
  have m: "ageing l ?m" "client_wf ?m" "ageing l ?a" "client_wf ?a"
    using assms(1) flags_wf(2) [OF assms(2)] flags_wf(5) [OF flags_wf(2) [OF assms(2)]] by (simp_all add: ageing_def)
  have live: "live_frame ?a x = live_frame s x" for x by (simp add: live_frame_def remembered_def)
  have tele: "ageing l (process_telemetry clk ?t ?a)" if "topic = telemetry_topic s" "\<not> retain" "utf8_valid payload"
    using that Message assms(3,4) m(3,4) by (intro ageing_telemetry) (auto simp: live)
  have topics: "telemetry_topic ?m = telemetry_topic s" "telemetry_topic ?a = telemetry_topic s"
    by (simp_all add: telemetry_topic_def)
  show ?thesis
  proof (cases "retain \<or> \<not> utf8_valid payload \<or> topic = telemetry_topic s")
    case True
    then show ?thesis using Message tele m(1) assms(1) topics ageing_invalidate [OF m(3)]
      by (auto simp: on_message_def process_message_def process_text_def Let_def)
  next
    case False
    then show ?thesis using Message m(1) topics src ageing_offline [OF m(1)]
      by (simp add: on_message_def process_message_def process_text_def Let_def)
  qed
qed

lemma ageing_run:
  "ageing l s \<Longrightarrow> client_wf s \<Longrightarrow> list_all event_ok es \<Longrightarrow> never_ready es s \<Longrightarrow> ageing l (run client_step es s)"
  by (induction es arbitrary: s) (simp_all add: ageing_step client_step_ok)

lemma ageing_invalid:
  assumes "ageing (Fin t) s" "client_wf s" "is_dbl c" "t + 60 \<le> c"
  shows "battery_snapshots (Fin c) s = []"
proof -
  have "\<not> is_valid (Fin c) b" if "b \<in> set (dict_vals (batteries s))" for b
  proof
    assume v: "is_valid (Fin c) b"
    have d: "distinct (dict_keys (batteries s))" using assms(2) by (simp add: client_wf_def slots_wf_def)
    then obtain i where i: "map_of (batteries s) i = Some b"
      using \<open>b \<in> set (dict_vals (batteries s))\<close> by (auto simp: dict_vals_def dict_keys_def)
    have wf: "battery_wf b" using assms(2) i by (auto simp: client_wf_def slots_wf_def)
    obtain m where m: "oldest_sample_time b = Some m" "fle m (Fin t)"
      using assms(1) i valid_sampled [OF v] by (auto simp: ageing_def)
    obtain k where "sample b k = Some m" using oldest_in [OF m(1)] wf by (auto simp: battery_wf_def)
    then have f: "fresh (Fin c) m" "m = NInf \<or> clock m"
      using valid_sample_fresh [OF v] wf by (auto simp: battery_wf_def dest: map_of_SomeD)
    then obtain x where x: "m = Fin x" "is_dbl x" by (auto simp: clock_iff)
    with fresh_bounds(2) [of c x] f(1) assms(3,4) m(2) show False by simp
  qed
  then have "filter (is_valid (Fin c)) (dict_vals (batteries s)) = []" by (simp add: filter_empty_conv)
  then show ?thesis unfolding battery_snapshots_def List.map_filter_def by (auto simp: filter_empty_conv)
qed

lemma ageing_disconnect:
  assumes "telemetry_source s = ''atomic''"
    "\<forall>i b m. map_of (batteries s) i = Some b \<and> oldest_sample_time b = Some m \<longrightarrow> fle m (Fin t)"
  shows "ageing (Fin t) (on_disconnect s)"
proof (cases "cl_topology s = None \<and> has_full_snapshot s")
  case True
  have "sample_times b = [] \<or> (\<exists>m. oldest_sample_time b = Some m \<and> fle m (Fin t))" if "map_of (batteries s) i = Some b" for i b
    using assms(2) that by (cases "oldest_sample_time b") (auto simp: oldest_sample_time_def dict_vals_def)
  then show ?thesis using True assms(1) by (simp add: on_disconnect_def Let_def) (simp add: ageing_def)
next
  case False
  have "ageing (Fin t) (invalidate_samples r (s\<lparr>connected := False, boot_ready := False\<rparr>))" for r
    by (rule ageing_invalidated) (simp add: assms(1))
  then show ?thesis using False assms(1) by (auto simp: on_disconnect_def Let_def)
qed


section \<open>The published aggregate\<close>

lemma map_filter_length:
  "length (List.map_filter f xs) \<le> length xs"
  "length (List.map_filter f xs) = length xs \<Longrightarrow> x \<in> set xs \<Longrightarrow> f x \<noteq> None"
  using length_filter_less [of x xs "\<lambda>x. f x \<noteq> None"] by (auto simp: List.map_filter_def)

lemma map_filter_in: "y \<in> set (List.map_filter f xs) \<longleftrightarrow> (\<exists>x \<in> set xs. f x = Some y)"
  by (force simp: List.map_filter_def)

lemma fmean_total: "xs \<noteq> [] \<Longrightarrow> \<exists>m. fmean xs = Inr m"
  by (cases "fsum xs") (simp_all add: fmean_def)

lemma get_aggregate_cases:
  obtains (none) "get_aggregate_data clk s = (Inr None, s)"
      "battery_snapshots clk s = [] \<or> (cl_topology s \<noteq> None \<and> int (length (battery_snapshots clk s)) \<noteq> battery_count s)"
  | (invalid) r e remaining where "cl_topology s \<noteq> None" "get_aggregate_data clk s = (Inr None, invalidate_samples r s)"
      "electrical_totals s (fresh_totals clk s) remaining (map fst (battery_snapshots clk s)) = Inl e"
  | (raised) e remaining where "battery_snapshots clk s \<noteq> []" "cl_topology s = None"
      "electrical_totals s (fresh_totals clk s) remaining (map fst (battery_snapshots clk s)) = Inl e"
      "get_aggregate_data clk s = (Inl e, s)"
  | (data) tot average remaining where "battery_snapshots clk s \<noteq> []"
      "cl_topology s \<noteq> None \<Longrightarrow> int (length (battery_snapshots clk s)) = battery_count s"
      "electrical_totals s (fresh_totals clk s) remaining (map fst (battery_snapshots clk s)) = Inr tot"
      "get_aggregate_data clk s = (Inr (Some (build_aggregate clk s (battery_snapshots clk s) tot average)), s)"
proof (cases "battery_snapshots clk s = [] \<or> (cl_topology s \<noteq> None \<and> int (length (battery_snapshots clk s)) \<noteq> battery_count s)")
  case True
  then show thesis using none by (auto simp: get_aggregate_data_def Let_def)
next
  case False
  let ?bs = "map fst (battery_snapshots clk s)"
  obtain average soc where m: "fmean (map snap_temperature ?bs) = Inr average" "fmean (map snap_soc ?bs) = Inr soc"
    using False fmean_total [of "map snap_temperature ?bs"] fmean_total [of "map snap_soc ?bs"] by auto
  obtain remaining where r: "fdiv (fmul (cl_capacity s) soc) (Fin 100) = Inr remaining"
    by (cases "fmul (cl_capacity s) soc") simp_all
  have get: "get_aggregate_data clk s = (case electrical_totals s (fresh_totals clk s) remaining ?bs of
      Inr tot \<Rightarrow> (Inr (Some (build_aggregate clk s (battery_snapshots clk s) tot average)), s)
    | Inl e \<Rightarrow> if cl_topology s = None then (Inl e, s)
        else (Inr None, invalidate_samples ''Invalid computed topology aggregate'' s))"
    unfolding get_aggregate_data_def Let_def using False m r by (simp only: and_then_simps sum.case prod.case if_False)
  show thesis
  proof (cases "electrical_totals s (fresh_totals clk s) remaining ?bs")
    case (Inl e)
    then show thesis using raised invalid get False by (cases "cl_topology s = None") simp_all
  next
    case (Inr tot)
    show thesis by (rule data [of remaining tot average]) (use Inr get False in auto)
  qed
qed

lemma poll_never_raises: "\<exists>r. fst (get_aggregate_data clk s) = Inr r"
proof (cases rule: get_aggregate_cases [of clk s])
  case (raised e remaining)
  let ?bs = "map fst (battery_snapshots clk s)"
  obtain m where "fmean (map snap_current ?bs) = Inr m"
    using fmean_total [of "map snap_current ?bs"] raised(1) by auto
  with raised(2,3) show ?thesis by (simp add: electrical_totals_def measured_totals_def Let_def)
qed simp_all

text \<open>A poll of the client never raises.\<close>

theorem poll_total: "\<exists>r. fst (get_aggregate_data clk s) = Inr r"
  by (rule poll_never_raises)

lemma published:
  assumes "client_wf s" "p \<in> set (battery_snapshots clk s)"
  obtains i b where "map_of (batteries s) i = Some b" "is_valid clk b" "snapshot b = Some p" "battery_wf b" "battery_id b = i"
proof -
  obtain b where b: "b \<in> set (dict_vals (batteries s))" "is_valid clk b" "snapshot b = Some p"
    using assms(2) by (auto simp: battery_snapshots_def map_filter_in split: if_splits)
  moreover obtain i where "map_of (batteries s) i = Some b"
    using b(1) assms(1) by (auto simp: dict_vals_def dict_keys_def client_wf_def slots_wf_def)
  ultimately show thesis using that assms(1) by (auto simp: client_wf_def slots_wf_def)
qed

lemma complete_published:
  assumes "client_wf s" "int (length (battery_snapshots clk s)) = battery_count s" "1 \<le> i" "i \<le> battery_count s"
  obtains b p where "map_of (batteries s) i = Some b" "is_valid clk b" "snapshot b = Some p" "p \<in> set (battery_snapshots clk s)"
proof -
  have k: "dict_keys (batteries s) = [1..battery_count s]" using assms(1) by (simp add: client_wf_def slots_wf_def)
  have "length (batteries s) = nat (battery_count s)" using arg_cong [OF k, of length] by (simp add: dict_keys_def)
  then have len: "int (length (dict_vals (batteries s))) = battery_count s" using assms(3,4) by (simp add: dict_vals_def)
  have "i \<in> set (dict_keys (batteries s))" using k assms(3,4) by simp
  then obtain b where b: "map_of (batteries s) i = Some b" by (auto simp: set_dict_keys)
  then have v: "b \<in> set (dict_vals (batteries s))" by (force simp: dict_vals_def dest!: map_of_SomeD)
  have "length (battery_snapshots clk s) = length (dict_vals (batteries s))" using assms(2) len by linarith
  from map_filter_length(2) [OF this [unfolded battery_snapshots_def] v]
  have "(if is_valid clk b then snapshot b else None) \<noteq> None" by simp
  then obtain p where p: "is_valid clk b" "snapshot b = Some p" by (auto split: if_splits)
  then have "p \<in> set (battery_snapshots clk s)"
    unfolding battery_snapshots_def map_filter_in by (intro bexI [OF _ v]) simp
  with b p show thesis by (rule that)
qed

lemma snapshot_fields:
  assumes "snapshot b = Some p"
  shows "snap_charging (fst p) \<longleftrightarrow> charging b = Some True" "snap_discharging (fst p) \<longleftrightarrow> discharging b = Some True"
    "snap_id (fst p) = battery_id b" "snap_cells (fst p) = cells b" "soc b = Some (snap_soc (fst p))"
    "snap_capacity (fst p) = capacity_remaining b" "oldest_sample_time b = Some (snd p)"
    "voltage b = Some (snap_voltage (fst p))" "current b = Some (snap_current (fst p))"
    "snap_online (fst p) \<longleftrightarrow> online b = Some True"
  using assms by (auto simp: snapshot_def split: option.splits)

lemma blocking_zero: "0 \<le> m \<Longrightarrow> m + count_of (\<lambda>b. \<not> g b) bs = 0 \<longleftrightarrow> m = 0 \<and> list_all g bs"
proof -
  assume "0 \<le> m"
  moreover have c: "0 \<le> count_of h bs" "count_of h bs = 0 \<longleftrightarrow> filter h bs = []" for h by (simp_all add: count_of_def)
  ultimately have "m + count_of (\<lambda>b. \<not> g b) bs = 0 \<longleftrightarrow> m = 0 \<and> count_of (\<lambda>b. \<not> g b) bs = 0"
    using c(1) [of "\<lambda>b. \<not> g b"] by linarith
  then show ?thesis by (simp add: c(2) list_all_iff filter_empty_conv)
qed

lemma aggregate_grants:
  assumes "client_wf s" "get_aggregate_data clk s = (Inr (Some a), s')"
  shows "(allow_charge a \<longrightarrow> (\<forall>i. 1 \<le> i \<and> i \<le> battery_count s \<longrightarrow>
      (\<exists>b. map_of (batteries s) i = Some b \<and> is_valid clk b \<and> charging b = Some True)))
    \<and> (allow_discharge a \<longrightarrow> (\<forall>i. 1 \<le> i \<and> i \<le> battery_count s \<longrightarrow>
      (\<exists>b. map_of (batteries s) i = Some b \<and> is_valid clk b \<and> discharging b = Some True)))
    \<and> modules_online a + modules_offline a = battery_count s
    \<and> (allow_charge a \<longleftrightarrow> blocking_charge a = 0) \<and> (allow_discharge a \<longleftrightarrow> blocking_discharge a = 0)"
proof -
  let ?snaps = "battery_snapshots clk s"
  obtain tot average where a: "a = build_aggregate clk s ?snaps tot average"
    using assms(2) by (cases rule: get_aggregate_cases [of clk s]) auto
  have "length ?snaps \<le> length (dict_vals (batteries s))" unfolding battery_snapshots_def by (rule map_filter_length)
  moreover have "dict_keys (batteries s) = [1..battery_count s]" using assms(1) by (simp add: client_wf_def slots_wf_def)
  from arg_cong [OF this, of length] have "length (dict_vals (batteries s)) = nat (battery_count s)"
    by (simp add: dict_keys_def dict_vals_def)
  moreover have "?snaps \<noteq> []" using assms(2) by (auto simp: get_aggregate_data_def)
  ultimately have le: "int (length ?snaps) \<le> battery_count s" by (cases ?snaps) auto
  have "snap_online (fst p)" if "p \<in> set ?snaps" for p
    using published [OF assms(1) that] snapshot_fields(10) is_valid_iff by metis
  then have on: "filter snap_online (map fst ?snaps) = map fst ?snaps" by (simp add: filter_id_conv)
  have grant: "\<exists>b. map_of (batteries s) i = Some b \<and> is_valid clk b \<and> (g = snap_charging \<longrightarrow> charging b = Some True)
      \<and> (g = snap_discharging \<longrightarrow> discharging b = Some True)"
    if c: "int (length ?snaps) = battery_count s" and g: "list_all g (map fst ?snaps)"
      and i: "1 \<le> i" "i \<le> battery_count s" for g i
  proof -
    obtain b p where b: "map_of (batteries s) i = Some b" "is_valid clk b" "snapshot b = Some p" "p \<in> set ?snaps"
      using complete_published [OF assms(1) c i] by blast
    moreover have "g (fst p)" using g b(4) by (auto simp: list_all_iff)
    ultimately show ?thesis using snapshot_fields(1,2) [OF b(3)] by auto
  qed
  let ?m = "battery_count s - int (length ?snaps)" and ?bs = "map fst ?snaps"
  have v: "allow_charge a \<longleftrightarrow> ?m = 0 \<and> list_all snap_charging ?bs" "allow_discharge a \<longleftrightarrow> ?m = 0 \<and> list_all snap_discharging ?bs"
    "blocking_charge a = ?m + count_of (\<lambda>b. \<not> snap_charging b) ?bs"
    "blocking_discharge a = ?m + count_of (\<lambda>b. \<not> snap_discharging b) ?bs"
    "modules_offline a = ?m" "modules_online a = count_of snap_online ?bs"
    by (simp_all add: a build_aggregate_def Let_def)
  have "modules_online a + modules_offline a = battery_count s"
    unfolding v count_of_def on by simp
  moreover have "allow_charge a \<longleftrightarrow> blocking_charge a = 0" "allow_discharge a \<longleftrightarrow> blocking_discharge a = 0"
    unfolding v using le by (simp_all only: blocking_zero diff_ge_0_iff_ge)
  moreover have "\<exists>b. map_of (batteries s) i = Some b \<and> is_valid clk b \<and> charging b = Some True"
    if "allow_charge a" "1 \<le> i" "i \<le> battery_count s" for i
    using grant [of snap_charging i] that unfolding v by auto
  moreover have "\<exists>b. map_of (batteries s) i = Some b \<and> is_valid clk b \<and> discharging b = Some True"
    if "allow_discharge a" "1 \<le> i" "i \<le> battery_count s" for i
    using grant [of snap_discharging i] that unfolding v by auto
  ultimately show ?thesis by blast
qed

text \<open>The aggregate grants charging only when every configured battery is valid and permits it, and
  discharging likewise; whatever is missing is counted as offline and as blocking.\<close>

theorem aggregate_permissions:
  assumes "client_wf s" "get_aggregate_data clk s = (Inr (Some a), s')"
  shows "(allow_charge a \<longrightarrow> (\<forall>i. 1 \<le> i \<and> i \<le> battery_count s \<longrightarrow>
      (\<exists>b. map_of (batteries s) i = Some b \<and> is_valid clk b \<and> charging b = Some True)))
    \<and> (allow_discharge a \<longrightarrow> (\<forall>i. 1 \<le> i \<and> i \<le> battery_count s \<longrightarrow>
      (\<exists>b. map_of (batteries s) i = Some b \<and> is_valid clk b \<and> discharging b = Some True)))
    \<and> modules_online a + modules_offline a = battery_count s
    \<and> (allow_charge a \<longleftrightarrow> blocking_charge a = 0) \<and> (allow_discharge a \<longleftrightarrow> blocking_discharge a = 0)"
  by (rule aggregate_grants [OF assms])

lemma aggregate_data:
  assumes "get_aggregate_data clk s = (Inr (Some a), s')"
  obtains tot average remaining where "a = build_aggregate clk s (battery_snapshots clk s) tot average" "s' = s"
    "battery_snapshots clk s \<noteq> []"
    "cl_topology s \<noteq> None \<Longrightarrow> int (length (battery_snapshots clk s)) = battery_count s"
    "electrical_totals s (fresh_totals clk s) remaining (map fst (battery_snapshots clk s)) = Inr tot"
proof (cases rule: get_aggregate_cases [of clk s])
  case (data tot average remaining)
  then show thesis using assms that [of tot average remaining] by simp
qed (use assms in simp_all)

lemma extremes_bounds:
  assumes "(k, v) \<in> set xs" "\<forall>p \<in> set xs. snd p \<noteq> NaN"
  obtains lo i hi j where "extremes xs = Some ((lo, i), (hi, j))" "(i, lo) \<in> set xs" "(j, hi) \<in> set xs"
    "fle lo v" "fle v hi"
proof -
  obtain p ps where xs: "xs = p # ps" using assms(1) by (cases xs) auto
  let ?lo = "min_by snd p ps" and ?hi = "max_by snd p ps"
  have "?lo \<in> set xs" "?hi \<in> set xs" using min_by_in [of snd p ps] max_by_in [of snd p ps] xs by auto
  moreover have "fle (snd ?lo) (snd (k, v))" "fle (snd (k, v)) (snd ?hi)"
    using min_by_le [where key = snd and y = "(k, v)"] max_by_ge [where key = snd and y = "(k, v)"] assms xs by blast+
  ultimately show thesis using that [of "snd ?lo" "fst ?lo" "snd ?hi" "fst ?hi"] xs by (simp add: extremes_def Let_def)
qed

text \<open>No cell escapes the published extremes: every positive reading of every published battery lies
  between the minimum and the maximum of the aggregate, which are readings of numbered cells.\<close>

theorem aggregate_covers_cells:
  assumes "client_wf s" "get_aggregate_data clk s = (Inr (Some a), s')" "p \<in> set (battery_snapshots clk s)"
    and "(c, v) \<in> set (snap_cells (fst p))" "flt (Fin 0) v"
  shows "\<exists>lo i hi j. agg_min_cell a = Some (lo, i) \<and> agg_max_cell a = Some (hi, j) \<and> fle lo v \<and> fle v hi
    \<and> (i, lo) \<in> set (all_cells a) \<and> (j, hi) \<in> set (all_cells a)"
proof -
  let ?bs = "map fst (battery_snapshots clk s)"
  obtain tot average where a: "a = build_aggregate clk s (battery_snapshots clk s) tot average"
    using aggregate_data [OF assms(2)] by metis
  then have cells: "all_cells a = concat (map (cell_voltages s) ?bs)"
    by (simp add: build_aggregate_def collect_sensors_def Let_def)
  have "(cell_base s (snap_id (fst p)) + c, v) \<in> set (all_cells a)"
    unfolding cells using assms(3-5) by (force simp: cell_voltages_def)
  moreover have "snd r \<noteq> NaN" if "r \<in> set (all_cells a)" for r
    using that flt_not_NaN unfolding cells by (auto simp: cell_voltages_def)
  ultimately obtain lo i hi j where "extremes (all_cells a) = Some ((lo, i), (hi, j))" "(i, lo) \<in> set (all_cells a)"
    "(j, hi) \<in> set (all_cells a)" "fle lo v" "fle v hi"
    by (rule_tac extremes_bounds) blast+
  then show ?thesis using cells by (simp add: a build_aggregate_def collect_sensors_def Let_def)
qed

lemma fmin_of_le: "x \<in> set xs \<Longrightarrow> NaN \<notin> set xs \<Longrightarrow> fle (fmin_of xs) x"
proof -
  assume x: "x \<in> set xs" "NaN \<notin> set xs"
  then obtain y ys where xs: "xs = y # ys" by (cases xs) auto
  have "fle (id (min_by id y ys)) (id x)" using x unfolding xs by (intro min_by_le) auto
  then show ?thesis by (simp add: xs fmin_of_def fmin_list_def)
qed

lemma published_finite:
  assumes "client_wf s" "p \<in> set (battery_snapshots clk s)"
  shows "snap_soc (fst p) \<noteq> NaN" "snap_capacity (fst p) \<noteq> Some NaN"
proof -
  obtain b where "snapshot b = Some p" "battery_wf b" using published [OF assms] by metis
  then have "finite_opt (Some (snap_soc (fst p)))" "finite_opt (snap_capacity (fst p))"
    using snapshot_fields(5,6) [of b p] by (auto simp: battery_wf_def)
  then show "snap_soc (fst p) \<noteq> NaN" "snap_capacity (fst p) \<noteq> Some NaN" by (auto simp: finite_opt_def)
qed

text \<open>An explicit series chain is served whole or not at all, and conservatively: the published state of
  charge and remaining capacity are at most those of every member, the capacity is within the
  installed capacity, and voltage, current, power and state of charge are finite.\<close>

theorem series_aggregate:
  assumes "client_wf s" "cl_topology s = Some topo" "get_aggregate_data clk s = (Inr (Some a), s')"
    and "1 \<le> i" "i \<le> member_count topo"
  shows "data_complete a \<and> (\<exists>b q. map_of (batteries s) i = Some b \<and> is_valid clk b \<and> soc b = Some q
      \<and> fle (tot_soc (agg_totals a)) q
      \<and> (\<forall>c. tot_capacity (agg_totals a) = Some c \<longrightarrow> (\<exists>r. capacity_remaining b = Some r \<and> fle c r)
          \<and> \<not> (flt (Fin 0) (cl_capacity s) \<and> flt (cl_capacity s) c)))
    \<and> list_all is_finite [tot_voltage (agg_totals a), tot_current (agg_totals a), tot_power (agg_totals a), tot_soc (agg_totals a)]"
proof -
  let ?snaps = "battery_snapshots clk s" and ?bs = "map fst (battery_snapshots clk s)"
  obtain tot average remaining where a: "a = build_aggregate clk s ?snaps tot average"
    "int (length ?snaps) = battery_count s" "electrical_totals s (fresh_totals clk s) remaining ?bs = Inr tot"
    using aggregate_data [OF assms(3)] assms(2) by (metis option.distinct(1))
  have tot: "agg_totals a = tot" "data_complete a" using a(1,2) by (simp_all add: build_aggregate_def Let_def)
  have t: "topology_totals s ?bs = Inr tot" using a(3) assms(2) by (simp add: electrical_totals_def)
  have i: "i \<le> battery_count s" using assms(1,2,5) by (simp add: client_wf_def count_wf_def)
  obtain b p where b: "map_of (batteries s) i = Some b" "is_valid clk b" "snapshot b = Some p" "p \<in> set ?snaps"
    using complete_published [OF assms(1) a(2) assms(4) i] by blast
  have p: "fst p \<in> set ?bs" "soc b = Some (snap_soc (fst p))" "capacity_remaining b = snap_capacity (fst p)"
    using b(4) snapshot_fields(5,6) [OF b(3)] by auto
  have v: "tot_soc tot = fmin_of (map snap_soc ?bs)" "tot_capacity tot = topology_capacity s ?bs"
    "list_all is_finite [tot_voltage tot, tot_current tot, tot_power tot, tot_soc tot]"
    using t by (auto simp: topology_totals_def Let_def split: if_splits)
  have "NaN \<notin> set (map snap_soc ?bs)" using published_finite(1) [OF assms(1)] by force
  then have q: "fle (tot_soc tot) (snap_soc (fst p))"
    unfolding v(1) using imageI [OF p(1), of snap_soc] by (intro fmin_of_le) (simp_all only: set_map not_False_eq_True)
  have c: "\<exists>r. snap_capacity (fst p) = Some r \<and> fle c r" "\<not> (flt (Fin 0) (cl_capacity s) \<and> flt (cl_capacity s) c)"
    if "tot_capacity tot = Some c" for c
  proof -
    have none: "None \<notin> set (map snap_capacity ?bs)" and c: "c = fmin_of (map the (map snap_capacity ?bs))"
      and lim: "\<not> (flt (Fin 0) (cl_capacity s) \<and> flt (cl_capacity s) c)"
      using that unfolding v(2) topology_capacity_def by (simp_all add: Let_def split: if_splits)
    obtain r where r: "snap_capacity (fst p) = Some r" using none p(1) by (cases "snap_capacity (fst p)") force+
    have "NaN \<notin> set (map the (map snap_capacity ?bs))"
    proof
      assume "NaN \<in> set (map the (map snap_capacity ?bs))"
      then obtain x where x: "x \<in> set ?snaps" "the (snap_capacity (fst x)) = NaN" by auto
      have "snap_capacity (fst x) \<noteq> None" using none x(1) by force
      then have "snap_capacity (fst x) = Some NaN" using x(2) by auto
      with published_finite(2) [OF assms(1) x(1)] show False by simp
    qed
    moreover have "r \<in> set (map the (map snap_capacity ?bs))" using r p(1) by force
    ultimately show "\<exists>r. snap_capacity (fst p) = Some r \<and> fle c r" using r fmin_of_le c by blast
    show "\<not> (flt (Fin 0) (cl_capacity s) \<and> flt (cl_capacity s) c)" by (rule lim)
  qed
  show ?thesis unfolding tot(1) using tot(2) b(1,2) p(2,3) q c v(3) by auto
qed

section \<open>The invariant, the protocol latch and failing closed\<close>

lemma new_client_wf:
  assumes "new_client a = Inr s"
  shows "client_wf s"
proof -
  obtain b address where b: "topology_args a = Inr b" "arg_mode b = ''atomic'' \<or> arg_mode b = ''legacy''"
    "s = (initial_client b address)\<lparr>batteries := empty_batteries (initial_client b address)\<rparr>"
    using assms by (auto simp: new_client_def split: if_splits)
  have "count_wf (arg_topology b) (arg_battery_count b)"
    using b(1) by (auto simp: topology_args_def count_wf_def split: option.splits list.splits if_splits)
  then have "slots_wf (arg_topology b) (arg_battery_count b) (arg_cells b) (empty_batteries (initial_client b address))"
    "count_wf (arg_topology b) (arg_battery_count b)"
    using empty_slots_wf [of "initial_client b address"] by (simp_all add: initial_client_def)
  then show ?thesis using b(2) unfolding b(3)
    by (simp add: client_wf_def sessions_wf_def evidence_wf_def) (simp add: initial_client_def)
qed

text \<open>C23: From construction on, whatever happens: one well-formed battery per configured slot, the configured
  cell counts, at most 4096 distinct retired sessions that never include the current one, and an
  unchanged configuration.\<close>

theorem client_invariant:
  assumes "new_client a = Inr s" "list_all event_ok es"
  shows "client_wf (run client_step es s) \<and> same_config s (run client_step es s)
    \<and> length (retired_boot_ids (run client_step es s)) \<le> 4096"
  using client.inv_run [OF new_client_wf [OF assms(1)] assms(2)] client.below_run [OF new_client_wf [OF assms(1)] assms(2)]
  by (simp add: advances_def client_wf_def sessions_wf_def MAX_RETIRED_BOOT_IDS_def)

lemma telemetry_latches: "telemetry_source (on_message clk wall False (telemetry_topic s) payload s) = ''atomic''"
proof -
  let ?a = "s\<lparr>last_message_time := wall, telemetry_source := ''atomic''\<rparr>"
  have src: "telemetry_source (process_telemetry clk p t) = ''atomic''" if "telemetry_source t = ''atomic''" for p t
  proof (cases rule: process_telemetry_cases [of p t clk])
    case (accepted frame boot sq s')
    then show ?thesis using that accept_frame_advances [OF accepted(4)] by (simp add: advances_def)
  next
    case (full frame boot sq)
    then show ?thesis using that by (simp add: refuse_session_def)
  qed (use that in simp_all)
  have "telemetry_topic (s\<lparr>last_message_time := wall\<rparr>) = telemetry_topic s" by (simp add: telemetry_topic_def)
  then show ?thesis using src [of ?a] by (simp add: on_message_def process_message_def process_text_def Let_def)
qed

text \<open>One message on the telemetry topic, however malformed, latches the atomic protocol for good: from
  then on no legacy topic changes anything but the time of the last message.\<close>

theorem atomic_latch:
  assumes "client_wf s" "tick clk" "list_all event_ok es"
    and u: "u = run client_step es (on_message clk wall False (telemetry_topic s) payload s)"
    and "topic \<noteq> telemetry_topic u" "topic \<noteq> cl_prefix u @ ''/status''"
  shows "on_message clk' wall' retain topic text u = (if retain then u else u\<lparr>last_message_time := wall'\<rparr>)"
proof -
  have "advances (on_message clk wall False (telemetry_topic s) payload s) u"
    unfolding u using on_message_ok(1) [OF assms(1,2)] assms(3) by (rule client.below_run)
  then have "telemetry_source u = ''atomic''" using telemetry_latches by (simp add: advances_def)
  then show ?thesis using assms(5,6)
    by (simp add: on_message_def process_message_def process_text_def telemetry_topic_def Let_def)
qed

text \<open>A telemetry message that is not UTF-8 or whose header is rejected fails closed: no data is served
  at any clock until a later message brings some.\<close>

theorem malformed_fails_closed:
  assumes "\<not> utf8_valid payload \<or> is_ok (header_of (py_strip payload) s) = False"
  shows "fst (get_aggregate_data c (on_message clk wall False (telemetry_topic s) payload s)) = Inr None"
proof -
  have none: "fst (get_aggregate_data c (invalidate_samples r t)) = Inr None" for r t
  proof -
    have "\<not> is_valid c b" if "(i, b) \<in> set (empty_batteries t)" for i b
    proof -
      have "sample_times b = []" using that
        by (auto simp: empty_batteries_def empty_slots_def configured_slots_def split: option.splits)
      then show ?thesis using valid_sampled by blast
    qed
    then have "battery_snapshots c (invalidate_samples r t) = []"
      by (auto simp: battery_snapshots_def List.map_filter_def filter_empty_conv dict_vals_def)
    then show ?thesis by (simp add: get_aggregate_data_def)
  qed
  let ?m = "s\<lparr>last_message_time := wall\<rparr>"
  have t: "telemetry_topic ?m = telemetry_topic s" by (simp add: telemetry_topic_def)
  show ?thesis
  proof (cases "utf8_valid payload")
    case True
    then obtain e where "header_of (py_strip payload) s = Inl e" using assms by (cases "header_of (py_strip payload) s") auto
    then have "\<exists>r t. on_message clk wall False (telemetry_topic s) payload s = invalidate_samples r t"
      using True t by (auto simp: on_message_def process_message_def process_text_def process_telemetry_def reject_def Let_def)
    then show ?thesis using none by auto
  next
    case False
    then show ?thesis using none t by (simp add: on_message_def process_message_def Let_def)
  qed
qed

text \<open>A replayed frame, of a retired session or with a sequence number already seen, changes nothing but
  the time of the last message and the protocol latch.\<close>

theorem replay_ignored:
  assumes "utf8_valid payload" "header_of (py_strip payload) s = Inr (frame, boot, sq)" "replayed boot sq s"
  shows "on_message clk wall False (telemetry_topic s) payload s = s\<lparr>last_message_time := wall, telemetry_source := ''atomic''\<rparr>"
proof -
  have t: "telemetry_topic (s\<lparr>last_message_time := wall\<rparr>) = telemetry_topic s" by (simp add: telemetry_topic_def)
  have "replayed boot sq (s\<lparr>last_message_time := wall, telemetry_source := ''atomic''\<rparr>)"
    using assms(3) by (simp add: replayed_def)
  then show ?thesis using assms(1,2) t
    by (simp add: on_message_def process_message_def process_text_def process_telemetry_def Let_def)
qed

section \<open>A live client\<close>

definition live_args :: client_args where
  "live_args = \<lparr>arg_broker = ''127.0.0.1'', arg_port = 1883, arg_battery_count = 1, arg_prefix = ''b'',
     arg_capacity = Fin 280, arg_bms_first = 1, arg_cells = 1, arg_temps = 1, arg_mode = ''atomic'',
     arg_local_only = False, arg_topology = None\<rparr>"

definition live_client :: mqtt_client where
  "live_client = (initial_client live_args ''127.0.0.1'')\<lparr>batteries := [(1, stamped_battery)], boot_id := Some ''a'',
     sequence := 5, has_full_snapshot := True, boot_ready := True\<rparr>"

definition series_client :: mqtt_client where
  "series_client = live_client\<lparr>cl_topology := Some single_chain\<rparr>"

lemma live_fields [simp]:
  "batteries live_client = [(1, stamped_battery)]" "cl_topology live_client = None" "battery_count live_client = 1"
  "cl_prefix live_client = ''b''" "telemetry_source live_client = ''atomic''" "retired_boot_ids live_client = []"
  "boot_id live_client = Some ''a''" "sequence live_client = 5" "cells_per_bms live_client = 1"
  "cl_topology series_client = Some single_chain" "batteries series_client = [(1, stamped_battery)]"
  "battery_count series_client = 1"
  by (simp_all add: series_client_def live_client_def initial_client_def live_args_def)

lemma stamped_fields:
  "battery_id stamped_battery = 1" "cell_count stamped_battery = 1" "oldest_sample_time stamped_battery = Some (Fin 99)"
  "voltage stamped_battery = Some (Fin 3)" "current stamped_battery = Some (Fin 1)" "power stamped_battery = None"
  "soc stamped_battery = Some (Fin 50)" "temperature stamped_battery = Some (Fin 20)" "sample_times stamped_battery \<noteq> []"
  "cells stamped_battery = [(1, Fin 3)]" "capacity_remaining stamped_battery = None"
  by (simp_all add: stamped_battery_def single_battery_def new_battery_def mark_sample_time_def retime_def Let_def
      status_fields_def oldest_sample_time_def dict_vals_def fmin_option_def)

lemma stamped_slots: "slots_wf None 1 1 [(1, stamped_battery)]" "slots_wf (Some single_chain) 1 1 [(1, stamped_battery)]"
  using stamped_wf by (simp_all add: slots_wf_def slot_cells_def dict_keys_def stamped_fields single_chain_def)

lemma live_more [simp]:
  "has_full_snapshot live_client" "has_full_snapshot series_client" "boot_ready live_client" "boot_ready series_client"
  "cells_per_bms series_client = 1" "retired_boot_ids series_client = []" "boot_id series_client = Some ''a''"
  "telemetry_source series_client = ''atomic''"
  "total_voltage live_client = Fin 0" "total_current live_client = Fin 0" "total_power live_client = Fin 0"
  "total_soc live_client = Fin 0" "total_capacity live_client = Fin 0"
  "total_voltage series_client = Fin 0" "total_current series_client = Fin 0" "total_power series_client = Fin 0"
  "total_soc series_client = Fin 0" "total_capacity series_client = Fin 0"
  by (simp_all add: series_client_def live_client_def initial_client_def live_args_def)

lemma live_wf: "client_wf live_client" "client_wf series_client"
  using stamped_slots
  by (simp_all add: client_wf_def count_wf_def sessions_wf_def evidence_wf_def stamped_fields member_count_def single_chain_def)

lemma tick_100: "tick (Fin 100)" "tick (Fin 101)"
  using is_dbl_of_int [of 100] is_dbl_of_int [of 101] pow2_nat [of 60] by (simp_all add: tick_def)

theorem client_invariant_witness:
  "\<exists>s. new_client live_args = Inr s
    \<and> client_wf (run client_step [Connect 0, Message (Fin 100) (Fin 0) False ''b/telemetry'' ''x'', Disconnect] s)"
proof -
  obtain s where s: "new_client live_args = Inr s" by (simp add: new_client_def topology_args_def live_args_def)
  have "list_all event_ok [Connect 0, Message (Fin 100) (Fin 0) False ''b/telemetry'' ''x'', Disconnect]"
    by (simp add: tick_100)
  from client_invariant [OF s this] s show ?thesis by blast
qed

definition offline_events :: "client_event list" where
  "offline_events = [Message (Fin 101) (Fin 0) False ''b/status'' ''offline'', Connect 0]"


lemma live_snapshots: "battery_snapshots (Fin 100) c \<noteq> []" "length (battery_snapshots (Fin 100) c) = 1"
  if "batteries c = [(1, stamped_battery)]" for c
  using stamped_valid that by (simp_all add: battery_snapshots_def dict_vals_def List.map_filter_def snapshot_def stamped_fields)

lemma live_aggregate: "\<exists>a. get_aggregate_data (Fin 100) live_client = (Inr (Some a), live_client)"
  using live_snapshots [of live_client] poll_never_raises [of "Fin 100" live_client]
  by (cases rule: get_aggregate_cases [of "Fin 100" live_client]) auto

theorem aggregate_permissions_witness:
  "\<exists>a. get_aggregate_data (Fin 100) live_client = (Inr (Some a), live_client)
    \<and> modules_online a + modules_offline a = 1"
  using live_aggregate aggregate_permissions [OF live_wf(1)] by fastforce

theorem aggregate_covers_cells_witness:
  "\<exists>a lo i. get_aggregate_data (Fin 100) live_client = (Inr (Some a), live_client)
    \<and> agg_min_cell a = Some (lo, i) \<and> fle lo (Fin 3)"
proof -
  obtain a where a: "get_aggregate_data (Fin 100) live_client = (Inr (Some a), live_client)" using live_aggregate by blast
  obtain p where p: "p \<in> set (battery_snapshots (Fin 100) live_client)" using live_snapshots(1) [of live_client]
    by (cases "battery_snapshots (Fin 100) live_client") auto
  then have "snap_cells (fst p) = [(1, Fin 3)]"
    by (auto simp: battery_snapshots_def dict_vals_def List.map_filter_def snapshot_def stamped_fields split: if_splits)
  then have "\<exists>lo i hi j. agg_min_cell a = Some (lo, i) \<and> agg_max_cell a = Some (hi, j) \<and> fle lo (Fin 3) \<and> fle (Fin 3) hi
    \<and> (i, lo) \<in> set (all_cells a) \<and> (j, hi) \<in> set (all_cells a)"
    by (intro aggregate_covers_cells [OF live_wf(1) a p, of 1]) simp_all
  with a show ?thesis by blast
qed

lemma series_served: "\<exists>a. get_aggregate_data (Fin 100) series_client = (Inr (Some a), series_client)"
proof -
  let ?bs = "map fst (battery_snapshots (Fin 100) series_client)"
  have bs: "?bs = [the (map_option fst (snapshot stamped_battery))]"
    using stamped_valid by (simp add: battery_snapshots_def dict_vals_def List.map_filter_def snapshot_def stamped_fields)
  have f: "fsum [Fin 3] = Fin 3" "fsum [Fin 20] = Fin 20" "fl 1 = Fin 1" "fl 20 = Fin 20"
    by (simp_all add: fsum_def fl_numeral)
  have "topology_totals series_client ?bs = Inr \<lparr>tot_voltage = Fin 3, tot_current = Fin 1, tot_power = Fin 3,
      tot_soc = Fin 50, tot_capacity = None\<rparr>"
    unfolding bs by (simp add: topology_totals_def Let_def snapshot_def stamped_fields f fmin_of_def fmin_list_def fmean_def
        topology_capacity_def fl_numeral)
  then have t: "electrical_totals series_client tot remaining ?bs \<noteq> Inl e" for tot remaining e
    by (simp add: electrical_totals_def)
  show ?thesis
  proof (cases rule: get_aggregate_cases [of "Fin 100" series_client])
    case none
    then show ?thesis using live_snapshots [of series_client] by simp
  qed (use t in auto)
qed

theorem series_aggregate_witness:
  "\<exists>a. get_aggregate_data (Fin 100) series_client = (Inr (Some a), series_client) \<and> data_complete a
    \<and> fle (tot_soc (agg_totals a)) (Fin 50)"
proof -
  obtain a where a: "get_aggregate_data (Fin 100) series_client = (Inr (Some a), series_client)" using series_served by blast
  have "cl_topology series_client = Some single_chain" "1 \<le> member_count single_chain"
    by (simp_all add: member_count_def single_chain_def)
  with series_aggregate [OF live_wf(2) _ a, of single_chain 1] a stamped_fields show ?thesis by auto
qed

theorem atomic_latch_witness:
  "\<exists>u. on_message (Fin 101) (Fin 7) False ''b/sensor/voltage_bms1/state'' ''3'' u = u\<lparr>last_message_time := Fin 7\<rparr>"
proof -
  let ?u = "run client_step [] (on_message (Fin 100) (Fin 0) False (telemetry_topic live_client) ''x'' live_client)"
  have "advances live_client ?u" using on_message_ok(2) [OF live_wf(1) tick_100(1)] by simp
  then have "cl_prefix ?u = ''b''" by (simp add: advances_def same_config_def)
  then have "on_message (Fin 101) (Fin 7) False ''b/sensor/voltage_bms1/state'' ''3'' ?u
      = (if False then ?u else ?u\<lparr>last_message_time := Fin 7\<rparr>)"
    by (intro atomic_latch [OF live_wf(1) tick_100(1), of "[]" ?u]) (simp_all add: telemetry_topic_def)
  then show ?thesis unfolding if_False by blast
qed

theorem malformed_fails_closed_witness:
  "fst (get_aggregate_data (Fin 100) (on_message (Fin 100) (Fin 0) False ''b/telemetry'' [CHR 0xFF] live_client)) = Inr None"
proof -
  have "\<not> utf8_valid [CHR 0xFF]" by code_simp
  with malformed_fails_closed [of "[CHR 0xFF]" live_client "Fin 100" "Fin 100" "Fin 0"] show ?thesis
    by (simp add: telemetry_topic_def)
qed

definition old_frame :: string where
  "old_frame = ''{\"schema\":1,\"boot_id\":\"a\",\"seq\":1,\"ready\":false}''"

lemma old_frame_header:
  "utf8_valid old_frame" "header_of (py_strip old_frame) live_client =
    Inr ([(''schema'', VInt 1), (''boot_id'', VStr ''a''), (''seq'', VInt 1), (''ready'', VBool False)], ''a'', 1)"
proof -
  have "Telemetry.decode_header (py_strip old_frame) =
    Inr ([(''schema'', VInt 1), (''boot_id'', VStr ''a''), (''seq'', VInt 1), (''ready'', VBool False)], ''a'', 1)"
    by code_simp
  then show "header_of (py_strip old_frame) live_client =
    Inr ([(''schema'', VInt 1), (''boot_id'', VStr ''a''), (''seq'', VInt 1), (''ready'', VBool False)], ''a'', 1)"
    by (simp add: header_of_def)
  show "utf8_valid old_frame" by code_simp
qed

theorem replay_ignored_witness:
  "batteries (on_message (Fin 100) (Fin 0) False ''b/telemetry'' old_frame live_client) = [(1, stamped_battery)]"
  using replay_ignored [OF old_frame_header, of "Fin 100" "Fin 0"]
  by (simp add: replayed_def telemetry_topic_def)

end
