(* ===== verification/DbusUtils.thy ===== *)
theory DbusUtils
  imports PyText
begin

text \<open>
  \<open>dbus_mqtt_battery/dbus_utils.py\<close>: the D-Bus paths every battery service registers, the circuit
  breaker around a poll and the poll function.  A guarded call is a function from the service's
  state to the exception it leaves with, if any, and the state after it; the alarm that ends a hung
  call shows as \<open>TimeoutError\<close>.  The bus connection, the GLib main loop and the installation of the
  signal handlers are library calls.
\<close>

section \<open>Values and paths\<close>

datatype dbus_val = DNone | DInt int | DFloat pyfloat | DStr string

type_synonym path_list = "(string \<times> dbus_val) list"

definition PATH_DC_VOLTAGE :: string where "PATH_DC_VOLTAGE = ''/Dc/0/Voltage''"
definition PATH_DC_CURRENT :: string where "PATH_DC_CURRENT = ''/Dc/0/Current''"
definition PATH_DC_POWER :: string where "PATH_DC_POWER = ''/Dc/0/Power''"
definition PATH_TIME_TO_GO :: string where "PATH_TIME_TO_GO = ''/TimeToGo''"

text \<open>The \<open>add_path\<close> calls in order, as paths with their first values.\<close>

definition setup_dbus_paths_common :: "string \<Rightarrow> string \<Rightarrow> string \<Rightarrow> int \<Rightarrow> string \<Rightarrow> string \<Rightarrow> path_list" where
  "setup_dbus_paths_common process_name version connection instance_id product hardware = [
     (''/Mgmt/ProcessName'', DStr process_name), (''/Mgmt/ProcessVersion'', DStr version),
     (''/Mgmt/Connection'', DStr connection), (''/DeviceInstance'', DInt instance_id), (''/ProductId'', DInt 0xB034),
     (''/ProductName'', DStr product), (''/CustomName'', DStr product), (''/FirmwareVersion'', DStr version),
     (''/HardwareVersion'', DStr hardware), (''/Connected'', DInt 1)]"

definition setup_dbus_paths_dc :: path_list where
  "setup_dbus_paths_dc = [(PATH_DC_VOLTAGE, DNone), (PATH_DC_CURRENT, DNone), (PATH_DC_POWER, DNone),
     (''/Dc/0/Temperature'', DNone)]"

definition alarm_names :: "string list" where
  "alarm_names = [''CommunicationError'', ''LowVoltage'', ''HighVoltage'', ''LowCellVoltage'', ''HighCellVoltage'',
     ''LowSoc'', ''HighChargeCurrent'', ''HighDischargeCurrent'', ''CellImbalance'', ''InternalFailure'',
     ''HighTemperature'', ''LowTemperature'', ''HighChargeTemperature'', ''LowChargeTemperature'']"

definition setup_dbus_paths_alarms :: path_list where
  "setup_dbus_paths_alarms = map (\<lambda>a. (''/Alarms/'' @ a, DInt 0)) alarm_names"

section \<open>The circuit breaker\<close>

record breaker =
  call_timeout_s :: pyfloat
  failure_threshold :: int
  cooldown_s :: pyfloat
  consecutive_failures :: int
  opened_at :: pyfloat

definition default_breaker :: breaker where
  "default_breaker = \<lparr>call_timeout_s = Fin 10, failure_threshold = 3, cooldown_s = Fin 60,
     consecutive_failures = 0, opened_at = Fin 0\<rparr>"

datatype breaker_state = Closed | Opened | HalfOpen

definition breaker_state :: "pyfloat \<Rightarrow> breaker \<Rightarrow> breaker_state" where
  "breaker_state now b = (if consecutive_failures b < failure_threshold b then Closed
     else if flt (fsub now (opened_at b)) (cooldown_s b) then Opened else HalfOpen)"

definition record_failure :: "pyfloat \<Rightarrow> breaker \<Rightarrow> breaker" where
  "record_failure now b0 = (let b = b0\<lparr>consecutive_failures := consecutive_failures b0 + 1\<rparr>
     in if failure_threshold b \<le> consecutive_failures b then b\<lparr>opened_at := now\<rparr> else b)"

type_synonym 's guarded = "'s \<Rightarrow> exn option \<times> 's"

text \<open>
  \<open>call\<close>: true when the call ran, false when it was skipped or timed out, an exception otherwise.
  \<open>now\<close> is the clock when the state is read, \<open>later\<close> the clock when a timeout is recorded.
\<close>

definition call :: "pyfloat \<Rightarrow> pyfloat \<Rightarrow> 's guarded \<Rightarrow> breaker \<times> 's \<Rightarrow> bool res \<times> (breaker \<times> 's)" where
  "call now later fn bs = (case bs of (b, s) \<Rightarrow>
     if breaker_state now b = Opened then (Inr False, (b, s))
     else case fn s of (raised, s') \<Rightarrow>
       (case raised of
          Some TimeoutError \<Rightarrow> (Inr False, (record_failure later b, s'))
        | Some e \<Rightarrow> (Inl e, (b, s'))
        | None \<Rightarrow> (Inr True, (if consecutive_failures b \<noteq> 0 then b\<lparr>consecutive_failures := 0\<rparr> else b, s'))))"

section \<open>The poll function\<close>

record 's poller =
  pl_breaker :: breaker
  pl_service :: 's
  gc_counter :: int
  heartbeat :: "string option"

definition new_poller :: "'s \<Rightarrow> 's poller" where
  "new_poller s = \<lparr>pl_breaker = default_breaker, pl_service = s, gc_counter = 0, heartbeat = None\<rparr>"

text \<open>What a poll reads: the clock at the state test, at a timeout and at the heartbeat, and whether the file can be written.\<close>

record poll_clock =
  pc_now :: pyfloat
  pc_later :: pyfloat
  pc_beat :: int
  pc_writable :: bool

definition collect_garbage :: "int \<Rightarrow> 's poller \<Rightarrow> 's poller" where
  "collect_garbage interval p = (if interval \<le> gc_counter p + 1 then p\<lparr>gc_counter := 0\<rparr> else p\<lparr>gc_counter := gc_counter p + 1\<rparr>)"

definition write_heartbeat :: "poll_clock \<Rightarrow> 's poller \<Rightarrow> 's poller" where
  "write_heartbeat c p = (if pc_writable c then p\<lparr>heartbeat := Some (show_int (pc_beat c))\<rparr> else p)"

text \<open>\<open>poll\<close>: every exception of the call is logged and swallowed, and the timer goes on.\<close>

definition poll_cycle :: "'s guarded \<Rightarrow> poll_clock \<Rightarrow> 's poller \<Rightarrow> bool \<times> 's poller" where
  "poll_cycle fn c p = (case call (pc_now c) (pc_later c) fn (pl_breaker p, pl_service p) of (r, (b, s)) \<Rightarrow>
     (True, write_heartbeat c (collect_garbage 150 (p\<lparr>pl_breaker := b, pl_service := s\<rparr>))))"

definition poll_cycle_step :: "'s guarded \<Rightarrow> poll_clock \<Rightarrow> 's poller \<Rightarrow> 's poller" where
  "poll_cycle_step fn c p = snd (poll_cycle fn c p)"

end
