(* ===== verification/Service.thy ===== *)
theory Service
  imports Aggregate DbusUtils Config
begin

text \<open>
  \<open>dbus-mqtt-battery.py\<close>: the service that publishes one aggregate battery.  The \<open>VeDbusService\<close>
  is a mapping from the registered paths to their values; a write to a path that was not
  registered raises \<open>KeyError\<close>, and the transaction of one update reads and writes the same
  values.  A method is an action: it returns the exception it leaves with, if any, and the state
  after it, writes made before an exception included.  \<open>clk\<close> is the monotonic clock of the call and
  \<open>wall\<close> the wall clock.  Log lines are not modelled; the fields that pace them are.
\<close>

section \<open>State and actions\<close>

text \<open>The alarm thresholds of \<open>config.battery\<close>, integers as exact numbers.\<close>

record alarm_limits =
  al_low_soc :: pyfloat
  al_low_soc_critical :: pyfloat
  al_low_cell :: pyfloat
  al_low_cell_critical :: pyfloat
  al_high_cell :: pyfloat
  al_high_cell_critical :: pyfloat
  al_imbalance :: pyfloat
  al_high_temp :: pyfloat
  al_high_temp_critical :: pyfloat
  al_low_temp :: pyfloat
  al_low_temp_critical :: pyfloat

record service =
  sv_mqtt :: mqtt_client
  sv_limits :: alarm_limits
  sv_dvcc :: dvcc_controller
  control_profile :: "dvcc_profile option"
  dvcc_log_interval :: int
  last_dvcc_log :: pyfloat
  soc_alarm_log_state :: "int option"
  soc_alarm_log_time :: pyfloat
  comm_alarm_active :: bool
  has_ready_data :: bool
  previous_limits :: "(pyfloat \<times> pyfloat) option"
  paths :: "string \<rightharpoonup> dbus_val"

type_synonym action = "service \<Rightarrow> exn option \<times> service"

fun perform :: "action list \<Rightarrow> action" where
  "perform [] s = (None, s)"
| "perform (a # as) s = (case a s of (None, t) \<Rightarrow> perform as t | (Some e, t) \<Rightarrow> (Some e, t))"

definition put :: "string \<Rightarrow> dbus_val \<Rightarrow> action" where
  "put p v s = (case paths s p of None \<Rightarrow> (Some (KeyError p), s) | Some _ \<Rightarrow> (None, s\<lparr>paths := (paths s)(p \<mapsto> v)\<rparr>))"

definition modify :: "(service \<Rightarrow> service) \<Rightarrow> action" where
  "modify f s = (None, f s)"

definition reading :: "(service \<Rightarrow> action) \<Rightarrow> action" where
  "reading k s = k s s"

definition using_res :: "'a res \<Rightarrow> ('a \<Rightarrow> action) \<Rightarrow> action" where
  "using_res r k s = (case r of Inl e \<Rightarrow> (Some e, s) | Inr v \<Rightarrow> k v s)"

definition when_some :: "'a option \<Rightarrow> ('a \<Rightarrow> action) \<Rightarrow> action" where
  "when_some x k = (case x of None \<Rightarrow> perform [] | Some v \<Rightarrow> k v)"

text \<open>\<open>try: ... except (KeyError, TypeError, ValueError)\<close>.\<close>

definition attempt :: "action list \<Rightarrow> action" where
  "attempt as s = (case perform as s of
     (Some (KeyError m), t) \<Rightarrow> (None, t) | (Some (TypeError m), t) \<Rightarrow> (None, t) | (Some (ValueError m), t) \<Rightarrow> (None, t)
   | r \<Rightarrow> r)"

text \<open>A number read back from a path.\<close>

definition num_at :: "string \<Rightarrow> service \<Rightarrow> pyfloat res" where
  "num_at p s = (case paths s p of None \<Rightarrow> Inl (KeyError p)
   | Some (DInt i) \<Rightarrow> Inr (Fin (of_int i)) | Some (DFloat x) \<Rightarrow> Inr x
   | _ \<Rightarrow> Inl (TypeError ''not supported between instances''))"

definition put_round :: "string \<Rightarrow> nat \<Rightarrow> pyfloat \<Rightarrow> action" where
  "put_round p n x = put p (DFloat (fround n x))"

definition opt_int :: "int option \<Rightarrow> dbus_val" where
  "opt_int i = (case i of None \<Rightarrow> DNone | Some n \<Rightarrow> DInt n)"

definition flag :: "bool \<Rightarrow> dbus_val" where
  "flag b = DInt (if b then 1 else 0)"

section \<open>Paths\<close>

definition ALLOW_CHARGE :: string where "ALLOW_CHARGE = ''/Io/AllowToCharge''"
definition ALLOW_DISCHARGE :: string where "ALLOW_DISCHARGE = ''/Io/AllowToDischarge''"
definition MAX_CHARGE_CURRENT :: string where "MAX_CHARGE_CURRENT = ''/Info/MaxChargeCurrent''"
definition MAX_DISCHARGE_CURRENT :: string where "MAX_DISCHARGE_CURRENT = ''/Info/MaxDischargeCurrent''"
definition TELEMETRY_STATE :: string where "TELEMETRY_STATE = ''/Info/TelemetryState''"
definition DATA_COMPLETE :: string where "DATA_COMPLETE = ''/Info/DataComplete''"

definition cell_path :: "int \<Rightarrow> string" where "cell_path i = ''/Cell/'' @ show_int i @ ''/Voltage''"
definition cell_balance_path :: "int \<Rightarrow> string" where "cell_balance_path i = ''/Cell/'' @ show_int i @ ''/Balance''"
definition legacy_cell_path :: "int \<Rightarrow> string" where "legacy_cell_path i = ''/Voltages/Cell'' @ show_int i"
definition legacy_balance_path :: "int \<Rightarrow> string" where "legacy_balance_path i = ''/Balances/Cell'' @ show_int i"
definition temperature_path :: "int \<Rightarrow> string" where "temperature_path i = ''/System/Temperature'' @ show_int i"

text \<open>\<open>range(a, b)\<close>.\<close>

abbreviation range_of :: "int \<Rightarrow> int \<Rightarrow> int list" where
  "range_of a b \<equiv> [a..b - 1]"

text \<open>What \<open>_setup_paths\<close> registers, in its order: the electrical and system paths...\<close>

definition system_paths :: "mqtt_client \<Rightarrow> path_list" where
  "system_paths m = map (\<lambda>p. (p, DNone)) [''/Soc'', ''/Capacity'', ''/InstalledCapacity'', ''/ConsumedAmphours'']
     @ [(''/System/NrOfBatteries'', DInt (battery_count m)), (''/System/BatteriesParallel'', DInt 1),
        (''/System/BatteriesSeries'', DInt (battery_count m)),
        (''/System/NrOfCellsPerBattery'', opt_int (uniform_cells_per_bms m))]
     @ map (\<lambda>p. (p, DNone)) [''/System/MinCellVoltage'', ''/System/MinVoltageCellId'', ''/System/MaxCellVoltage'',
        ''/System/MaxVoltageCellId'', ''/Voltages/Sum'', ''/Voltages/Diff'']
     @ [(''/System/NrOfCells'', DInt (configured_cells m))]"

text \<open>... the cells, the temperatures and the configured members...\<close>

definition cell_paths :: "int \<Rightarrow> path_list" where
  "cell_paths n =
     concat (map (\<lambda>i. [(cell_path i, DNone), (cell_balance_path i, DNone)]) (range_of 0 n))
   @ concat (map (\<lambda>i. [(legacy_cell_path i, DNone), (legacy_balance_path i, DNone)]) (range_of 1 (n + 1)))"

definition temperature_paths :: "mqtt_client \<Rightarrow> path_list" where
  "temperature_paths m = (let slots = (if cl_topology m \<noteq> None then battery_count m else 4) in
     concat (map (\<lambda>i. [(temperature_path i, DNone), (temperature_path i @ ''Name'', DStr (''BMS '' @ show_int i))]) (range_of 1 (slots + 1)))
   @ [(''/System/MOSTemperature'', DNone)])"

definition member_paths :: "chain_topology \<Rightarrow> path_list" where
  "member_paths t = [(''/Info/TopologyId'', DStr (chain_id t)), (''/Info/TelemetrySchema'', DInt (telemetry_schema t))]
   @ concat (map (\<lambda>(slot, m). let pre = ''/Members/'' @ show_int slot in
       [(pre @ ''/BmsId'', DInt (bms_id m)), (pre @ ''/CellCount'', DInt (member_cells m)),
        (pre @ ''/CellOffset'', DInt (cell_offsets t ! nat (slot - 1)))]) (zip (range_of 1 (member_count t + 1)) (members t)))"

text \<open>... and the modules, the limits, the permissions and the state of the telemetry.\<close>

definition control_paths :: "mqtt_client \<Rightarrow> path_list" where
  "control_paths m = map (\<lambda>p. (p, DNone)) [''/System/MinCellTemperature'', ''/System/MinTemperatureCellId'',
        ''/System/MaxCellTemperature'', ''/System/MaxTemperatureCellId'', ''/System/NrOfModulesOnline'',
        ''/System/NrOfModulesOffline'', ''/System/NrOfModulesBlockingCharge'', ''/System/NrOfModulesBlockingDischarge'',
        ''/History/ChargeCycles'', PATH_TIME_TO_GO]
     @ [(MAX_CHARGE_CURRENT, DFloat (Fin 0)), (MAX_DISCHARGE_CURRENT, DFloat (Fin 0)),
        (''/Info/MaxChargeVoltage'', DNone), (''/Info/MaxChargeCellVoltage'', DNone),
        (ALLOW_CHARGE, DInt 0), (ALLOW_DISCHARGE, DInt 0), (''/Io/AllowToBalance'', DInt 0)]
     @ setup_dbus_paths_alarms
     @ [(''/System/StaleData'', DInt 0), (TELEMETRY_STATE, DStr ''INITIALIZING''),
        (''/Info/TelemetrySource'', DStr (telemetry_source m)), (''/Info/TelemetryPartial'', DInt 0),
        (''/Info/MissingData'', DStr []), (DATA_COMPLETE, DInt 0), (''/Info/DataAge'', DNone),
        (''/Info/DataTimeout'', DFloat (Fin 60)), (''/Info/LastMeasurementMonotonic'', DNone)]"

definition setup_paths :: "string \<Rightarrow> int \<Rightarrow> string \<Rightarrow> mqtt_client \<Rightarrow> path_list" where
  "setup_paths script instance_id product m =
     setup_dbus_paths_common script ''2.8.0'' ''MQTT ESP32'' instance_id product ''ESP32 BLE Proxy''
   @ setup_dbus_paths_dc @ system_paths m @ cell_paths (configured_cells m) @ temperature_paths m
   @ (case cl_topology m of None \<Rightarrow> [] | Some t \<Rightarrow> member_paths t) @ control_paths m"

section \<open>Unavailable data\<close>

definition set_communication_error :: "bool \<Rightarrow> action" where
  "set_communication_error stale = reading (\<lambda>s. perform [
     put ''/Alarms/CommunicationError'' (DInt (if stale then if has_ready_data s then 2 else 1 else 0)),
     put ''/System/StaleData'' (flag stale),
     modify (\<lambda>t. t\<lparr>comm_alarm_active := stale\<rparr>)])"

definition update_module_status :: "aggregate option \<Rightarrow> action" where
  "update_module_status data = reading (\<lambda>s. let n = battery_count (sv_mqtt s);
       counts = (case data of None \<Rightarrow> (0, n, n, n)
         | Some a \<Rightarrow> (modules_online a, modules_offline a, blocking_charge a, blocking_discharge a))
     in case counts of (on, off, charge, discharge) \<Rightarrow> perform [
       put ''/System/NrOfModulesOnline'' (DInt on), put ''/System/NrOfModulesOffline'' (DInt off),
       put ''/System/NrOfModulesBlockingCharge'' (DInt charge),
       put ''/System/NrOfModulesBlockingDischarge'' (DInt discharge)])"

text \<open>The four paths that control the chargers and loads, and the measurements that are withdrawn.\<close>

definition permission_paths :: "string list" where
  "permission_paths = [ALLOW_CHARGE, ALLOW_DISCHARGE, MAX_CHARGE_CURRENT, MAX_DISCHARGE_CURRENT]"

definition measurement_paths :: "string list" where
  "measurement_paths = [PATH_DC_VOLTAGE, PATH_DC_CURRENT, PATH_DC_POWER, ''/Dc/0/Temperature'', ''/Soc'', ''/Capacity'',
     PATH_TIME_TO_GO, ''/System/MinCellVoltage'', ''/System/MaxCellVoltage'', ''/Voltages/Sum'', ''/Voltages/Diff'']"

definition set_unavailable :: "pyfloat \<Rightarrow> aggregate option \<Rightarrow> action" where
  "set_unavailable clk data = perform [
     put ''/Connected'' (DInt 0),
     set_communication_error True,
     reading (\<lambda>s. put ''/Alarms/InternalFailure'' (DInt (if has_ready_data s then 2 else 0))),
     reading (\<lambda>s. put TELEMETRY_STATE (DStr (if has_ready_data s then ''STALE'' else ''INITIALIZING''))),
     reading (\<lambda>s. put ''/Info/TelemetrySource'' (DStr (telemetry_source (sv_mqtt s)))),
     reading (\<lambda>s. put ''/Info/TelemetryPartial'' (flag (telemetry_partial (sv_mqtt s)))),
     reading (\<lambda>s. put ''/Info/MissingData'' (DStr (case data of Some a \<Rightarrow> agg_missing a
       | None \<Rightarrow> missing_data_reason clk (sv_mqtt s)))),
     put DATA_COMPLETE (DInt 0), put ''/Info/DataAge'' DNone, put ''/Info/LastMeasurementMonotonic'' DNone,
     modify (\<lambda>s. if has_ready_data s then s\<lparr>previous_limits := Some (Fin 0, Fin 0)\<rparr> else s),
     update_module_status data,
     perform (map (\<lambda>p. put p (DInt 0)) permission_paths),
     perform (map (\<lambda>p. put p DNone) measurement_paths),
     reading (\<lambda>s. perform (concat (map (\<lambda>i. [put (cell_path i) DNone, put (legacy_cell_path (i + 1)) DNone])
       (range_of 0 (configured_cells (sv_mqtt s))))))]"

section \<open>Measurements\<close>

definition week :: int where "week = 7 * 24 * 3600"

definition put_hours :: "pyfloat res \<Rightarrow> action" where
  "put_hours r = using_res r (\<lambda>hours. using_res (ftrunc (fmul hours (Fin 3600))) (\<lambda>n.
     put PATH_TIME_TO_GO (DInt (min n week))))"

definition update_time_to_go :: "aggregate \<Rightarrow> action" where
  "update_time_to_go a = (case tot_capacity (agg_totals a) of
     None \<Rightarrow> put PATH_TIME_TO_GO DNone
   | Some cap \<Rightarrow> reading (\<lambda>s. let current = tot_current (agg_totals a); full0 = capacity_full a in
       using_res (if cl_topology (sv_mqtt s) = None \<and> (flt (fmul cap (Fin 10)) full0 \<or> flt full0 cap)
           then fdiv (fmul cap (Fin 100)) (fmax2 (Fin 10) (tot_soc (agg_totals a))) else Inr full0) (\<lambda>full.
         if flt current (Fin (- (1 / 2))) \<and> flt (Fin 0) cap then put_hours (fdiv cap (fabs current))
         else if flt (Fin (1 / 2)) current \<and> flt cap full then put_hours (fdiv (fsub full cap) current)
         else put PATH_TIME_TO_GO DNone)))"

definition put_cell :: "int \<times> pyfloat \<Rightarrow> action" where
  "put_cell cell = reading (\<lambda>s. let i = fst cell - 1; v = DFloat (fround 3 (snd cell)) in
     if 0 \<le> i \<and> i < configured_cells (sv_mqtt s)
     then attempt [put (cell_path i) v, put (cell_balance_path i) (DInt 0),
       put (legacy_cell_path (fst cell)) v, put (legacy_balance_path (fst cell)) (DInt 0)]
     else perform [])"

definition update_cell_voltages :: "aggregate \<Rightarrow> action" where
  "update_cell_voltages a = perform [
     when_some (agg_min_cell a) (\<lambda>(v, i). perform [put_round ''/System/MinCellVoltage'' 3 v, put ''/System/MinVoltageCellId'' (DInt i)]),
     when_some (agg_max_cell a) (\<lambda>(v, i). perform [put_round ''/System/MaxCellVoltage'' 3 v, put ''/System/MaxVoltageCellId'' (DInt i)]),
     (case (agg_min_cell a, agg_max_cell a) of
        (Some (lo, _), Some (hi, _)) \<Rightarrow> if lo = Fin 0 \<or> hi = Fin 0 then perform []
          else perform [put_round ''/Voltages/Sum'' 2 (tot_voltage (agg_totals a)), put_round ''/Voltages/Diff'' 3 (fsub hi lo)]
      | _ \<Rightarrow> perform []),
     reading (\<lambda>s. put ''/System/NrOfCells'' (DInt (configured_cells (sv_mqtt s)))),
     perform (map put_cell (all_cells a))]"

definition update_temperature_paths :: "aggregate \<Rightarrow> action" where
  "update_temperature_paths a = perform [
     perform (map (\<lambda>(i, t). attempt [put_round (temperature_path i) 1 t]) (agg_temperatures a)),
     put_round ''/System/MinCellTemperature'' 1 (agg_min_temp a),
     put ''/System/MinTemperatureCellId'' (opt_int (agg_min_temp_id a)),
     put_round ''/System/MaxCellTemperature'' 1 (agg_max_temp a),
     put ''/System/MaxTemperatureCellId'' (opt_int (agg_max_temp_id a))]"

section \<open>Alarms\<close>

text \<open>Two thresholds crossed downwards, or upwards: 2 critical, 1 warning, 0 clear.\<close>

definition severity_below :: "pyfloat \<Rightarrow> pyfloat \<Rightarrow> pyfloat \<Rightarrow> int" where
  "severity_below critical warning x = (if fle x critical then 2 else if fle x warning then 1 else 0)"

definition severity_above :: "pyfloat \<Rightarrow> pyfloat \<Rightarrow> pyfloat \<Rightarrow> int" where
  "severity_above critical warning x = (if fle critical x then 2 else if fle warning x then 1 else 0)"

text \<open>The state of the log reminder: a transition, or two minutes of a standing alarm.\<close>

definition log_soc_alarm :: "pyfloat \<Rightarrow> int \<Rightarrow> service \<Rightarrow> service" where
  "log_soc_alarm wall severity s =
     (let s' = (if Some severity \<noteq> soc_alarm_log_state s
          \<or> (severity \<noteq> 0 \<and> fle (Fin 120) (fsub wall (soc_alarm_log_time s)))
        then s\<lparr>soc_alarm_log_time := wall\<rparr> else s)
      in s'\<lparr>soc_alarm_log_state := Some severity\<rparr>)"

definition update_soc_alarm :: "pyfloat \<Rightarrow> aggregate \<Rightarrow> action" where
  "update_soc_alarm wall a = reading (\<lambda>s.
     let severity = severity_below (al_low_soc_critical (sv_limits s)) (al_low_soc (sv_limits s)) (tot_soc (agg_totals a))
     in perform [put ''/Alarms/LowSoc'' (DInt severity), modify (log_soc_alarm wall severity)])"

definition update_low_cell_voltage_alarm :: "pyfloat option \<Rightarrow> action" where
  "update_low_cell_voltage_alarm min_cell = when_some min_cell (\<lambda>v. reading (\<lambda>s.
     put ''/Alarms/LowCellVoltage'' (DInt (severity_below (al_low_cell_critical (sv_limits s)) (al_low_cell (sv_limits s)) v))))"

definition update_high_cell_voltage_alarm :: "pyfloat option \<Rightarrow> action" where
  "update_high_cell_voltage_alarm max_cell = when_some max_cell (\<lambda>v. reading (\<lambda>s.
     put ''/Alarms/HighCellVoltage'' (DInt (severity_above (al_high_cell_critical (sv_limits s)) (al_high_cell (sv_limits s)) v))))"

definition update_cell_imbalance_alarm :: "pyfloat option \<Rightarrow> pyfloat option \<Rightarrow> action" where
  "update_cell_imbalance_alarm min_cell max_cell = when_some min_cell (\<lambda>lo. when_some max_cell (\<lambda>hi. reading (\<lambda>s.
     let critical = (case control_profile s of Some p \<Rightarrow> imbalance_critical p | None \<Rightarrow> fmul (al_imbalance (sv_limits s)) (Fin 2))
     in put ''/Alarms/CellImbalance'' (DInt (severity_above critical (al_imbalance (sv_limits s)) (fsub hi lo))))))"

definition update_temperature_alarms :: "aggregate \<Rightarrow> action" where
  "update_temperature_alarms a = reading (\<lambda>s. perform [
     put ''/Alarms/HighTemperature'' (DInt (severity_above (al_high_temp_critical (sv_limits s)) (al_high_temp (sv_limits s)) (agg_max_temp a))),
     put ''/Alarms/LowTemperature'' (DInt (severity_below (al_low_temp_critical (sv_limits s)) (al_low_temp (sv_limits s)) (agg_min_temp a)))])"

definition update_internal_failure_alarm :: "aggregate \<Rightarrow> action" where
  "update_internal_failure_alarm a = put ''/Alarms/InternalFailure''
     (DInt (if 0 < modules_offline a then 2 else if 0 < blocking_discharge a then 1 else 0))"

definition put_voltage_alarms :: "pyfloat \<Rightarrow> pyfloat res \<Rightarrow> pyfloat res \<Rightarrow> pyfloat res \<Rightarrow> pyfloat res \<Rightarrow> action" where
  "put_voltage_alarms v low_critical low high_critical high =
     using_res low_critical (\<lambda>lc. using_res low (\<lambda>l. using_res high_critical (\<lambda>hc. using_res high (\<lambda>h. perform [
       put ''/Alarms/LowVoltage'' (DInt (severity_below lc l v)),
       put ''/Alarms/HighVoltage'' (DInt (severity_above hc h v))]))))"

definition scaled :: "int \<Rightarrow> pyfloat \<Rightarrow> pyfloat res" where
  "scaled n x = and_then (of_pyint n) (\<lambda>k. Inr (fmul k x))"

definition update_voltage_alarms :: "aggregate \<Rightarrow> action" where
  "update_voltage_alarms a = (let v = tot_voltage (agg_totals a); n = agg_cell_count a in
     if fle v (Fin 0) then perform []
     else reading (\<lambda>s. case cl_topology (sv_mqtt s) of
       Some t \<Rightarrow> (case protection_profile t of
          None \<Rightarrow> using_res (check False (ValueError ''managed topology requires an explicit protection profile'')) (\<lambda>_. perform [])
        | Some p \<Rightarrow> put_voltage_alarms v (scaled n (discharge_cell_cutoff p)) (scaled n (discharge_cell_start_limit p))
            (scaled n (cell_cutoff p)) (scaled n (cell_near_full p)))
     | None \<Rightarrow> using_res (scaled n (fl (32 / 10))) (\<lambda>nominal.
         put_voltage_alarms v (scaled n (fl (28 / 10))) (Inr (fmul nominal (fl (9 / 10))))
           (scaled n (fl (365 / 100))) (Inr (fmul nominal (fl (11 / 10)))))))"

definition update_alarms :: "pyfloat \<Rightarrow> aggregate \<Rightarrow> action" where
  "update_alarms wall a = (let lo = map_option fst (agg_min_cell a); hi = map_option fst (agg_max_cell a) in perform [
     update_soc_alarm wall a, update_low_cell_voltage_alarm lo, update_high_cell_voltage_alarm hi,
     update_cell_imbalance_alarm lo hi, update_temperature_alarms a, update_internal_failure_alarm a,
     update_voltage_alarms a])"

section \<open>Current limits\<close>

text \<open>The keys of the aggregate the controller reads.\<close>

definition dvcc_input_of :: "aggregate \<Rightarrow> dvcc_input" where
  "dvcc_input_of a = \<lparr>in_max_cell = map_option fst (agg_max_cell a), in_min_cell = map_option fst (agg_min_cell a),
     in_max_cell_id = map_option snd (agg_max_cell a), in_min_cell_id = map_option snd (agg_min_cell a),
     in_max_temp = Some (agg_max_temp a), in_min_temp = Some (agg_min_temp a), in_soc = Some (tot_soc (agg_totals a)),
     in_allow_charge = allow_charge a, in_allow_discharge = allow_discharge a\<rparr>"

text \<open>Whether the status line is due: always when heavily limited, else after an interval.\<close>

definition status_due :: "pyfloat \<Rightarrow> pyfloat \<Rightarrow> service \<Rightarrow> bool" where
  "status_due wall limit s =
     (let maximum = (case control_profile s of Some p \<Rightarrow> max_charge_current p | None \<Rightarrow> DVCC_MAX_CHARGE_CURRENT);
          limiting = flt limit (fmul maximum (fl (9 / 10)));
          interval = (if limiting then dvcc_log_interval s else dvcc_log_interval s * 4)
      in flt limit (fmul maximum (Fin (1 / 2))) \<or> flt (Fin (of_int interval)) (fsub wall (last_dvcc_log s)))"

definition update_dvcc :: "pyfloat \<Rightarrow> pyfloat \<Rightarrow> aggregate \<Rightarrow> action" where
  "update_dvcc clk wall a = reading (\<lambda>s. case calculate clk (dvcc_input_of a) (sv_dvcc s) of (r, c) \<Rightarrow> perform [
     modify (\<lambda>t. t\<lparr>sv_dvcc := c\<rparr>),
     using_res r (\<lambda>d. perform [
       put MAX_CHARGE_CURRENT (DFloat (ccl d)), put MAX_DISCHARGE_CURRENT (DFloat (dcl d)),
       put ''/Info/MaxChargeVoltage'' (DFloat (cvl d)),
       when_some (out_max_cell d) (put_round ''/Info/MaxChargeCellVoltage'' 3),
       modify (\<lambda>t. if status_due wall (ccl d) t then t\<lparr>last_dvcc_log := wall\<rparr> else t)])])"

definition limit_paths :: "string list" where
  "limit_paths = [MAX_CHARGE_CURRENT, MAX_DISCHARGE_CURRENT]"

text \<open>\<open>min(value, previous)\<close>: the published value unless the previous one is smaller.\<close>

definition hold_limit :: "string \<Rightarrow> pyfloat \<Rightarrow> action" where
  "hold_limit p previous = reading (\<lambda>s. using_res (num_at p s) (\<lambda>x. put p (DFloat (fmin x previous))))"

definition zero_at :: "string \<Rightarrow> service \<Rightarrow> bool" where
  "zero_at p s = (num_at p s = Inr (Fin 0))"

definition telemetry_state_of :: "aggregate \<Rightarrow> service \<Rightarrow> string" where
  "telemetry_state_of a s = (if zero_at MAX_CHARGE_CURRENT s \<or> zero_at MAX_DISCHARGE_CURRENT s then ''PROTECTION''
     else if agg_partial a then ''DEGRADED'' else ''READY'')"

definition apply_partial_frame_limits :: "aggregate \<Rightarrow> action" where
  "apply_partial_frame_limits a = perform [
     reading (\<lambda>s. case previous_limits s of
        Some (charge, discharge) \<Rightarrow> if agg_partial a
          then perform [hold_limit MAX_CHARGE_CURRENT charge, hold_limit MAX_DISCHARGE_CURRENT discharge] else perform []
      | None \<Rightarrow> perform []),
     reading (\<lambda>s. using_res (num_at MAX_CHARGE_CURRENT s) (\<lambda>x. using_res (num_at MAX_DISCHARGE_CURRENT s) (\<lambda>y.
       modify (\<lambda>t. t\<lparr>previous_limits := Some (x, y), sv_dvcc := (sv_dvcc t)\<lparr>last_ccl := x, last_dcl := y\<rparr>\<rparr>)))),
     reading (\<lambda>s. if zero_at MAX_CHARGE_CURRENT s then put ALLOW_CHARGE (DInt 0) else perform []),
     reading (\<lambda>s. if zero_at MAX_DISCHARGE_CURRENT s then put ALLOW_DISCHARGE (DInt 0) else perform []),
     reading (\<lambda>s. put TELEMETRY_STATE (DStr (telemetry_state_of a s)))]"

section \<open>One update\<close>

text \<open>The measurements of a complete snapshot, up to the permissions.\<close>

definition publish_measurements :: "pyfloat \<Rightarrow> aggregate \<Rightarrow> action" where
  "publish_measurements clk a = (let tot = agg_totals a in perform [
     modify (\<lambda>s. s\<lparr>has_ready_data := True\<rparr>),
     put ''/Connected'' (DInt 1),
     put ''/Info/TelemetrySource'' (DStr (agg_source a)), put ''/Info/TelemetryPartial'' (flag (agg_partial a)),
     put ''/Info/MissingData'' (DStr (agg_missing a)), put DATA_COMPLETE (DInt 1),
     put ''/Info/DataAge'' (DFloat (fmax2 (Fin 0) (fsub clk (agg_oldest a)))),
     put ''/Info/LastMeasurementMonotonic'' (DFloat (agg_oldest a)),
     set_communication_error False,
     put_round PATH_DC_VOLTAGE 2 (tot_voltage tot), put_round PATH_DC_CURRENT 2 (tot_current tot),
     put_round PATH_DC_POWER 0 (tot_power tot), put_round ''/Dc/0/Temperature'' 1 (agg_temperature a),
     put_round ''/Soc'' 1 (tot_soc tot),
     (case tot_capacity tot of None \<Rightarrow> put ''/Capacity'' DNone | Some c \<Rightarrow> put_round ''/Capacity'' 1 c),
     (if flt (Fin 0) (capacity_full a) then put_round ''/InstalledCapacity'' 0 (capacity_full a) else perform []),
     update_time_to_go a,
     reading (\<lambda>s. put ''/System/NrOfCellsPerBattery'' (opt_int (uniform_cells_per_bms (sv_mqtt s)))),
     update_cell_voltages a, update_temperature_paths a, update_module_status (Some a),
     put ''/History/ChargeCycles'' (opt_int (agg_cycles a))])"

text \<open>The permissions, alarms and limits.\<close>

definition publish_control :: "pyfloat \<Rightarrow> pyfloat \<Rightarrow> aggregate \<Rightarrow> action" where
  "publish_control clk wall a = perform [
     put ALLOW_CHARGE (flag (allow_charge a)), put ALLOW_DISCHARGE (flag (allow_discharge a)),
     update_alarms wall a, update_dvcc clk wall a, apply_partial_frame_limits a]"

definition publish_snapshot :: "pyfloat \<Rightarrow> pyfloat \<Rightarrow> aggregate option \<Rightarrow> action" where
  "publish_snapshot clk wall data = (case data of
     None \<Rightarrow> set_unavailable clk None
   | Some a \<Rightarrow> if \<not> data_complete a then set_unavailable clk (Some a)
       else perform [publish_measurements clk a, publish_control clk wall a])"

text \<open>\<open>update\<close>: after any exception the service is made unavailable and the exception goes on.\<close>

definition update_service :: "pyfloat \<Rightarrow> pyfloat \<Rightarrow> action" where
  "update_service clk wall s =
     (case get_aggregate_data clk (sv_mqtt s) of (r, m) \<Rightarrow>
       let s1 = s\<lparr>sv_mqtt := m\<rparr> in
       case using_res r (publish_snapshot clk wall) s1 of
         (None, t) \<Rightarrow> (None, t)
       | (Some e, t) \<Rightarrow> (case set_unavailable clk None t of (None, u) \<Rightarrow> (Some e, u) | (Some e', u) \<Rightarrow> (Some e', u)))"

section \<open>Construction\<close>

definition exact :: "int \<Rightarrow> pyfloat" where "exact i = Fin (of_int i)"

text \<open>The thresholds in force: a managed chain's profile replaces all but those of the state of charge.\<close>

definition alarm_limits_of :: "battery_config \<Rightarrow> dvcc_profile option \<Rightarrow> alarm_limits" where
  "alarm_limits_of b profile = (case profile of
     None \<Rightarrow> \<lparr>al_low_soc = exact (low_soc b), al_low_soc_critical = exact (low_soc_critical b),
       al_low_cell = low_cell_voltage b, al_low_cell_critical = low_cell_critical b,
       al_high_cell = high_cell_voltage b, al_high_cell_critical = high_cell_critical b, al_imbalance = cell_imbalance b,
       al_high_temp = exact (high_temp b), al_high_temp_critical = exact (high_temp_critical b),
       al_low_temp = exact (low_temp b), al_low_temp_critical = exact (low_temp_critical b)\<rparr>
   | Some p \<Rightarrow> \<lparr>al_low_soc = exact (low_soc b), al_low_soc_critical = exact (low_soc_critical b),
       al_low_cell = discharge_cell_start_limit p, al_low_cell_critical = discharge_cell_cutoff p,
       al_high_cell = cell_near_full p, al_high_cell_critical = cell_cutoff p, al_imbalance = imbalance_aggressive p,
       al_high_temp = temp_full_current_max p, al_high_temp_critical = temp_stop_charge_high p,
       al_low_temp = temp_full_current_min p, al_low_temp_critical = temp_stop_charge p\<rparr>)"

definition managed_profile :: "mqtt_client \<Rightarrow> dvcc_profile option res" where
  "managed_profile m = (case cl_topology m of None \<Rightarrow> Inr None
   | Some t \<Rightarrow> if chain_output t \<noteq> ''managed'' then Inl (ValueError ''offline topology cannot register a D-Bus battery service'')
       else if protection_profile t = None then Inl (ValueError ''managed topology requires an explicit protection profile'')
       else Inr (protection_profile t))"

definition initial_service :: "mqtt_client \<Rightarrow> battery_config \<Rightarrow> dvcc_profile option \<Rightarrow> dvcc_controller \<Rightarrow> path_list \<Rightarrow> service" where
  "initial_service m b profile ctl ps = \<lparr>sv_mqtt = m, sv_limits = alarm_limits_of b profile, sv_dvcc = ctl,
     control_profile = profile, dvcc_log_interval = 30, last_dvcc_log = Fin 0, soc_alarm_log_state = None,
     soc_alarm_log_time = Fin 0, comm_alarm_active = False, has_ready_data = False, previous_limits = None,
     paths = map_of ps\<rparr>"

text \<open>The constructor: the first update comes before the service is announced.\<close>

definition new_service :: "string \<Rightarrow> pyfloat \<Rightarrow> pyfloat \<Rightarrow> mqtt_client \<Rightarrow> config \<Rightarrow> service res" where
  "new_service script clk wall m cfg = and_then (managed_profile m) (\<lambda>profile.
     and_then (new_controller clk (configured_cells m) (battery_count m) profile) (\<lambda>ctl.
       let s = initial_service m (cfg_battery cfg) profile ctl
         (setup_paths script (db_instance (cfg_dbus cfg)) (db_product (cfg_dbus cfg)) m)
       in case update_service clk wall s of (None, t) \<Rightarrow> Inr t | (Some e, t) \<Rightarrow> Inl e))"

end
