(* ===== verification/ServiceLogic.thy ===== *)
theory ServiceLogic
  imports Service MqttSafety
begin

text \<open>
  Reasoning about the service's actions: what an action leaves untouched (\<open>keeps\<close>), when it cannot
  raise (\<open>safe\<close>), and the facts about registered paths both rest on.
\<close>

named_theorems keep_rules \<open>actions that leave a view of the state untouched\<close>
named_theorems safe_rules \<open>actions that return on registered paths\<close>

section \<open>Views an action keeps\<close>

definition keeps :: "(service \<Rightarrow> 'a) \<Rightarrow> action \<Rightarrow> bool" where
  "keeps f a \<longleftrightarrow> (\<forall>s. f (snd (a s)) = f s)"

lemma keepsD: "keeps f a \<Longrightarrow> a s = (r, t) \<Longrightarrow> f t = f s"
  unfolding keeps_def by (metis snd_conv)

lemma keeps_perform [keep_rules]: "(\<And>a. a \<in> set as \<Longrightarrow> keeps f a) \<Longrightarrow> keeps f (perform as)"
proof (induction as)
  case Nil
  show ?case by (simp add: keeps_def)
next
  case (Cons a as)
  have head: "keeps f a" and tail: "keeps f (perform as)" using Cons by auto
  have "f (snd (perform (a # as) s)) = f s" for s
  proof (cases "a s")
    case (Pair r t)
    then have t: "f t = f s" using keepsD [OF head] by blast
    show ?thesis using Pair t tail by (cases r) (auto simp: keeps_def)
  qed
  then show ?case by (simp add: keeps_def)
qed

lemma keeps_reading [keep_rules]: "(\<And>s. keeps f (k s)) \<Longrightarrow> keeps f (reading k)"
  by (simp add: keeps_def reading_def)

lemma keeps_using [keep_rules]: "(\<And>v. keeps f (k v)) \<Longrightarrow> keeps f (using_res r k)"
  by (cases r) (simp_all add: keeps_def using_res_def)

lemma keeps_when_some [keep_rules]: "(\<And>v. keeps f (k v)) \<Longrightarrow> keeps f (when_some x k)"
  by (cases x) (simp_all add: keeps_def when_some_def)

lemma attempt_state: "snd (attempt as s) = snd (perform as s)"
  by (simp add: attempt_def split: prod.splits option.splits exn.splits)

lemma keeps_attempt [keep_rules]: "(\<And>a. a \<in> set as \<Longrightarrow> keeps f a) \<Longrightarrow> keeps f (attempt as)"
  using keeps_perform [of as f] by (simp add: keeps_def attempt_state)

lemma keeps_if [keep_rules]: "keeps f a \<Longrightarrow> keeps f b \<Longrightarrow> keeps f (if c then a else b)"
  by simp

lemma keeps_modify: "(\<And>s. f (g s) = f s) \<Longrightarrow> keeps f (modify g)"
  by (simp add: keeps_def modify_def)

lemma keeps_put: "(\<And>s. paths s p \<noteq> None \<Longrightarrow> f (s\<lparr>paths := (paths s)(p \<mapsto> v)\<rparr>) = f s) \<Longrightarrow> keeps f (put p v)"
  by (auto simp: keeps_def put_def split: option.splits)

text \<open>The state an update's decisions rest on, apart from the measurements it publishes.\<close>

definition control_view :: "service \<Rightarrow> mqtt_client \<times> alarm_limits \<times> dvcc_controller \<times> dvcc_profile option
    \<times> (pyfloat \<times> pyfloat) option \<times> string set \<times> dbus_val option list" where
  "control_view s = (sv_mqtt s, sv_limits s, sv_dvcc s, control_profile s, previous_limits s, dom (paths s),
     map (paths s) permission_paths)"

lemma permission_path_defs: "permission_paths = [''/Io/AllowToCharge'', ''/Io/AllowToDischarge'', ''/Info/MaxChargeCurrent'', ''/Info/MaxDischargeCurrent'']"
  by (simp add: permission_paths_def ALLOW_CHARGE_def ALLOW_DISCHARGE_def MAX_CHARGE_CURRENT_def MAX_DISCHARGE_CURRENT_def)

lemma keeps_put_view [keep_rules]: "p \<notin> set permission_paths \<Longrightarrow> keeps control_view (put p v)"
  by (rule keeps_put) (auto simp: control_view_def domIff)

lemma keeps_modify_view [keep_rules]:
  "keeps control_view (modify (\<lambda>s. s\<lparr>comm_alarm_active := b\<rparr>))"
  "keeps control_view (modify (\<lambda>s. s\<lparr>has_ready_data := b\<rparr>))"
  "keeps control_view (modify (log_soc_alarm wall severity))"
  by (rule keeps_modify; simp add: control_view_def log_soc_alarm_def Let_def)+

text \<open>Every path outside the four is kept apart from them.\<close>

named_theorems path_defs \<open>the texts of the paths\<close>

lemmas path_texts [path_defs] = PATH_DC_VOLTAGE_def PATH_DC_CURRENT_def PATH_DC_POWER_def PATH_TIME_TO_GO_def
  ALLOW_CHARGE_def ALLOW_DISCHARGE_def MAX_CHARGE_CURRENT_def MAX_DISCHARGE_CURRENT_def TELEMETRY_STATE_def DATA_COMPLETE_def
  cell_path_def cell_balance_path_def legacy_cell_path_def legacy_balance_path_def temperature_path_def

lemma put_round_view: "p \<notin> set permission_paths \<Longrightarrow> keeps control_view (put_round p n x)"
  unfolding put_round_def by (rule keeps_put_view)

lemma keeps_cell [keep_rules]: "keeps control_view (put_cell c)"
  unfolding put_cell_def Let_def
  by (intro keep_rules) (auto intro!: keep_rules simp: permission_path_defs path_defs)

lemma keeps_comm [keep_rules]: "keeps control_view (set_communication_error b)"
  unfolding set_communication_error_def
  by (intro keep_rules) (auto intro!: keep_rules simp: permission_path_defs path_defs)

lemma keeps_modules [keep_rules]: "keeps control_view (update_module_status d)"
  unfolding update_module_status_def Let_def
  by (intro keep_rules) (auto intro!: keep_rules simp: permission_path_defs path_defs split: prod.splits)

lemma keeps_time_to_go [keep_rules]: "keeps control_view (update_time_to_go a)"
  unfolding update_time_to_go_def put_hours_def Let_def
  by (auto intro!: keep_rules simp: permission_path_defs path_defs split: option.splits)

lemma keeps_cells [keep_rules]: "keeps control_view (update_cell_voltages a)"
  unfolding update_cell_voltages_def put_round_def
  by (intro keep_rules) (auto intro!: keep_rules simp: permission_path_defs path_defs split: option.splits prod.splits)

lemma keeps_temperatures [keep_rules]: "keeps control_view (update_temperature_paths a)"
  unfolding update_temperature_paths_def put_round_def
  by (intro keep_rules) (auto intro!: keep_rules simp: permission_path_defs path_defs)

lemma keeps_voltage_alarms: "keeps control_view (put_voltage_alarms v r1 r2 r3 r4)"
  unfolding put_voltage_alarms_def
  by (intro keep_rules) (auto intro!: keep_rules simp: permission_path_defs path_defs)

lemma keeps_alarms [keep_rules]: "keeps control_view (update_alarms wall a)"
  unfolding update_alarms_def Let_def
  by (intro keep_rules)
    (auto intro!: keep_rules keeps_voltage_alarms simp: permission_path_defs path_defs update_soc_alarm_def
      update_low_cell_voltage_alarm_def update_high_cell_voltage_alarm_def update_cell_imbalance_alarm_def
      update_temperature_alarms_def update_internal_failure_alarm_def update_voltage_alarms_def Let_def split: option.splits)

lemma keeps_measurements [keep_rules]: "keeps control_view (publish_measurements clk a)"
  unfolding publish_measurements_def Let_def
  by (intro keep_rules) (auto intro!: keep_rules simp: permission_path_defs path_defs put_round_def split: option.splits)

section \<open>Actions that cannot raise\<close>

text \<open>The paths the service registers for a client; the configuration alone decides them.\<close>

definition registered :: "mqtt_client \<Rightarrow> string set" where
  "registered m = set (map fst (setup_paths [] 0 [] m))"

definition declared :: "service \<Rightarrow> bool" where
  "declared s \<longleftrightarrow> registered (sv_mqtt s) \<subseteq> dom (paths s)"

definition safe :: "action \<Rightarrow> bool" where
  "safe a \<longleftrightarrow> (\<forall>s. declared s \<longrightarrow> fst (a s) = None \<and> declared (snd (a s)) \<and> sv_mqtt (snd (a s)) = sv_mqtt s)"

lemma safeD: "safe a \<Longrightarrow> declared s \<Longrightarrow> \<exists>t. a s = (None, t) \<and> declared t \<and> sv_mqtt t = sv_mqtt s"
  unfolding safe_def by (metis prod.collapse)

lemma safe_perform [safe_rules]: "(\<And>a. a \<in> set as \<Longrightarrow> safe a) \<Longrightarrow> safe (perform as)"
proof (induction as)
  case Nil
  show ?case by (simp add: safe_def)
next
  case (Cons a as)
  have head: "safe a" and tail: "safe (perform as)" using Cons by auto
  show ?case unfolding safe_def
  proof (intro allI impI)
    fix s assume "declared s"
    then obtain t where t: "a s = (None, t)" "declared t" "sv_mqtt t = sv_mqtt s" using safeD [OF head] by blast
    then show "fst (perform (a # as) s) = None \<and> declared (snd (perform (a # as) s)) \<and> sv_mqtt (snd (perform (a # as) s)) = sv_mqtt s"
      using tail by (simp add: safe_def)
  qed
qed

lemma safe_reading [safe_rules]: "(\<And>s. safe (k s)) \<Longrightarrow> safe (reading k)"
  by (simp add: safe_def reading_def)

lemma safe_modify [safe_rules]: "(\<And>s. sv_mqtt (g s) = sv_mqtt s \<and> paths (g s) = paths s) \<Longrightarrow> safe (modify g)"
  by (simp add: safe_def modify_def declared_def)

definition common_paths :: "string list" where
  "common_paths = map fst (setup_dbus_paths_common [] [] [] 0 [] [] @ setup_dbus_paths_dc)
     @ [''/Soc'', ''/Capacity'', ''/System/MinCellVoltage'', ''/System/MaxCellVoltage'', ''/Voltages/Sum'', ''/Voltages/Diff'']
     @ map fst (control_paths (initial_client \<lparr>arg_broker = [], arg_port = 0, arg_battery_count = 0, arg_prefix = [],
         arg_capacity = Fin 0, arg_bms_first = 0, arg_cells = 0, arg_temps = 0, arg_mode = [], arg_local_only = False,
         arg_topology = None\<rparr> []))"

lemma registered_keys:
  "map fst (setup_dbus_paths_common a b c d e f) = map fst (setup_dbus_paths_common [] [] [] 0 [] [])"
  "map fst (control_paths m) = map fst (control_paths m')"
  "set [''/Soc'', ''/Capacity'', ''/System/MinCellVoltage'', ''/System/MaxCellVoltage'', ''/Voltages/Sum'', ''/Voltages/Diff'']
     \<subseteq> set (map fst (system_paths m))"
  by (simp_all add: setup_dbus_paths_common_def control_paths_def system_paths_def)

lemma common_registered: "p \<in> set common_paths \<Longrightarrow> p \<in> registered m"
  unfolding common_paths_def registered_def setup_paths_def map_append set_append
    registered_keys(2) [of m "initial_client \<lparr>arg_broker = [], arg_port = 0, arg_battery_count = 0, arg_prefix = [],
         arg_capacity = Fin 0, arg_bms_first = 0, arg_cells = 0, arg_temps = 0, arg_mode = [], arg_local_only = False,
         arg_topology = None\<rparr> []"] registered_keys(1) [of "[]" "''2.8.0''" "''MQTT ESP32''" 0 "[]" "''ESP32 BLE Proxy''"]
  using registered_keys(3) [of m] by blast

lemma safe_put [safe_rules]: "p \<in> set common_paths \<Longrightarrow> safe (put p v)"
  using common_registered [of p] by (auto simp: safe_def put_def declared_def split: option.splits)

lemma common_paths_list: "list_all (\<lambda>p. p \<in> set common_paths)
  ([''/Connected'', ''/Alarms/CommunicationError'', ''/System/StaleData'', ''/Alarms/InternalFailure'', TELEMETRY_STATE,
    ''/Info/TelemetrySource'', ''/Info/TelemetryPartial'', ''/Info/MissingData'', DATA_COMPLETE, ''/Info/DataAge'',
    ''/Info/LastMeasurementMonotonic'', ''/System/NrOfModulesOnline'', ''/System/NrOfModulesOffline'',
    ''/System/NrOfModulesBlockingCharge'', ''/System/NrOfModulesBlockingDischarge'', ''/Info/MaxChargeVoltage'',
    ''/Info/MaxChargeCellVoltage''] @ permission_paths @ measurement_paths)"
  by code_simp

lemma cells_registered:
  assumes "0 \<le> i" "i < configured_cells m"
  shows "cell_path i \<in> registered m" "legacy_cell_path (i + 1) \<in> registered m"
  using assms by (auto simp: registered_def setup_paths_def cell_paths_def image_Un image_UN)

lemma puts_registered:
  "declared s \<Longrightarrow> set ps \<subseteq> registered (sv_mqtt s) \<Longrightarrow>
    \<exists>t. perform (map (\<lambda>p. put p v) ps) s = (None, t) \<and> declared t \<and> sv_mqtt t = sv_mqtt s"
proof (induction ps arbitrary: s)
  case Nil
  then show ?case by simp
next
  case (Cons p ps)
  let ?t = "s\<lparr>paths := (paths s)(p \<mapsto> v)\<rparr>"
  have "p \<in> dom (paths s)" using Cons.prems by (auto simp: declared_def)
  then have "put p v s = (None, ?t)" by (auto simp: put_def)
  moreover have "declared ?t" "sv_mqtt ?t = sv_mqtt s" using Cons.prems(1) by (auto simp: declared_def)
  ultimately show ?case using Cons.IH [of ?t] Cons.prems(2) by auto
qed

lemma safe_cells: "safe (reading (\<lambda>s. perform (concat (map (\<lambda>i. [put (cell_path i) DNone, put (legacy_cell_path (i + 1)) DNone])
    (range_of 0 (configured_cells (sv_mqtt s)))))))"
  unfolding safe_def reading_def
proof (intro allI impI)
  fix s assume d: "declared s"
  let ?n = "configured_cells (sv_mqtt s)"
  let ?ps = "concat (map (\<lambda>i. [cell_path i, legacy_cell_path (i + 1)]) (range_of 0 ?n))"
  have "set ?ps \<subseteq> registered (sv_mqtt s)" using cells_registered by auto
  from puts_registered [OF d this, of DNone]
  have "\<exists>t. perform (map (\<lambda>p. put p DNone) ?ps) s = (None, t) \<and> declared t \<and> sv_mqtt t = sv_mqtt s" .
  moreover have "map (\<lambda>p. put p DNone) ?ps = concat (map (\<lambda>i. [put (cell_path i) DNone, put (legacy_cell_path (i + 1)) DNone]) (range_of 0 ?n))"
    by (simp add: map_concat comp_def)
  ultimately show "fst (perform (concat (map (\<lambda>i. [put (cell_path i) DNone, put (legacy_cell_path (i + 1)) DNone]) (range_of 0 ?n))) s) = None
      \<and> declared (snd (perform (concat (map (\<lambda>i. [put (cell_path i) DNone, put (legacy_cell_path (i + 1)) DNone]) (range_of 0 ?n))) s))
      \<and> sv_mqtt (snd (perform (concat (map (\<lambda>i. [put (cell_path i) DNone, put (legacy_cell_path (i + 1)) DNone]) (range_of 0 ?n))) s)) = sv_mqtt s"
    by auto
qed

lemmas common_members = common_paths_list [unfolded list_all_iff, rule_format]

lemma safe_fixed [safe_rules]:
  "p \<in> set ([''/Connected'', ''/Alarms/CommunicationError'', ''/System/StaleData'', ''/Alarms/InternalFailure'', TELEMETRY_STATE,
    ''/Info/TelemetrySource'', ''/Info/TelemetryPartial'', ''/Info/MissingData'', DATA_COMPLETE, ''/Info/DataAge'',
    ''/Info/LastMeasurementMonotonic'', ''/System/NrOfModulesOnline'', ''/System/NrOfModulesOffline'',
    ''/System/NrOfModulesBlockingCharge'', ''/System/NrOfModulesBlockingDischarge'', ''/Info/MaxChargeVoltage'',
    ''/Info/MaxChargeCellVoltage''] @ permission_paths @ measurement_paths) \<Longrightarrow> safe (put p v)"
  by (rule safe_put) (rule common_members)

lemma safe_communication: "safe (set_communication_error b)"
  unfolding set_communication_error_def
  by (rule safe_reading, rule safe_perform) (auto intro!: safe_fixed safe_modify)

lemma safe_modules: "safe (update_module_status d)"
  unfolding update_module_status_def Let_def
  by (rule safe_reading) (auto intro!: safe_perform safe_fixed split: prod.splits)

lemma safe_unavailable: "safe (set_unavailable clk d)"
  unfolding set_unavailable_def
  by (rule safe_perform, simp only: set_simps(2) insert_iff, elim disjE; (simp only:)?)
    (auto intro!: safe_communication safe_modules safe_cells safe_perform safe_reading safe_fixed safe_modify)

end
