(* ===== verification/ServiceProps.thy ===== *)
theory ServiceProps
  imports ServiceLogic MqttProps
begin

text \<open>
  What the service promises the chargers and loads: without complete data, or after any exception,
  nothing is permitted; a permission always has complete data and a limit behind it; a partial frame
  never relaxes a limit; and after an outage only a full frame permits anything again.
\<close>

section \<open>The unavailable state\<close>

definition closed :: "service \<Rightarrow> bool" where
  "closed s \<longleftrightarrow> (\<forall>p \<in> set permission_paths. paths s p = Some (DInt 0)) \<and> paths s DATA_COMPLETE = Some (DInt 0)"

lemma perform_append: "perform (as @ bs) s = (case perform as s of (None, t) \<Rightarrow> perform bs t | (Some e, t) \<Rightarrow> (Some e, t))"
  by (induction as arbitrary: s) (auto split: prod.splits option.splits)

definition values_at :: "string list \<Rightarrow> service \<Rightarrow> dbus_val option list" where
  "values_at ps s = map (paths s) ps"

lemma keeps_values_put [keep_rules]: "p \<notin> set ps \<Longrightarrow> keeps (values_at ps) (put p v)"
  by (rule keeps_put) (auto simp: values_at_def)

lemma keeps_values_modify: "(\<And>s. paths (g s) = paths s) \<Longrightarrow> keeps (values_at ps) (modify g)"
  by (rule keeps_modify) (simp add: values_at_def)

lemma put_None: "put p v s = (None, t) \<Longrightarrow> t = s\<lparr>paths := (paths s)(p \<mapsto> v)\<rparr>"
  by (auto simp: put_def split: option.splits)

lemma puts_written:
  assumes "perform (map (\<lambda>p. put p v) ps) s = (None, t)" "p \<in> set ps"
  shows "paths t p = Some v"
  using assms
proof (induction ps arbitrary: s)
  case (Cons q ps)
  obtain u where u: "put q v s = (None, u)" and rest: "perform (map (\<lambda>p. put p v) ps) u = (None, t)"
    using Cons.prems(1) by (auto split: prod.splits option.splits)
  show ?case
  proof (cases "p \<in> set ps")
    case False
    then have "keeps (values_at [p]) (perform (map (\<lambda>p. put p v) ps))" by (auto intro!: keep_rules)
    from keepsD [OF this rest] show ?thesis using False Cons.prems(2) put_None [OF u] by (simp add: values_at_def)
  qed (rule Cons.IH [OF rest])
qed simp

text \<open>What survives: the client, the thresholds, the controller; the latch is set once data was ready.\<close>

definition core :: "service \<Rightarrow> mqtt_client \<times> alarm_limits \<times> dvcc_controller \<times> dvcc_profile option \<times> bool" where
  "core s = (sv_mqtt s, sv_limits s, sv_dvcc s, control_profile s, has_ready_data s)"

lemma keeps_core_put [keep_rules]: "keeps core (put p v)" "keeps previous_limits (put p v)"
  by (auto intro!: keeps_put simp: core_def)

lemma keeps_core_modify [keep_rules]: "keeps core (modify (\<lambda>s. if has_ready_data s then s\<lparr>previous_limits := x\<rparr> else s))"
  "keeps core (modify (\<lambda>s. s\<lparr>comm_alarm_active := b\<rparr>))" "keeps previous_limits (modify (\<lambda>s. s\<lparr>comm_alarm_active := b\<rparr>))"
  by (auto intro!: keeps_modify simp: core_def)

text \<open>The list of \<open>set_unavailable\<close> cut before the permissions.\<close>

definition unavailable_front :: "pyfloat \<Rightarrow> aggregate option \<Rightarrow> action list" where
  "unavailable_front clk data = [
     put ''/Connected'' (DInt 0),
     set_communication_error True,
     reading (\<lambda>s. put ''/Alarms/InternalFailure'' (DInt (if has_ready_data s then 2 else 0))),
     reading (\<lambda>s. put TELEMETRY_STATE (DStr (if has_ready_data s then ''STALE'' else ''INITIALIZING''))),
     reading (\<lambda>s. put ''/Info/TelemetrySource'' (DStr (telemetry_source (sv_mqtt s)))),
     reading (\<lambda>s. put ''/Info/TelemetryPartial'' (flag (telemetry_partial (sv_mqtt s)))),
     reading (\<lambda>s. put ''/Info/MissingData'' (DStr (case data of Some a \<Rightarrow> agg_missing a
       | None \<Rightarrow> missing_data_reason clk (sv_mqtt s))))]"

definition unavailable_back :: "aggregate option \<Rightarrow> action list" where
  "unavailable_back data = [perform (map (\<lambda>p. put p DNone) measurement_paths),
     reading (\<lambda>s. perform (concat (map (\<lambda>i. [put (cell_path i) DNone, put (legacy_cell_path (i + 1)) DNone])
       (range_of 0 (configured_cells (sv_mqtt s))))))]"

lemma set_unavailable_split:
  "set_unavailable clk data = perform (unavailable_front clk data @
     [put DATA_COMPLETE (DInt 0), put ''/Info/DataAge'' DNone, put ''/Info/LastMeasurementMonotonic'' DNone,
      modify (\<lambda>s. if has_ready_data s then s\<lparr>previous_limits := Some (Fin 0, Fin 0)\<rparr> else s),
      update_module_status data] @ [perform (map (\<lambda>p. put p (DInt 0)) permission_paths)] @ unavailable_back data)"
  by (simp add: set_unavailable_def unavailable_front_def unavailable_back_def)

lemma perform_None: "perform (as @ bs) s = (None, t) \<Longrightarrow> \<exists>u. perform as s = (None, u) \<and> perform bs u = (None, t)"
  by (auto simp: perform_append split: prod.splits option.splits)

lemma perform_mid: "perform (as @ a # bs) s = (None, t) \<Longrightarrow>
    \<exists>u w. perform as s = (None, u) \<and> a u = (None, w) \<and> perform bs w = (None, t)"
  by (auto dest!: perform_None split: prod.splits option.splits)

text \<open>A path written by one action and left alone by the rest ends with that value.\<close>

lemma written_last:
  assumes "perform (as @ a # bs) s = (None, t)"
    and "\<And>s t. a s = (None, t) \<Longrightarrow> values_at ps t = vs"
    and "\<And>b. b \<in> set bs \<Longrightarrow> keeps (values_at ps) b"
  shows "values_at ps t = vs"
proof -
  obtain u w where u: "a u = (None, w)" "perform bs w = (None, t)"
    using assms(1) by (auto dest!: perform_None split: prod.splits option.splits)
  have "keeps (values_at ps) (perform bs)" by (rule keeps_perform) (rule assms(3))
  from keepsD [OF this u(2)] assms(2) [OF u(1)] show ?thesis by simp
qed

lemma back_keeps:
  assumes "set ps \<subseteq> set (DATA_COMPLETE # permission_paths)" "b \<in> set (unavailable_back data)"
  shows "keeps (values_at ps) b"
proof -
  have "p \<notin> set ps" if "p \<in> set measurement_paths" for p
    using assms(1) that by (auto simp: permission_path_defs measurement_paths_def path_defs)
  moreover have "cell_path i \<notin> set ps" "legacy_cell_path i \<notin> set ps" for i
    using assms(1) by (auto simp: permission_path_defs path_defs)
  ultimately show ?thesis using assms(2) by (auto simp: unavailable_back_def intro!: keep_rules)
qed

lemma unavailable_closed:
  assumes "set_unavailable clk data s = (None, t)"
  shows "closed t"
proof -
  let ?mid = "[put ''/Info/DataAge'' DNone, put ''/Info/LastMeasurementMonotonic'' DNone,
      modify (\<lambda>s. if has_ready_data s then s\<lparr>previous_limits := Some (Fin 0, Fin 0)\<rparr> else s), update_module_status data]"
  let ?perm = "perform (map (\<lambda>p. put p (DInt 0)) permission_paths)"
  have split: "perform ((unavailable_front clk data @ put DATA_COMPLETE (DInt 0) # ?mid) @ ?perm # unavailable_back data) s = (None, t)"
    "perform (unavailable_front clk data @ put DATA_COMPLETE (DInt 0) # (?mid @ ?perm # unavailable_back data)) s = (None, t)"
    using assms by (simp_all add: set_unavailable_split)
  have "values_at permission_paths t = map (\<lambda>_. Some (DInt 0)) permission_paths"
    by (rule written_last [OF split(1)]) (auto simp: values_at_def dest: puts_written intro: back_keeps)
  moreover have "values_at [DATA_COMPLETE] t = [Some (DInt 0)]"
  proof (rule written_last [OF split(2)])
    fix b assume "b \<in> set (?mid @ ?perm # unavailable_back data)"
    moreover have "keeps (values_at [DATA_COMPLETE]) c" if "c \<in> set (unavailable_back data)" for c
      using back_keeps [OF _ that, of "[DATA_COMPLETE]"] by simp
    ultimately show "keeps (values_at [DATA_COMPLETE]) b"
      by (auto intro!: keep_rules keeps_values_modify simp: path_defs permission_path_defs update_module_status_def Let_def split: prod.splits)
  qed (auto simp: values_at_def dest: put_None)
  ultimately show ?thesis by (auto simp: closed_def values_at_def)
qed

lemma front_keeps: "a \<in> set (unavailable_front clk data) \<Longrightarrow> keeps core a \<and> keeps previous_limits a"
  by (auto simp: unavailable_front_def set_communication_error_def intro!: keep_rules)

lemma modules_keep: "keeps core (update_module_status d)" "keeps previous_limits (update_module_status d)"
  unfolding update_module_status_def Let_def by (auto intro!: keep_rules split: prod.splits)

lemma unavailable_core:
  assumes "set_unavailable clk data s = (None, t)"
  shows "core t = core s" "previous_limits t = (if has_ready_data s then Some (Fin 0, Fin 0) else previous_limits s)"
proof -
  let ?set = "modify (\<lambda>s. if has_ready_data s then s\<lparr>previous_limits := Some (Fin 0, Fin 0)\<rparr> else s)"
  let ?pre = "unavailable_front clk data @ [put DATA_COMPLETE (DInt 0), put ''/Info/DataAge'' DNone, put ''/Info/LastMeasurementMonotonic'' DNone]"
  let ?post = "update_module_status data # perform (map (\<lambda>p. put p (DInt 0)) permission_paths) # unavailable_back data"
  have "perform (?pre @ ?set # ?post) s = (None, t)" using assms by (simp add: set_unavailable_split)
  then obtain u w where u: "perform ?pre s = (None, u)" "?set u = (None, w)" "perform ?post w = (None, t)"
    using perform_mid [of ?pre ?set ?post] by blast
  have front: "keeps core (perform (unavailable_front clk data))" "keeps previous_limits (perform (unavailable_front clk data))"
    using front_keeps by (blast intro: keeps_perform)+
  have rest: "keeps core (perform [put DATA_COMPLETE (DInt 0), put ''/Info/DataAge'' DNone, put ''/Info/LastMeasurementMonotonic'' DNone])"
    "keeps previous_limits (perform [put DATA_COMPLETE (DInt 0), put ''/Info/DataAge'' DNone, put ''/Info/LastMeasurementMonotonic'' DNone])"
    by (auto intro!: keep_rules)
  obtain v where v: "perform (unavailable_front clk data) s = (None, v)"
    "perform [put DATA_COMPLETE (DInt 0), put ''/Info/DataAge'' DNone, put ''/Info/LastMeasurementMonotonic'' DNone] v = (None, u)"
    using perform_None [OF u(1)] by blast
  have "keeps core (perform (map (\<lambda>p. put p v) ps))" "keeps previous_limits (perform (map (\<lambda>p. put p v) ps))" for v and ps :: "string list"
    by (auto intro!: keep_rules)
  then have post: "keeps core (perform ?post)" "keeps previous_limits (perform ?post)"
    unfolding unavailable_back_def by (auto intro!: keep_rules modules_keep)
  have "core u = core s" "previous_limits u = previous_limits s" "core t = core w" "previous_limits t = previous_limits w"
    using keepsD [OF front(1) v(1)] keepsD [OF front(2) v(1)] keepsD [OF rest(1) v(2)] keepsD [OF rest(2) v(2)] keepsD [OF post(1) u(3)] keepsD [OF post(2) u(3)] by simp_all
  moreover have "core w = core u" "previous_limits w = (if has_ready_data u then Some (Fin 0, Fin 0) else previous_limits u)"
    using u(2) by (auto simp: modify_def core_def split: if_splits)
  ultimately show "core t = core s" "previous_limits t = (if has_ready_data s then Some (Fin 0, Fin 0) else previous_limits s)"
    by (auto simp: core_def)
qed

lemma unavailable_total:
  assumes "declared s"
  obtains t where "set_unavailable clk data s = (None, t)" "declared t" "closed t" "core t = core s"
    "previous_limits t = (if has_ready_data s then Some (Fin 0, Fin 0) else previous_limits s)"
  using safeD [OF safe_unavailable assms] unavailable_closed unavailable_core by metis

section \<open>A published snapshot\<close>

definition wiring :: "service \<Rightarrow> mqtt_client \<times> string set" where
  "wiring s = (sv_mqtt s, dom (paths s))"

lemma keeps_wiring_view: "keeps control_view a \<Longrightarrow> keeps wiring a"
  by (auto simp: keeps_def wiring_def control_view_def)

lemma keeps_wiring_put [keep_rules]: "keeps wiring (put p v)"
  by (rule keeps_put) (auto simp: wiring_def domIff)

lemma wiring_declared: "wiring t = wiring s \<Longrightarrow> declared s \<Longrightarrow> declared t"
  by (simp add: wiring_def declared_def)

lemma keeps_wiring_dvcc [keep_rules]: "keeps wiring (update_dvcc clk wall a)"
  unfolding update_dvcc_def put_round_def
  by (auto intro!: keep_rules keeps_modify simp: wiring_def split: prod.splits)

lemma keeps_wiring_hold [keep_rules]: "keeps wiring (hold_limit p x)"
  unfolding hold_limit_def by (auto intro!: keep_rules)

lemma keeps_wiring_partial [keep_rules]: "keeps wiring (apply_partial_frame_limits a)"
  unfolding apply_partial_frame_limits_def
  by (auto intro!: keep_rules keeps_modify simp: wiring_def split: option.splits)

lemmas keeps_wiring_parts [keep_rules] = keeps_wiring_view [OF keeps_alarms] keeps_wiring_view [OF keeps_measurements]

lemma keeps_wiring_control [keep_rules]: "keeps wiring (publish_control clk wall a)"
  unfolding publish_control_def by (auto intro!: keep_rules)

lemma keeps_wiring_publish: "keeps wiring (perform [publish_measurements clk a, publish_control clk wall a])"
  by (auto intro!: keep_rules)

text \<open>The limits in force: of a partial frame at most the previous ones.\<close>

definition held_limits :: "aggregate \<Rightarrow> (pyfloat \<times> pyfloat) option \<Rightarrow> pyfloat \<times> pyfloat \<Rightarrow> pyfloat \<times> pyfloat" where
  "held_limits a prev xy = (case prev of
     Some (p, q) \<Rightarrow> if agg_partial a then (fmin (fst xy) p, fmin (snd xy) q) else xy
   | None \<Rightarrow> xy)"

text \<open>What the outside sees after an update that published.\<close>

definition published :: "aggregate \<Rightarrow> pyfloat \<Rightarrow> pyfloat \<Rightarrow> service \<Rightarrow> bool" where
  "published a x y t \<longleftrightarrow>
     paths t MAX_CHARGE_CURRENT = Some (DFloat x) \<and> paths t MAX_DISCHARGE_CURRENT = Some (DFloat y)
     \<and> paths t ALLOW_CHARGE = Some (if x = Fin 0 then DInt 0 else flag (allow_charge a))
     \<and> paths t ALLOW_DISCHARGE = Some (if y = Fin 0 then DInt 0 else flag (allow_discharge a))
     \<and> paths t TELEMETRY_STATE = Some (DStr (if x = Fin 0 \<or> y = Fin 0 then ''PROTECTION''
         else if agg_partial a then ''DEGRADED'' else ''READY''))
     \<and> previous_limits t = Some (x, y)"

lemma perform_Cons_None: "perform (a # as) s = (None, t) \<longleftrightarrow> (\<exists>u. a s = (None, u) \<and> perform as u = (None, t))"
  by (auto split: prod.splits option.splits)

lemma path_neq:
  "ALLOW_CHARGE \<noteq> ALLOW_DISCHARGE" "ALLOW_CHARGE \<noteq> MAX_CHARGE_CURRENT" "ALLOW_CHARGE \<noteq> MAX_DISCHARGE_CURRENT"
  "ALLOW_CHARGE \<noteq> TELEMETRY_STATE" "ALLOW_DISCHARGE \<noteq> MAX_CHARGE_CURRENT" "ALLOW_DISCHARGE \<noteq> MAX_DISCHARGE_CURRENT"
  "ALLOW_DISCHARGE \<noteq> TELEMETRY_STATE" "MAX_CHARGE_CURRENT \<noteq> MAX_DISCHARGE_CURRENT"
  "MAX_CHARGE_CURRENT \<noteq> TELEMETRY_STATE" "MAX_DISCHARGE_CURRENT \<noteq> TELEMETRY_STATE"
  "''/Info/MaxChargeVoltage'' \<notin> set permission_paths" "''/Info/MaxChargeCellVoltage'' \<notin> set permission_paths"
  by (simp_all add: path_defs permission_path_defs)

lemmas path_neqs = path_neq path_neq(1-10) [symmetric]

lemma put_iff: "put p v s = (None, t) \<longleftrightarrow> p \<in> dom (paths s) \<and> t = s\<lparr>paths := (paths s)(p \<mapsto> v)\<rparr>"
  by (auto simp: put_def split: option.splits)

lemma using_None: "using_res r k s = (None, t) \<longleftrightarrow> (\<exists>v. r = Inr v \<and> k v s = (None, t))"
  by (cases r) (auto simp: using_res_def)

lemma hold_iff:
  assumes "paths s p = Some (DFloat x)"
  shows "hold_limit p prev s = (None, t) \<longleftrightarrow> t = s\<lparr>paths := (paths s)(p \<mapsto> DFloat (fmin x prev))\<rparr>"
  using assms by (auto simp: hold_limit_def reading_def num_at_def using_None put_iff)

lemma zero_at_float: "paths s p = Some (DFloat x) \<Longrightarrow> zero_at p s = (x = Fin 0)"
  by (auto simp: zero_at_def num_at_def)

lemma held_state:
  assumes "(case previous_limits s of
        Some (charge, discharge) \<Rightarrow> if agg_partial a
          then perform [hold_limit MAX_CHARGE_CURRENT charge, hold_limit MAX_DISCHARGE_CURRENT discharge] else perform []
      | None \<Rightarrow> perform []) s = (None, t)"
    and "paths s MAX_CHARGE_CURRENT = Some (DFloat x0)" "paths s MAX_DISCHARGE_CURRENT = Some (DFloat y0)"
    and "held_limits a (previous_limits s) (x0, y0) = (x, y)"
  shows "t = s\<lparr>paths := (paths s)(MAX_CHARGE_CURRENT \<mapsto> DFloat x, MAX_DISCHARGE_CURRENT \<mapsto> DFloat y)\<rparr>"
proof -
  have d: "MAX_DISCHARGE_CURRENT \<noteq> MAX_CHARGE_CURRENT" using path_neqs by simp
  have same: "s = s\<lparr>paths := (paths s)(MAX_CHARGE_CURRENT \<mapsto> DFloat x0, MAX_DISCHARGE_CURRENT \<mapsto> DFloat y0)\<rparr>"
    using assms(2,3) by (simp add: fun_upd_idem)
  show ?thesis
  proof (cases "previous_limits s")
    case None
    with assms same show ?thesis by (simp add: held_limits_def)
  next
    case (Some pq)
    obtain p q where pq: "pq = (p, q)" by (cases pq)
    show ?thesis
    proof (cases "agg_partial a")
      case False
      with Some pq assms same show ?thesis by (simp add: held_limits_def)
    next
      case True
      with Some pq assms(1) obtain u where "hold_limit MAX_CHARGE_CURRENT p s = (None, u)" "hold_limit MAX_DISCHARGE_CURRENT q u = (None, t)"
        by (auto simp: perform_Cons_None simp del: perform.simps(2))
      with Some pq True assms(2-4) d show ?thesis by (auto simp: hold_iff held_limits_def)
    qed
  qed
qed

lemma partial_published:
  assumes "apply_partial_frame_limits a s = (None, t)"
    and lim: "paths s MAX_CHARGE_CURRENT = Some (DFloat x0)" "paths s MAX_DISCHARGE_CURRENT = Some (DFloat y0)"
    and allow: "paths s ALLOW_CHARGE = Some (flag (allow_charge a))" "paths s ALLOW_DISCHARGE = Some (flag (allow_discharge a))"
    and xy: "held_limits a (previous_limits s) (x0, y0) = (x, y)"
  shows "published a x y t \<and> sv_dvcc t = (sv_dvcc s)\<lparr>last_ccl := x, last_dcl := y\<rparr>"
proof -
  note d = path_neqs and z = zero_at_def num_at_def
  let ?s1 = "s\<lparr>paths := (paths s)(MAX_CHARGE_CURRENT \<mapsto> DFloat x, MAX_DISCHARGE_CURRENT \<mapsto> DFloat y)\<rparr>"
  let ?s2 = "?s1\<lparr>previous_limits := Some (x, y), sv_dvcc := (sv_dvcc s)\<lparr>last_ccl := x, last_dcl := y\<rparr>\<rparr>"
  obtain s1 s2 s3 s4 where st: "(case previous_limits s of
        Some (charge, discharge) \<Rightarrow> if agg_partial a
          then perform [hold_limit MAX_CHARGE_CURRENT charge, hold_limit MAX_DISCHARGE_CURRENT discharge] else perform []
      | None \<Rightarrow> perform []) s = (None, s1)"
    "using_res (num_at MAX_CHARGE_CURRENT s1) (\<lambda>x. using_res (num_at MAX_DISCHARGE_CURRENT s1) (\<lambda>y.
       modify (\<lambda>t. t\<lparr>previous_limits := Some (x, y), sv_dvcc := (sv_dvcc t)\<lparr>last_ccl := x, last_dcl := y\<rparr>\<rparr>))) s1 = (None, s2)"
    "(if zero_at MAX_CHARGE_CURRENT s2 then put ALLOW_CHARGE (DInt 0) else perform []) s2 = (None, s3)"
    "(if zero_at MAX_DISCHARGE_CURRENT s3 then put ALLOW_DISCHARGE (DInt 0) else perform []) s3 = (None, s4)"
    "put TELEMETRY_STATE (DStr (telemetry_state_of a s4)) s4 = (None, t)"
    using assms(1) unfolding apply_partial_frame_limits_def perform_Cons_None reading_def by auto
  have s1: "s1 = ?s1" by (rule held_state [OF st(1) lim xy])
  have s2: "s2 = ?s2"
    using st(2) d unfolding s1 by (simp add: num_at_def using_res_def modify_def)
  have p2: "paths s2 MAX_CHARGE_CURRENT = Some (DFloat x)" by (simp add: s2 d)
  have s3: "s3 = (if x = Fin 0 then s2\<lparr>paths := (paths s2)(ALLOW_CHARGE \<mapsto> DInt 0)\<rparr> else s2)"
    using st(3) p2 by (simp add: z put_iff split: if_splits)
  have p3: "paths s3 MAX_CHARGE_CURRENT = Some (DFloat x)" "paths s3 MAX_DISCHARGE_CURRENT = Some (DFloat y)"
    by (simp_all add: s3 s2 d)
  have s4: "s4 = (if y = Fin 0 then s3\<lparr>paths := (paths s3)(ALLOW_DISCHARGE \<mapsto> DInt 0)\<rparr> else s3)"
    using st(4) p3(2) by (simp add: z put_iff split: if_splits)
  have p4: "paths s4 MAX_CHARGE_CURRENT = Some (DFloat x)" "paths s4 MAX_DISCHARGE_CURRENT = Some (DFloat y)"
    "paths s4 ALLOW_CHARGE = Some (if x = Fin 0 then DInt 0 else flag (allow_charge a))"
    "paths s4 ALLOW_DISCHARGE = Some (if y = Fin 0 then DInt 0 else flag (allow_discharge a))"
    "previous_limits s4 = Some (x, y)" "sv_dvcc s4 = (sv_dvcc s)\<lparr>last_ccl := x, last_dcl := y\<rparr>"
    using p3 allow by (simp_all add: s4 s3 s2 d)
  have "telemetry_state_of a s4 = (if x = Fin 0 \<or> y = Fin 0 then ''PROTECTION'' else if agg_partial a then ''DEGRADED'' else ''READY'')"
    using p4 by (simp add: telemetry_state_of_def z)
  with st(5) p4 d show ?thesis by (simp add: put_iff published_def)
qed

lemma dvcc_published:
  assumes "update_dvcc clk wall a s = (None, t)"
  shows "\<exists>out c. calculate clk (dvcc_input_of a) (sv_dvcc s) = (Inr out, c) \<and> sv_dvcc t = c
    \<and> paths t MAX_CHARGE_CURRENT = Some (DFloat (ccl out)) \<and> paths t MAX_DISCHARGE_CURRENT = Some (DFloat (dcl out))
    \<and> paths t ALLOW_CHARGE = paths s ALLOW_CHARGE \<and> paths t ALLOW_DISCHARGE = paths s ALLOW_DISCHARGE
    \<and> previous_limits t = previous_limits s"
proof -
  obtain r c where c: "calculate clk (dvcc_input_of a) (sv_dvcc s) = (r, c)" by force
  with assms obtain out where out: "r = Inr out" "perform [
       put MAX_CHARGE_CURRENT (DFloat (ccl out)), put MAX_DISCHARGE_CURRENT (DFloat (dcl out)),
       put ''/Info/MaxChargeVoltage'' (DFloat (cvl out)),
       when_some (out_max_cell out) (put_round ''/Info/MaxChargeCellVoltage'' 3),
       modify (\<lambda>t. if status_due wall (ccl out) t then t\<lparr>last_dvcc_log := wall\<rparr> else t)] (s\<lparr>sv_dvcc := c\<rparr>) = (None, t)"
    unfolding update_dvcc_def reading_def by (auto simp: perform_Cons_None using_None modify_def simp del: perform.simps(2))
  then obtain u w where u: "u = (s\<lparr>sv_dvcc := c\<rparr>)\<lparr>paths := (paths s)(MAX_CHARGE_CURRENT \<mapsto> DFloat (ccl out),
      MAX_DISCHARGE_CURRENT \<mapsto> DFloat (dcl out), ''/Info/MaxChargeVoltage'' \<mapsto> DFloat (cvl out))\<rparr>"
    "when_some (out_max_cell out) (put_round ''/Info/MaxChargeCellVoltage'' 3) u = (None, w)"
    "t = w \<or> t = w\<lparr>last_dvcc_log := wall\<rparr>"
    unfolding perform_Cons_None put_iff by (auto simp: modify_def simp del: perform.simps(2) split: if_splits)
  have k: "keeps control_view (when_some (out_max_cell out) (put_round ''/Info/MaxChargeCellVoltage'' 3))"
    by (auto intro!: keep_rules put_round_view simp: path_neqs)
  moreover have "control_view t = control_view w" using u(3) by (elim disjE) (simp_all add: control_view_def)
  ultimately have "control_view t = control_view u" using keepsD [OF k u(2)] by simp
  then have "sv_dvcc t = sv_dvcc u" "previous_limits t = previous_limits u" "\<forall>p \<in> set permission_paths. paths t p = paths u p"
    by (simp_all add: control_view_def)
  moreover have "p \<noteq> ''/Info/MaxChargeVoltage''" if "p \<in> set permission_paths" for p
    using that path_neqs by auto
  moreover have "ALLOW_CHARGE \<in> set permission_paths" "ALLOW_DISCHARGE \<in> set permission_paths"
    "MAX_CHARGE_CURRENT \<in> set permission_paths" "MAX_DISCHARGE_CURRENT \<in> set permission_paths"
    by (simp_all add: permission_paths_def)
  ultimately show ?thesis using c out(1) path_neqs by (simp add: u(1))
qed

lemma publish_done:
  assumes "perform [publish_measurements clk a, publish_control clk wall a] s = (None, t)"
  shows "\<exists>out c x y. calculate clk (dvcc_input_of a) (sv_dvcc s) = (Inr out, c)
    \<and> held_limits a (previous_limits s) (ccl out, dcl out) = (x, y) \<and> published a x y t
    \<and> sv_dvcc t = c\<lparr>last_ccl := x, last_dcl := y\<rparr> \<and> sv_mqtt t = sv_mqtt s"
proof -
  obtain u u1 u2 u3 u4 where st: "publish_measurements clk a s = (None, u)"
    "put ALLOW_CHARGE (flag (allow_charge a)) u = (None, u1)" "put ALLOW_DISCHARGE (flag (allow_discharge a)) u1 = (None, u2)"
    "update_alarms wall a u2 = (None, u3)" "update_dvcc clk wall a u3 = (None, u4)" "apply_partial_frame_limits a u4 = (None, t)"
    using assms unfolding publish_control_def perform_Cons_None by auto
  have u: "control_view u = control_view s" "control_view u3 = control_view u2"
    using keepsD [OF keeps_measurements st(1)] keepsD [OF keeps_alarms st(4)] by simp_all
  have "paths u2 ALLOW_CHARGE = Some (flag (allow_charge a))" "paths u2 ALLOW_DISCHARGE = Some (flag (allow_discharge a))"
    "sv_dvcc u2 = sv_dvcc u" "previous_limits u2 = previous_limits u"
    using st(2,3) path_neqs by (auto simp: put_iff)
  then have u3: "paths u3 ALLOW_CHARGE = Some (flag (allow_charge a))" "paths u3 ALLOW_DISCHARGE = Some (flag (allow_discharge a))"
    "sv_dvcc u3 = sv_dvcc s" "previous_limits u3 = previous_limits s"
    using u by (simp_all add: control_view_def permission_paths_def)
  obtain out c where out: "calculate clk (dvcc_input_of a) (sv_dvcc s) = (Inr out, c)" "sv_dvcc u4 = c"
    "paths u4 MAX_CHARGE_CURRENT = Some (DFloat (ccl out))" "paths u4 MAX_DISCHARGE_CURRENT = Some (DFloat (dcl out))"
    "paths u4 ALLOW_CHARGE = Some (flag (allow_charge a))" "paths u4 ALLOW_DISCHARGE = Some (flag (allow_discharge a))"
    "previous_limits u4 = previous_limits s"
    using dvcc_published [OF st(5)] u3 by auto
  obtain x y where xy: "held_limits a (previous_limits s) (ccl out, dcl out) = (x, y)" by force
  have "published a x y t \<and> sv_dvcc t = (sv_dvcc u4)\<lparr>last_ccl := x, last_dcl := y\<rparr>"
    by (rule partial_published [OF st(6) out(3-6)]) (simp add: out(7) xy)
  moreover have "sv_mqtt t = sv_mqtt s" using keepsD [OF keeps_wiring_publish assms] by (simp add: wiring_def)
  ultimately show ?thesis using out(1,2) xy by blast
qed

section \<open>One update\<close>

lemma aggregate_config: "get_aggregate_data clk m = (r, m') \<Longrightarrow> cl_topology m' = cl_topology m
    \<and> battery_count m' = battery_count m \<and> cells_per_bms m' = cells_per_bms m"
  by (auto simp: get_aggregate_data_def invalidate_samples_def Let_def split: if_splits sum.splits)

lemma registered_cong:
  assumes "cl_topology m' = cl_topology m" "battery_count m' = battery_count m" "cells_per_bms m' = cells_per_bms m"
  shows "registered m' = registered m"
proof -
  have "map fst (system_paths m') = map fst (system_paths m)" "temperature_paths m' = temperature_paths m"
    "configured_cells m' = configured_cells m"
    using assms by (simp_all add: system_paths_def temperature_paths_def configured_cells_def split: option.splits)
  then show ?thesis using registered_keys(2) [of m' m] assms(1) by (simp add: registered_def setup_paths_def)
qed

text \<open>The three ways an update ends.\<close>

lemma service_update_cases:
  assumes "declared s" "update_service clk wall s = (e, t)" "get_aggregate_data clk (sv_mqtt s) = (r, m)"
  obtains (unavailable) "e = None" "closed t" "declared t" "core t = core (s\<lparr>sv_mqtt := m\<rparr>)"
      "previous_limits t = (if has_ready_data s then Some (Fin 0, Fin 0) else previous_limits s)"
      "r = Inr None \<or> (\<exists>a. r = Inr (Some a) \<and> \<not> data_complete a)"
  | (raised) u where "e \<noteq> None" "closed t" "declared t" "sv_mqtt t = m"
      "using_res r (publish_snapshot clk wall) (s\<lparr>sv_mqtt := m\<rparr>) = (e, u)" "core t = core u"
      "previous_limits t = (if has_ready_data u then Some (Fin 0, Fin 0) else previous_limits u)"
  | (complete) a out c x y where "e = None" "r = Inr (Some a)" "data_complete a" "declared t" "sv_mqtt t = m"
      "calculate clk (dvcc_input_of a) (sv_dvcc s) = (Inr out, c)"
      "held_limits a (previous_limits s) (ccl out, dcl out) = (x, y)" "published a x y t"
      "sv_dvcc t = c\<lparr>last_ccl := x, last_dcl := y\<rparr>"
      "perform [publish_measurements clk a, publish_control clk wall a] (s\<lparr>sv_mqtt := m\<rparr>) = (None, t)"
proof -
  let ?s = "s\<lparr>sv_mqtt := m\<rparr>"
  have d: "declared ?s" using assms(1) registered_cong [of m "sv_mqtt s"] aggregate_config [OF assms(3)]
    by (simp add: declared_def)
  obtain p u where p: "using_res r (publish_snapshot clk wall) ?s = (p, u)" by force
  have u: "declared u" "sv_mqtt u = m" if out: "p \<noteq> None \<or> (\<exists>a. r = Inr (Some a) \<and> data_complete a)"
  proof -
    have "wiring u = wiring ?s"
    proof (cases r)
      case (Inr d)
      have "(p, u) = set_unavailable clk d ?s \<Longrightarrow> p = None" using unavailable_total [OF d, of clk d] by (metis fst_conv)
      then obtain a where "d = Some a" "perform [publish_measurements clk a, publish_control clk wall a] ?s = (p, u)"
        using p Inr out by (auto simp: using_res_def publish_snapshot_def simp del: perform.simps(2) split: option.splits if_splits)
      then show ?thesis using keepsD [OF keeps_wiring_publish] by blast
    qed (use p in \<open>auto simp: using_res_def\<close>)
    with wiring_declared [OF this d] show "declared u" "sv_mqtt u = m" by (simp_all add: wiring_def)
  qed
  show thesis
  proof (cases p)
    case (Some e')
    have du: "declared u" using u(1) Some by simp
    obtain v where v: "set_unavailable clk None u = (None, v)" "declared v" "closed v" "core v = core u"
      "previous_limits v = (if has_ready_data u then Some (Fin 0, Fin 0) else previous_limits u)"
      by (rule unavailable_total [OF du, of clk None])
    moreover have "t = v" "e = p" using assms(2,3) p Some v(1) by (auto simp: update_service_def)
    moreover have "sv_mqtt v = m" using u(2) Some v(4) by (simp add: core_def)
    ultimately show thesis using raised p Some by simp
  next
    case None
    have et: "e = None" "t = u" using assms(2,3) p None by (auto simp: update_service_def)
    then obtain d where r: "r = Inr d" and pub: "publish_snapshot clk wall d ?s = (None, t)"
      using p None by (cases r) (auto simp: using_res_def)
    show thesis
    proof (cases "\<exists>a. d = Some a \<and> data_complete a")
      case True
      then obtain a where a: "d = Some a" "data_complete a" by blast
      then have run: "perform [publish_measurements clk a, publish_control clk wall a] ?s = (None, t)"
        using pub by (simp add: publish_snapshot_def)
      from publish_done [OF this] obtain out c x y where
        "calculate clk (dvcc_input_of a) (sv_dvcc s) = (Inr out, c)"
        "held_limits a (previous_limits s) (ccl out, dcl out) = (x, y)" "published a x y t"
        "sv_dvcc t = c\<lparr>last_ccl := x, last_dcl := y\<rparr>" by auto
      then show thesis using complete [OF et(1)] r a u et(2) run by blast
    next
      case False
      then have un: "set_unavailable clk d ?s = (None, t)"
        using pub by (auto simp: publish_snapshot_def split: option.splits if_splits)
      obtain v where "set_unavailable clk d ?s = (None, v)" "declared v" "closed v" "core v = core ?s"
        "previous_limits v = (if has_ready_data ?s then Some (Fin 0, Fin 0) else previous_limits ?s)"
        using unavailable_total [OF d] by metis
      with un have "closed t" "declared t" "core t = core ?s"
        "previous_limits t = (if has_ready_data s then Some (Fin 0, Fin 0) else previous_limits s)" by simp_all
      moreover have "r = Inr None \<or> (\<exists>a. r = Inr (Some a) \<and> \<not> data_complete a)"
        using r False by (cases d) simp_all
      ultimately show thesis using unavailable [OF et(1)] by blast
    qed
  qed
qed

section \<open>Properties of the service\<close>

text \<open>C3: Without the complete data of every configured battery, and after any exception whatever, the
  update ends with charging and discharging forbidden, both current limits zero and the data marked
  incomplete, however far the publication had come.\<close>

theorem service_fails_closed:
  assumes "declared s" "update_service clk wall s = (e, t)" "get_aggregate_data clk (sv_mqtt s) = (r, m)"
    and "e \<noteq> None \<or> is_ok r = False \<or> r = Inr None \<or> (\<exists>a. r = Inr (Some a) \<and> \<not> data_complete a)"
  shows "closed t"
  using assms(4) by (cases rule: service_update_cases [OF assms(1-3)]) auto

text \<open>C4: Whenever an update leaves charging permitted, it had the data of every configured battery, each of
  them permits charging, and the published charge limit is the controller's, held by a partial frame,
  and not zero; the same for discharging.\<close>

theorem permission_backed:
  assumes "declared s" "update_service clk wall s = (e, t)" "get_aggregate_data clk (sv_mqtt s) = (r, m)"
    and "paths t ALLOW_CHARGE = Some (DInt 1) \<or> paths t ALLOW_DISCHARGE = Some (DInt 1)"
  shows "\<exists>a x y. e = None \<and> r = Inr (Some a) \<and> data_complete a
    \<and> paths t MAX_CHARGE_CURRENT = Some (DFloat x) \<and> paths t MAX_DISCHARGE_CURRENT = Some (DFloat y)
    \<and> (paths t ALLOW_CHARGE = Some (DInt 1) \<longrightarrow> allow_charge a \<and> x \<noteq> Fin 0)
    \<and> (paths t ALLOW_DISCHARGE = Some (DInt 1) \<longrightarrow> allow_discharge a \<and> y \<noteq> Fin 0)"
  using assms(1-3)
proof (cases rule: service_update_cases)
  case (complete a out c x y)
  then show ?thesis using assms(4) by (auto simp: published_def flag_def split: if_splits)
qed (use assms(4) in \<open>auto simp: closed_def permission_paths_def\<close>)

lemma fmin_not_below: "\<not> flt p (fmin x p)" "\<not> flt x (fmin x p)"
  by (cases p; cases x; auto simp: fmin_def)+

text \<open>C5: Once limits have been published, an update from a partial frame never publishes a charge or discharge limit
  above the one in force before it, nor above what the controller computes at that poll.  When none has been published
  yet (the paths still hold their initial zero) a partial frame publishes exactly the controller's limits.\<close>

theorem partial_never_relaxes:
  assumes "declared s" "update_service clk wall s = (None, t)" "get_aggregate_data clk (sv_mqtt s) = (Inr (Some a), m)"
    and "data_complete a" "agg_partial a"
  shows "\<exists>out c x y. calculate clk (dvcc_input_of a) (sv_dvcc s) = (Inr out, c)
    \<and> paths t MAX_CHARGE_CURRENT = Some (DFloat x) \<and> paths t MAX_DISCHARGE_CURRENT = Some (DFloat y)
    \<and> previous_limits t = Some (x, y)
    \<and> (case previous_limits s of
         None \<Rightarrow> x = ccl out \<and> y = dcl out
       | Some (p, q) \<Rightarrow> x \<in> {p, ccl out} \<and> y \<in> {q, dcl out}
           \<and> \<not> flt p x \<and> \<not> flt q y \<and> \<not> flt (ccl out) x \<and> \<not> flt (dcl out) y)"
  using assms(1-3)
proof (cases rule: service_update_cases)
  case (complete a' out c x y)
  then show ?thesis using assms(5) fmin_not_below
    by (auto simp: held_limits_def published_def fmin_def split: option.splits)
qed (use assms(4) in auto)

end
