(* ===== verification/ServiceRuns.thy ===== *)
theory ServiceRuns
  imports ServiceProps
begin

text \<open>
  The service over time: polls interleaved with whatever the MQTT client receives.  The controller's
  memory stays a finite limit, permissions stay backed by a limit, and once an outage was seen only a
  full frame permits anything again.
\<close>

section \<open>The controller between polls\<close>

definition nonneg_float :: "pyfloat \<Rightarrow> bool" where
  "nonneg_float x \<longleftrightarrow> fvalid x \<and> (\<exists>r. x = Fin r \<and> 0 \<le> r)"

text \<open>Weaker than \<open>ctl_wf\<close>: the remembered limit may exceed the ceiling by a rounding.\<close>

definition sane :: "dvcc_controller \<Rightarrow> bool" where
  "sane c \<longleftrightarrow> ctl_curve c \<and> nonneg_float (last_ccl c) \<and> finite_reading (Some (last_update_time c))"

lemma nonneg_0 [simp]: "nonneg_float (Fin 0)"
  using r64.rep_0 by (simp add: nonneg_float_def fmax_def)

lemma nonneg_fmin: "nonneg_float x \<Longrightarrow> nonneg_float y \<Longrightarrow> nonneg_float (fmin x y)"
  by (simp add: fmin_def)

lemma limit_in_nonneg: "fvalid m \<Longrightarrow> limit_in m x \<Longrightarrow> nonneg_float x"
  by (cases m; cases x) (auto simp: limit_in_iff nonneg_float_def abs_less_iff)

lemma wf_sane: "ctl_wf c \<Longrightarrow> sane c"
  using ceiling(7) limit_in_nonneg by (auto simp: ctl_wf_def sane_def)

lemma memory_fields:
  "curve (c\<lparr>last_ccl := x, last_dcl := y\<rparr>) = curve c"
  "ctl_max_charge_current (c\<lparr>last_ccl := x, last_dcl := y\<rparr>) = ctl_max_charge_current c"
  "ctl_min_charge_current (c\<lparr>last_ccl := x, last_dcl := y\<rparr>) = ctl_min_charge_current c"
  "ctl_max_discharge_current (c\<lparr>last_ccl := x, last_dcl := y\<rparr>) = ctl_max_discharge_current c"
  by simp_all

lemma combined_memory:
  "combined_ccl (c\<lparr>last_ccl := x, last_dcl := y\<rparr>) d = combined_ccl c d"
  "combined_dcl (c\<lparr>last_ccl := x, last_dcl := y\<rparr>) d = combined_dcl c d"
  unfolding combined_ccl_def combined_dcl_def ccl_from_cell_voltage_def ccl_from_imbalance_def
    ccl_from_temperature_def ccl_from_soc_def dcl_from_cell_voltage_def memory_fields by (rule refl)+

lemma calculate_memory:
  assumes "\<And>a s. combined_ccl c d = Inr (a, s) \<Longrightarrow> rate_limited (c\<lparr>last_ccl := x, last_dcl := y\<rparr>) now a = rate_limited c now a"
    and "\<exists>l. combined_ccl c d = Inr l" "\<exists>l. combined_dcl c d = Inr l"
  shows "calculate now d (c\<lparr>last_ccl := x, last_dcl := y\<rparr>) = calculate now d c"
proof -
  obtain a s b t where ab: "combined_ccl c d = Inr (a, s)" "combined_dcl c d = Inr (b, t)"
    using assms(2,3) by (metis prod.collapse)
  show ?thesis using assms(1) [OF ab(1)] by (simp add: calculate_def combined_memory ab Let_def)
qed

lemma finish_rounded: "finish c d l k = Inr out \<Longrightarrow> fvalid (ccl out) \<and> fvalid (dcl out)"
proof -
  have "fvalid (fround 1 z)" for z by (cases z) auto
  moreover assume "finish c d l k = Inr out"
  ultimately show ?thesis by (auto simp: finish_def Let_def)
qed

lemma calculate_valid:
  assumes "calculate now d c = (Inr out, c')"
  shows "fvalid (ccl out) \<and> fvalid (dcl out)"
proof -
  obtain a s b t where ab: "combined_ccl c d = Inr (a, s)" "combined_dcl c d = Inr (b, t)"
    using assms by (auto simp: calculate_def split: sum.splits)
  have "\<exists>c l k. fst (calculate now d (c0 :: dvcc_controller)) = finish c d l k" if "c0 = c" for c0
    unfolding that calculate_def ab by (simp add: Let_def) blast
  then obtain c'' l k where "finish c'' d l k = Inr out" using assms by (metis fst_conv)
  then show ?thesis by (rule finish_rounded)
qed

lemma calculate_sane:
  assumes "sane c" "input_finite d" "finite_reading (Some now)"
  obtains out c' where "calculate now d c = (Inr out, c')" "sane c'" "nonneg_float (ccl out)" "nonneg_float (dcl out)"
proof -
  let ?M = "ctl_max_charge_current c"
  have cc: "ctl_curve c" using assms(1) by (simp add: sane_def)
  let ?last = "if flt ?M (last_ccl c) then ?M else last_ccl c"
  let ?c = "c\<lparr>last_ccl := ?last, last_dcl := Fin 0\<rparr>"
  obtain l where l: "combined_ccl c d = Inr l" "limit_in ?M (fst l)"
    using combined_ccl_limit [OF cc assms(2)] by metis
  have "limit_in ?M ?last"
    using assms(1) ceiling(1,3,4) [OF cc] by (cases "last_ccl c"; cases ?M) (auto simp: limit_in_iff sane_def nonneg_float_def)
  then have wf: "ctl_wf ?c" using cc assms(1) limit_in_0 ceiling(5,6) [OF cc] by (simp add: ctl_wf_def ctl_curve_def sane_def)
  have "rate_limited ?c now a = rate_limited c now a" if "combined_ccl c d = Inr (a, s)" for a s
  proof (cases "flt ?M (last_ccl c)")
    case True
    have "limit_in ?M a" using l that by (cases l) simp
    then have "\<not> flt ?M a" "\<not> flt (last_ccl c) a" using True
      by (cases ?M; cases a; cases "last_ccl c"; auto simp: limit_in_iff)+
    then show ?thesis using True by (simp add: rate_limited_def Let_def)
  qed (simp add: rate_limited_def Let_def)
  moreover have "\<exists>l. combined_dcl c d = Inr l" using combined_dcl_limit [OF cc assms(2)] by metis
  ultimately have same: "calculate now d ?c = calculate now d c" using l(1) by (intro calculate_memory) auto
  obtain out c' x y z where out: "calculate now d ?c = (Inr out, c')" "ctl_wf c'" "ccl out = Fin x" "0 \<le> x" "dcl out = Fin y" "0 \<le> y"
    by (rule calculate_total [OF wf assms(2,3)])
  have "fvalid (ccl out)" "fvalid (dcl out)" using calculate_valid [OF out(1)] by simp_all
  then show thesis using that [of out c'] out same wf_sane [OF out(2)] by (simp add: nonneg_float_def)
qed

section \<open>What every action keeps\<close>

definition holds :: "(service \<Rightarrow> bool) \<Rightarrow> action \<Rightarrow> bool" where
  "holds P a \<longleftrightarrow> (\<forall>s. P s \<longrightarrow> P (snd (a s)))"

lemma holdsD: "holds P a \<Longrightarrow> P s \<Longrightarrow> a s = (r, t) \<Longrightarrow> P t"
  unfolding holds_def by (metis snd_conv)

lemma holds_Nil: "holds P (perform [])"
  by (simp add: holds_def)

lemma holds_Cons: "holds P a \<Longrightarrow> holds P (perform as) \<Longrightarrow> holds P (perform (a # as))"
  by (auto simp: holds_def split: prod.splits option.splits)

lemma holds_perform: "(\<And>a. a \<in> set as \<Longrightarrow> holds P a) \<Longrightarrow> holds P (perform as)"
  by (induction as) (auto intro: holds_Nil holds_Cons)

lemma holds_reading: "(\<And>s. P s \<Longrightarrow> holds P (k s)) \<Longrightarrow> holds P (reading k)"
  by (simp add: holds_def reading_def)

lemma holds_keeps: "keeps f a \<Longrightarrow> (\<And>s t. f s = f t \<Longrightarrow> P s \<Longrightarrow> P t) \<Longrightarrow> holds P a"
  unfolding holds_def keeps_def by metis

text \<open>The numbers the limiter works with: the controller's memory and the limits in force.\<close>

definition limits_sane :: "service \<Rightarrow> bool" where
  "limits_sane s \<longleftrightarrow> sane (sv_dvcc s) \<and> (\<forall>x y. previous_limits s = Some (x, y) \<longrightarrow> nonneg_float x \<and> nonneg_float y)"

definition published_sane :: "service \<Rightarrow> bool" where
  "published_sane s \<longleftrightarrow> limits_sane s \<and> (\<forall>p \<in> set limit_paths. \<exists>x. paths s p = Some (DFloat x) \<and> nonneg_float x)"

lemma limits_view: "control_view s = control_view t \<Longrightarrow> limits_sane s \<Longrightarrow> limits_sane t"
  by (simp add: control_view_def limits_sane_def)

lemma limits_put: "holds limits_sane (put p v)"
  by (auto simp: holds_def put_def limits_sane_def split: option.splits)

lemma published_put:
  "p \<notin> set limit_paths \<or> (\<exists>x. v = DFloat x \<and> nonneg_float x) \<Longrightarrow> holds published_sane (put p v)"
  by (auto simp: holds_def put_def published_sane_def limits_sane_def split: option.splits)

lemma published_hold:
  assumes "nonneg_float prev" "p \<in> set limit_paths"
  shows "holds published_sane (hold_limit p prev)"
  unfolding holds_def
proof (intro allI impI)
  fix s assume s: "published_sane s"
  then obtain x where x: "paths s p = Some (DFloat x)" "nonneg_float x" using assms(2) by (auto simp: published_sane_def)
  then have "hold_limit p prev s = put p (DFloat (fmin x prev)) s"
    by (simp add: hold_limit_def reading_def num_at_def using_res_def)
  then show "published_sane (snd (hold_limit p prev s))"
    using published_put [of p "DFloat (fmin x prev)"] nonneg_fmin [OF x(2) assms(1)] s by (auto simp: holds_def)
qed

lemma published_remember: "holds published_sane (reading (\<lambda>s. using_res (num_at MAX_CHARGE_CURRENT s) (\<lambda>x. using_res (num_at MAX_DISCHARGE_CURRENT s) (\<lambda>y.
    modify (\<lambda>t. t\<lparr>previous_limits := Some (x, y), sv_dvcc := (sv_dvcc t)\<lparr>last_ccl := x, last_dcl := y\<rparr>\<rparr>)))))"
  unfolding holds_def
proof (intro allI impI)
  fix s assume s: "published_sane s"
  then obtain x y where "paths s MAX_CHARGE_CURRENT = Some (DFloat x)" "nonneg_float x"
    "paths s MAX_DISCHARGE_CURRENT = Some (DFloat y)" "nonneg_float y"
    by (auto simp: published_sane_def limit_paths_def)
  with s show "published_sane (snd (reading (\<lambda>s. using_res (num_at MAX_CHARGE_CURRENT s) (\<lambda>x. using_res (num_at MAX_DISCHARGE_CURRENT s) (\<lambda>y.
    modify (\<lambda>t. t\<lparr>previous_limits := Some (x, y), sv_dvcc := (sv_dvcc t)\<lparr>last_ccl := x, last_dcl := y\<rparr>\<rparr>)))) s))"
    by (simp add: reading_def num_at_def using_res_def modify_def published_sane_def limits_sane_def sane_def ctl_curve_def)
qed

lemma published_partial: "holds published_sane (apply_partial_frame_limits a)"
proof -
  have mem: "MAX_CHARGE_CURRENT \<in> set limit_paths" "MAX_DISCHARGE_CURRENT \<in> set limit_paths" by (simp_all add: limit_paths_def)
  have out: "ALLOW_CHARGE \<notin> set limit_paths" "ALLOW_DISCHARGE \<notin> set limit_paths" "TELEMETRY_STATE \<notin> set limit_paths"
    by (simp_all add: limit_paths_def path_defs)
  have hold: "holds published_sane (case previous_limits s of
        Some (charge, discharge) \<Rightarrow> if agg_partial a
          then perform [hold_limit MAX_CHARGE_CURRENT charge, hold_limit MAX_DISCHARGE_CURRENT discharge] else perform []
      | None \<Rightarrow> perform [])" if "published_sane s" for s
    using that by (auto simp: published_sane_def limits_sane_def split: option.splits
      intro!: holds_Nil holds_Cons published_hold mem [unfolded])
  show ?thesis
    unfolding apply_partial_frame_limits_def
    by (intro holds_Cons holds_Nil published_remember; rule holds_reading)
      (auto intro: hold holds_Nil published_put [OF disjI1, OF out(1)] published_put [OF disjI1, OF out(2)] published_put [OF disjI1, OF out(3)])
qed

lemma perform_modify: "perform [modify f, a] s = a (f s)"
  by (cases "a (f s)") (simp add: modify_def split: option.split)

lemma dvcc_limits:
  assumes "limits_sane s" "input_finite (dvcc_input_of a)" "finite_reading (Some clk)" "update_dvcc clk wall a s = (e, t)"
  shows "limits_sane t" "e = None \<longrightarrow> published_sane t"
proof -
  have sane: "sane (sv_dvcc s)" using assms(1) by (simp add: limits_sane_def)
  obtain out c where c: "calculate clk (dvcc_input_of a) (sv_dvcc s) = (Inr out, c)" "sane c" "nonneg_float (ccl out)" "nonneg_float (dcl out)"
    by (rule calculate_sane [OF sane assms(2,3)])
  let ?s = "s\<lparr>sv_dvcc := c\<rparr>"
  let ?as = "[put MAX_CHARGE_CURRENT (DFloat (ccl out)), put MAX_DISCHARGE_CURRENT (DFloat (dcl out)),
       put ''/Info/MaxChargeVoltage'' (DFloat (cvl out)),
       when_some (out_max_cell out) (put_round ''/Info/MaxChargeCellVoltage'' 3),
       modify (\<lambda>t. if status_due wall (ccl out) t then t\<lparr>last_dvcc_log := wall\<rparr> else t)]"
  have run: "perform ?as ?s = (e, t)"
    using assms(4) c(1) by (simp add: update_dvcc_def reading_def perform_modify using_res_def del: perform.simps(2))
  have "holds limits_sane (when_some (out_max_cell out) (put_round ''/Info/MaxChargeCellVoltage'' 3))"
    unfolding when_some_def put_round_def by (auto intro: holds_Nil limits_put split: option.splits)
  moreover have "holds limits_sane (modify (\<lambda>t. if status_due wall x t then t\<lparr>last_dvcc_log := wall\<rparr> else t))" for x
    by (simp add: holds_def modify_def limits_sane_def)
  ultimately have h: "holds limits_sane (perform ?as)" by (intro holds_Cons holds_Nil limits_put)
  have "limits_sane ?s" using assms(1) c(2) by (simp add: limits_sane_def)
  from holdsD [OF h this run] show lim: "limits_sane t" .
  show "e = None \<longrightarrow> published_sane t"
    using dvcc_published [of clk wall a s t] assms(4) c lim by (auto simp: published_sane_def limit_paths_def)
qed

lemma limits_keeps: "keeps control_view a \<Longrightarrow> holds limits_sane a"
  by (rule holds_keeps) (auto intro: limits_view)

lemma control_limits:
  assumes "limits_sane s" "input_finite (dvcc_input_of a)" "finite_reading (Some clk)"
    and "publish_control clk wall a s = (e, t)"
  shows "limits_sane t"
proof -
  let ?as = "[put ALLOW_CHARGE (flag (allow_charge a)), put ALLOW_DISCHARGE (flag (allow_discharge a)), update_alarms wall a]"
  have front: "holds limits_sane (perform ?as)"
    by (intro holds_Cons holds_Nil limits_put limits_keeps keeps_alarms)
  obtain e1 u where u: "perform ?as s = (e1, u)" by force
  then have lu: "limits_sane u" using holdsD [OF front assms(1)] by blast
  have run: "(case e1 of None \<Rightarrow> perform [update_dvcc clk wall a, apply_partial_frame_limits a] u | Some x \<Rightarrow> (Some x, u)) = (e, t)"
    using assms(4) perform_append [of ?as "[update_dvcc clk wall a, apply_partial_frame_limits a]" s] u
    by (simp add: publish_control_def del: perform.simps(2))
  show ?thesis
  proof (cases e1)
    case None
    obtain e2 w where w: "update_dvcc clk wall a u = (e2, w)" by force
    note dv = dvcc_limits [OF lu assms(2,3) w]
    show ?thesis
    proof (cases e2)
      case None
      obtain e3 v where "apply_partial_frame_limits a w = (e3, v)" by force
      then have "published_sane v" "t = v" using holdsD [OF published_partial] dv(2) run \<open>e1 = None\<close> w None
        by (auto split: option.splits)
      then show ?thesis by (simp add: published_sane_def)
    qed (use run \<open>e1 = None\<close> w dv(1) in auto)
  qed (use run lu in auto)
qed

section \<open>Ready data stays ready\<close>

named_theorems ready_rules \<open>actions that keep the ready mark\<close>

lemma holds_using: "(\<And>v. holds P (k v)) \<Longrightarrow> holds P (using_res r k)"
  by (cases r) (simp_all add: holds_def using_res_def)

lemma holds_when_some: "(\<And>v. holds P (k v)) \<Longrightarrow> holds P (when_some x k)"
  by (cases x) (simp_all add: holds_def when_some_def)

lemma holds_attempt: "(\<And>a. a \<in> set as \<Longrightarrow> holds P a) \<Longrightarrow> holds P (attempt as)"
  using holds_perform [of as P] by (simp add: holds_def attempt_state)

lemma ready_put [ready_rules]: "holds has_ready_data (put p v)"
  by (auto simp: holds_def put_def split: option.splits)

lemma ready_modify [ready_rules]:
  "holds has_ready_data (modify (\<lambda>s. s\<lparr>has_ready_data := True\<rparr>))"
  "holds has_ready_data (modify (\<lambda>s. s\<lparr>comm_alarm_active := b\<rparr>))"
  "holds has_ready_data (modify (\<lambda>s. s\<lparr>sv_dvcc := c\<rparr>))"
  "holds has_ready_data (modify (\<lambda>t. t\<lparr>previous_limits := l, sv_dvcc := (sv_dvcc t)\<lparr>last_ccl := x, last_dcl := y\<rparr>\<rparr>))"
  "holds has_ready_data (modify (log_soc_alarm wall severity))"
  "holds has_ready_data (modify (\<lambda>t. if status_due wall x t then t\<lparr>last_dvcc_log := wall\<rparr> else t))"
  by (simp_all add: holds_def modify_def log_soc_alarm_def Let_def)

lemmas ready_intros = ready_rules holds_perform holds_reading holds_using holds_when_some holds_attempt

lemma ready_measurements: "holds has_ready_data (publish_measurements clk a)"
  unfolding publish_measurements_def set_communication_error_def update_time_to_go_def put_hours_def
    update_cell_voltages_def put_cell_def update_temperature_paths_def update_module_status_def put_round_def Let_def
  by (auto intro!: ready_intros split: option.splits prod.splits)

lemma ready_control: "holds has_ready_data (publish_control clk wall a)"
  unfolding publish_control_def update_alarms_def update_soc_alarm_def update_low_cell_voltage_alarm_def
    update_high_cell_voltage_alarm_def update_cell_imbalance_alarm_def update_temperature_alarms_def
    update_internal_failure_alarm_def update_voltage_alarms_def put_voltage_alarms_def update_dvcc_def
    apply_partial_frame_limits_def hold_limit_def put_round_def Let_def
  by (auto intro!: ready_intros split: option.splits prod.splits)

lemma measurements_ready: "publish_measurements clk a s = (e, t) \<Longrightarrow> has_ready_data t"
proof -
  assume r: "publish_measurements clk a s = (e, t)"
  have "publish_measurements clk a s = publish_measurements clk a (s\<lparr>has_ready_data := True\<rparr>)"
    by (simp add: publish_measurements_def Let_def modify_def)
  then have "publish_measurements clk a (s\<lparr>has_ready_data := True\<rparr>) = (e, t)" using r by simp
  from holdsD [OF ready_measurements _ this] show ?thesis by simp
qed

section \<open>Polls and messages\<close>

datatype service_event = Update pyfloat pyfloat | Client client_event

fun service_step :: "service_event \<Rightarrow> service \<Rightarrow> service" where
  "service_step (Update clk wall) s = snd (update_service clk wall s)"
| "service_step (Client e) s = s\<lparr>sv_mqtt := client_step e (sv_mqtt s)\<rparr>"

fun service_event_ok :: "service_event \<Rightarrow> bool" where
  "service_event_ok (Update clk wall) = tick clk"
| "service_event_ok (Client e) = event_ok e"

text \<open>A permission is 0, or 1 with a limit that is not zero behind it.\<close>

definition backed :: "string \<Rightarrow> string \<Rightarrow> service \<Rightarrow> bool" where
  "backed allow limit s \<longleftrightarrow> paths s allow = Some (DInt 0)
     \<or> (paths s allow = Some (DInt 1) \<and> (\<exists>x. paths s limit = Some (DFloat x) \<and> x \<noteq> Fin 0))"

definition service_inv :: "service \<Rightarrow> bool" where
  "service_inv s \<longleftrightarrow> declared s \<and> client_wf (sv_mqtt s)
     \<and> backed ALLOW_CHARGE MAX_CHARGE_CURRENT s \<and> backed ALLOW_DISCHARGE MAX_DISCHARGE_CURRENT s"

lemma closed_backed: "closed s \<Longrightarrow> backed ALLOW_CHARGE l s \<and> backed ALLOW_DISCHARGE k s"
  by (simp add: closed_def backed_def permission_paths_def)

lemma published_backed: "published a x y s \<Longrightarrow> backed ALLOW_CHARGE MAX_CHARGE_CURRENT s \<and> backed ALLOW_DISCHARGE MAX_DISCHARGE_CURRENT s"
  by (simp add: published_def backed_def flag_def)

lemma update_backed:
  assumes "declared s" "update_service clk wall s = (e, t)"
  shows "declared t \<and> sv_mqtt t = snd (get_aggregate_data clk (sv_mqtt s))
    \<and> backed ALLOW_CHARGE MAX_CHARGE_CURRENT t \<and> backed ALLOW_DISCHARGE MAX_DISCHARGE_CURRENT t"
proof -
  obtain r m where g: "get_aggregate_data clk (sv_mqtt s) = (r, m)" by force
  from assms g have "declared t \<and> sv_mqtt t = m
    \<and> backed ALLOW_CHARGE MAX_CHARGE_CURRENT t \<and> backed ALLOW_DISCHARGE MAX_DISCHARGE_CURRENT t"
    by (cases rule: service_update_cases) (auto dest: closed_backed published_backed simp: core_def)
  then show ?thesis by (simp add: g)
qed

lemma service_step_inv: "service_event_ok e \<Longrightarrow> service_inv s \<Longrightarrow> service_inv (service_step e s)"
proof (cases e)
  case (Update clk wall)
  assume ok: "service_event_ok e" "service_inv s"
  obtain r t where t: "update_service clk wall s = (r, t)" by force
  have "client_wf (snd (get_aggregate_data clk (sv_mqtt s)))"
    using client.inv_step [of "Poll clk" "sv_mqtt s"] ok Update by (simp add: service_inv_def)
  then show ?thesis using update_backed [OF _ t] ok Update t by (simp add: service_inv_def)
next
  case (Client c)
  assume ok: "service_event_ok e" "service_inv s"
  have "client_wf (client_step c (sv_mqtt s))" using client.inv_step ok Client by (simp add: service_inv_def)
  moreover have "same_config (sv_mqtt s) (client_step c (sv_mqtt s))"
    using client.below_step ok Client by (simp add: service_inv_def advances_def)
  then have "registered (client_step c (sv_mqtt s)) = registered (sv_mqtt s)"
    by (intro registered_cong) (simp_all add: same_config_def)
  ultimately show ?thesis using ok Client by (simp add: service_inv_def declared_def backed_def)
qed

interpretation svc: event_system service_step service_event_ok service_inv
  by unfold_locales (rule service_step_inv)

section \<open>After an outage\<close>

definition blocked :: "service \<Rightarrow> bool" where
  "blocked s \<longleftrightarrow> paths s ALLOW_CHARGE = Some (DInt 0) \<and> paths s ALLOW_DISCHARGE = Some (DInt 0)
     \<and> zero_at MAX_CHARGE_CURRENT s \<and> zero_at MAX_DISCHARGE_CURRENT s"

definition latched :: "service \<Rightarrow> bool" where
  "latched s \<longleftrightarrow> blocked s \<and> has_ready_data s \<and> previous_limits s = Some (Fin 0, Fin 0) \<and> sane (sv_dvcc s)"

text \<open>A poll that finds no full frame: nothing, incomplete data, or a partial frame with finite readings.\<close>

definition finds_partial :: "pyfloat \<Rightarrow> mqtt_client \<Rightarrow> bool" where
  "finds_partial clk m = (case fst (get_aggregate_data clk m) of
     Inr (Some a) \<Rightarrow> \<not> data_complete a \<or> (agg_partial a \<and> input_finite (dvcc_input_of a)) | _ \<Rightarrow> True)"

fun only_partial :: "service_event list \<Rightarrow> service \<Rightarrow> bool" where
  "only_partial [] s = True"
| "only_partial (e # es) s = ((case e of Update clk wall \<Rightarrow> finds_partial clk (sv_mqtt s) | Client c \<Rightarrow> True)
     \<and> only_partial es (service_step e s))"

lemma closed_blocked: "closed s \<Longrightarrow> blocked s"
  by (simp add: closed_def blocked_def permission_paths_def zero_at_def num_at_def)

lemma fmin_zero: "nonneg_float x \<Longrightarrow> fmin x (Fin 0) = Fin 0"
  by (auto simp: nonneg_float_def fmin_def)

lemma tick_finite: "tick clk \<Longrightarrow> finite_reading (Some clk)"
  using tick_clock by (cases clk) (auto simp: finite_reading_def clock_iff tick_def)

lemma publish_limits:
  assumes "limits_sane s" "input_finite (dvcc_input_of a)" "finite_reading (Some clk)"
    and run: "perform [publish_measurements clk a, publish_control clk wall a] s = (e, t)"
  shows "limits_sane t \<and> has_ready_data t"
proof -
  obtain e1 u where u: "publish_measurements clk a s = (e1, u)" by force
  have lu: "limits_sane u" using limits_view [of s u] keepsD [OF keeps_measurements u] assms(1) by simp
  have ru: "has_ready_data u" by (rule measurements_ready [OF u])
  show ?thesis
  proof (cases e1)
    case None
    obtain e2 v where v: "publish_control clk wall a u = (e2, v)" by force
    have "t = v" using run u None v by (simp split: option.splits)
    then show ?thesis using control_limits [OF lu assms(2,3) v] holdsD [OF ready_control ru v] by simp
  qed (use run u lu ru in auto)
qed

lemma latched_update:
  assumes "declared s" "latched s" "finite_reading (Some clk)" "finds_partial clk (sv_mqtt s)"
    and "update_service clk wall s = (e, t)"
  shows "latched t"
proof -
  obtain r m where g: "get_aggregate_data clk (sv_mqtt s) = (r, m)" by force
  let ?s = "s\<lparr>sv_mqtt := m\<rparr>"
  have s: "has_ready_data s" "previous_limits s = Some (Fin 0, Fin 0)" "sane (sv_dvcc s)"
    using assms(2) by (simp_all add: latched_def)
  then have ls: "limits_sane ?s" by (simp add: limits_sane_def)
  have fin: "agg_partial a \<and> input_finite (dvcc_input_of a)" if "r = Inr (Some a)" "data_complete a" for a
    using assms(4) that by (simp add: finds_partial_def g)
  from assms(1,5) g show ?thesis
  proof (cases rule: service_update_cases)
    case unavailable
    then show ?thesis using closed_blocked s by (simp add: latched_def core_def)
  next
    case (raised u)
    have "limits_sane u \<and> has_ready_data u"
    proof (cases "\<exists>a. r = Inr (Some a) \<and> data_complete a")
      case True
      then obtain a where a: "r = Inr (Some a)" "data_complete a" by blast
      then have "perform [publish_measurements clk a, publish_control clk wall a] ?s = (e, u)"
        using raised(5) by (simp add: using_res_def publish_snapshot_def del: perform.simps(2))
      from publish_limits [OF ls _ assms(3) this] fin [OF a] show ?thesis by simp
    next
      case False
      have "fst (set_unavailable clk d ?s) = None" for d
      proof -
        have "declared ?s" using assms(1) registered_cong [of m "sv_mqtt s"] aggregate_config [OF g] by (simp add: declared_def)
        from safeD [OF safe_unavailable this] show ?thesis by (metis fst_conv)
      qed
      then have "set_unavailable clk d ?s \<noteq> (e, u)" for d using raised(1) by (metis fst_conv)
      then have "\<exists>x. r = Inl x" using raised(5) False
        by (cases r) (auto simp: using_res_def publish_snapshot_def simp del: perform.simps(2) split: option.splits if_splits)
      then show ?thesis using raised(5) ls s by (auto simp: using_res_def limits_sane_def)
    qed
    then show ?thesis using raised closed_blocked by (simp add: latched_def core_def limits_sane_def)
  next
    case (complete a out c x y)
    obtain out' c' where "calculate clk (dvcc_input_of a) (sv_dvcc s) = (Inr out', c')" "sane c'"
      "nonneg_float (ccl out')" "nonneg_float (dcl out')"
      using calculate_sane [OF s(3) _ assms(3), of "dvcc_input_of a"] fin [OF complete(2,3)] by metis
    with complete(6) have c: "sane c" "nonneg_float (ccl out)" "nonneg_float (dcl out)" by simp_all
    have "x = Fin 0" "y = Fin 0"
      using complete(7) fin [OF complete(2,3)] s(2) fmin_zero c(2,3) by (auto simp: held_limits_def)
    moreover have "has_ready_data t" using publish_limits [OF ls _ assms(3) complete(10)] fin [OF complete(2,3)] by simp
    ultimately show ?thesis using complete(8,9) c(1)
      by (simp add: latched_def blocked_def published_def zero_at_def num_at_def sane_def ctl_curve_def)
  qed
qed

lemma latched_run:
  "service_inv s \<Longrightarrow> latched s \<Longrightarrow> list_all service_event_ok es \<Longrightarrow> only_partial es s \<Longrightarrow> latched (run service_step es s)"
proof (induction es arbitrary: s)
  case (Cons e es)
  have "service_inv (service_step e s)" using Cons.prems service_step_inv by simp
  moreover have "latched (service_step e s)"
  proof (cases e)
    case (Update clk wall)
    obtain r t where "update_service clk wall s = (r, t)" by force
    then show ?thesis using latched_update [of s clk wall r t] Cons.prems Update tick_finite by (simp add: service_inv_def)
  next
    case (Client c)
    then show ?thesis using Cons.prems by (simp add: latched_def blocked_def zero_at_def num_at_def)
  qed
  ultimately show ?case using Cons by simp
qed simp

text \<open>C13: Once an update of a service that had ready data finds the data missing or incomplete, charging and
  discharging stay forbidden and both limits zero through any later polls and messages, until a poll
  finds a complete full frame; partial frames alone never lift the block.\<close>

theorem outage_latches:
  assumes "service_inv s" "has_ready_data s" "sane (sv_dvcc s)" "tick clk" "update_service clk wall s = (None, t)"
    and "get_aggregate_data clk (sv_mqtt s) = (Inr d, m)" "d = None \<or> (\<exists>a. d = Some a \<and> \<not> data_complete a)"
    and "list_all service_event_ok es" "only_partial es t"
  shows "blocked (run service_step es t)"
proof -
  have d: "declared s" using assms(1) by (simp add: service_inv_def)
  from d assms(5,6) have "latched t"
    by (cases rule: service_update_cases) (use assms(2,3,7) closed_blocked in \<open>auto simp: latched_def core_def\<close>)
  moreover have "service_inv t" using service_step_inv [of "Update clk wall" s] assms(1,4,5) by simp
  ultimately show ?thesis using latched_run assms(8,9) by (simp add: latched_def)
qed

end
