(* ===== verification/ServiceTotal.thy ===== *)
theory ServiceTotal
  imports ServiceRuns
begin

text \<open>
  Complete data is always published: on a service whose registered paths, controller and profile are
  in order, no action of a publication raises, so an update with a complete aggregate of finite
  readings never falls back to the unavailable state.
\<close>

section \<open>Bounded arithmetic\<close>

definition bounded_by :: "int \<Rightarrow> pyfloat \<Rightarrow> bool" where
  "bounded_by B x \<longleftrightarrow> (\<exists>r. x = Fin r \<and> \<bar>r\<bar> \<le> of_int B)"

lemma bounded_finite: "bounded_by B x \<Longrightarrow> is_finite x"
  by (auto simp: bounded_by_def)

lemma small_fmax: "B \<le> 2 ^ 53 \<Longrightarrow> (of_int B :: rat) < fmax"
proof -
  assume "B \<le> 2 ^ 53"
  then have "(of_int B :: rat) \<le> of_int (2 ^ 53)" by (simp only: of_int_le_iff)
  also have "\<dots> < fmax" using pow2_int_of_nat [of 53] pow2_less_iff [of 53 1024] by (simp add: fmax_def del: pow2_less_iff)
  finally show ?thesis .
qed

lemma fl_bounded:
  assumes "\<bar>x\<bar> \<le> of_int B" "B \<le> 2 ^ 53"
  shows "bounded_by B (fl x)"
proof -
  have "(0::rat) \<le> of_int B" using assms(1) by linarith
  then have dbl: "is_dbl (of_int B)" using assms(2) by (intro is_dbl_of_int) simp
  then have "round64 x \<le> of_int B" using assms(1) by (intro r64.rnd_le) auto
  moreover have "- of_int B \<le> round64 x" using assms(1) dbl by (intro r64.rnd_ge is_dbl_uminus) auto
  ultimately show ?thesis using fl_finite [OF assms(1) dbl small_fmax [OF assms(2)]] by (simp add: bounded_by_def)
qed

lemma bounded_fmul: "bounded_by A x \<Longrightarrow> bounded_by B y \<Longrightarrow> 0 \<le> A \<Longrightarrow> A * B \<le> 2 ^ 53 \<Longrightarrow> bounded_by (A * B) (fmul x y)"
  by (auto simp: bounded_by_def [of A] bounded_by_def [of B] abs_mult intro!: fl_bounded mult_mono)

lemma bounded_fsub: "bounded_by A x \<Longrightarrow> bounded_by B y \<Longrightarrow> A + B \<le> 2 ^ 53 \<Longrightarrow> bounded_by (A + B) (fsub x y)"
  by (auto simp: bounded_by_def [of A] bounded_by_def [of B] fsub_def intro!: fl_bounded)

lemma bounded_fdiv:
  assumes "bounded_by A x" "y = Fin d" "1 / 2 \<le> \<bar>d\<bar>" "2 * A \<le> 2 ^ 53"
  shows "\<exists>z. fdiv x y = Inr z \<and> bounded_by (2 * A) z"
proof -
  obtain r where r: "x = Fin r" "\<bar>r\<bar> \<le> of_int A" using assms(1) by (auto simp: bounded_by_def)
  have "\<bar>r / d\<bar> \<le> of_int (2 * A)"
  proof -
    have "\<bar>r\<bar> * 1 \<le> \<bar>r\<bar> * (2 * \<bar>d\<bar>)" using assms(3) by (intro mult_left_mono) auto
    also have "\<dots> \<le> of_int A * (2 * \<bar>d\<bar>)" using r(2) by (intro mult_right_mono) auto
    finally show ?thesis using assms(3) by (simp add: abs_divide field_simps)
  qed
  then show ?thesis using r(1) assms(2,3,4) fl_bounded by auto
qed

lemma ftrunc_bounded: "bounded_by B x \<Longrightarrow> \<exists>n. ftrunc x = Inr n"
  by (auto simp: bounded_by_def)

lemma bounded_mono: "bounded_by A x \<Longrightarrow> A \<le> B \<Longrightarrow> bounded_by B x"
  using of_int_le_iff [of A B, where 'a = rat] by (auto simp: bounded_by_def)

lemma bounded_numeral: "bounded_by (numeral n) (Fin (numeral n))"
  by (simp add: bounded_by_def)

section \<open>Data a publication can carry\<close>

text \<open>
  Finite readings, and a charge of at most a million ampere hours: the time to go is then an
  integer.  A chain has at most 4096 cells.
\<close>

definition publishable :: "aggregate \<Rightarrow> bool" where
  "publishable a \<longleftrightarrow> input_finite (dvcc_input_of a) \<and> is_finite (tot_current (agg_totals a))
     \<and> (case tot_capacity (agg_totals a) of None \<Rightarrow> True | Some c \<Rightarrow> bounded_by (10 ^ 6) c)
     \<and> bounded_by (10 ^ 6) (capacity_full a) \<and> \<bar>agg_cell_count a\<bar> \<le> 2 ^ 53"

text \<open>A chain with a topology has its protection profile, as the constructor demands.\<close>

definition guarded_client :: "mqtt_client \<Rightarrow> bool" where
  "guarded_client m \<longleftrightarrow> (case cl_topology m of None \<Rightarrow> True | Some t \<Rightarrow> protection_profile t \<noteq> None)"

text \<open>\<open>works P a\<close>: from a state with \<open>P\<close> the action returns, in such a state again.\<close>

definition works :: "(service \<Rightarrow> bool) \<Rightarrow> action \<Rightarrow> bool" where
  "works P a \<longleftrightarrow> (\<forall>s. P s \<longrightarrow> fst (a s) = None \<and> P (snd (a s)))"

lemma worksD: "works P a \<Longrightarrow> P s \<Longrightarrow> \<exists>t. a s = (None, t) \<and> P t"
  unfolding works_def by (metis prod.collapse)

lemma worksI: "(\<And>s. P s \<Longrightarrow> \<exists>t. a s = (None, t) \<and> P t) \<Longrightarrow> works P a"
  unfolding works_def by (metis fst_conv snd_conv)

lemma works_perform: "(\<And>a. a \<in> set as \<Longrightarrow> works P a) \<Longrightarrow> works P (perform as)"
proof (induction as)
  case (Cons a as)
  have head: "works P a" and tail: "works P (perform as)" using Cons by auto
  show ?case
  proof (rule worksI)
    fix s assume "P s"
    then obtain t where t: "a s = (None, t)" "P t" using worksD [OF head] by blast
    then show "\<exists>t. perform (a # as) s = (None, t) \<and> P t" using worksD [OF tail] by simp
  qed
qed (simp add: works_def)

lemma works_Nil: "works P (perform [])"
  by (simp add: works_def)

lemma works_reading: "(\<And>s. P s \<Longrightarrow> works P (k s)) \<Longrightarrow> works P (reading k)"
  by (simp add: works_def reading_def)

lemma works_using: "r = Inr v \<Longrightarrow> works P (k v) \<Longrightarrow> works P (using_res r k)"
  by (simp add: works_def using_res_def)

lemma works_when: "(\<And>v. x = Some v \<Longrightarrow> works P (k v)) \<Longrightarrow> works P (when_some x k)"
  by (cases x) (simp_all add: when_some_def works_Nil)

definition serves :: "mqtt_client \<Rightarrow> service \<Rightarrow> bool" where
  "serves m s \<longleftrightarrow> declared s \<and> sv_mqtt s = m"

lemma safe_works: "safe a \<Longrightarrow> works (serves m) a"
  by (auto simp: works_def safe_def serves_def)

lemma works_registered: "p \<in> registered m \<Longrightarrow> works (serves m) (put p v)"
  by (auto simp: works_def serves_def put_def declared_def split: option.splits)

text \<open>Only \<open>KeyError\<close> leaves a write, and the guarded writes swallow it.\<close>

lemma put_raises: "put p v s = (r, t) \<Longrightarrow> r = None \<or> (\<exists>q. r = Some (KeyError q))"
  by (auto simp: put_def split: option.splits)

definition writes :: "action \<Rightarrow> bool" where
  "writes a \<longleftrightarrow> (\<exists>p v. a = put p v)"

lemma writes_put [simp]: "writes (put p v)" "writes (put_round p n x)"
  by (auto simp: writes_def put_round_def)

lemma puts_raise: "(\<And>a. a \<in> set as \<Longrightarrow> writes a) \<Longrightarrow> perform as s = (r, t) \<Longrightarrow> r = None \<or> (\<exists>q. r = Some (KeyError q))"
proof (induction as arbitrary: s)
  case (Cons a as)
  obtain r' u where u: "a s = (r', u)" by force
  then have "r' = None \<or> (\<exists>q. r' = Some (KeyError q))" using Cons.prems(1) put_raises by (metis list.set_intros(1) writes_def)
  then show ?case using Cons.IH [of u] Cons.prems u by auto
qed simp

lemma works_attempt:
  assumes "\<And>a. a \<in> set as \<Longrightarrow> writes a"
  shows "works (serves m) (attempt as)"
proof (rule worksI)
  fix s assume s: "serves m s"
  obtain r t where p: "perform as s = (r, t)" by force
  have "keeps wiring (perform as)" by (rule keeps_perform) (use assms keeps_wiring_put in \<open>auto simp: writes_def\<close>)
  from keepsD [OF this p] have w: "wiring t = wiring s" .
  then have "serves m t" using s wiring_declared [OF w] by (simp_all add: wiring_def serves_def)
  then show "\<exists>t. attempt as s = (None, t) \<and> serves m t"
    using puts_raise [OF assms p] p by (auto simp: attempt_def)
qed

section \<open>No action of a publication raises\<close>

definition electrical_paths :: "string list" where
  "electrical_paths = [''/InstalledCapacity'', ''/System/NrOfCellsPerBattery'', ''/System/MinVoltageCellId'',
     ''/System/MaxVoltageCellId'', ''/System/NrOfCells'']"

lemma electrical_registered: "p \<in> set electrical_paths \<Longrightarrow> p \<in> registered m"
  by (auto simp: electrical_paths_def registered_def setup_paths_def system_paths_def)

definition control_names :: "string list" where
  "control_names = [''/System/MinCellTemperature'', ''/System/MinTemperatureCellId'', ''/System/MaxCellTemperature'',
     ''/System/MaxTemperatureCellId'', ''/History/ChargeCycles'', ''/Alarms/LowSoc'', ''/Alarms/LowCellVoltage'',
     ''/Alarms/HighCellVoltage'', ''/Alarms/CellImbalance'', ''/Alarms/HighTemperature'', ''/Alarms/LowTemperature'',
     ''/Alarms/LowVoltage'', ''/Alarms/HighVoltage'']"

lemma control_common: "list_all (\<lambda>p. p \<in> set common_paths) control_names"
  by code_simp

named_theorems total_rules \<open>actions that return on a declared service\<close>

definition update_paths :: "string list" where
  "update_paths = electrical_paths @ control_names @ [''/Connected'', ''/Alarms/CommunicationError'', ''/System/StaleData'',
     ''/Alarms/InternalFailure'', TELEMETRY_STATE, ''/Info/TelemetrySource'', ''/Info/TelemetryPartial'', ''/Info/MissingData'',
     DATA_COMPLETE, ''/Info/DataAge'', ''/Info/LastMeasurementMonotonic'', ''/System/NrOfModulesOnline'',
     ''/System/NrOfModulesOffline'', ''/System/NrOfModulesBlockingCharge'', ''/System/NrOfModulesBlockingDischarge'',
     ''/Info/MaxChargeVoltage'', ''/Info/MaxChargeCellVoltage''] @ permission_paths @ measurement_paths"

lemma total_put [total_rules]: "p \<in> set update_paths \<Longrightarrow> works (serves m) (put p v)"
proof -
  assume p: "p \<in> set update_paths"
  consider "p \<in> set electrical_paths" | "p \<in> set control_names" | "p \<notin> set electrical_paths" "p \<notin> set control_names" by blast
  then show ?thesis
  proof cases
    case 1
    then show ?thesis by (intro works_registered electrical_registered)
  next
    case 2
    then show ?thesis using control_common by (auto simp: list_all_iff intro!: safe_works safe_put)
  next
    case 3
    then show ?thesis using p unfolding update_paths_def set_append
      by (intro safe_works safe_fixed) (simp only: set_append Un_iff, blast)
  qed
qed

lemmas path_lists = update_paths_def electrical_paths_def control_names_def permission_paths_def measurement_paths_def

lemma total_modify [total_rules]: "(\<And>s. sv_mqtt (g s) = sv_mqtt s \<and> paths (g s) = paths s) \<Longrightarrow> works (serves m) (modify g)"
  by (rule safe_works [OF safe_modify])

lemma total_hours:
  assumes "r = Inr h" "bounded_by (10 ^ 9) h"
  shows "works (serves m) (put_hours r)"
proof -
  have "bounded_by (10 ^ 9 * 3600) (fmul h (Fin 3600))"
    by (rule bounded_fmul [OF assms(2)]) (simp_all add: bounded_by_def)
  then obtain n where "ftrunc (fmul h (Fin 3600)) = Inr n" using ftrunc_bounded by blast
  then show ?thesis unfolding put_hours_def
    by (intro works_using [OF assms(1)] works_using total_put) (simp_all add: path_lists)
qed

lemma total_time_to_go:
  assumes "publishable a"
  shows "works (serves m) (update_time_to_go a)"
proof (cases "tot_capacity (agg_totals a)")
  case None
  then show ?thesis by (auto simp: update_time_to_go_def path_lists intro!: total_rules)
next
  case (Some cap)
  have cap: "bounded_by (10 ^ 6) cap" and full0: "bounded_by (10 ^ 6) (capacity_full a)"
    using assms Some by (simp_all add: publishable_def)
  obtain i where i: "tot_current (agg_totals a) = Fin i" using assms by (auto simp: publishable_def elim: is_finite.elims)
  have idle: "works (serves m) (put PATH_TIME_TO_GO DNone)" by (intro total_put) (simp add: path_lists)
  have "\<exists>full. (if cl_topology m = None \<and> (flt (fmul cap (Fin 10)) (capacity_full a) \<or> flt (capacity_full a) cap)
      then fdiv (fmul cap (Fin 100)) (fmax2 (Fin 10) (tot_soc (agg_totals a))) else Inr (capacity_full a)) = Inr full
      \<and> bounded_by (2 * 10 ^ 8) full"
  proof -
    have "is_finite (tot_soc (agg_totals a))"
      using assms by (simp add: publishable_def input_finite_def dvcc_input_of_def finite_reading_def)
    then obtain q where q: "fmax2 (Fin 10) (tot_soc (agg_totals a)) = Fin q" "10 \<le> q"
      by (cases "tot_soc (agg_totals a)"; cases "flt (Fin 10) (tot_soc (agg_totals a))") (auto simp: fmax2_def)
    have "bounded_by (10 ^ 6 * 100) (fmul cap (Fin 100))" by (rule bounded_fmul [OF cap]) (simp_all add: bounded_by_def)
    from bounded_fdiv [OF this q(1)] q(2) obtain z where
      "fdiv (fmul cap (Fin 100)) (fmax2 (Fin 10) (tot_soc (agg_totals a))) = Inr z" "bounded_by (2 * (10 ^ 6 * 100)) z"
      by auto
    then show ?thesis using bounded_mono [OF full0] by auto
  qed
  then obtain full where full: "(if cl_topology m = None \<and> (flt (fmul cap (Fin 10)) (capacity_full a) \<or> flt (capacity_full a) cap)
      then fdiv (fmul cap (Fin 100)) (fmax2 (Fin 10) (tot_soc (agg_totals a))) else Inr (capacity_full a)) = Inr full"
      "bounded_by (2 * 10 ^ 8) full" by blast
  have "works (serves m) (put_hours (fdiv cap (fabs (Fin i))))" if out: "flt (Fin i) (Fin (- (1 / 2)))"
  proof -
    have "fabs (Fin i) = Fin \<bar>i\<bar>" "1 / 2 \<le> \<bar>\<bar>i\<bar>\<bar>" using out by auto
    from bounded_fdiv [OF cap this] obtain z where "fdiv cap (fabs (Fin i)) = Inr z" "bounded_by (2 * 10 ^ 6) z" by auto
    then show ?thesis using total_hours bounded_mono [of "2 * 10 ^ 6" z "10 ^ 9"] by simp
  qed
  moreover have "works (serves m) (put_hours (fdiv (fsub full cap) (Fin i)))" if charging: "flt (Fin (1 / 2)) (Fin i)"
  proof -
    have "bounded_by (2 * 10 ^ 8 + 10 ^ 6) (fsub full cap)" by (rule bounded_fsub [OF full(2) cap]) simp
    from bounded_fdiv [OF this, of "Fin i" i] charging obtain z where
      "fdiv (fsub full cap) (Fin i) = Inr z" "bounded_by (2 * (2 * 10 ^ 8 + 10 ^ 6)) z" by auto
    then show ?thesis using total_hours bounded_mono [of "2 * (2 * 10 ^ 8 + 10 ^ 6)" z "10 ^ 9"] by simp
  qed
  ultimately show ?thesis
    unfolding update_time_to_go_def Some option.case i Let_def
    by (intro works_reading works_using) (auto simp: serves_def full(1) idle)
qed

lemma works_round: "works P (put p (DFloat (fround n x))) \<Longrightarrow> works P (put_round p n x)"
  by (simp add: put_round_def)

lemma total_cells: "works (serves m) (update_cell_voltages a)"
  unfolding update_cell_voltages_def put_cell_def Let_def
  by (intro works_perform)
    (auto intro!: works_perform works_reading works_when works_round works_attempt works_Nil total_rules
      simp: path_lists split: option.splits)

lemma total_temperatures: "works (serves m) (update_temperature_paths a)"
  unfolding update_temperature_paths_def
  by (intro works_perform)
    (auto intro!: works_perform works_round works_attempt total_rules simp: path_lists)

lemma total_measurements:
  assumes "publishable a"
  shows "works (serves m) (publish_measurements clk a)"
  unfolding publish_measurements_def Let_def
  by (intro works_perform)
    (auto intro!: works_perform works_reading works_round works_Nil total_rules total_time_to_go [OF assms] total_cells
      total_temperatures safe_works [OF safe_modules] safe_works [OF safe_communication]
      simp: path_lists split: option.splits)

lemma scaled_small: "\<bar>n\<bar> \<le> 2 ^ 53 \<Longrightarrow> scaled n x = Inr (fmul (Fin (of_int n)) x)"
  using of_pyint_exact [of n] by (simp add: scaled_def)

lemma total_voltage_alarms:
  assumes "publishable a" "guarded_client m"
  shows "works (serves m) (update_voltage_alarms a)"
proof -
  have n: "\<bar>agg_cell_count a\<bar> \<le> 2 ^ 53" using assms(1) by (simp add: publishable_def)
  have "works (serves m) (put_voltage_alarms v (Inr w) (Inr x) (Inr y) (Inr z))" for v w x y z
    unfolding put_voltage_alarms_def
    by (intro works_using [OF refl] works_perform) (auto intro!: total_rules simp: path_lists)
  then show ?thesis
    using assms(2) unfolding update_voltage_alarms_def Let_def scaled_small [OF n]
    by (auto intro!: works_Nil works_reading works_using [OF refl] simp: guarded_client_def serves_def split: option.splits)
qed

lemma total_alarms:
  assumes "publishable a" "guarded_client m"
  shows "works (serves m) (update_alarms wall a)"
  unfolding update_alarms_def Let_def
  by (intro works_perform)
    (auto intro!: total_voltage_alarms [OF assms] works_perform works_reading works_when total_rules
      simp: path_lists log_soc_alarm_def update_soc_alarm_def update_low_cell_voltage_alarm_def
        update_high_cell_voltage_alarm_def update_cell_imbalance_alarm_def update_temperature_alarms_def
        update_internal_failure_alarm_def Let_def)

lemma total_dvcc:
  assumes "serves m s" "sane (sv_dvcc s)" "publishable a" "finite_reading (Some clk)"
  shows "\<exists>t. update_dvcc clk wall a s = (None, t) \<and> serves m t"
proof -
  have "input_finite (dvcc_input_of a)" using assms(3) by (simp add: publishable_def)
  then obtain out c where c: "calculate clk (dvcc_input_of a) (sv_dvcc s) = (Inr out, c)"
    using calculate_sane [OF assms(2) _ assms(4)] by metis
  let ?as = "[put MAX_CHARGE_CURRENT (DFloat (ccl out)), put MAX_DISCHARGE_CURRENT (DFloat (dcl out)),
       put ''/Info/MaxChargeVoltage'' (DFloat (cvl out)),
       when_some (out_max_cell out) (put_round ''/Info/MaxChargeCellVoltage'' 3),
       modify (\<lambda>t. if status_due wall (ccl out) t then t\<lparr>last_dvcc_log := wall\<rparr> else t)]"
  have "works (serves m) (perform ?as)"
    by (intro works_perform) (auto intro!: works_when works_round total_rules simp: path_lists)
  moreover have "serves m (s\<lparr>sv_dvcc := c\<rparr>)" using assms(1) by (auto simp: serves_def declared_def)
  ultimately obtain t where "perform ?as (s\<lparr>sv_dvcc := c\<rparr>) = (None, t)" "serves m t" using worksD by blast
  then show ?thesis using c
    by (simp add: update_dvcc_def reading_def perform_modify using_res_def del: perform.simps(2))
qed

text \<open>With numbers at both limits the last step of a publication returns.\<close>

definition limits_published :: "mqtt_client \<Rightarrow> service \<Rightarrow> bool" where
  "limits_published m s \<longleftrightarrow> serves m s \<and> (\<forall>p \<in> set limit_paths. \<exists>x. paths s p = Some (DFloat x))"

lemma limits_put_works:
  "p \<in> set permission_paths \<or> p = TELEMETRY_STATE \<Longrightarrow> p \<notin> set limit_paths \<or> (\<exists>x. v = DFloat x) \<Longrightarrow> works (limits_published m) (put p v)"
proof (rule worksI)
  fix s
  assume p: "p \<in> set permission_paths \<or> p = TELEMETRY_STATE" and v: "p \<notin> set limit_paths \<or> (\<exists>x. v = DFloat x)"
    and s: "limits_published m s"
  have "works (serves m) (put p v)" using p by (intro total_put) (auto simp: path_lists)
  then obtain t where t: "put p v s = (None, t)" "serves m t" using s worksD [of "serves m" "put p v" s] by (auto simp: limits_published_def)
  then show "\<exists>t. put p v s = (None, t) \<and> limits_published m t"
    using put_None [OF t(1)] v s by (auto simp: limits_published_def)
qed

lemma works_number:
  assumes "p \<in> set limit_paths" "\<And>x. works (limits_published m) (k x)"
  shows "limits_published m s \<Longrightarrow> works (limits_published m) (using_res (num_at p s) k)"
proof -
  assume "limits_published m s"
  then obtain x where "num_at p s = Inr x" using assms(1) by (auto simp: limits_published_def num_at_def)
  then show ?thesis using assms(2) by (rule works_using)
qed

lemma total_partial: "works (limits_published m) (apply_partial_frame_limits a)"
proof -
  have hold: "works (limits_published m) (hold_limit p q)" if "p \<in> set limit_paths" for p q
    unfolding hold_limit_def using that
    by (intro works_reading works_number limits_put_works) (auto simp: limit_paths_def permission_paths_def)
  have remember: "works (limits_published m) (modify (\<lambda>t. t\<lparr>previous_limits := Some (x, y), sv_dvcc := (sv_dvcc t)\<lparr>last_ccl := x, last_dcl := y\<rparr>\<rparr>))" for x y
    by (auto simp: works_def modify_def limits_published_def serves_def declared_def)
  have out: "p \<notin> set limit_paths" if "p \<in> {ALLOW_CHARGE, ALLOW_DISCHARGE, TELEMETRY_STATE}" for p
    using that by (auto simp: limit_paths_def path_defs)
  show ?thesis
    unfolding apply_partial_frame_limits_def
  proof (rule works_perform, simp only: set_simps(2) insert_iff, elim disjE; (simp only:)?)
    show "works (limits_published m) (reading (\<lambda>s. case previous_limits s of None \<Rightarrow> perform []
        | Some (charge, discharge) \<Rightarrow> if agg_partial a
            then perform [hold_limit MAX_CHARGE_CURRENT charge, hold_limit MAX_DISCHARGE_CURRENT discharge] else perform []))"
      by (rule works_reading) (auto intro!: works_Nil works_perform hold simp: limit_paths_def split: option.splits)
    show "works (limits_published m) (reading (\<lambda>s. using_res (num_at MAX_CHARGE_CURRENT s) (\<lambda>x. using_res (num_at MAX_DISCHARGE_CURRENT s) (\<lambda>y.
       modify (\<lambda>t. t\<lparr>previous_limits := Some (x, y), sv_dvcc := (sv_dvcc t)\<lparr>last_ccl := x, last_dcl := y\<rparr>\<rparr>)))))"
      by (rule works_reading) (intro works_number remember; simp add: limit_paths_def)
  qed (auto intro!: works_reading works_Nil limits_put_works out simp: permission_paths_def)
qed

lemma keeps_view_dvcc: "keeps control_view a \<Longrightarrow> keeps sv_dvcc a"
  by (simp add: keeps_def control_view_def)

lemma total_control:
  assumes "serves m s" "sane (sv_dvcc s)" "guarded_client m" "publishable a" "finite_reading (Some clk)"
  shows "\<exists>t. publish_control clk wall a s = (None, t)"
proof -
  let ?front = "[put ALLOW_CHARGE (flag (allow_charge a)), put ALLOW_DISCHARGE (flag (allow_discharge a)), update_alarms wall a]"
  have "works (serves m) (perform ?front)"
    by (intro works_perform) (auto intro!: total_put total_alarms [OF assms(4,3)] simp: path_lists)
  then obtain u where u: "perform ?front s = (None, u)" "serves m u" using worksD assms(1) by blast
  have "keeps sv_dvcc (perform ?front)"
    by (intro keeps_perform) (auto intro!: keeps_put keeps_view_dvcc [OF keeps_alarms])
  from keepsD [OF this u(1)] have "sane (sv_dvcc u)" using assms(2) by simp
  from total_dvcc [OF u(2) this assms(4,5)] obtain w where w: "update_dvcc clk wall a u = (None, w)" "serves m w" by blast
  have "limits_published m w" using w(2) dvcc_published [OF w(1)] by (auto simp: limits_published_def limit_paths_def)
  then obtain t where "apply_partial_frame_limits a w = (None, t)" using worksD [OF total_partial] by blast
  then show ?thesis
    using perform_append [of ?front "[update_dvcc clk wall a, apply_partial_frame_limits a]" s] u(1) w(1)
    by (simp add: publish_control_def del: perform.simps(2)) (simp add: perform_Cons_None del: perform.simps(2))
qed

lemma complete_total:
  assumes "declared s" "sane (sv_dvcc s)" "guarded_client (sv_mqtt s)" "finite_reading (Some clk)"
    and "get_aggregate_data clk (sv_mqtt s) = (Inr (Some a), m)" "data_complete a" "publishable a"
  shows "\<exists>t x y out c. update_service clk wall s = (None, t) \<and> calculate clk (dvcc_input_of a) (sv_dvcc s) = (Inr out, c)
    \<and> held_limits a (previous_limits s) (ccl out, dcl out) = (x, y) \<and> published a x y t"
proof -
  let ?s = "s\<lparr>sv_mqtt := m\<rparr>"
  have "m = sv_mqtt s" using assms(5) by (auto simp: get_aggregate_data_def Let_def split: sum.splits if_splits)
  then have s: "serves m ?s" "guarded_client m" "sane (sv_dvcc ?s)" using assms(1-3) by (simp_all add: serves_def)
  obtain u where u: "publish_measurements clk a ?s = (None, u)" "serves m u"
    using worksD [OF total_measurements [OF assms(7)] s(1)] by blast
  have "sane (sv_dvcc u)" using keepsD [OF keeps_measurements u(1)] s(3) by (simp add: control_view_def)
  from total_control [OF u(2) this s(2) assms(7,4)] obtain t where "publish_control clk wall a u = (None, t)" by blast
  with u(1) have run: "perform [publish_measurements clk a, publish_control clk wall a] ?s = (None, t)" by simp
  then have "update_service clk wall s = (None, t)"
    using assms(5,6) by (simp add: update_service_def using_res_def publish_snapshot_def Let_def del: perform.simps(2))
  with publish_done [OF run] show ?thesis by auto
qed

section \<open>No write misses its path\<close>

text \<open>\<open>plain r\<close>: whatever the computation raises, it is no \<open>KeyError\<close>; \<open>tame m a\<close>: on a declared service the action ends
  with no \<open>KeyError\<close>, whether it returns or raises something else, and leaves the service declared.  A write to a path
  that was not registered raises \<open>KeyError\<close>, so a tame action writes registered paths only.\<close>

definition plain :: "'a res \<Rightarrow> bool" where
  "plain r \<longleftrightarrow> (\<forall>q. r \<noteq> Inl (KeyError q))"

lemma plain_simps [simp]: "plain (Inr x)" "plain (Inl e) \<longleftrightarrow> (\<forall>q. e \<noteq> KeyError q)"
  by (simp_all add: plain_def)

lemma plain_and_then [intro]: "plain r \<Longrightarrow> (\<And>x. plain (f x)) \<Longrightarrow> plain (and_then r f)"
  by (cases r) (simp_all add: plain_def)

lemma plain_float [intro, simp]:
  "plain (fdiv x y)" "plain (ftrunc x)" "plain (ffloor x)" "plain (of_pyint n)" "plain (int_div n k)" "plain (fmean xs)"
  "plain (falling u v w)" "plain (rising u v w)" "plain (floor_to n x)" "plain (scaled n x)"
proof -
  show d: "plain (fdiv x y)" for x y by (cases y; cases x) simp_all
  show f: "plain (ffloor x)" for x by (cases x) simp_all
  show i: "plain (int_div n k)" for n k by (simp add: int_div_def split: pyfloat.split)
  show o: "plain (of_pyint n)" for n by (simp add: of_pyint_def split: pyfloat.split)
  show "plain (ftrunc x)" by (cases x) simp_all
  show "plain (fmean xs)" unfolding fmean_def by (rule d)
  show r: "plain (rising u v w)" for u v w by (simp add: rising_def d)
  show "plain (falling u v w)" by (auto simp: falling_def r)
  show "plain (floor_to n x)" by (auto simp: floor_to_def f i)
  show "plain (scaled n x)" by (auto simp: scaled_def o)
qed

lemma plain_limits [intro, simp]:
  "plain (ccl_from_cell_voltage c v)" "plain (ccl_from_imbalance c v)" "plain (ccl_from_temperature c v w)"
  "plain (ccl_from_soc c v)" "plain (dcl_from_cell_voltage c v)"
  by (auto simp: ccl_from_cell_voltage_def ccl_from_imbalance_def ccl_from_temperature_def ccl_from_soc_def
      dcl_from_cell_voltage_def Let_def split: option.split)

lemma plain_calculate: "plain (fst (calculate now d c))"
proof -
  have "plain (combined_ccl c d)" unfolding combined_ccl_def by (intro plain_and_then) simp_all
  moreover have "plain (combined_dcl c d)" unfolding combined_dcl_def by (rule plain_and_then) (auto split: option.split)
  moreover have "plain (finish c' d x y)" for c' x y unfolding finish_def Let_def by (intro plain_and_then) auto
  ultimately show ?thesis by (auto simp: calculate_def Let_def plain_def split: sum.split)
qed

lemma plain_aggregate: "plain (fst (get_aggregate_data clk s))"
proof -
  have "plain (topology_totals s bs)" "plain (measured_totals tot remaining bs)" for tot remaining bs
    unfolding topology_totals_def measured_totals_def Let_def by (intro plain_and_then; auto)+
  then have "plain (electrical_totals s tot remaining bs)" for tot remaining bs by (simp add: electrical_totals_def)
  then show ?thesis
    by (cases rule: get_aggregate_cases [of clk s]) (auto simp: plain_def)
qed

definition tame :: "mqtt_client \<Rightarrow> action \<Rightarrow> bool" where
  "tame m a \<longleftrightarrow> (\<forall>s. serves m s \<longrightarrow> (\<forall>q. fst (a s) \<noteq> Some (KeyError q)) \<and> serves m (snd (a s)))"

lemma tame_works: "works (serves m) a \<Longrightarrow> tame m a"
  by (auto simp: works_def tame_def)

lemma tame_perform: "(\<And>a. a \<in> set as \<Longrightarrow> tame m a) \<Longrightarrow> tame m (perform as)"
proof (induction as)
  case (Cons a as)
  have head: "tame m a" and tail: "tame m (perform as)" using Cons by auto
  show ?case unfolding tame_def
  proof (intro allI impI)
    fix s assume "serves m s"
    moreover obtain e t where t: "a s = (e, t)" by force
    ultimately have "\<forall>q. e \<noteq> Some (KeyError q)" "serves m t" using head by (auto simp: tame_def)
    then show "(\<forall>q. fst (perform (a # as) s) \<noteq> Some (KeyError q)) \<and> serves m (snd (perform (a # as) s))"
      using tail t by (cases e) (auto simp: tame_def)
  qed
qed (simp add: tame_def)

lemma tame_reading: "(\<And>s. serves m s \<Longrightarrow> tame m (k s)) \<Longrightarrow> tame m (reading k)"
  by (simp add: tame_def reading_def)

lemma tame_using: "plain r \<Longrightarrow> (\<And>v. tame m (k v)) \<Longrightarrow> tame m (using_res r k)"
  by (cases r) (simp_all add: tame_def using_res_def plain_def)

lemma tame_when: "(\<And>v. tame m (k v)) \<Longrightarrow> tame m (when_some x k)"
  by (cases x) (simp_all add: when_some_def tame_works works_Nil)

lemma tame_Nil: "tame m (perform [])"
  by (rule tame_works [OF works_Nil])

lemma tame_put: "p \<in> set update_paths \<Longrightarrow> tame m (put p v)"
  by (rule tame_works [OF total_put])

lemma tame_round: "p \<in> set update_paths \<Longrightarrow> tame m (put_round p n x)"
  by (simp add: put_round_def tame_put)

lemma tame_modify: "(\<And>s. sv_mqtt (g s) = sv_mqtt s \<and> paths (g s) = paths s) \<Longrightarrow> tame m (modify g)"
  by (rule tame_works [OF total_modify])

lemmas tame_intros = tame_perform tame_reading tame_using tame_when tame_Nil tame_put tame_round tame_modify

lemma tame_time_to_go: "tame m (update_time_to_go a)"
  unfolding update_time_to_go_def put_hours_def Let_def
  by (auto intro!: tame_intros simp: path_lists split: option.split)

lemma tame_measurements: "tame m (publish_measurements clk a)"
  unfolding publish_measurements_def Let_def
  by (intro tame_perform)
    (auto intro!: tame_intros tame_time_to_go tame_works [OF total_cells] tame_works [OF total_temperatures]
      tame_works [OF safe_works [OF safe_modules]] tame_works [OF safe_works [OF safe_communication]]
      simp: path_lists split: option.split)

lemma tame_alarms: "tame m (update_alarms wall a)"
proof -
  have v: "plain r1 \<Longrightarrow> plain r2 \<Longrightarrow> plain r3 \<Longrightarrow> plain r4 \<Longrightarrow> tame m (put_voltage_alarms x r1 r2 r3 r4)" for x r1 r2 r3 r4
    unfolding put_voltage_alarms_def by (intro tame_using tame_perform) (auto intro!: tame_put simp: path_lists)
  have "tame m (update_voltage_alarms a)"
    unfolding update_voltage_alarms_def Let_def
    by (auto intro!: v tame_intros simp: check_def split: option.split)
  then show ?thesis
    unfolding update_alarms_def Let_def
    by (intro tame_perform)
      (auto intro!: tame_intros simp: path_lists log_soc_alarm_def update_soc_alarm_def update_low_cell_voltage_alarm_def
        update_high_cell_voltage_alarm_def update_cell_imbalance_alarm_def update_temperature_alarms_def
        update_internal_failure_alarm_def Let_def)
qed

lemma tame_dvcc: "tame m (update_dvcc clk wall a)"
proof -
  have "tame m (modify (\<lambda>t. t\<lparr>sv_dvcc := c\<rparr>))" for c by (rule tame_modify) simp
  moreover have "plain r" if "calculate clk (dvcc_input_of a) c = (r, c')" for r c c'
    using plain_calculate [of clk "dvcc_input_of a" c] that by simp
  ultimately show ?thesis
    unfolding update_dvcc_def
    by (auto intro!: tame_intros simp: path_lists split: prod.split)
qed

lemma plain_number: "serves m s \<Longrightarrow> p \<in> set update_paths \<Longrightarrow> plain (num_at p s)"
  using worksD [OF total_put [of p m DNone], of s]
  by (cases "paths s p") (auto simp: plain_def num_at_def put_def serves_def split: dbus_val.split)

lemma tame_partial: "tame m (apply_partial_frame_limits a)"
proof -
  have hold: "tame m (hold_limit p x)" if "p \<in> set update_paths" for p x
    unfolding hold_limit_def using that by (intro tame_reading tame_using plain_number tame_put)
  have remember: "tame m (modify (\<lambda>t. t\<lparr>previous_limits := Some (x, y), sv_dvcc := (sv_dvcc t)\<lparr>last_ccl := x, last_dcl := y\<rparr>\<rparr>))" for x y
    by (rule tame_modify) simp
  show ?thesis
    unfolding apply_partial_frame_limits_def
    by (intro tame_perform)
      (auto intro!: tame_reading tame_Nil tame_perform hold tame_using plain_number remember tame_put
        simp: path_lists split: option.split)
qed

lemma tame_snapshot: "tame m (publish_snapshot clk wall d)"
proof -
  have "tame m (set_unavailable clk x)" for x by (rule tame_works [OF safe_works [OF safe_unavailable]])
  moreover have "tame m (publish_control clk wall a)" for a
    unfolding publish_control_def
    by (intro tame_perform) (auto intro!: tame_put tame_alarms tame_dvcc tame_partial simp: path_lists)
  ultimately show ?thesis
    unfolding publish_snapshot_def
    by (auto intro!: tame_perform tame_measurements split: option.split)
qed

lemma update_no_key_error:
  assumes "declared s"
  shows "fst (update_service clk wall s) \<noteq> Some (KeyError q)"
proof -
  obtain e t where e: "update_service clk wall s = (e, t)" by force
  obtain r m where g: "get_aggregate_data clk (sv_mqtt s) = (r, m)" by force
  have s: "serves m (s\<lparr>sv_mqtt := m\<rparr>)"
    using assms registered_cong [of m "sv_mqtt s"] aggregate_config [OF g] by (simp add: serves_def declared_def)
  have "plain r" using plain_aggregate [of clk "sv_mqtt s"] g by simp
  then have "tame m (using_res r (publish_snapshot clk wall))" by (intro tame_using tame_snapshot)
  then have "fst (using_res r (publish_snapshot clk wall) (s\<lparr>sv_mqtt := m\<rparr>)) \<noteq> Some (KeyError q)"
    using s by (simp add: tame_def)
  from assms e g this have "e \<noteq> Some (KeyError q)" by (cases rule: service_update_cases) auto
  then show ?thesis using e by simp
qed

text \<open>The paths whose writes are guarded, because a battery may report more cells or sensors than were configured: those of
  every configured cell and member are registered.\<close>

definition temperature_slots :: "mqtt_client \<Rightarrow> int" where
  "temperature_slots m = (if cl_topology m \<noteq> None then battery_count m else 4)"

lemma guarded_registered:
  "0 \<le> i \<Longrightarrow> i < configured_cells m \<Longrightarrow>
    {cell_path i, cell_balance_path i, legacy_cell_path (i + 1), legacy_balance_path (i + 1)} \<subseteq> registered m"
  "1 \<le> k \<Longrightarrow> k \<le> temperature_slots m \<Longrightarrow> temperature_path k \<in> registered m"
  by (auto simp: registered_def setup_paths_def cell_paths_def temperature_paths_def temperature_slots_def Let_def
      image_Un image_UN)

section \<open>Properties\<close>

text \<open>C14: An update with the complete aggregate of finite readings, its remaining and full charge at most a million ampere
  hours and its cell count at most \<open>2 ^ 53\<close> (the bounds of \<open>publishable\<close>: beyond them the time to go overflows), never fails: it
  publishes the controller's limits, held by a partial frame, and grants exactly what the batteries permit and the
  limits allow.\<close>

theorem complete_data_published:
  assumes "declared s" "sane (sv_dvcc s)" "guarded_client (sv_mqtt s)" "finite_reading (Some clk)"
    and "get_aggregate_data clk (sv_mqtt s) = (Inr (Some a), m)" "data_complete a" "publishable a"
  shows "\<exists>t x y out c. update_service clk wall s = (None, t) \<and> calculate clk (dvcc_input_of a) (sv_dvcc s) = (Inr out, c)
    \<and> held_limits a (previous_limits s) (ccl out, dcl out) = (x, y) \<and> published a x y t"
  by (rule complete_total [OF assms])

lemma initial_declared:
  assumes "sv_mqtt s = m" "paths s = map_of (setup_paths script inst product m)"
  shows "declared s"
proof -
  have "dom (paths s) = set (map fst (setup_paths script inst product m))"
    by (simp add: assms(2) dom_map_of_conv_image_fst)
  moreover have "set (map fst (setup_paths script inst product m)) = registered m"
    unfolding registered_def setup_paths_def map_append set_append
    using registered_keys(1) [of script "''2.8.0''" "''MQTT ESP32''" inst product "''ESP32 BLE Proxy''"]
      registered_keys(1) [of "[]" "''2.8.0''" "''MQTT ESP32''" 0 "[]" "''ESP32 BLE Proxy''"] by simp
  ultimately show ?thesis using assms(1) by (simp add: declared_def)
qed

lemma new_service_cases:
  assumes "new_service script clk wall m cfg = Inr t"
  obtains profile ctl s where "managed_profile m = Inr profile"
    "new_controller clk (configured_cells m) (battery_count m) profile = Inr ctl"
    "s = initial_service m (cfg_battery cfg) profile ctl
       (setup_paths script (db_instance (cfg_dbus cfg)) (db_product (cfg_dbus cfg)) m)"
    "declared s" "update_service clk wall s = (None, t)"
proof -
  obtain profile ctl where p: "managed_profile m = Inr profile"
    "new_controller clk (configured_cells m) (battery_count m) profile = Inr ctl"
    using assms by (auto simp: new_service_def and_then_Inr_iff)
  define s where "s = initial_service m (cfg_battery cfg) profile ctl
    (setup_paths script (db_instance (cfg_dbus cfg)) (db_product (cfg_dbus cfg)) m)"
  have "declared s" by (rule initial_declared) (simp_all add: s_def initial_service_def)
  moreover have "update_service clk wall s = (None, t)"
    using assms p by (auto simp: new_service_def s_def Let_def split: prod.splits option.splits)
  ultimately show thesis using that p s_def by blast
qed


end
