(* ===== verification/ServiceSamples.thy ===== *)
theory ServiceSamples
  imports ServiceTotal
begin

text \<open>
  Two concrete services: one whose client never received data, one whose single battery reports a
  partial frame; the properties of the service are applied to them.
\<close>

definition quiet_client :: mqtt_client where
  "quiet_client = (initial_client live_args ''127.0.0.1'')\<lparr>batteries := empty_batteries (initial_client live_args ''127.0.0.1'')\<rparr>"

definition degraded_client :: mqtt_client where
  "degraded_client = live_client\<lparr>telemetry_partial := True\<rparr>"

definition idle_controller :: dvcc_controller where
  "idle_controller = (case new_controller (Fin 0) 1 1 None of Inr c \<Rightarrow> c | Inl _ \<Rightarrow> undefined)"

definition service_of :: "mqtt_client \<Rightarrow> service" where
  "service_of m = initial_service m default_battery None idle_controller (setup_paths ''aggregate'' 512 ''JBD'' m)"

definition degraded_data :: aggregate where
  "degraded_data = \<lparr>data_complete = True, agg_oldest = Fin 99, agg_source = ''atomic'', agg_partial = True,
     agg_missing = ''Waiting for first complete live BMS readings'', agg_totals = \<lparr>tot_voltage = Fin 3, tot_current = Fin 1, tot_power = Fin 3,
       tot_soc = Fin 50, tot_capacity = Some (Fin 140)\<rparr>,
     capacity_full = Fin 280, agg_min_cell = Some (Fin 3, 1), agg_max_cell = Some (Fin 3, 1), agg_min_temp = Fin 20,
     agg_min_temp_id = Some 1, agg_max_temp = Fin 20, agg_max_temp_id = Some 1, agg_temperature = Fin 20,
     agg_cell_count = 1, allow_charge = True, allow_discharge = True, agg_cycles = None, modules_online = 1,
     modules_offline = 0, blocking_discharge = 0, blocking_charge = 0, all_cells = [(1, Fin 3)],
     agg_temperatures = [(1, Fin 20)]\<rparr>"

lemma quiet_snapshots: "battery_snapshots (Fin 100) quiet_client = []" "battery_snapshots (Fin 101) quiet_client = []"
  by code_simp+

lemma quiet_poll: "get_aggregate_data (Fin 100) quiet_client = (Inr None, quiet_client)"
  "get_aggregate_data (Fin 101) quiet_client = (Inr None, quiet_client)"
  by (simp_all add: get_aggregate_data_def quiet_snapshots)

lemma quiet_new: "new_client live_args = Inr quiet_client"
  by (simp add: new_client_def topology_args_def live_args_def quiet_client_def)

lemma degraded_fst: "fst (get_aggregate_data (Fin 100) degraded_client) = Inr (Some degraded_data)"
  by code_simp

lemma degraded_limits: "map_sum id (\<lambda>d. (ccl d, dcl d)) (fst (calculate (Fin 100) (dvcc_input_of degraded_data) idle_controller))
    = Inr (Fin 100, Fin 120)"
  by code_simp

lemma degraded_poll: "get_aggregate_data (Fin 100) degraded_client = (Inr (Some degraded_data), degraded_client)"
  using degraded_fst by (auto simp: get_aggregate_data_def Let_def split: sum.splits if_splits)

lemma service_fields:
  "declared (service_of m)" "sv_mqtt (service_of m) = m" "sv_dvcc (service_of m) = idle_controller"
  "has_ready_data (service_of m) = False" "previous_limits (service_of m) = None"
  by (simp_all add: service_of_def initial_service_def initial_declared [of _ m "''aggregate''" 512 "''JBD''"])

lemma ready_declared [simp]: "declared (s\<lparr>has_ready_data := b\<rparr>) = declared s" "declared (s\<lparr>previous_limits := l\<rparr>) = declared s"
  by (simp_all add: declared_def)

lemma readings_20: "finite_reading (Some (Fin 20))" "finite_reading (Some (Fin 50))" "finite_reading (Some (Fin 3))"
  "finite_reading (Some (Fin 100))"
  using fvalid_numeral by (simp_all add: finite_reading_def)

lemma idle_controller: "new_controller (Fin c) 1 1 None = Inr (idle_controller\<lparr>last_update_time := Fin c\<rparr>)"
  using of_pyint_exact [of 1] by (simp add: idle_controller_def new_controller_def Let_def)

lemma idle_sane: "sane idle_controller"
proof -
  have "new_controller (Fin 0) 1 1 None = Inr idle_controller"
    using of_pyint_exact [of 1] by (simp add: idle_controller_def new_controller_def Let_def)
  from new_controller_wf [OF this sample_readings(1)] show ?thesis by (intro wf_sane) simp
qed

lemma degraded_publishable: "publishable degraded_data" "data_complete degraded_data"
  using readings_20 by (simp_all add: publishable_def degraded_data_def dvcc_input_of_def input_finite_def bounded_by_def)

lemma degraded_update:
  assumes "s = service_of degraded_client \<or> s = (service_of degraded_client)\<lparr>previous_limits := Some (Fin 10, Fin 5)\<rparr>"
  shows "\<exists>t x y. update_service (Fin 100) (Fin 0) s = (None, t) \<and> published degraded_data x y t \<and> x \<noteq> Fin 0 \<and> y \<noteq> Fin 0"
proof -
  have fields: "declared s" "sv_mqtt s = degraded_client" "sv_dvcc s = idle_controller"
    using assms by (auto simp: service_fields)
  have client: "guarded_client degraded_client" by (simp add: guarded_client_def degraded_client_def)
  obtain t x y out c where t: "update_service (Fin 100) (Fin 0) s = (None, t)"
    "calculate (Fin 100) (dvcc_input_of degraded_data) idle_controller = (Inr out, c)"
    "held_limits degraded_data (previous_limits s) (ccl out, dcl out) = (x, y)" "published degraded_data x y t"
    using complete_total [of s "Fin 100" degraded_data degraded_client "Fin 0"] fields client idle_sane readings_20(4)
      degraded_poll degraded_publishable by auto
  have "ccl out = Fin 100" "dcl out = Fin 120" using degraded_limits t(2) by simp_all
  then have "x \<noteq> Fin 0 \<and> y \<noteq> Fin 0" using t(3) assms
    by (auto simp: held_limits_def degraded_data_def fmin_def service_fields)
  then show ?thesis using t by blast
qed

lemma quiet_update:
  assumes "declared s" "sv_mqtt s = quiet_client"
  shows "\<exists>t. update_service (Fin 100) wall s = (None, t) \<and> sv_mqtt t = quiet_client"
proof -
  obtain t where "set_unavailable (Fin 100) None s = (None, t)" "core t = core s"
    using unavailable_total [OF assms(1)] by metis
  moreover have same: "s\<lparr>sv_mqtt := quiet_client\<rparr> = s" using assms(2) by simp
  ultimately show ?thesis using assms(2)
    by (simp add: update_service_def using_res_def publish_snapshot_def core_def quiet_poll same)
qed

lemma quiet_service: "\<exists>s. new_service ''aggregate'' (Fin 100) (Fin 0) quiet_client default_config = Inr s"
proof -
  have m: "managed_profile quiet_client = Inr None" "battery_count quiet_client = 1" "configured_cells quiet_client = 1"
    by (simp_all add: managed_profile_def quiet_client_def initial_client_def live_args_def configured_cells_def)
  let ?s = "initial_service quiet_client default_battery None (idle_controller\<lparr>last_update_time := Fin 100\<rparr>)
      (setup_paths ''aggregate'' 512 ''JBD Battery Chain'' quiet_client)"
  have "declared ?s" by (rule initial_declared) (simp_all add: initial_service_def)
  from quiet_update [OF this, of "Fin 0"] obtain t where "update_service (Fin 100) (Fin 0) ?s = (None, t)"
    by (auto simp: initial_service_def)
  then show ?thesis by (simp add: new_service_def m idle_controller Let_def default_config_def default_dbus_def)
qed

section \<open>The properties applied\<close>

theorem service_fails_closed_witness:
  "\<exists>e t. update_service (Fin 100) (Fin 0) (service_of quiet_client) = (e, t) \<and> closed t"
  using service_fails_closed [OF service_fields(1) [of quiet_client], of "Fin 100" "Fin 0"] quiet_poll
  by (simp add: service_fields) (metis prod.collapse)

theorem permission_backed_witness:
  "\<exists>t x. update_service (Fin 100) (Fin 0) (service_of degraded_client) = (None, t)
    \<and> paths t ALLOW_CHARGE = Some (DInt 1) \<and> paths t MAX_CHARGE_CURRENT = Some (DFloat x) \<and> x \<noteq> Fin 0"
proof -
  obtain t x y where t: "update_service (Fin 100) (Fin 0) (service_of degraded_client) = (None, t)"
    "published degraded_data x y t" "x \<noteq> Fin 0" using degraded_update by blast
  then have "paths t ALLOW_CHARGE = Some (DInt 1)" by (simp add: published_def degraded_data_def flag_def)
  then show ?thesis
    using permission_backed [OF service_fields(1) t(1)] degraded_poll t(1) by (auto simp: service_fields)
qed

theorem partial_never_relaxes_witness:
  "\<exists>t x y. update_service (Fin 100) (Fin 0) ((service_of degraded_client)\<lparr>previous_limits := Some (Fin 10, Fin 5)\<rparr>) = (None, t)
    \<and> paths t MAX_CHARGE_CURRENT = Some (DFloat x) \<and> paths t MAX_DISCHARGE_CURRENT = Some (DFloat y)
    \<and> \<not> flt (Fin 10) x \<and> \<not> flt (Fin 5) y"
proof -
  let ?s = "(service_of degraded_client)\<lparr>previous_limits := Some (Fin 10, Fin 5)\<rparr>"
  obtain t where t: "update_service (Fin 100) (Fin 0) ?s = (None, t)" using degraded_update by blast
  have "declared ?s" "get_aggregate_data (Fin 100) (sv_mqtt ?s) = (Inr (Some degraded_data), degraded_client)"
    "data_complete degraded_data" "agg_partial degraded_data"
    by (simp_all add: service_fields degraded_poll) (simp_all add: degraded_data_def)
  from partial_never_relaxes [OF this(1) t this(2-)] t show ?thesis by auto
qed

theorem complete_data_published_witness:
  "\<exists>t x y. update_service (Fin 100) (Fin 0) (service_of degraded_client) = (None, t) \<and> published degraded_data x y t"
  using complete_data_published [of "service_of degraded_client" "Fin 100" degraded_data degraded_client "Fin 0"]
    service_fields idle_sane readings_20(4) degraded_poll degraded_publishable
  by (auto simp: guarded_client_def degraded_client_def)


theorem outage_latches_witness:
  "\<exists>s t. update_service (Fin 100) (Fin 0) (service_of quiet_client) = (None, s)
    \<and> update_service (Fin 100) (Fin 0) (s\<lparr>has_ready_data := True\<rparr>) = (None, t)
    \<and> blocked (run service_step [Update (Fin 101) (Fin 0)] t)"
proof -
  note q = service_fields [of quiet_client]
  obtain s where s: "update_service (Fin 100) (Fin 0) (service_of quiet_client) = (None, s)" "sv_mqtt s = quiet_client"
    using quiet_update [OF q(1,2)] by blast
  let ?s = "s\<lparr>has_ready_data := True\<rparr>"
  have poll: "get_aggregate_data (Fin 100) (sv_mqtt (service_of quiet_client)) = (Inr None, quiet_client)"
    using quiet_poll(1) q(2) by simp
  from q(1) s(1) poll have "core s = core (service_of quiet_client) \<and> declared s"
    by (cases rule: service_update_cases) (simp_all add: core_def q)
  then have "core s = core (service_of quiet_client)" "declared s" by simp_all
  then have d: "declared ?s" "sv_mqtt ?s = quiet_client" "sane (sv_dvcc ?s)"
    using s(2) q idle_sane by (simp_all add: core_def)
  have "service_inv s" using update_backed [OF q(1) s(1)] new_client_wf [OF quiet_new] s(2) by (simp add: service_inv_def)
  then have inv: "service_inv ?s" using d(1) by (simp add: service_inv_def backed_def)
  from quiet_update [OF d(1,2)] obtain t where t: "update_service (Fin 100) (Fin 0) ?s = (None, t)" "sv_mqtt t = quiet_client"
    by blast
  have "only_partial [Update (Fin 101) (Fin 0)] t" by (simp add: finds_partial_def t(2) quiet_poll)
  then have "blocked (run service_step [Update (Fin 101) (Fin 0)] t)"
    using outage_latches [OF inv _ d(3) tick_100(1) t(1), of None quiet_client "[Update (Fin 101) (Fin 0)]"] d(2) quiet_poll(1)
    by (simp add: tick_100)
  then show ?thesis using s(1) t(1) by blast
qed

end
