(* ===== verification/BreakerProps.thy ===== *)
theory BreakerProps
  imports DbusUtils ServiceSamples
begin

text \<open>
  The circuit breaker against the machine its documentation describes, its recovery, and the poll
  loop around the service: while the breaker skips polls the outputs are closed.
\<close>

section \<open>The documented machine\<close>

text \<open>Closed after a number of timeouts, or tripped since a time.\<close>

datatype machine = Passing int | Tripped pyfloat

datatype outcome = Returned | TimedOut | Raised exn

definition outcome_of :: "exn option \<Rightarrow> outcome" where
  "outcome_of r = (case r of None \<Rightarrow> Returned | Some TimeoutError \<Rightarrow> TimedOut | Some e \<Rightarrow> Raised e)"

text \<open>Closed: calls pass and the threshold trips.  Tripped: skipped during the cooldown, then one probe.\<close>

definition skips :: "pyfloat \<Rightarrow> pyfloat \<Rightarrow> machine \<Rightarrow> bool" where
  "skips cooldown now m = (case m of Passing k \<Rightarrow> False | Tripped t \<Rightarrow> flt (fsub now t) cooldown)"

definition machine_step :: "int \<Rightarrow> pyfloat \<Rightarrow> outcome \<Rightarrow> machine \<Rightarrow> machine" where
  "machine_step threshold later out m = (case out of
     Returned \<Rightarrow> Passing 0
   | Raised e \<Rightarrow> m
   | TimedOut \<Rightarrow> (case m of Passing k \<Rightarrow> if threshold \<le> k + 1 then Tripped later else Passing (k + 1)
       | Tripped t \<Rightarrow> Tripped later))"

definition spec_call :: "int \<Rightarrow> pyfloat \<Rightarrow> pyfloat \<Rightarrow> pyfloat \<Rightarrow> 's guarded \<Rightarrow> machine \<times> 's \<Rightarrow> bool res \<times> (machine \<times> 's)" where
  "spec_call threshold cooldown now later fn ms = (case ms of (m, s) \<Rightarrow>
     if skips cooldown now m then (Inr False, (m, s))
     else case fn s of (r, t) \<Rightarrow> ((case outcome_of r of Returned \<Rightarrow> Inr True | TimedOut \<Rightarrow> Inr False | Raised e \<Rightarrow> Inl e),
       (machine_step threshold later (outcome_of r) m, t)))"

definition machine_of :: "breaker \<Rightarrow> machine" where
  "machine_of b = (if consecutive_failures b < failure_threshold b then Passing (consecutive_failures b)
     else Tripped (opened_at b))"

text \<open>A breaker that counts from zero against a positive threshold.\<close>

definition breaker_ok :: "breaker \<Rightarrow> bool" where
  "breaker_ok b \<longleftrightarrow> 0 < failure_threshold b \<and> 0 \<le> consecutive_failures b"

lemma breaker_ok_default: "breaker_ok default_breaker"
  by (simp add: breaker_ok_def default_breaker_def)

lemma skips_iff: "skips (cooldown_s b) now (machine_of b) \<longleftrightarrow> breaker_state now b = Opened"
  by (simp add: skips_def machine_of_def breaker_state_def)

lemma machine_record: "breaker_ok b \<Longrightarrow> machine_of (record_failure later b) = machine_step (failure_threshold b) later TimedOut (machine_of b)"
  by (auto simp: machine_of_def record_failure_def machine_step_def Let_def)

lemma machine_reset: "breaker_ok b \<Longrightarrow>
    machine_of (if consecutive_failures b \<noteq> 0 then b\<lparr>consecutive_failures := 0\<rparr> else b) = Passing 0"
  by (auto simp: machine_of_def breaker_ok_def)

lemma call_refines:
  assumes "breaker_ok b" "call now later fn (b, s) = (r, (b', s'))"
  shows "spec_call (failure_threshold b) (cooldown_s b) now later fn (machine_of b, s) = (r, (machine_of b', s'))
    \<and> breaker_ok b' \<and> failure_threshold b' = failure_threshold b \<and> cooldown_s b' = cooldown_s b"
proof (cases "breaker_state now b = Opened")
  case True
  then show ?thesis using assms by (simp add: call_def spec_call_def skips_iff)
next
  case False
  obtain e t where e: "fn s = (e, t)" by force
  have keep: "breaker_ok (record_failure later b)" "breaker_ok (if consecutive_failures b \<noteq> 0 then b\<lparr>consecutive_failures := 0\<rparr> else b)"
    using assms(1) by (auto simp: breaker_ok_def record_failure_def Let_def)
  show ?thesis
  proof (cases "outcome_of e")
    case Returned
    then have "e = None" by (auto simp: outcome_of_def split: option.splits exn.splits)
    then show ?thesis using False assms e keep(2) machine_reset [OF assms(1)]
      by (auto simp: call_def spec_call_def skips_iff outcome_of_def machine_step_def)
  next
    case TimedOut
    then have "e = Some TimeoutError" by (auto simp: outcome_of_def split: option.splits exn.splits)
    then show ?thesis using False assms e keep(1) machine_record [OF assms(1)]
      by (auto simp: call_def spec_call_def skips_iff outcome_of_def) (simp_all add: record_failure_def Let_def)
  next
    case (Raised x)
    then have "e = Some x" "x \<noteq> TimeoutError" by (auto simp: outcome_of_def split: option.splits exn.splits)
    then show ?thesis using False assms e Raised
      by (auto simp: call_def spec_call_def skips_iff machine_step_def split: exn.splits)
  qed
qed

section \<open>The poll loop around a service\<close>

text \<open>
  The update under the alarm: without it the update runs to its end; an alarm interrupts it in
  some state on its way through the guarded body, and the handler of \<open>update\<close> makes the service unavailable
  before the timeout leaves it.  The exit of the transaction, in the D-Bus library, is not interrupted.
\<close>

definition alarmed_update :: "pyfloat \<Rightarrow> pyfloat \<Rightarrow> (service \<Rightarrow> service) option \<Rightarrow> service guarded" where
  "alarmed_update clk wall hang s = (case hang of
     None \<Rightarrow> update_service clk wall s
   | Some reached \<Rightarrow> (Some TimeoutError, snd (set_unavailable clk None (reached s))))"

datatype loop_event = Tick poll_clock pyfloat pyfloat "(service \<Rightarrow> service) option" | Incoming client_event

fun loop_step :: "loop_event \<Rightarrow> service poller \<Rightarrow> service poller" where
  "loop_step (Tick c clk wall hang) p = poll_cycle_step (alarmed_update clk wall hang) c p"
| "loop_step (Incoming e) p = p\<lparr>pl_service := (pl_service p)\<lparr>sv_mqtt := client_step e (sv_mqtt (pl_service p))\<rparr>\<rparr>"

text \<open>An interrupted update has written some registered paths and polled the client, nothing else.\<close>

fun loop_event_ok :: "loop_event \<Rightarrow> bool" where
  "loop_event_ok (Tick c clk wall hang) = (tick clk \<and> (\<forall>reached \<in> set_option hang. \<forall>s. declared s \<longrightarrow>
     declared (reached s) \<and> sv_mqtt (reached s) \<in> {sv_mqtt s, snd (get_aggregate_data clk (sv_mqtt s))}))"
| "loop_event_ok (Incoming e) = event_ok e"

definition loop_inv :: "service poller \<Rightarrow> bool" where
  "loop_inv p \<longleftrightarrow> breaker_ok (pl_breaker p) \<and> service_inv (pl_service p)
     \<and> (0 < consecutive_failures (pl_breaker p) \<longrightarrow> closed (pl_service p))"

lemma alarmed_inv:
  assumes "loop_event_ok (Tick c clk wall hang)" "service_inv s" "alarmed_update clk wall hang s = (r, t)"
  shows "service_inv t" "r \<noteq> None \<Longrightarrow> closed t"
proof -
  have tick: "tick clk" using assms(1) by simp
  have wf: "client_wf (snd (get_aggregate_data clk (sv_mqtt s)))" "client_wf (sv_mqtt s)" "declared s"
    using client.inv_step [of "Poll clk" "sv_mqtt s"] assms(2) tick by (simp_all add: service_inv_def)
  show "service_inv t"
  proof (cases hang)
    case None
    then show ?thesis using service_step_inv [of "Update clk wall" s] assms(2,3) tick by (simp add: alarmed_update_def)
  next
    case (Some reached)
    then have u: "declared (reached s)" "client_wf (sv_mqtt (reached s))" using assms(1) wf by auto
    obtain v where "set_unavailable clk None (reached s) = (None, v)" "declared v" "closed v" "core v = core (reached s)"
      using unavailable_total [OF u(1)] by metis
    then show ?thesis using assms(3) Some u(2) closed_backed by (simp add: alarmed_update_def service_inv_def core_def)
  qed
  show "closed t" if raised: "r \<noteq> None"
  proof (cases hang)
    case None
    obtain d m where g: "get_aggregate_data clk (sv_mqtt s) = (d, m)" by force
    have "update_service clk wall s = (r, t)" using assms(3) None by (simp add: alarmed_update_def)
    from wf(3) this g show ?thesis by (cases rule: service_update_cases) (use raised in simp_all)
  next
    case (Some reached)
    then have "declared (reached s)" using assms(1) wf by auto
    from unavailable_total [OF this, of clk None] obtain v where "set_unavailable clk None (reached s) = (None, v)" "closed v" .
    then show ?thesis using assms(3) Some by (simp add: alarmed_update_def)
  qed
qed

text \<open>What the breaker does with the service's outcome, poll by poll.\<close>

lemma call_cases:
  assumes "call now later fn (b, s) = (r, (b', s'))"
  obtains (skipped) "breaker_state now b = Opened" "b' = b" "s' = s"
  | (timeout) "fn s = (Some TimeoutError, s')" "b' = record_failure later b"
  | (raised) e where "fn s = (Some e, s')" "e \<noteq> TimeoutError" "b' = b"
  | (returned) "fn s = (None, s')" "consecutive_failures b' = 0" "b' = b \<or> b' = b\<lparr>consecutive_failures := 0\<rparr>"
proof (cases "breaker_state now b = Opened")
  case True
  then have "b' = b" "s' = s" using assms by (simp_all add: call_def)
  with True show thesis by (rule skipped)
next
  case False
  obtain e t where e: "fn s = (e, t)" by force
  show thesis
  proof (cases e)
    case None
    have "b' = (if consecutive_failures b \<noteq> 0 then b\<lparr>consecutive_failures := 0\<rparr> else b)" "s' = t"
      using False e assms None by (simp_all add: call_def)
    then show thesis using returned e None by (cases "consecutive_failures b = 0") simp_all
  next
    case (Some x)
    then show thesis using False e assms timeout raised by (cases x) (auto simp: call_def)
  qed
qed

lemma poll_fields:
  assumes "call (pc_now c) (pc_later c) fn (pl_breaker p, pl_service p) = (r, (b, s))"
  shows "pl_breaker (poll_cycle_step fn c p) = b" "pl_service (poll_cycle_step fn c p) = s"
  using assms by (simp_all add: poll_cycle_step_def poll_cycle_def write_heartbeat_def collect_garbage_def)

lemma record_ok: "breaker_ok b \<Longrightarrow> breaker_ok (record_failure later b)"
  by (simp add: breaker_ok_def record_failure_def Let_def)

lemma loop_step_inv: "loop_event_ok e \<Longrightarrow> loop_inv p \<Longrightarrow> loop_inv (loop_step e p)"
proof (cases e)
  case (Tick c clk wall hang)
  assume ok: "loop_event_ok e" "loop_inv p"
  obtain r b s where c: "call (pc_now c) (pc_later c) (alarmed_update clk wall hang) (pl_breaker p, pl_service p) = (r, (b, s))"
    by (metis prod.collapse)
  note f = poll_fields [OF c]
  have inv: "service_inv (pl_service p)" "breaker_ok (pl_breaker p)" using ok(2) by (simp_all add: loop_inv_def)
  have e: "loop_event_ok (Tick c clk wall hang)" using ok(1) Tick by simp
  from c have "breaker_ok b \<and> service_inv s \<and> (0 < consecutive_failures b \<longrightarrow> closed s)"
  proof (cases rule: call_cases)
    case skipped
    then show ?thesis using ok(2) by (simp add: loop_inv_def)
  next
    case timeout
    from alarmed_inv [OF e inv(1) timeout(1)] show ?thesis using timeout(2) record_ok [OF inv(2)] by simp
  next
    case (raised x)
    from alarmed_inv [OF e inv(1) raised(1)] show ?thesis using raised(3) inv(2) by simp
  next
    case returned
    have "breaker_ok b" using returned(2,3) inv(2) by (auto simp: breaker_ok_def)
    then show ?thesis using alarmed_inv(1) [OF e inv(1) returned(1)] returned(2) by simp
  qed
  then show ?thesis using f Tick by (simp add: loop_inv_def)
next
  case (Incoming x)
  assume ok: "loop_event_ok e" "loop_inv p"
  then have "service_inv (service_step (Client x) (pl_service p))"
    using service_step_inv [of "Client x" "pl_service p"] Incoming by (simp add: loop_inv_def)
  then show ?thesis using ok(2) Incoming by (simp add: loop_inv_def closed_def)
qed

interpretation loop: event_system loop_step loop_event_ok loop_inv
  by unfold_locales (rule loop_step_inv)

lemma new_service_inv:
  assumes "new_service script clk wall m cfg = Inr s" "client_wf m" "tick clk"
  shows "service_inv s"
proof -
  obtain s0 where s0: "declared s0" "update_service clk wall s0 = (None, s)" "sv_mqtt s0 = m"
    using new_service_cases [OF assms(1)] by (metis initial_service_def service.select_convs(1))
  have "client_wf (snd (get_aggregate_data clk m))"
    using client.inv_step [of "Poll clk" m] assms(2,3) by simp
  then show ?thesis using update_backed [OF s0(1,2)] s0(3) by (simp add: service_inv_def)
qed

lemma new_poller_inv: "service_inv s \<Longrightarrow> loop_inv (new_poller s)"
  using breaker_ok_default by (simp add: loop_inv_def new_poller_def default_breaker_def)

section \<open>Properties\<close>

text \<open>C8: The breaker implements the machine its documentation describes: under a threshold of timeouts calls pass,
  at the threshold it trips, during the cooldown calls are skipped and change nothing, the first call
  after it is a probe, a return closes and a timeout trips anew, and any other exception goes through.\<close>

theorem breaker_refines_machine:
  assumes "breaker_ok b" "call now later fn (b, s) = (r, (b', s'))"
  shows "spec_call (failure_threshold b) (cooldown_s b) now later fn (machine_of b, s) = (r, (machine_of b', s'))
    \<and> breaker_ok b' \<and> failure_threshold b' = failure_threshold b \<and> cooldown_s b' = cooldown_s b"
  by (rule call_refines [OF assms])

text \<open>C9: While the breaker is not closed the outputs are: whatever polls, hung updates, exceptions and messages
  came before, a breaker that skips or probes has left charging and discharging forbidden, both limits
  zero and the data marked incomplete.\<close>

theorem open_breaker_outputs_closed:
  assumes "new_service script clk wall m cfg = Inr s" "client_wf m" "tick clk"
    and "list_all loop_event_ok es" "p = run loop_step es (new_poller s)" "breaker_state now (pl_breaker p) \<noteq> Closed"
  shows "closed (pl_service p)"
proof -
  have "loop_inv p"
    using loop.inv_run [OF new_poller_inv [OF new_service_inv [OF assms(1-3)]] assms(4)] assms(5) by simp
  then show ?thesis using assms(6) by (auto simp: loop_inv_def breaker_ok_def breaker_state_def split: if_splits)
qed

lemma recovered_step:
  assumes "\<And>s. fst (fn s) = None" "q = poll_cycle_step fn c p"
  shows "consecutive_failures (pl_breaker q) = 0 \<or> (pl_breaker q = pl_breaker p \<and> breaker_state (pc_now c) (pl_breaker p) = Opened)"
proof -
  obtain r b s where c: "call (pc_now c) (pc_later c) fn (pl_breaker p, pl_service p) = (r, (b, s))" by (metis prod.collapse)
  from c show ?thesis
    by (cases rule: call_cases) (use assms poll_fields [OF c] in \<open>metis fst_conv option.distinct(1)\<close>)+
qed

text \<open>C19: The breaker recovers: once updates return again, the first poll after the cooldown closes it, and it
  stays closed through every later poll.\<close>

theorem breaker_recovers:
  assumes "\<And>s. fst (fn s) = None" "\<not> flt (fsub (pc_now c) (opened_at (pl_breaker p))) (cooldown_s (pl_breaker p))"
    and "0 < failure_threshold (pl_breaker p)"
  shows "breaker_state now (pl_breaker (run (poll_cycle_step fn) (before @ c # after) p)) = Closed"
proof -
  have thr: "failure_threshold (pl_breaker (poll_cycle_step fn c' q)) = failure_threshold (pl_breaker q)" for c' q
  proof -
    obtain r b s where call: "call (pc_now c') (pc_later c') fn (pl_breaker q, pl_service q) = (r, (b, s))" by (metis prod.collapse)
    from call show ?thesis
      by (cases rule: call_cases) (auto simp: poll_fields [OF call] record_failure_def Let_def)
  qed
  have runs: "failure_threshold (pl_breaker (run (poll_cycle_step fn) cs q)) = failure_threshold (pl_breaker q)" for cs q
    by (induction cs arbitrary: q) (simp_all add: thr)
  have stays: "consecutive_failures (pl_breaker (run (poll_cycle_step fn) cs q)) = 0"
    if "consecutive_failures (pl_breaker q) = 0" "0 < failure_threshold (pl_breaker q)" for cs q
    using that
  proof (induction cs arbitrary: q)
    case (Cons c' cs)
    have "consecutive_failures (pl_breaker (poll_cycle_step fn c' q)) = 0"
      using recovered_step [where fn = fn, OF assms(1) refl, where c = c' and p = q] Cons.prems by (auto simp: breaker_state_def)
    then show ?case using Cons thr by simp
  qed simp
  let ?q = "run (poll_cycle_step fn) before p"
  have "consecutive_failures (pl_breaker ?q) = 0 \<or> pl_breaker ?q = pl_breaker p"
  proof (induction before rule: rev_induct)
    case (snoc x xs)
    let ?u = "run (poll_cycle_step fn) xs p"
    show ?case
      using recovered_step [where fn = fn, OF assms(1) refl, where c = x and p = ?u] snoc.IH stays [of ?u "[x]"] runs [of xs p] assms(3)
      by (auto simp: run_append)
  qed simp
  then have "consecutive_failures (pl_breaker (poll_cycle_step fn c ?q)) = 0"
    using recovered_step [where fn = fn, OF assms(1) refl, where c = c and p = ?q] assms(2) stays [of ?q "[c]"] runs [of before p] assms(3)
    by (auto simp: breaker_state_def split: if_splits)
  then have "consecutive_failures (pl_breaker (run (poll_cycle_step fn) (before @ c # after) p)) = 0"
    using stays [of "poll_cycle_step fn c ?q" after] thr runs [of before p] assms(3) by (simp add: run_append)
  then show ?thesis using runs [of "before @ c # after" p] assms(3) by (simp add: breaker_state_def)
qed

section \<open>The properties applied\<close>

definition at_time :: "pyfloat \<Rightarrow> poll_clock" where
  "at_time t = \<lparr>pc_now = t, pc_later = t, pc_beat = 0, pc_writable = True\<rparr>"

lemma cooldown_sample: "\<not> flt (fsub (Fin 100) (Fin 0)) (Fin 60)" "flt (fsub (Fin 101) (Fin 100)) (Fin 60)"
  by code_simp+

theorem breaker_refines_machine_witness:
  "spec_call 3 (Fin 60) (Fin 0) (Fin 5) (\<lambda>s. (Some TimeoutError, s)) (Passing 2, 0 :: int) = (Inr False, (Tripped (Fin 5), 0))"
proof -
  let ?b = "default_breaker\<lparr>consecutive_failures := 2\<rparr>"
  have "breaker_ok ?b" "call (Fin 0) (Fin 5) (\<lambda>s. (Some TimeoutError, s)) (?b, 0 :: int)
      = (Inr False, (?b\<lparr>consecutive_failures := 3, opened_at := Fin 5\<rparr>, 0))"
    by (simp_all add: breaker_ok_def call_def breaker_state_def record_failure_def default_breaker_def)
  from breaker_refines_machine [OF this] show ?thesis by (simp add: machine_of_def default_breaker_def)
qed

definition hung :: loop_event where
  "hung = Tick (at_time (Fin 100)) (Fin 100) (Fin 0) (Some (\<lambda>s. s))"

lemma hung_polls:
  "breaker_state (Fin 101) (pl_breaker (run loop_step [hung, hung, hung] (new_poller s))) = Opened"
  by (simp add: hung_def at_time_def poll_cycle_step_def poll_cycle_def write_heartbeat_def collect_garbage_def new_poller_def
    call_def alarmed_update_def breaker_state_def record_failure_def default_breaker_def cooldown_sample)

theorem open_breaker_outputs_closed_witness:
  "\<exists>s. new_service ''aggregate'' (Fin 100) (Fin 0) quiet_client default_config = Inr s
    \<and> breaker_state (Fin 101) (pl_breaker (run loop_step [hung, hung, hung] (new_poller s))) = Opened
    \<and> closed (pl_service (run loop_step [hung, hung, hung] (new_poller s)))"
proof -
  obtain s where s: "new_service ''aggregate'' (Fin 100) (Fin 0) quiet_client default_config = Inr s"
    using quiet_service by blast
  have "list_all loop_event_ok [hung, hung, hung]" by (simp add: hung_def tick_100)
  from open_breaker_outputs_closed [OF s new_client_wf [OF quiet_new] tick_100(1) this refl, of "Fin 101"]
  show ?thesis using s hung_polls by simp
qed

theorem breaker_recovers_witness:
  "breaker_state (Fin 101) (pl_breaker (run (poll_cycle_step (\<lambda>s. (None, s + 1)))
      ([at_time (Fin 1)] @ at_time (Fin 100) # [at_time (Fin 101)])
      ((new_poller (0 :: int))\<lparr>pl_breaker := default_breaker\<lparr>consecutive_failures := 3, opened_at := Fin 0\<rparr>\<rparr>))) = Closed"
  by (rule breaker_recovers) (use cooldown_sample in \<open>simp_all add: at_time_def default_breaker_def new_poller_def\<close>)

end
