(* ===== verification/Program.thy ===== *)
theory Program
  imports ConfigProps BreakerProps
begin

text \<open>
  The program around the components: \<open>observe.py\<close>, which reads telemetry for a bounded time without
  a D-Bus service, and \<open>main\<close> of \<open>dbus-mqtt-battery.py\<close>.  The clock readings and the messages that
  arrive while the program sleeps come from outside; the broker connection is a library call whose
  result is given.
\<close>

section \<open>Bounded observation\<close>

text \<open>One round as the outside shapes it: the clock at the poll, given its reading at the loop's test; at the computation of
  the pause, given the one at the poll; at the next test, given the one before the pause and the pause slept; and
  what arrives during the pause.\<close>

record observe_round =
  or_poll :: "pyfloat \<Rightarrow> pyfloat"
  or_clock :: "pyfloat \<Rightarrow> pyfloat"
  or_wake :: "pyfloat \<Rightarrow> pyfloat \<Rightarrow> pyfloat"
  or_arrivals :: "client_event list"

record observation =
  ob_client :: mqtt_client
  ob_complete :: int
  ob_unavailable :: int
  ob_final :: "aggregate option"

definition count_sample :: "aggregate option \<Rightarrow> observation \<Rightarrow> observation" where
  "count_sample final ob = (case final of
     Some a \<Rightarrow> if data_complete a then ob\<lparr>ob_complete := ob_complete ob + 1\<rparr> else ob\<lparr>ob_unavailable := ob_unavailable ob + 1\<rparr>
   | None \<Rightarrow> ob\<lparr>ob_unavailable := ob_unavailable ob + 1\<rparr>)\<lparr>ob_final := final\<rparr>"

text \<open>\<open>min(1.0, max(0.0, deadline - monotonic()))\<close>, and \<open>sleep\<close>, which refuses a negative time.\<close>

definition pause :: "pyfloat \<Rightarrow> pyfloat \<Rightarrow> pyfloat" where
  "pause deadline now = fmin (Fin 1) (fmax2 (Fin 0) (fsub deadline now))"

definition sleep_for :: "pyfloat \<Rightarrow> unit res" where
  "sleep_for x = (if x = NaN then Inl (ValueError ''Invalid value NaN (not a number)'')
     else if flt x (Fin 0) then Inl (ValueError ''sleep length must be non-negative'')
     else if x = PInf then Inl (OverflowError ''timestamp too large to convert to C _PyTime_t'') else Inr ())"

text \<open>The loop, from the clock reading at its test; \<open>None\<close>: the given rounds end before the deadline.\<close>

fun observe_loop :: "pyfloat \<Rightarrow> pyfloat \<Rightarrow> observe_round list \<Rightarrow> observation \<Rightarrow> observation res option" where
  "observe_loop deadline test [] ob = (if flt test deadline then None else Some (Inr ob))"
| "observe_loop deadline test (r # rs) ob =
     (if flt test deadline
      then case get_aggregate_data (or_poll r test) (ob_client ob) of
          (Inl e, m) \<Rightarrow> Some (Inl e)
        | (Inr final, m) \<Rightarrow>
            (let now = or_clock r (or_poll r test); x = pause deadline now
             in case sleep_for x of Inl e \<Rightarrow> Some (Inl e)
              | Inr u \<Rightarrow> observe_loop deadline (or_wake r now x) rs
                  (count_sample final (ob\<lparr>ob_client := run client_step (or_arrivals r) m\<rparr>)))
      else Some (Inr ob))"

text \<open>\<open>start\<close> is the reading the deadline is computed from, \<open>test\<close> the one of the first test.\<close>

definition observe :: "pyfloat \<Rightarrow> pyfloat \<Rightarrow> int \<Rightarrow> observe_round list \<Rightarrow> mqtt_client \<Rightarrow> observation res option" where
  "observe start test seconds rounds m =
     observe_loop (fadd start (exact seconds)) test rounds
       \<lparr>ob_client = m, ob_complete = 0, ob_unavailable = 0, ob_final = None\<rparr>"

section \<open>The main program\<close>

definition client_args_of :: "config \<Rightarrow> client_args" where
  "client_args_of c = \<lparr>arg_broker = mq_broker (cfg_mqtt c), arg_port = mq_port (cfg_mqtt c),
     arg_battery_count = bat_count (cfg_battery c), arg_prefix = mq_prefix (cfg_mqtt c),
     arg_capacity = bat_capacity (cfg_battery c), arg_bms_first = bat_first (cfg_battery c),
     arg_cells = bat_cells (cfg_battery c), arg_temps = bat_temps (cfg_battery c),
     arg_mode = mq_mode (cfg_mqtt c), arg_local_only = mq_local (cfg_mqtt c), arg_topology = cfg_topology c\<rparr>"

text \<open>What the program meets: its files, the broker, the messages of the first seconds, the clocks.\<close>

record world =
  wo_env :: environment
  wo_connects :: bool
  wo_start :: pyfloat
  wo_test :: pyfloat
  wo_rounds :: "observe_round list"
  wo_arrivals :: "client_event list"
  wo_clock :: pyfloat
  wo_wall :: pyfloat
  wo_script :: string

text \<open>How the program ends or goes on: with an exception or exit code, a printed topology or report, or serving.\<close>

datatype program_end = Failed exn | Exit int | PrintedTopology "chain_topology option" | Report int observation
  | Serving "service poller" | StillObserving

definition start_service :: "world \<Rightarrow> config \<Rightarrow> mqtt_client \<Rightarrow> program_end" where
  "start_service w c m =
     (case new_service (wo_script w) (wo_clock w) (wo_wall w) m c of
        Inl e \<Rightarrow> Failed e | Inr s \<Rightarrow> Serving (new_poller s))"

text \<open>The floats of a report; \<open>json.dumps\<close> with \<open>allow_nan=False\<close> refuses infinities and NaN.\<close>

definition aggregate_numbers :: "aggregate \<Rightarrow> pyfloat list" where
  "aggregate_numbers a = (let t = agg_totals a in
     [agg_oldest a, tot_voltage t, tot_current t, tot_power t, tot_soc t, capacity_full a, agg_min_temp a, agg_max_temp a,
      agg_temperature a] @ (case tot_capacity t of None \<Rightarrow> [] | Some c \<Rightarrow> [c])
      @ (case agg_min_cell a of None \<Rightarrow> [] | Some p \<Rightarrow> [fst p]) @ (case agg_max_cell a of None \<Rightarrow> [] | Some p \<Rightarrow> [fst p])
      @ map snd (all_cells a) @ map snd (agg_temperatures a))"

definition report_printable :: "observation \<Rightarrow> bool" where
  "report_printable ob = (case ob_final ob of None \<Rightarrow> True | Some a \<Rightarrow> list_all is_finite (aggregate_numbers a))"

definition start_observation :: "world \<Rightarrow> int \<Rightarrow> mqtt_client \<Rightarrow> program_end" where
  "start_observation w seconds m = (case observe (wo_start w) (wo_test w) seconds (wo_rounds w) m of
     None \<Rightarrow> StillObserving
   | Some (Inl e) \<Rightarrow> Failed e
   | Some (Inr ob) \<Rightarrow> if \<not> report_printable ob then Failed (ValueError ''Out of range float values are not JSON compliant'')
       else Report (if ob_complete ob = 0 then 2 else 0) ob)"

definition main :: "world \<Rightarrow> (string \<times> string) list \<Rightarrow> program_end" where
  "main w argv = (case load_config (wo_env w) argv of
     Inl e \<Rightarrow> Failed e
   | Inr (c, ns) \<Rightarrow>
       if map_of ns ''validate_topology'' = Some (ABool True) then PrintedTopology (cfg_topology c)
       else if (case cfg_topology c of Some t \<Rightarrow> chain_output t = ''offline'' \<and> observe_arg ns = 0 | None \<Rightarrow> False)
       then Failed (system_exit ''offline topology requires --observe-seconds; no D-Bus service registered'')
       else (case new_client (client_args_of c) of
          Inl e \<Rightarrow> Failed e
        | Inr m0 \<Rightarrow>
            if \<not> wo_connects w then Exit 1
            else let m = run client_step (wo_arrivals w) m0 in
              if observe_arg ns \<noteq> 0 then start_observation w (observe_arg ns) m else start_service w c m))"

section \<open>The observation ends\<close>

text \<open>
  What the loop relies on, of \<open>monotonic\<close> and \<open>sleep\<close> as documented: the clock never goes back, and after a sleep it
  has advanced by at least the time asked for, whatever that time is.
\<close>

definition clock_ok :: "observe_round \<Rightarrow> bool" where
  "clock_ok r \<longleftrightarrow>
     (\<forall>t. is_dbl t \<and> 0 \<le> t \<longrightarrow> (\<exists>p. or_poll r (Fin t) = Fin p \<and> is_dbl p \<and> t \<le> p))
   \<and> (\<forall>t. is_dbl t \<and> 0 \<le> t \<longrightarrow> (\<exists>u. or_clock r (Fin t) = Fin u \<and> is_dbl u \<and> t \<le> u))
   \<and> (\<forall>u x. is_dbl u \<and> 0 \<le> u \<and> 0 \<le> x \<longrightarrow> (\<exists>w. or_wake r (Fin u) (Fin x) = Fin w \<and> is_dbl w \<and> u + x \<le> w))"

lemma count_sample_total: "ob_complete (count_sample f ob) + ob_unavailable (count_sample f ob) = ob_complete ob + ob_unavailable ob + 1"
  by (auto simp: count_sample_def split: option.splits)

lemma count_sample_client: "ob_client (count_sample f ob) = ob_client ob"
  by (auto simp: count_sample_def split: option.splits)

lemma poll_returns: "\<exists>final m. get_aggregate_data clk s = (Inr final, m)"
  using poll_never_raises [of clk s] by (metis prod.collapse)

text \<open>A float is an integer multiple of its grid, and the difference of two floats within a factor of two is exact.\<close>

lemma dbl_grid:
  assumes "is_dbl x" "x \<noteq> 0"
  obtains m where "x = of_int m * pow2 (qexp x)"
  using round64_is_dbl [OF assms(1)] assms(2) that [of "rne (x / pow2 (qexp x))"] by (simp add: round64_def)

lemma close_difference:
  assumes "is_dbl d" "is_dbl u" "0 < u" "u \<le> d" "d \<le> 2 * u"
  shows "is_dbl (d - u)"
proof -
  let ?q = "qexp u"
  have "expo u \<le> expo d" using assms(3,4) by (intro expo_mono) auto
  then have q: "?q \<le> qexp d" "-1074 \<le> ?q" "expo u + 1 \<le> ?q + 53" by (auto simp: qexp_def)
  obtain m where m: "u = of_int m * pow2 ?q" using dbl_grid [OF assms(2)] assms(3) by (metis less_irrefl)
  obtain n where n: "d = of_int n * pow2 (qexp d)" using dbl_grid [OF assms(1)] assms(3,4) by (metis leD)
  obtain i :: int where i: "pow2 (qexp d) / pow2 ?q = of_int i" using pow2_multiple_int [OF q(1)] by blast
  have "pow2 (qexp d) = of_int i * pow2 ?q" using i by (simp add: divide_eq_eq)
  then have diff: "d - u = of_int (n * i - m) * pow2 ?q" using m n by (simp add: algebra_simps)
  have "u < pow2 (expo u + 1)" using expo_bounds(2) [of u] assms(3) by simp
  also have "\<dots> \<le> pow2 (?q + 53)" using q(3) by simp
  also have "\<dots> = of_int (2 ^ 53) * pow2 ?q" using pow2_add [of ?q 53] pow2_nat [of 53] by (simp add: mult.commute)
  finally have "of_int m * pow2 ?q < of_int (2 ^ 53) * pow2 ?q" using m by simp
  then have hi: "m < 2 ^ 53" by (simp only: mult_less_cancel_right_pos [OF pow2_pos] of_int_less_iff)
  have "of_int 0 * pow2 ?q \<le> of_int (n * i - m) * pow2 ?q" using diff assms(4) by simp
  then have lo: "0 \<le> n * i - m" by (simp only: mult_le_cancel_right_pos [OF pow2_pos] of_int_le_iff)
  have "of_int (n * i - m) * pow2 ?q \<le> of_int m * pow2 ?q" using diff m assms(5) by simp
  then have "n * i - m \<le> m" by (simp only: mult_le_cancel_right_pos [OF pow2_pos] of_int_le_iff)
  with hi lo have "\<bar>n * i - m\<bar> \<le> 2 ^ 53" by linarith
  with diff q(2) show ?thesis unfolding is_dbl_def by blast
qed

text \<open>The pause brings the clock half a second on, or to the deadline.\<close>

lemma pause_progress:
  assumes "is_dbl d" "1 \<le> d" "d < fmax" "is_dbl u" "0 \<le> u"
  obtains x where "pause (Fin d) (Fin u) = Fin x" "0 \<le> x" "min d (u + 1 / 2) \<le> u + x"
proof (cases "u < d")
  case False
  then have "round64 (d - u) \<le> 0" using r64.rnd_le [OF r64.rep_0, of "d - u"] by simp
  moreover from this have "\<not> fmax \<le> round64 (d - u)" using fmax_pos by linarith
  ultimately have "pause (Fin d) (Fin u) = Fin 0"
    by (auto simp: pause_def fl_def Let_def fmin_def fmax2_def)
  then show thesis using that [of 0] False by simp
next
  case True
  have "round64 (d - u) \<le> d" "0 \<le> round64 (d - u)"
    using True assms(1,5) by (auto intro: r64.rnd_le r64.rnd_nonneg)
  then have f: "fl (d - u) = Fin (round64 (d - u))" using assms(3) by (simp add: fl_def Let_def)
  have half: "is_dbl (1 / 2)"
  proof -
    have "pow2 (- 1) = 1 / 2" using pow2_diff [of 0 1] pow2_nat [of 1] by simp
    then show ?thesis using is_dbl_pow2 [of "- 1"] by (simp only:)
  qed
  have p: "pause (Fin d) (Fin u) = Fin (min 1 (round64 (d - u)))"
    using f \<open>0 \<le> round64 (d - u)\<close> by (auto simp: pause_def fmin_def fmax2_def min_def)
  show thesis
  proof (cases "1 / 2 \<le> d - u")
    case far: True
    then have "1 / 2 \<le> round64 (d - u)" by (rule r64.rnd_ge [OF half])
    then show thesis using that [OF p] by (simp add: min_def)
  next
    case False
    then have "is_dbl (d - u)" using True assms(1,2,4) by (intro close_difference) auto
    then have "round64 (d - u) = d - u" by (rule r64.rnd_rep)
    then show thesis using that [OF p] False True by (simp add: min_def)
  qed
qed

text \<open>The number of polls is the number of rounds the loop consumes.\<close>

lemma observe_loop_ends:
  assumes "is_dbl d" "1 \<le> d" "d < fmax" "is_dbl t" "0 \<le> t" "d \<le> t + of_nat n / 2" "n \<le> length rounds" "list_all clock_ok rounds"
  shows "\<exists>ob' k. observe_loop (Fin d) (Fin t) rounds ob = Some (Inr ob') \<and> k \<le> n
    \<and> ob_complete ob' + ob_unavailable ob' = ob_complete ob + ob_unavailable ob + int k
    \<and> observe_loop (Fin d) (Fin t) (take k rounds) ob = Some (Inr ob')
    \<and> (\<forall>j < k. observe_loop (Fin d) (Fin t) (take j rounds) ob = None)"
  using assms(4-8)
proof (induction n arbitrary: t rounds ob)
  case 0
  then have "\<not> t < d" by simp
  then have "observe_loop (Fin d) (Fin t) rounds ob = Some (Inr ob)" "observe_loop (Fin d) (Fin t) [] ob = Some (Inr ob)"
    by (cases rounds; simp)+
  then show ?case by (intro exI [of _ ob] exI [of _ 0]) simp
next
  case (Suc n)
  show ?case
  proof (cases "t < d")
    case False
    then have "observe_loop (Fin d) (Fin t) rounds ob = Some (Inr ob)" "observe_loop (Fin d) (Fin t) [] ob = Some (Inr ob)"
      by (cases rounds; simp)+
    then show ?thesis by (intro exI [of _ ob] exI [of _ 0]) simp
  next
    case True
    obtain r rs where r: "rounds = r # rs" using Suc.prems(4) by (cases rounds) auto
    have ok: "clock_ok r" "list_all clock_ok rs" using Suc.prems(5) r by simp_all
    obtain p where p: "or_poll r (Fin t) = Fin p" "is_dbl p" "t \<le> p"
      using ok(1) Suc.prems(1,2) unfolding clock_ok_def by blast
    then have "0 \<le> p" using Suc.prems(2) by linarith
    then obtain u where u: "or_clock r (Fin p) = Fin u" "is_dbl u" "p \<le> u"
      using ok(1) p(2) unfolding clock_ok_def by blast
    then have u0: "0 \<le> u" using \<open>0 \<le> p\<close> by linarith
    obtain x where x: "pause (Fin d) (Fin u) = Fin x" "0 \<le> x" "min d (u + 1 / 2) \<le> u + x"
      by (rule pause_progress [OF assms(1-3) u(2) u0])
    obtain w where w: "or_wake r (Fin u) (Fin x) = Fin w" "is_dbl w" "u + x \<le> w"
      using ok(1) u(2) u0 x(2) unfolding clock_ok_def by blast
    have reach: "d \<le> w + of_nat n / 2" using Suc.prems(3) x(3) w(3) p(3) u(3) by (auto simp: min_def field_simps split: if_splits)
    have sl: "sleep_for (Fin x) = Inr ()" using x(2) by (simp add: sleep_for_def)
    obtain final m where poll: "get_aggregate_data (Fin p) (ob_client ob) = (Inr final, m)" using poll_returns by blast
    let ?ob = "count_sample final (ob\<lparr>ob_client := run client_step (or_arrivals r) m\<rparr>)"
    have step: "observe_loop (Fin d) (Fin t) (r # zs) ob = observe_loop (Fin d) (Fin w) zs ?ob" for zs
      using True p(1) u(1) x(1) w(1) sl poll by (simp add: Let_def)
    have none: "observe_loop (Fin d) (Fin t) [] ob = None" using True by simp
    have "0 \<le> w" "n \<le> length rs" using u0 x(2) w(3) Suc.prems(4) r by simp_all
    from Suc.IH [OF w(2) this(1) reach this(2) ok(2), of ?ob] obtain ob' k where k:
      "observe_loop (Fin d) (Fin w) rs ?ob = Some (Inr ob')" "k \<le> n"
      "ob_complete ob' + ob_unavailable ob' = ob_complete ?ob + ob_unavailable ?ob + int k"
      "observe_loop (Fin d) (Fin w) (take k rs) ?ob = Some (Inr ob')"
      "\<forall>j < k. observe_loop (Fin d) (Fin w) (take j rs) ?ob = None" by blast
    have "observe_loop (Fin d) (Fin t) (take j rounds) ob = None" if "j < Suc k" for j
      using that k(5) none step r by (cases j) simp_all
    then show ?thesis
      using k(1-4) step r count_sample_total [of final "ob\<lparr>ob_client := run client_step (or_arrivals r) m\<rparr>"]
      by (intro exI [of _ ob'] exI [of _ "Suc k"]) simp
  qed
qed

text \<open>C38: An observation always ends and reports: polling never raises, and as the pauses the loop sleeps bring the
  clock on, it ends within two polls per second of its time and two more, having counted every poll once.\<close>

theorem observe_returns:
  assumes "is_dbl t" "0 \<le> t" "t \<le> 2 ^ 52" "0 \<le> seconds" "seconds \<le> 3600" "is_dbl f" "t \<le> f"
    and "list_all clock_ok rounds" "2 * nat seconds + 2 \<le> length rounds"
  shows "\<exists>ob k. observe (Fin t) (Fin f) seconds rounds m = Some (Inr ob) \<and> k \<le> 2 * nat seconds + 2
    \<and> ob_complete ob + ob_unavailable ob = int k
    \<and> observe (Fin t) (Fin f) seconds (take k rounds) m = Some (Inr ob)
    \<and> (\<forall>j < k. observe (Fin t) (Fin f) seconds (take j rounds) m = None)"
proof -
  let ?ob = "\<lparr>ob_client = m, ob_complete = 0, ob_unavailable = 0, ob_final = None\<rparr>"
  define c where "c = \<lceil>t\<rceil> + seconds"
  define d where "d = round64 (t + of_int seconds)"
  define k where "k = \<lceil>t\<rceil>"
  have "k \<le> 2 ^ 52" "0 \<le> k" using assms(2,3) by (simp_all add: k_def ceiling_le_iff)
  then have c: "\<bar>c\<bar> \<le> 2 ^ 53" "0 \<le> c" using assms(4,5) unfolding c_def k_def [symmetric] by simp_all
  have big: "of_int c \<le> (2 ^ 53 :: rat)" using c of_int_le_iff [of c "2 ^ 53"] by simp
  have "t + of_int seconds \<le> of_int c" by (simp add: c_def)
  then have dc: "d \<le> of_int c" unfolding d_def using is_dbl_of_int [OF c(1)] by (intro r64.rnd_le)
  have d: "is_dbl d" "0 \<le> d" unfolding d_def using assms(2,4) by (simp_all add: r64.rnd_nonneg)
  have "(2 ^ 53 :: rat) < fmax" using pow2_less_iff [of 53 1024] pow2_nat [of 53] by (simp add: fmax_def del: pow2_less_iff)
  then have fm: "d < fmax" using dc big by linarith
  have "fl (of_int seconds) = Fin (of_int seconds)"
    using of_pyint_exact [of seconds] assms(4,5) by (cases "fl (of_int seconds)") (auto simp: of_pyint_def)
  then have dl: "fadd (Fin t) (exact seconds) = Fin d"
    using fm d(2) by (simp add: exact_def fl_def Let_def d_def)
  show ?thesis
  proof (cases "seconds = 0")
    case True
    then have "\<not> f < d" using r64.rnd_rep [OF assms(1)] assms(7) by (simp add: d_def)
    then have "observe_loop (Fin d) (Fin f) rounds ?ob = Some (Inr ?ob)" "observe_loop (Fin d) (Fin f) [] ?ob = Some (Inr ?ob)"
      by (cases rounds; simp)+
    then show ?thesis unfolding observe_def dl by (intro exI [of _ ?ob] exI [of _ 0]) simp
  next
    case False
    then have "1 \<le> seconds" using assms(4) by linarith
    then have "(1 :: rat) \<le> of_int seconds" by simp
    then have "1 \<le> t + of_int seconds" using assms(2) by linarith
    then have "1 \<le> d" unfolding d_def by (rule r64.rnd_ge [OF r64.rep_1])
    moreover have "d \<le> f + of_nat (2 * nat seconds + 2) / 2"
    proof -
      have "of_int c \<le> t + 1 + of_int seconds" using ceiling_correct [of t] by (simp add: c_def)
      then have "d \<le> f + (1 + of_int seconds)" using dc assms(7) by linarith
      then show ?thesis using assms(4) by (simp add: of_nat_nat add_divide_distrib)
    qed
    moreover have "0 \<le> f" using assms(2,7) by linarith
    ultimately show ?thesis
      unfolding observe_def dl using observe_loop_ends [OF d(1) _ fm assms(6) _ _ assms(9,8), of ?ob] by simp
  qed
qed

section \<open>From a configuration to a service\<close>

text \<open>A configuration that loads always gives a client; a managed chain also its controller.\<close>

lemma configured_client:
  assumes "load_config env argv = Inr (c, ns)"
  obtains m where "new_client (client_args_of c) = Inr m" "client_wf m" "cl_topology m = cfg_topology c"
    "cfg_topology c = None \<longrightarrow> battery_count m = bat_count (cfg_battery c) \<and> cells_per_bms m = bat_cells (cfg_battery c)"
proof -
  have valid: "mq_local (cfg_mqtt c) \<Longrightarrow> is_ok (local_broker_address (mq_broker (cfg_mqtt c)))"
    "mq_mode (cfg_mqtt c) = ''atomic'' \<or> mq_mode (cfg_mqtt c) = ''legacy''"
    using load_config_validated [OF assms] by (auto simp: validate_Inr)
  obtain a where a: "topology_args (client_args_of c) = Inr a" "arg_mode a = mq_mode (cfg_mqtt c)" "arg_topology a = cfg_topology c"
    "arg_local_only a = mq_local (cfg_mqtt c)" "arg_broker a = mq_broker (cfg_mqtt c)"
    "cfg_topology c = None \<Longrightarrow> a = client_args_of c"
  proof (cases "cfg_topology c")
    case None
    then show thesis using that [of "client_args_of c"] by (simp add: topology_args_def client_args_of_def)
  next
    case (Some t)
    have t: "members t \<noteq> []" "mq_mode (cfg_mqtt c) = ''atomic''"
      using topology_isolated [OF assms Some] by (simp_all add: topology_identity_def chain_wf_def)
    then obtain m ms where "members t = m # ms" by (cases "members t") auto
    then show thesis using that Some t(2) by (simp add: topology_args_def client_args_of_def)
  qed
  obtain address where "(if arg_local_only a then local_broker_address (arg_broker a) else Inr (arg_broker a)) = Inr address"
    using valid(1) a(4,5) by (auto simp: is_ok_iff)
  then have m: "new_client (client_args_of c) = Inr ((initial_client a address)\<lparr>batteries := empty_batteries (initial_client a address)\<rparr>)"
    using a(1,2) valid(2) by (auto simp: new_client_def)
  show thesis
    by (rule that [OF m new_client_wf [OF m]]) (use a in \<open>auto simp: initial_client_def client_args_of_def\<close>)
qed

lemma managed_controller:
  assumes "chain_wf t" "profile_wf t" "chain_output t = ''managed''" "cl_topology m = Some t" "battery_count m = member_count t"
    and "finite_reading (Some clk)"
  obtains p ctl where "managed_profile m = Inr (Some p)" "profile_ok p" "protection_profile t = Some p"
    "new_controller clk (configured_cells m) (battery_count m) (Some p) = Inr ctl" "ctl_wf ctl"
proof -
  obtain p where p: "protection_profile t = Some p" "profile_ok p"
    using assms(2,3) by (auto simp: profile_wf_def split: option.splits)
  have count: "1 \<le> member_count t" "member_count t \<le> 4"
    using assms(1) by (auto simp: chain_wf_def member_count_def MAX_MEMBERS_def Suc_le_eq)
  have each: "1 \<le> member_cells x \<and> member_cells x \<le> 32" if "x \<in> set (members t)" for x
    using assms(1) that by (auto simp: chain_wf_def member_wf_def MAX_CELLS_PER_MEMBER_def)
  have "1 * int (length xs) \<le> sum_list (map member_cells xs) \<and> sum_list (map member_cells xs) \<le> 32 * int (length xs)"
    if "set xs \<subseteq> set (members t)" for xs
    using that each by (induction xs) force+
  from this [of "members t"] have cells: "1 \<le> total_cells t" "total_cells t \<le> 128"
    using count by (auto simp: total_cells_def member_count_def)
  have cc: "configured_cells m = total_cells t" using assms(4) by (simp add: configured_cells_def)
  have "\<bar>total_cells t\<bar> \<le> 2 ^ 53" using cells by simp
  from of_pyint_exact [OF this] obtain ctl where ctl: "new_controller clk (total_cells t) (member_count t) (Some p) = Inr ctl"
    using cells count by (simp add: new_controller_def Let_def)
  have "ctl_wf ctl" using new_controller_wf [OF ctl assms(6)] p(2) by simp
  moreover have "managed_profile m = Inr (Some p)" using assms(3,4) p(1) by (simp add: managed_profile_def)
  ultimately show thesis using that p ctl cc assms(5) by simp
qed

lemma fresh_snapshots:
  assumes "new_client a = Inr m"
  shows "battery_snapshots clk m = []"
proof -
  have invalid: "\<not> is_valid clk (new_battery i n)" for i n
    by (simp add: is_valid_iff new_battery_def required_fields_def)
  obtain m0 where m: "batteries m = empty_batteries m0" using assms by (auto simp: new_client_def split: if_splits)
  have "\<exists>i n. b = new_battery i n" if "b \<in> set (dict_vals (batteries m))" for b
    using that by (auto simp: m empty_batteries_def configured_slots_def empty_slots_def dict_vals_def split: option.splits) blast+
  with invalid have "\<And>b. b \<in> set (dict_vals (batteries m)) \<Longrightarrow> \<not> is_valid clk b" by blast
  then show ?thesis by (simp add: battery_snapshots_def List.map_filter_def)
qed

text \<open>A service on a client without data is announced closed.\<close>

lemma fresh_service:
  assumes "new_client a = Inr m" "managed_profile m = Inr profile"
    and "new_controller clk (configured_cells m) (battery_count m) profile = Inr ctl"
  shows "\<exists>s. new_service script clk wall m cfg = Inr s \<and> closed s"
proof -
  let ?s = "initial_service m (cfg_battery cfg) profile ctl
      (setup_paths script (db_instance (cfg_dbus cfg)) (db_product (cfg_dbus cfg)) m)"
  have d: "declared ?s" by (rule initial_declared) (simp_all add: initial_service_def)
  have poll: "get_aggregate_data clk (sv_mqtt ?s) = (Inr None, m)" "?s\<lparr>sv_mqtt := m\<rparr> = ?s"
    using fresh_snapshots [OF assms(1), of clk] by (simp_all add: get_aggregate_data_def initial_service_def)
  obtain t where t: "set_unavailable clk None ?s = (None, t)" "closed t" using unavailable_total [OF d] by metis
  have "update_service clk wall ?s = (None, t)"
    using t(1) poll by (simp add: update_service_def using_res_def publish_snapshot_def)
  then show ?thesis using t(2) assms(2,3) by (simp add: new_service_def Let_def)
qed

section \<open>Properties of the program\<close>

lemma starts_closed:
  assumes "load_config (wo_env w) argv = Inr (c, ns)" "wo_connects w" "wo_arrivals w = []"
    and "map_of ns ''validate_topology'' \<noteq> Some (ABool True)" "observe_arg ns = 0"
    and "case cfg_topology c of Some t \<Rightarrow> chain_output t = ''managed''
      | None \<Rightarrow> \<bar>bat_count (cfg_battery c) * bat_cells (cfg_battery c)\<bar> \<le> 2 ^ 53"
    and "finite_reading (Some (wo_clock w))"
  shows "\<exists>p. main w argv = Serving p \<and> closed (pl_service p)"
proof -
  obtain m where m: "new_client (client_args_of c) = Inr m" "client_wf m" "cl_topology m = cfg_topology c"
    "cfg_topology c = None \<longrightarrow> battery_count m = bat_count (cfg_battery c) \<and> cells_per_bms m = bat_cells (cfg_battery c)"
    by (rule configured_client [OF assms(1)])
  have "\<exists>profile ctl. managed_profile m = Inr profile
    \<and> new_controller (wo_clock w) (configured_cells m) (battery_count m) profile = Inr ctl"
  proof (cases "cfg_topology c")
    case None
    then have "\<bar>configured_cells m\<bar> \<le> 2 ^ 53" using m(3,4) assms(6) by (simp add: configured_cells_def)
    then show ?thesis using None m(3) of_pyint_exact [of "configured_cells m"]
      by (simp add: managed_profile_def new_controller_def Let_def)
  next
    case (Some t)
    have t: "chain_wf t" "profile_wf t" using topology_isolated [OF assms(1) Some] by simp_all
    have "battery_count m = member_count t" using m(2,3) Some by (simp add: client_wf_def count_wf_def)
    moreover have "chain_output t = ''managed''" "cl_topology m = Some t" using Some m(3) assms(6) by simp_all
    ultimately obtain p ctl where "managed_profile m = Inr (Some p)"
      "new_controller (wo_clock w) (configured_cells m) (battery_count m) (Some p) = Inr ctl"
      using managed_controller [OF t] assms(7) by metis
    then show ?thesis by blast
  qed
  then obtain profile ctl where "managed_profile m = Inr profile"
    "new_controller (wo_clock w) (configured_cells m) (battery_count m) profile = Inr ctl" by blast
  from fresh_service [OF m(1) this] obtain s where s: "new_service (wo_script w) (wo_clock w) (wo_wall w) m c = Inr s" "closed s"
    by blast
  have "main w argv = start_service w c m"
    using assms m(1) by (auto simp: main_def split: option.splits)
  then show ?thesis using s by (simp add: start_service_def new_poller_def)
qed

text \<open>The program starts, closed: with a configuration that loads, of the legacy inventory or a managed
  chain, a reachable broker and no message yet, it announces a service, and that service forbids
  charging and discharging, publishes zero limits and marks its data incomplete.\<close>

theorem program_starts_closed:
  assumes "load_config (wo_env w) argv = Inr (c, ns)" "wo_connects w" "wo_arrivals w = []"
    and "map_of ns ''validate_topology'' \<noteq> Some (ABool True)" "observe_arg ns = 0"
    and "case cfg_topology c of Some t \<Rightarrow> chain_output t = ''managed''
      | None \<Rightarrow> \<bar>bat_count (cfg_battery c) * bat_cells (cfg_battery c)\<bar> \<le> 2 ^ 53"
    and "finite_reading (Some (wo_clock w))"
  shows "\<exists>p. main w argv = Serving p \<and> closed (pl_service p)"
  by (rule starts_closed [OF assms])

text \<open>C12: Whenever the program serves, whatever messages came first, its poll loop starts in its invariant, and a
  chain with a topology is a managed one with a validated protection profile: an offline chain never
  reaches the D-Bus.\<close>

theorem program_serves_safely:
  assumes "main w argv = Serving p" "list_all event_ok (wo_arrivals w)" "tick (wo_clock w)"
  shows "loop_inv p \<and> (\<forall>t. cl_topology (sv_mqtt (pl_service p)) = Some t \<longrightarrow>
    chain_wf t \<and> chain_output t = ''managed'' \<and> (\<exists>profile. protection_profile t = Some profile \<and> profile_ok profile))"
proof -
  obtain c ns m0 s where c: "load_config (wo_env w) argv = Inr (c, ns)" "new_client (client_args_of c) = Inr m0"
    "new_service (wo_script w) (wo_clock w) (wo_wall w) (run client_step (wo_arrivals w) m0) c = Inr s" "p = new_poller s"
    using assms(1)
    by (auto simp: main_def start_service_def start_observation_def Let_def split: sum.splits if_splits option.splits)
  let ?m = "run client_step (wo_arrivals w) m0"
  obtain m where "new_client (client_args_of c) = Inr m" "client_wf m" "cl_topology m = cfg_topology c"
    by (rule configured_client [OF c(1)])
  then have m0: "client_wf m0" "cl_topology m0 = cfg_topology c" using c(2) by simp_all
  have wf: "client_wf ?m" and topo: "cl_topology ?m = cfg_topology c"
    using client.inv_run [OF m0(1) assms(2)] client.below_run [OF m0(1) assms(2)] m0(2) by (simp_all add: advances_def same_config_def)
  have inv: "loop_inv p" using new_poller_inv [OF new_service_inv [OF c(3) wf assms(3)]] c(4) by simp
  obtain profile s0 where s0: "managed_profile ?m = Inr profile" "sv_mqtt s0 = ?m" "declared s0"
    "update_service (wo_clock w) (wo_wall w) s0 = (None, s)"
    using new_service_cases [OF c(3)] by (metis initial_service_def service.select_convs(1))
  have "cl_topology (sv_mqtt s) = cfg_topology c"
    using update_backed [OF s0(3,4)] s0(2) topo aggregate_config [of "wo_clock w" ?m] by (metis prod.collapse)
  moreover have "chain_wf t \<and> chain_output t = ''managed'' \<and> (\<exists>profile. protection_profile t = Some profile \<and> profile_ok profile)"
    if t: "cfg_topology c = Some t" for t
    using topology_isolated [OF c(1) t] s0(1) topo t
    by (auto simp: managed_profile_def profile_wf_def split: if_splits option.splits)
  ultimately show ?thesis using inv c(4) by (simp add: new_poller_def)
qed

section \<open>The properties applied\<close>

text \<open>A clock that polls at once and wakes at the next whole second (beyond \<open>2 ^ 53\<close>, where the floats are integers, at the
  next power of two).\<close>

definition wake_late :: "pyfloat \<Rightarrow> pyfloat \<Rightarrow> pyfloat" where
  "wake_late u x = (case (u, x) of
     (Fin a, Fin b) \<Rightarrow> if \<lceil>a + b\<rceil> \<le> 2 ^ 53 then Fin (of_int \<lceil>a + b\<rceil>) else Fin (pow2 (expo (a + b) + 1))
   | _ \<Rightarrow> NaN)"

definition whole_seconds :: observe_round where
  "whole_seconds = \<lparr>or_poll = id, or_clock = id, or_wake = wake_late, or_arrivals = []\<rparr>"

lemma whole_seconds_ok: "clock_ok whole_seconds"
proof -
  have "\<exists>w. wake_late (Fin u) (Fin x) = Fin w \<and> is_dbl w \<and> u + x \<le> w" if "0 \<le> u" "0 \<le> x" for u x
  proof (cases "\<lceil>u + x\<rceil> \<le> 2 ^ 53")
    case True
    have "0 \<le> u + x" using that by simp
    then have "0 \<le> \<lceil>u + x\<rceil>" by simp
    then have "is_dbl (of_int \<lceil>u + x\<rceil>)" using True by (intro is_dbl_of_int) simp
    then show ?thesis using True by (simp add: wake_late_def)
  next
    case False
    then have "2 ^ 53 < u + x" by (simp add: ceiling_le_iff)
    then have "u + x \<noteq> 0" "pow2 53 < u + x" "0 \<le> u + x" using pow2_nat [of 53] that by simp_all
    then have hi: "u + x < pow2 (expo (u + x) + 1)" using expo_bounds(2) [of "u + x"] by simp
    with \<open>pow2 53 < u + x\<close> have "pow2 53 < pow2 (expo (u + x) + 1)" by (rule less_trans)
    then have "is_dbl (pow2 (expo (u + x) + 1))" by (intro is_dbl_pow2) simp
    then show ?thesis using False hi by (simp add: wake_late_def less_imp_le)
  qed
  then show ?thesis by (simp add: clock_ok_def whole_seconds_def)
qed

theorem observe_returns_witness:
  "\<exists>ob k. observe (Fin 0) (Fin 0) 1 (replicate 4 whole_seconds) quiet_client = Some (Inr ob)
    \<and> k \<le> 4 \<and> ob_complete ob + ob_unavailable ob = int k"
proof -
  have "list_all clock_ok (replicate 4 whole_seconds)" "is_dbl 0"
    using whole_seconds_ok r64.rep_0 by (simp_all add: list_all_iff)
  note obs = observe_returns [OF this(2) _ _ _ _ this(2) _ this(1), of 1 quiet_client]
  obtain ob k where "observe (Fin 0) (Fin 0) 1 (replicate 4 whole_seconds) quiet_client = Some (Inr ob)"
    "k \<le> 2 * nat 1 + 2" "ob_complete ob + ob_unavailable ob = int k"
    by (rule exE [OF obs]) (simp_all del: observe_loop.simps, blast)
  then show ?thesis by auto
qed

definition quiet_world :: world where
  "quiet_world = \<lparr>wo_env = plain_environment, wo_connects = True, wo_start = Fin 0, wo_test = Fin 0, wo_rounds = [], wo_arrivals = [],
     wo_clock = Fin 100, wo_wall = Fin 0, wo_script = ''aggregate''\<rparr>"

lemma quiet_config: "map_sum id (\<lambda>(c, ns). (map_option chain_id (cfg_topology c), \<bar>bat_count (cfg_battery c) * bat_cells (cfg_battery c)\<bar> \<le> 2 ^ 53,
    map_of ns ''validate_topology'' = Some (ABool True), observe_arg ns)) (load_config plain_environment legacy_argv) = Inr (None, True, False, 0)"
  by code_simp

theorem program_starts_closed_witness: "\<exists>p. main quiet_world legacy_argv = Serving p \<and> closed (pl_service p)"
proof -
  obtain c ns where c: "load_config plain_environment legacy_argv = Inr (c, ns)" "cfg_topology c = None"
    "\<bar>bat_count (cfg_battery c) * bat_cells (cfg_battery c)\<bar> \<le> 2 ^ 53" "map_of ns ''validate_topology'' \<noteq> Some (ABool True)"
    "observe_arg ns = 0"
    using quiet_config by (cases "load_config plain_environment legacy_argv") auto
  then show ?thesis using program_starts_closed [of quiet_world legacy_argv c ns] readings_20(4)
    by (simp add: quiet_world_def)
qed

theorem program_serves_safely_witness: "\<exists>p. main quiet_world legacy_argv = Serving p \<and> loop_inv p"
proof -
  obtain c ns where c: "load_config plain_environment legacy_argv = Inr (c, ns)" "cfg_topology c = None"
    "\<bar>bat_count (cfg_battery c) * bat_cells (cfg_battery c)\<bar> \<le> 2 ^ 53" "map_of ns ''validate_topology'' \<noteq> Some (ABool True)"
    "observe_arg ns = 0"
    using quiet_config by (cases "load_config plain_environment legacy_argv") auto
  obtain p where p: "main quiet_world legacy_argv = Serving p"
    using starts_closed [of quiet_world legacy_argv c ns] c readings_20(4) by (auto simp: quiet_world_def)
  have "list_all event_ok (wo_arrivals quiet_world)" "tick (wo_clock quiet_world)"
    by (simp_all add: quiet_world_def tick_100)
  from program_serves_safely [OF p this] p show ?thesis by blast
qed

end
