(* ===== verification/EndToEnd.thy ===== *)
theory EndToEnd
  imports BreakerProps
begin

text \<open>
  From the telemetry to the outputs: the client, the controller, the service, the breaker and the poll
  loop together.  A permission that stands after a poll rests on fresh evidence of every configured
  battery, and without live evidence the outputs close within a minute, whatever happens meanwhile.
\<close>

section \<open>The client inside the loop\<close>

definition client_of :: "service poller \<Rightarrow> mqtt_client" where
  "client_of p = sv_mqtt (pl_service p)"

text \<open>What one tick does to the service: nothing when the breaker skips it, or an update, or an interrupted one.\<close>

lemma tick_cases:
  assumes "loop_event_ok (Tick c clk wall hang)" "loop_inv p" "q = loop_step (Tick c clk wall hang) p"
  obtains (shut) "closed (pl_service q)"
  | (updated) "update_service clk wall (pl_service p) = (None, pl_service q)"
proof -
  obtain r b s where call: "call (pc_now c) (pc_later c) (alarmed_update clk wall hang) (pl_breaker p, pl_service p) = (r, (b, s))"
    by (metis prod.collapse)
  have q: "pl_service q = s" using poll_fields [OF call] assms(3) by simp
  have inv: "service_inv (pl_service p)" using assms(2) by (simp add: loop_inv_def)
  from call show thesis
  proof (cases rule: call_cases)
    case skipped
    then have "closed s" using assms(2) by (auto simp: loop_inv_def breaker_ok_def breaker_state_def split: if_splits)
    then show thesis using shut q by simp
  next
    case timeout
    then show thesis using alarmed_inv(2) [OF assms(1) inv timeout(1)] shut q by simp
  next
    case (raised e)
    then show thesis using alarmed_inv(2) [OF assms(1) inv raised(1)] shut q by simp
  next
    case returned
    then show thesis using updated q by (cases hang) (simp_all add: alarmed_update_def)
  qed
qed

lemma update_client: "declared s \<Longrightarrow> update_service clk wall s = (e, t) \<Longrightarrow> sv_mqtt t = snd (get_aggregate_data clk (sv_mqtt s))"
proof -
  assume d: "declared s" and u: "update_service clk wall s = (e, t)"
  obtain r m where g: "get_aggregate_data clk (sv_mqtt s) = (r, m)" by force
  from d u g show ?thesis by (cases rule: service_update_cases) (use g in \<open>auto simp: core_def\<close>)
qed

lemma hung_client:
  assumes "declared u"
  shows "sv_mqtt (snd (set_unavailable clk None u)) = sv_mqtt u"
proof -
  obtain v where "set_unavailable clk None u = (None, v)" "core v = core u"
    using unavailable_total [OF assms] by metis
  then show ?thesis by (simp add: core_def)
qed

text \<open>A tick polls the client or leaves it alone.\<close>

lemma tick_client:
  assumes "loop_event_ok (Tick c clk wall hang)" "loop_inv p"
  shows "client_of (loop_step (Tick c clk wall hang) p) \<in> {client_of p, client_step (Poll clk) (client_of p)}"
proof -
  obtain r b s where call: "call (pc_now c) (pc_later c) (alarmed_update clk wall hang) (pl_breaker p, pl_service p) = (r, (b, s))"
    by (metis prod.collapse)
  have d: "declared (pl_service p)" using assms(2) by (simp add: loop_inv_def service_inv_def)
  have guarded: "sv_mqtt t \<in> {client_of p, snd (get_aggregate_data clk (client_of p))}"
    if "alarmed_update clk wall hang (pl_service p) = (e, t)" for e t
  proof (cases hang)
    case None
    then show ?thesis using that update_client [OF d] by (simp add: alarmed_update_def client_of_def)
  next
    case (Some reached)
    then have "declared (reached (pl_service p))" "sv_mqtt (reached (pl_service p)) \<in> {client_of p, snd (get_aggregate_data clk (client_of p))}"
      using assms(1) d by (auto simp: client_of_def)
    then show ?thesis using that Some hung_client by (auto simp: alarmed_update_def)
  qed
  have "sv_mqtt s \<in> {client_of p, snd (get_aggregate_data clk (client_of p))}"
    using call by (cases rule: call_cases) (use guarded in \<open>auto simp: client_of_def\<close>)
  then show ?thesis using poll_fields(2) [OF call] by (simp add: client_of_def)
qed

section \<open>Without live evidence the outputs close\<close>

text \<open>No ready frame of a live session arrives during these events; ready frames that are replayed, retired or refused
  for a full history may.\<close>

fun silent :: "loop_event list \<Rightarrow> service poller \<Rightarrow> bool" where
  "silent [] p = True"
| "silent (e # es) p = ((case e of Incoming x \<Rightarrow> \<not> ready_event x (client_of p) | Tick c clk wall hang \<Rightarrow> True)
     \<and> silent es (loop_step e p))"

lemma ageing_loop_step:
  assumes "loop_event_ok e" "loop_inv p" "ageing l (client_of p)" "silent [e] p"
  shows "ageing l (client_of (loop_step e p))"
proof (cases e)
  case (Tick c clk wall hang)
  have "client_wf (client_of p)" using assms(2) by (simp add: loop_inv_def service_inv_def client_of_def)
  moreover have "event_ok (Poll clk)" using assms(1) Tick by simp
  ultimately have "ageing l (client_step (Poll clk) (client_of p))" by (intro ageing_step [OF assms(3)]) simp_all
  then show ?thesis using tick_client [of c clk wall hang p] assms Tick by auto
next
  case (Incoming x)
  have "client_wf (client_of p)" using assms(2) by (simp add: loop_inv_def service_inv_def client_of_def)
  then have "ageing l (client_step x (client_of p))" using assms Incoming by (intro ageing_step) auto
  then show ?thesis using Incoming by (simp add: client_of_def)
qed

lemma ageing_loop: "list_all loop_event_ok es \<Longrightarrow> loop_inv p \<Longrightarrow> ageing l (client_of p) \<Longrightarrow> silent es p \<Longrightarrow>
    ageing l (client_of (run loop_step es p))"
  by (induction es arbitrary: p) (simp_all add: ageing_loop_step loop_step_inv)

text \<open>A poll of a client without live evidence closes the outputs.\<close>

lemma stale_tick_closes:
  assumes "loop_event_ok (Tick c (Fin x) wall hang)" "loop_inv p" "ageing (Fin t) (client_of p)" "t + 60 \<le> x" "is_dbl x"
  shows "closed (pl_service (loop_step (Tick c (Fin x) wall hang) p))"
  using assms(1,2) refl
proof (cases rule: tick_cases)
  case updated
  have d: "declared (pl_service p)" "client_wf (client_of p)"
    using assms(2) by (simp_all add: loop_inv_def service_inv_def client_of_def)
  have "battery_snapshots (Fin x) (client_of p) = []" by (rule ageing_invalid [OF assms(3) d(2) assms(5,4)])
  then have "get_aggregate_data (Fin x) (client_of p) = (Inr None, client_of p)" by (simp add: get_aggregate_data_def)
  from d(1) updated this [unfolded client_of_def] show ?thesis by (cases rule: service_update_cases) simp_all
qed

lemma loop_reached:
  assumes "new_service script clk wall m cfg = Inr s" "client_wf m" "tick clk" "list_all loop_event_ok es"
  shows "loop_inv (run loop_step es (new_poller s))"
  using loop.inv_run [OF new_poller_inv [OF new_service_inv [OF assms(1-3)]] assms(4)] .


section \<open>A permission rests on fresh evidence\<close>

lemma permission_ground:
  assumes "update_service clk wall s = (None, t)" "service_inv s" "paths t p = Some (DInt 1)" "p = ALLOW_CHARGE \<or> p = ALLOW_DISCHARGE"
  shows "\<exists>a m. get_aggregate_data clk (sv_mqtt s) = (Inr (Some a), m) \<and> (p = ALLOW_CHARGE \<longrightarrow> allow_charge a)
    \<and> (p = ALLOW_DISCHARGE \<longrightarrow> allow_discharge a)"
proof -
  obtain r m where g: "get_aggregate_data clk (sv_mqtt s) = (r, m)" by force
  have d: "declared s" using assms(2) by (simp add: service_inv_def)
  have apart: "ALLOW_CHARGE \<noteq> ALLOW_DISCHARGE" by (simp add: path_defs)
  from d assms(1) g show ?thesis
  proof (cases rule: service_update_cases)
    case unavailable
    then show ?thesis using assms(3,4) by (auto simp: closed_def permission_paths_def)
  next
    case (complete a out c x y)
    then show ?thesis using g assms(3,4) apart by (auto simp: published_def flag_def split: if_splits)
  qed simp
qed

text \<open>C1: Whenever a poll leaves charging permitted, every configured battery is present, valid at the poll's clock
  (each sample less than a minute old, each cell positive, online) and itself permits charging; the same for
  discharging.  It holds at every poll of every run of the program.\<close>

theorem permission_grounded:
  assumes "new_service script clk0 wall0 m cfg = Inr s" "client_wf m" "tick clk0"
    and "list_all loop_event_ok es" "p = run loop_step es (new_poller s)"
    and "loop_event_ok (Tick c clk wall hang)" "q = loop_step (Tick c clk wall hang) p"
    and "1 \<le> i" "i \<le> battery_count (client_of p)"
  shows "(paths (pl_service q) ALLOW_CHARGE = Some (DInt 1) \<longrightarrow>
      (\<exists>b. map_of (batteries (client_of p)) i = Some b \<and> is_valid clk b \<and> charging b = Some True))
    \<and> (paths (pl_service q) ALLOW_DISCHARGE = Some (DInt 1) \<longrightarrow>
      (\<exists>b. map_of (batteries (client_of p)) i = Some b \<and> is_valid clk b \<and> discharging b = Some True))"
proof -
  have inv: "loop_inv p" using loop_reached [OF assms(1-4)] assms(5) by simp
  then have s: "service_inv (pl_service p)" "client_wf (client_of p)" by (simp_all add: loop_inv_def service_inv_def client_of_def)
  from assms(6) inv assms(7) show ?thesis
  proof (cases rule: tick_cases)
    case shut
    then show ?thesis by (auto simp: closed_def permission_paths_def)
  next
    case updated
    note grants = permission_ground [OF updated s(1)] aggregate_grants [OF s(2)]
    have "\<exists>b. map_of (batteries (client_of p)) i = Some b \<and> is_valid clk b \<and> charging b = Some True"
      if "paths (pl_service q) ALLOW_CHARGE = Some (DInt 1)"
      using grants(1) [OF that] grants(2) assms(8,9) by (fastforce simp: client_of_def)
    moreover have "\<exists>b. map_of (batteries (client_of p)) i = Some b \<and> is_valid clk b \<and> discharging b = Some True"
      if "paths (pl_service q) ALLOW_DISCHARGE = Some (DInt 1)"
      using grants(1) [OF that] grants(2) assms(8,9) by (fastforce simp: client_of_def)
    ultimately show ?thesis by blast
  qed
qed

section \<open>A run with one battery\<close>

text \<open>The controller at the start, and after the first update.\<close>

definition first_controller :: dvcc_controller where
  "first_controller = idle_controller\<lparr>last_update_time := Fin 100\<rparr>"

definition second_controller :: dvcc_controller where
  "second_controller = idle_controller\<lparr>last_update_time := Fin 100, last_ccl := Fin 100, last_dcl := Fin 120\<rparr>"

lemma memory_irrelevant:
  "combined_ccl (c\<lparr>last_update_time := u, last_ccl := x, last_dcl := y\<rparr>) d = combined_ccl c d"
  "combined_dcl (c\<lparr>last_update_time := u, last_ccl := x, last_dcl := y\<rparr>) d = combined_dcl c d"
proof -
  let ?c = "c\<lparr>last_update_time := u, last_ccl := x, last_dcl := y\<rparr>"
  have f: "curve ?c = curve c" "ctl_max_charge_current ?c = ctl_max_charge_current c"
    "ctl_min_charge_current ?c = ctl_min_charge_current c" "ctl_max_discharge_current ?c = ctl_max_discharge_current c"
    by simp_all
  show "combined_ccl ?c d = combined_ccl c d" "combined_dcl ?c d = combined_dcl c d"
    unfolding combined_ccl_def combined_dcl_def ccl_from_cell_voltage_def ccl_from_imbalance_def
      ccl_from_temperature_def ccl_from_soc_def dcl_from_cell_voltage_def f by (rule refl)+
qed

text \<open>A controller whose last limit is the ceiling is not rate limited: its memory does not matter.\<close>

lemma settled_calculate:
  assumes "ctl_curve c" "input_finite d" "last_ccl c = ctl_max_charge_current c" "x = ctl_max_charge_current c"
  shows "fst (calculate now d (c\<lparr>last_update_time := u, last_ccl := x, last_dcl := y\<rparr>)) = fst (calculate now d c)"
proof -
  obtain l where l: "combined_ccl c d = Inr l" "limit_in x (fst l)" using combined_ccl_limit [OF assms(1,2)] assms(4) by metis
  have "\<not> flt x (fst l)" using l(2) by (auto simp: limit_in_def inside_def split: pyfloat.splits)
  then have "rate_limited (c\<lparr>last_update_time := u, last_ccl := x, last_dcl := y\<rparr>) now (fst l) = fst l" "rate_limited c now (fst l) = fst l"
    using assms(3,4) by (simp_all add: rate_limited_def Let_def)
  then show ?thesis using l(1) by (cases l) (simp add: calculate_def memory_irrelevant Let_def split: sum.split)
qed

lemma idle_fields: "ctl_curve idle_controller" "last_ccl idle_controller = Fin 100" "last_dcl idle_controller = Fin 120"
  "ctl_max_charge_current idle_controller = Fin 100"
proof -
  show "ctl_curve idle_controller" using idle_sane by (simp add: sane_def)
  show "last_ccl idle_controller = Fin 100" "last_dcl idle_controller = Fin 120" "ctl_max_charge_current idle_controller = Fin 100"
    using of_pyint_exact [of 1] by (simp_all add: idle_controller_def new_controller_def Let_def constants)
qed

lemma settled_limits:
  assumes "c = idle_controller\<lparr>last_update_time := u, last_ccl := Fin 100, last_dcl := Fin 120\<rparr>"
  shows "map_sum id (\<lambda>d. (ccl d, dcl d)) (fst (calculate (Fin 100) (dvcc_input_of degraded_data) c)) = Inr (Fin 100, Fin 120)"
proof -
  have "input_finite (dvcc_input_of degraded_data)" using degraded_publishable(1) by (simp add: publishable_def)
  then have "fst (calculate (Fin 100) (dvcc_input_of degraded_data) c) = fst (calculate (Fin 100) (dvcc_input_of degraded_data) idle_controller)"
    unfolding assms by (rule settled_calculate [OF idle_fields(1)]) (simp_all only: idle_fields)
  then show ?thesis by (simp only: degraded_limits)
qed

lemma first_second:
  "first_controller = idle_controller\<lparr>last_update_time := Fin 100, last_ccl := Fin 100, last_dcl := Fin 120\<rparr>"
  "(snd (calculate (Fin 100) (dvcc_input_of degraded_data) first_controller))\<lparr>last_ccl := Fin 100, last_dcl := Fin 120\<rparr> = second_controller"
proof -
  have same: "c = c\<lparr>last_ccl := last_ccl c, last_dcl := last_dcl c\<rparr>" for c :: dvcc_controller by simp
  show f: "first_controller = idle_controller\<lparr>last_update_time := Fin 100, last_ccl := Fin 100, last_dcl := Fin 120\<rparr>"
    unfolding first_controller_def using same [of "idle_controller\<lparr>last_update_time := Fin 100\<rparr>"] idle_fields(2,3) by simp
  show "(snd (calculate (Fin 100) (dvcc_input_of degraded_data) first_controller))\<lparr>last_ccl := Fin 100, last_dcl := Fin 120\<rparr> = second_controller"
    using settled_limits [OF f] unfolding f second_controller_def
    by (auto simp: calculate_def Let_def split: sum.splits)
qed

lemma controllers_sane: "sane first_controller" "sane second_controller"
proof -
  have "new_controller (Fin 100) 1 1 None = Inr first_controller"
    using of_pyint_exact [of 1] idle_controller [of 100] by (simp add: first_controller_def)
  from new_controller_wf [OF this] readings_20(4) show "sane first_controller" by (intro wf_sane) simp
  from idle_sane show "sane second_controller"
    using readings_20(4) fvalid_numeral
    by (simp add: second_controller_def sane_def nonneg_float_def fmax_def ctl_curve_def)
qed

lemma degraded_tick:
  assumes "declared s" "sv_mqtt s = degraded_client" "sane (sv_dvcc s)" "previous_limits s \<in> {None, Some (Fin 100, Fin 120)}"
    and "map_sum id (\<lambda>d. (ccl d, dcl d)) (fst (calculate (Fin 100) (dvcc_input_of degraded_data) (sv_dvcc s))) = Inr (Fin 100, Fin 120)"
  shows "\<exists>t. update_service (Fin 100) (Fin 0) s = (None, t) \<and> published degraded_data (Fin 100) (Fin 120) t \<and> declared t
    \<and> sv_mqtt t = degraded_client
    \<and> sv_dvcc t = (snd (calculate (Fin 100) (dvcc_input_of degraded_data) (sv_dvcc s)))\<lparr>last_ccl := Fin 100, last_dcl := Fin 120\<rparr>"
proof -
  have client: "guarded_client (sv_mqtt s)" by (simp add: assms(2) guarded_client_def degraded_client_def)
  have poll: "get_aggregate_data (Fin 100) (sv_mqtt s) = (Inr (Some degraded_data), degraded_client)"
    using degraded_poll assms(2) by simp
  obtain t where t: "update_service (Fin 100) (Fin 0) s = (None, t)"
    using complete_total [OF assms(1,3) client readings_20(4) poll degraded_publishable(2,1)] by blast
  from assms(1) t poll show ?thesis
  proof (cases rule: service_update_cases)
    case (complete a out c x y)
    then have "a = degraded_data" "ccl out = Fin 100" "dcl out = Fin 120" using assms(5) by auto
    then have "x = Fin 100 \<and> y = Fin 120"
      using complete assms(4) by (auto simp: held_limits_def degraded_data_def fmin_def split: option.splits if_splits)
    then show ?thesis using complete t \<open>a = degraded_data\<close> by simp
  qed (use degraded_publishable(2) in simp_all)
qed

lemma degraded_service:
  "\<exists>s. new_service ''aggregate'' (Fin 100) (Fin 0) degraded_client default_config = Inr s \<and> declared s
    \<and> sv_mqtt s = degraded_client \<and> sv_dvcc s = second_controller \<and> previous_limits s = Some (Fin 100, Fin 120)"
proof -
  have m: "managed_profile degraded_client = Inr None" "battery_count degraded_client = 1" "configured_cells degraded_client = 1"
    by (simp_all add: managed_profile_def degraded_client_def live_client_def initial_client_def live_args_def configured_cells_def)
  let ?s = "initial_service degraded_client default_battery None first_controller
      (setup_paths ''aggregate'' 512 ''JBD Battery Chain'' degraded_client)"
  have d: "declared ?s" by (rule initial_declared) (simp_all add: initial_service_def)
  have f: "sv_mqtt ?s = degraded_client" "sv_dvcc ?s = first_controller" "previous_limits ?s = None"
    by (simp_all add: initial_service_def)
  obtain t where t: "update_service (Fin 100) (Fin 0) ?s = (None, t)" "declared t" "sv_mqtt t = degraded_client"
    "sv_dvcc t = second_controller" "published degraded_data (Fin 100) (Fin 120) t"
    using degraded_tick [OF d f(1)] f controllers_sane(1) settled_limits [OF first_second(1)] first_second(2) by auto
  then have "new_service ''aggregate'' (Fin 100) (Fin 0) degraded_client default_config = Inr t"
    by (simp add: new_service_def m idle_controller first_controller_def [symmetric] Let_def default_config_def default_dbus_def)
  then show ?thesis using t by (auto simp: published_def)
qed

lemma degraded_wf: "client_wf degraded_client"
  using live_wf(1) flags_wf by (simp add: degraded_client_def client_wf_def)

definition poll_at :: "pyfloat \<Rightarrow> loop_event" where
  "poll_at t = Tick (at_time t) t (Fin 0) None"

lemma poll_at_ok: "loop_event_ok (poll_at (Fin 100))" "loop_event_ok (Tick (at_time (Fin 200)) (Fin 200) (Fin 0) None)"
  using tick_100 is_dbl_of_int [of 200] by (simp_all add: poll_at_def tick_def pow2_def)


theorem permission_grounded_witness:
  "\<exists>s b. new_service ''aggregate'' (Fin 100) (Fin 0) degraded_client default_config = Inr s
    \<and> paths (pl_service (loop_step (poll_at (Fin 100)) (new_poller s))) ALLOW_CHARGE = Some (DInt 1)
    \<and> map_of (batteries degraded_client) 1 = Some b \<and> is_valid (Fin 100) b \<and> charging b = Some True"
proof -
  obtain s where s: "new_service ''aggregate'' (Fin 100) (Fin 0) degraded_client default_config = Inr s" "declared s"
    "sv_mqtt s = degraded_client" "sv_dvcc s = second_controller" "previous_limits s = Some (Fin 100, Fin 120)"
    using degraded_service by blast
  obtain t where t: "update_service (Fin 100) (Fin 0) s = (None, t)" "published degraded_data (Fin 100) (Fin 120) t"
    using degraded_tick [OF s(2,3)] s(4,5) controllers_sane(2) settled_limits [OF second_controller_def] by auto
  let ?p = "new_poller s" and ?q = "loop_step (poll_at (Fin 100)) (new_poller s)"
  have "pl_service ?q = t"
    using t(1) by (simp add: poll_at_def poll_cycle_step_def poll_cycle_def call_def new_poller_def default_breaker_def
      breaker_state_def alarmed_update_def write_heartbeat_def collect_garbage_def)
  then have w: "paths (pl_service ?q) ALLOW_CHARGE = Some (DInt 1)"
    using t(2) by (simp add: published_def degraded_data_def flag_def)
  have c: "client_of ?p = degraded_client" "battery_count degraded_client = 1"
    using s(3) by (simp_all add: client_of_def new_poller_def degraded_client_def)
  have "\<exists>b. map_of (batteries (client_of ?p)) 1 = Some b \<and> is_valid (Fin 100) b \<and> charging b = Some True"
    using permission_grounded [OF s(1) degraded_wf tick_100(1), of "[]" ?p "at_time (Fin 100)" "Fin 100" "Fin 0" None ?q 1]
      poll_at_ok(1) w c by (simp add: poll_at_def)
  then show ?thesis using s(1) w c by auto
qed

end
