(* ===== verification/FuzzOracle.thy ===== *)
theory FuzzOracle
  imports MqttSafety
begin

text \<open>
  \<open>fuzz/fuzz_telemetry.py\<close>: the oracle of the fuzzing harness around the schema-1 decoder, with the JSON
  reader inside the interpreter's recursion limit, and the proof of which inputs refute it: the decoder
  returns or raises \<open>ValueError\<close>, and what it returns satisfies every assertion, except on a text
  nested so deeply that the reader raises \<open>RecursionError\<close>, which the harness does not catch.
\<close>

section \<open>The reader within the recursion limit\<close>

text \<open>
  CPython's scanner enters one guarded C call for each array and each object it opens
  (\<open>Py_EnterRecursiveCall\<close>) and raises \<open>RecursionError\<close>, which is not a \<open>ValueError\<close>, when the
  interpreter's limit leaves no room for it.  \<open>room\<close> is the number of nested calls left at \<open>json.loads\<close>.
\<close>

definition recursion_error :: exn where
  "recursion_error = OtherError ''RecursionError'' ''maximum recursion depth exceeded''"

function (sequential)
  read_value :: "nat \<Rightarrow> hook \<Rightarrow> string \<Rightarrow> (pyval \<times> string) res" and
  read_items :: "nat \<Rightarrow> hook \<Rightarrow> string \<Rightarrow> (pyval list \<times> string) res" and
  read_pairs :: "nat \<Rightarrow> hook \<Rightarrow> string \<Rightarrow> (pyobj \<times> string) res"
where
  "read_value room h [] = Inl bad_json"
| "read_value room h (c # s) =
    (if c = CHR 0x22 then
       (case scan_string s of None \<Rightarrow> Inl bad_json | Some (u, r) \<Rightarrow> Inr (VStr u, r))
     else if c = CHR ''['' then
       (if room = 0 then Inl recursion_error
        else case skip_ws s of d # r \<Rightarrow> if d = CHR '']'' then Inr (VList [], r)
            else and_then (read_items (room - 1) h (d # r)) (\<lambda>(xs, q). Inr (VList xs, q))
        | [] \<Rightarrow> Inl bad_json)
     else if c = CHR ''{'' then
       (if room = 0 then Inl recursion_error
        else case skip_ws s of d # r \<Rightarrow> if d = CHR ''}'' then and_then (h []) (\<lambda>v. Inr (v, r))
            else and_then (read_pairs (room - 1) h (d # r)) (\<lambda>(ps, q). and_then (h ps) (\<lambda>v. Inr (v, q)))
        | [] \<Rightarrow> Inl bad_json)
     else (case scan_constant (c # s) of Some (v, r) \<Rightarrow> Inr (v, r)
        | None \<Rightarrow> (case scan_number (c # s) of Some (v, r) \<Rightarrow> Inr (v, r) | None \<Rightarrow> Inl bad_json)))"
| "read_items room h s =
    and_then (read_value room h s) (\<lambda>(v, r). case skip_ws r of
       d # t \<Rightarrow> if d = CHR '']'' then Inr ([v], t)
         else if d = CHR '','' \<and> length r < length s
           then and_then (read_items room h (skip_ws t)) (\<lambda>(vs, q). Inr (v # vs, q))
         else Inl bad_json
     | [] \<Rightarrow> Inl bad_json)"
| "read_pairs room h s = (case s of
       [] \<Rightarrow> Inl bad_json
     | c # t \<Rightarrow> if c \<noteq> CHR 0x22 then Inl bad_json else
        (case scan_string t of None \<Rightarrow> Inl bad_json | Some (k, r) \<Rightarrow>
          (case skip_ws r of [] \<Rightarrow> Inl bad_json | d # r1 \<Rightarrow>
            if d \<noteq> CHR '':'' then Inl bad_json else
            and_then (read_value room h (skip_ws r1)) (\<lambda>(v, r2). case skip_ws r2 of
               e # r3 \<Rightarrow> if e = CHR ''}'' then Inr ([(k, v)], r3)
                 else if e = CHR '','' \<and> length r2 < length s
                   then and_then (read_pairs room h (skip_ws r3)) (\<lambda>(ps, q). Inr ((k, v) # ps, q))
                 else Inl bad_json
             | [] \<Rightarrow> Inl bad_json))))"
  by pat_completeness auto

termination
  by (relation "measure (\<lambda>x. case x of Inl (n, h, s) \<Rightarrow> 2 * length s
       | Inr y \<Rightarrow> (case y of Inl (n, h, s) \<Rightarrow> 2 * length s + 1 | Inr (n, h, s) \<Rightarrow> 2 * length s + 1))")
    (auto dest!: skip_ws_Cons scan_string_length intro: le_less_trans [OF skip_ws_double] le_less_trans [OF skip_ws_length])

declare read_items.simps [simp del] read_pairs.simps [simp del]

definition loads_within :: "nat \<Rightarrow> hook \<Rightarrow> string \<Rightarrow> pyval res" where
  "loads_within room h s = (if starts_with [CHR 0xEF, CHR 0xBB, CHR 0xBF] s then Inl bad_json
     else and_then (read_value room h (skip_ws s)) (\<lambda>(v, r).
       if skip_ws r = [] then Inr v else Inl bad_json))"

text \<open>The reader runs out of room, or reads what the unlimited one reads.\<close>

definition runs_out :: "'a res \<Rightarrow> 'a res \<Rightarrow> bool" where
  "runs_out r u \<longleftrightarrow> r = Inl recursion_error \<or> r = u"

lemma runs_out_refl [simp]: "runs_out r r" "runs_out (Inl recursion_error) u"
  by (simp_all add: runs_out_def)

lemma runs_out_and_then: "runs_out r u \<Longrightarrow> (\<And>x. u = Inr x \<Longrightarrow> runs_out (f x) (g x)) \<Longrightarrow> runs_out (and_then r f) (and_then u g)"
  by (cases u) (auto simp: runs_out_def)

lemma runs_out_if: "(b \<Longrightarrow> runs_out r u) \<Longrightarrow> (\<not> b \<Longrightarrow> runs_out s v) \<Longrightarrow> runs_out (if b then r else s) (if b then u else v)"
  by simp

lemma runs_out_empty: "(\<not> b \<Longrightarrow> runs_out r u) \<Longrightarrow> runs_out (if b then Inl recursion_error else r) u"
  by simp

lemma runs_out_list: "(x = [] \<Longrightarrow> runs_out a b) \<Longrightarrow> (\<And>y ys. x = y # ys \<Longrightarrow> runs_out (f y ys) (g y ys))
    \<Longrightarrow> runs_out (case x of [] \<Rightarrow> a | y # ys \<Rightarrow> f y ys) (case x of [] \<Rightarrow> b | y # ys \<Rightarrow> g y ys)"
  by (cases x) simp_all

lemma runs_out_option: "(x = None \<Longrightarrow> runs_out a b) \<Longrightarrow> (\<And>y. x = Some y \<Longrightarrow> runs_out (f y) (g y))
    \<Longrightarrow> runs_out (case x of None \<Rightarrow> a | Some y \<Rightarrow> f y) (case x of None \<Rightarrow> b | Some y \<Rightarrow> g y)"
  by (cases x) simp_all

lemma runs_out_prod: "(\<And>y z. x = (y, z) \<Longrightarrow> runs_out (f y z) (g y z))
    \<Longrightarrow> runs_out (case x of (y, z) \<Rightarrow> f y z) (case x of (y, z) \<Rightarrow> g y z)"
  by (cases x) simp

lemma runs_out_scan:
  "runs_out (read_value room h s) (scan_value h s)"
  "runs_out (read_items room h s) (scan_items h s)"
  "runs_out (read_pairs room h s) (scan_pairs h s)"
proof (induction room h s and room h s and room h s rule: read_value_read_items_read_pairs.induct)
  case (1 room h)
  show ?case by simp
next
  case (2 room h c s)
  show ?case unfolding read_value.simps scan_value.simps
    by (intro runs_out_if runs_out_list runs_out_and_then runs_out_empty 2 runs_out_refl) simp_all
next
  case (3 room h s)
  show ?case unfolding read_items.simps [of room h s] scan_items.simps [of h s]
    by (intro runs_out_and_then 3 runs_out_prod runs_out_list runs_out_if runs_out_refl) simp_all
next
  case (4 room h s)
  show ?case unfolding read_pairs.simps [of room h s] scan_pairs.simps [of h s]
    by (intro runs_out_list runs_out_if runs_out_option runs_out_prod runs_out_and_then 4 runs_out_refl) simp_all
qed

section \<open>How deep a text can go\<close>

text \<open>Running out of room takes as many opening brackets: the scanner only moves forward in the text.\<close>

definition is_opening :: "char \<Rightarrow> bool" where
  "is_opening c = (c \<in> {CHR ''['', CHR ''{''})"

definition openings :: "string \<Rightarrow> nat" where
  "openings s = length (filter is_opening s)"

lemma openings_simps [simp]: "openings [] = 0" "openings (c # s) = (if is_opening c then Suc (openings s) else openings s)"
  by (simp_all add: openings_def)

lemma openings_drop: "openings (drop n s) \<le> openings s"
  by (induction s arbitrary: n) (auto simp: drop_Cons le_SucI split: nat.splits)

lemma openings_skip_ws: "openings (skip_ws s) \<le> openings s"
  by (induction s) auto

lemma openings_skip_Cons: "skip_ws s = d # r \<Longrightarrow> openings r \<le> openings s"
  using openings_skip_ws [of s] by (auto split: if_splits)

lemma openings_hex4: "hex4 s = Some (n, r) \<Longrightarrow> openings r \<le> openings s"
  by (auto simp: hex4_def split: list.splits option.splits)

lemma openings_unicode: "unicode_escape s = Some (w, r) \<Longrightarrow> openings r \<le> openings s"
  using openings_drop [of 2] by (fastforce simp: unicode_escape_def split: option.splits if_splits dest!: openings_hex4 intro: order_trans)

lemma openings_string: "scan_string s = Some (u, r) \<Longrightarrow> openings r \<le> openings s"
  by (induction s arbitrary: u r rule: scan_string.induct)
    (fastforce split: if_splits list.splits option.splits dest!: openings_unicode)+

lemma openings_digits: "span_digits s = (a, b) \<Longrightarrow> openings b \<le> openings s"
  by (induction s arbitrary: a b) (fastforce split: if_splits prod.splits)+

lemma openings_sign: "take_sign s = (b, r) \<Longrightarrow> openings r \<le> openings s"
  by (auto simp: take_sign_def split: list.splits if_splits)

lemma openings_exponent: "json_exponent s = (e, r) \<Longrightarrow> openings r \<le> openings s"
  by (fastforce simp: json_exponent_def Let_def split: list.splits if_splits prod.splits
      dest!: openings_digits openings_sign)

lemma openings_number: "scan_number s = Some (v, r) \<Longrightarrow> openings r \<le> openings s"
  by (fastforce simp: scan_number_def Let_def split: list.splits if_splits prod.splits
      dest!: openings_exponent openings_digits)

lemma openings_constant: "scan_constant s = Some (v, r) \<Longrightarrow> openings r \<le> openings s"
  using openings_drop [of _ s] by (auto simp: scan_constant_def split: option.splits)

text \<open>What a reader leaves has no more openings than it got, and running out needs more than its room.\<close>

definition forward :: "nat \<Rightarrow> string \<Rightarrow> ('a \<times> string) res \<Rightarrow> bool" where
  "forward room s r = (case r of Inl e \<Rightarrow> e \<noteq> recursion_error \<or> room < openings s | Inr (v, q) \<Rightarrow> openings q \<le> openings s)"

lemma forward_simps [simp]: "forward room s (Inl bad_json)"
  "forward room s (Inr (v, q)) = (openings q \<le> openings s)" "forward room s (Inl recursion_error) = (room < openings s)"
  by (auto simp: forward_def bad_json_def recursion_error_def)

lemma forward_mono: "forward room t r \<Longrightarrow> openings t \<le> openings s \<Longrightarrow> forward room s r"
  by (cases r) (auto simp: forward_def)

lemma forward_nested: "forward (room - 1) t r \<Longrightarrow> openings t \<le> openings s \<Longrightarrow> is_opening c \<Longrightarrow> forward room (c # s) r"
  by (cases r) (auto simp: forward_def)

lemma forward_map: "forward room s r \<Longrightarrow> forward room s (and_then r (\<lambda>(v, q). Inr (g v, q)))"
  by (cases r) (auto simp: forward_def)

lemma forward_if: "(b \<Longrightarrow> forward room s x) \<Longrightarrow> (\<not> b \<Longrightarrow> forward room s y) \<Longrightarrow> forward room s (if b then x else y)"
  by simp

text \<open>The reader moves on: to what follows the white space, the string or the value it has just read.\<close>

lemma forward_skip:
  assumes "openings r \<le> openings s"
    and "\<And>d t. skip_ws r = d # t \<Longrightarrow> openings t \<le> openings s \<Longrightarrow> openings (skip_ws t) \<le> openings s \<Longrightarrow> forward room s (f d t)"
  shows "forward room s (case skip_ws r of [] \<Rightarrow> Inl bad_json | d # t \<Rightarrow> f d t)"
proof (cases "skip_ws r")
  case (Cons d t)
  then show ?thesis
    using assms openings_skip_Cons [OF Cons] openings_skip_ws [of t] by simp
qed simp

lemma forward_string:
  assumes "openings t \<le> openings s"
    and "\<And>k r. scan_string t = Some (k, r) \<Longrightarrow> openings r \<le> openings s \<Longrightarrow> forward room s (f k r)"
  shows "forward room s (case scan_string t of None \<Rightarrow> Inl bad_json | Some (k, r) \<Rightarrow> f k r)"
  using assms order_trans [OF openings_string assms(1)] by (auto split: option.splits)

lemma forward_value:
  assumes "forward room s x"
    and "\<And>v q. x = Inr (v, q) \<Longrightarrow> openings q \<le> openings s \<Longrightarrow> forward room s (f v q)"
  shows "forward room s (and_then x (\<lambda>(v, q). f v q))"
  using assms by (cases x) (auto simp: forward_def)

lemma forward_read:
  assumes "\<And>ps. \<exists>v. h ps = Inr v"
  shows "forward room s (read_value room h s)"
    "forward room s (read_items room h s)"
    "forward room s (read_pairs room h s)"
  using assms
proof (induction room h s and room h s and room h s rule: read_value_read_items_read_pairs.induct)
  case (1 room h)
  show ?case by simp
next
  case (2 room h c s)
  have le: "openings s \<le> openings (c # s)" by simp
  have skipped: "openings (d # t) \<le> openings s" if "skip_ws s = d # t" for d t
    using openings_skip_ws [of s] that by simp
  have hooked: "forward room (c # s) (and_then (h ps) (\<lambda>v. Inr (v, q)))" if "openings q \<le> openings (c # s)" for ps q
    using "2.prems" [of ps] that by auto
  have scalar: "forward room (c # s) (case scan_constant (c # s) of Some (v, r) \<Rightarrow> Inr (v, r)
      | None \<Rightarrow> (case scan_number (c # s) of Some (v, r) \<Rightarrow> Inr (v, r) | None \<Rightarrow> Inl bad_json))"
    using openings_constant [of "c # s"] openings_number [of "c # s"] by (auto split: option.splits simp del: openings_simps)
  consider "c = CHR 0x22" | "c = CHR ''[''" | "c = CHR ''{''" | "c \<noteq> CHR 0x22" "c \<noteq> CHR ''[''" "c \<noteq> CHR ''{''" by blast
  then show ?case
  proof cases
    case 1
    have "forward room (c # s) (case scan_string s of None \<Rightarrow> Inl bad_json | Some (u, r) \<Rightarrow> Inr (VStr u, r))"
      by (rule forward_string [OF le]) simp
    with 1 show ?thesis by simp
  next
    case 2
    have "forward room (c # s) (case skip_ws s of d # r \<Rightarrow> if d = CHR '']'' then Inr (VList [], r)
        else and_then (read_items (room - 1) h (d # r)) (\<lambda>(xs, q). Inr (VList xs, q)) | [] \<Rightarrow> Inl bad_json)"
      if "room \<noteq> 0"
      by (rule forward_skip [OF le])
        (use 2 "2.IH"(1) "2.prems" skipped that in \<open>auto simp: is_opening_def intro!: forward_map intro: forward_nested\<close>)
    with 2 show ?thesis by (simp add: is_opening_def)
  next
    case 3
    have "forward room (c # s) (case skip_ws s of d # r \<Rightarrow> if d = CHR ''}'' then and_then (h []) (\<lambda>v. Inr (v, r))
        else and_then (read_pairs (room - 1) h (d # r)) (\<lambda>(ps, q). and_then (h ps) (\<lambda>v. Inr (v, q))) | [] \<Rightarrow> Inl bad_json)"
      if "room \<noteq> 0"
    proof (rule forward_skip [OF le], rule forward_if)
      fix d t assume dt: "skip_ws s = d # t" "openings t \<le> openings (c # s)"
      then show "forward room (c # s) (and_then (h []) (\<lambda>v. Inr (v, t)))" by (intro hooked)
      assume "d \<noteq> CHR ''}''"
      then have "forward room (c # s) (read_pairs (room - 1) h (d # t))"
        using 3 dt(1) "2.IH"(2) "2.prems" skipped that by (intro forward_nested) (auto simp: is_opening_def)
      then show "forward room (c # s) (and_then (read_pairs (room - 1) h (d # t)) (\<lambda>(ps, q). and_then (h ps) (\<lambda>v. Inr (v, q))))"
        by (intro forward_value hooked)
    qed
    with 3 show ?thesis by (simp add: is_opening_def)
  qed (use scalar in simp)
next
  case (3 room h s)
  show ?case unfolding read_items.simps [of room h s]
    by (rule forward_value [OF "3.IH"(1) [OF "3.prems"]], rule forward_skip)
      (use "3.IH"(2) "3.prems" in \<open>auto intro!: forward_map intro: forward_mono\<close>)
next
  case (4 room h s)
  show ?case
  proof (cases s)
    case (Cons c t)
    have le: "openings t \<le> openings s" using Cons by simp
    have v: "forward room (skip_ws r1) (read_value room h (skip_ws r1))"
      if "c = CHR 0x22" "scan_string t = Some (k, r)" "skip_ws r = CHR '':'' # r1" for k r r1
      using "4.IH"(1) Cons "4.prems" that by simp
    have ps: "forward room (skip_ws r3) (read_pairs room h (skip_ws r3))"
      if "c = CHR 0x22" "scan_string t = Some (k, r)" "skip_ws r = CHR '':'' # r1"
        "skip_ws r2 = CHR '','' # r3" "length r2 < length s" for k r r1 r2 r3
      using "4.IH"(2) Cons "4.prems" that by simp
    show ?thesis unfolding read_pairs.simps [of room h s] unfolding Cons list.case unfolding Cons [symmetric]
      by (intro forward_if forward_string [OF le] forward_skip forward_value)
        (auto intro: forward_mono [OF v] forward_mono [OF ps])
  qed (simp add: read_pairs.simps [of room h "[]"])
qed

lemma loads_runs_out: "runs_out (loads_within room h s) (json_loads h s)"
  unfolding loads_within_def json_loads_def
  by (intro runs_out_if runs_out_and_then runs_out_scan runs_out_prod runs_out_refl)

lemma loads_forward: "loads_within room dict_hook s = Inl recursion_error \<Longrightarrow> room < openings s"
proof -
  assume "loads_within room dict_hook s = Inl recursion_error"
  then have "read_value room dict_hook (skip_ws s) = Inl recursion_error"
    by (auto simp: loads_within_def and_then_Inl_iff bad_json_def recursion_error_def split: if_splits)
  then show "room < openings s"
    using forward_read(1) [of dict_hook room "skip_ws s"] openings_skip_ws [of s] by (simp add: dict_hook_def)
qed

lemma skip_bracket [simp]: "skip_ws (CHR ''['' # s) = CHR ''['' # s"
proof -
  have "code CHR ''['' = 91" by code_simp
  then show ?thesis by simp
qed

lemma read_too_deep: "read_value room h (replicate (Suc room) CHR ''['') = Inl recursion_error"
  by (induction room) (simp_all add: read_items.simps del: skip_ws.simps)

lemma loads_too_deep: "loads_within room h (replicate (Suc room) CHR ''['') = Inl recursion_error"
  using read_too_deep [of room h] by (simp add: loads_within_def starts_with_def del: skip_ws.simps read_value.simps)

section \<open>The harness\<close>

definition value_error :: "exn \<Rightarrow> bool" where
  "value_error e = (case e of ValueError m \<Rightarrow> True | _ \<Rightarrow> False)"

definition present :: "pyfloat option \<Rightarrow> bool" where
  "present v = (case v of None \<Rightarrow> False | Some x \<Rightarrow> is_finite x)"

definition ready_oracle :: "battery_data \<Rightarrow> bool" where
  "ready_oracle b = (is_valid (Fin 10000) b
     \<and> (case soc b of None \<Rightarrow> False | Some s \<Rightarrow> fle (Fin 0) s \<and> fle s (Fin 100))
     \<and> list_all present ([voltage b, current b, soc b] @ map Some (dict_vals (cells b)))
     \<and> fle (last_update b) (Fin 10000))"

definition waiting_oracle :: "battery_data \<Rightarrow> bool" where
  "waiting_oracle b = (\<not> is_valid (Fin 10000) b \<and> last_update b = Fin 0)"

text \<open>
  \<open>telemetry.decode_header\<close> as the harness meets it: \<open>json.loads\<close> comes first and may run out of room;
  otherwise it reads the document the rest of the header checks.
\<close>

definition decode_header_within :: "nat \<Rightarrow> string \<Rightarrow> (pyobj \<times> string \<times> int) res" where
  "decode_header_within room payload =
     and_then (loads_within room dict_hook payload) (\<lambda>_. Telemetry.decode_header payload)"

text \<open>The text is the input decoded with replacements; a \<open>ValueError\<close> ends the test, any other is a crash.\<close>

definition test_one_input :: "nat \<Rightarrow> string \<Rightarrow> bool" where
  "test_one_input room payload = (case and_then (decode_header_within room payload) (\<lambda>(frame, boot, sq).
       and_then (Telemetry.decode_batteries (Fin 10000) frame 1 1 4 (Fin 10000)) (\<lambda>bats. Inr (frame, boot, sq, bats))) of
     Inl e \<Rightarrow> value_error e
   | Inr (frame, boot, sq, bats) \<Rightarrow> boot \<noteq> [] \<and> 0 \<le> sq \<and> set (dict_keys bats) = {1}
       \<and> (case map_of bats 1 of None \<Rightarrow> False
          | Some b \<Rightarrow> if frame_ready frame then ready_oracle b else waiting_oracle b))"

section \<open>Only value errors\<close>

definition refuses :: "'a res \<Rightarrow> bool" where
  "refuses r \<longleftrightarrow> (\<forall>e. r = Inl e \<longrightarrow> value_error e)"

named_theorems refuse_rules \<open>results whose error is a value error\<close>

lemma refuses_simps [refuse_rules]: "refuses (Inr x)" "refuses (Inl (ValueError m))" "refuses (Inl bad_json)"
  by (simp_all add: refuses_def value_error_def bad_json_def)

lemma refuses_and_then [refuse_rules]: "refuses r \<Longrightarrow> (\<And>x. r = Inr x \<Longrightarrow> refuses (f x)) \<Longrightarrow> refuses (and_then r f)"
  by (cases r) (auto simp: refuses_def)

lemma refuses_foldM [refuse_rules]: "(\<And>x s. x \<in> set xs \<Longrightarrow> refuses (f x s)) \<Longrightarrow> refuses (foldM f xs s)"
  by (induction xs arbitrary: s) (simp_all add: refuse_rules)

lemma refuses_if [refuse_rules]: "(b \<Longrightarrow> refuses r) \<Longrightarrow> (\<not> b \<Longrightarrow> refuses s) \<Longrightarrow> refuses (if b then r else s)"
  by simp

lemma refuses_option [refuse_rules]:
  "(x = None \<Longrightarrow> refuses a) \<Longrightarrow> (\<And>y. x = Some y \<Longrightarrow> refuses (f y)) \<Longrightarrow> refuses (case x of None \<Rightarrow> a | Some y \<Rightarrow> f y)"
  by (cases x) simp_all

lemma refuses_list [refuse_rules]:
  "(x = [] \<Longrightarrow> refuses a) \<Longrightarrow> (\<And>y ys. x = y # ys \<Longrightarrow> refuses (f y ys)) \<Longrightarrow> refuses (case x of [] \<Rightarrow> a | y # ys \<Rightarrow> f y ys)"
  by (cases x) simp_all

lemma refuses_prod [refuse_rules]: "(\<And>y z. x = (y, z) \<Longrightarrow> refuses (f y z)) \<Longrightarrow> refuses (case x of (y, z) \<Rightarrow> f y z)"
  by (cases x) simp

lemma scan_refuses:
  assumes "\<And>ps. refuses (h ps)"
  shows "refuses (scan_value h s)" and "refuses (scan_items h s)" and "refuses (scan_pairs h s)"
  using assms
proof (induction h s and h s and h s rule: scan_value_scan_items_scan_pairs.induct)
  case (1 h)
  show ?case by (simp add: refuse_rules)
next
  case (2 h c s)
  show ?case unfolding scan_value.simps by (intro refuse_rules 2) simp_all
next
  case (3 h s)
  show ?case unfolding scan_items.simps [of h s] by (intro refuse_rules 3) simp_all
next
  case (4 h s)
  show ?case unfolding scan_pairs.simps [of h s] by (intro refuse_rules 4) simp_all
qed

lemma loads_refuses: "refuses (json_loads dict_hook s)"
proof -
  have "refuses (scan_value dict_hook r)" for r by (rule scan_refuses) (simp add: dict_hook_def refuse_rules)
  then show ?thesis by (auto simp: json_loads_def intro!: refuse_rules)
qed

lemma header_refuses: "refuses (Telemetry.decode_header s)"
  unfolding Telemetry.decode_header_def
  by (auto simp: refuse_rules split: pyval.splits option.splits intro!: refuse_rules loads_refuses)

lemma number_refuses [refuse_rules]: "refuses (number v k)" "refuses (row_number row k)"
  by (auto simp: row_number_def number_def refuse_rules split: option.splits sum.splits)

lemma seconds_refuses [refuse_rules]: "refuses (seconds_of ms)"
  by (cases ms) (auto simp: seconds_of_def refuse_rules)

lemma evidence_refuses [refuse_rules]: "refuses (complete_evidence row n)"
  by (auto simp: complete_evidence_def refuse_rules split: pyval.splits intro!: refuse_rules)

lemma measurements_refuse [refuse_rules]: "refuses (update_measurements clk row cs b)"
  unfolding update_measurements_def put_temperatures_def put_number_def Telemetry.put_cell_def
  by (auto simp: refuse_rules split: pyval.splits intro!: refuse_rules)

lemma row_refuses [refuse_rules]: "refuses (decode_complete_row clk row b n now)"
  unfolding decode_complete_row_def put_status_def Let_def
  by (auto simp: refuse_rules split: pyval.splits intro!: refuse_rules)

lemma batteries_refuse: "refuses (Telemetry.decode_batteries clk frame count first n now)"
  unfolding Telemetry.decode_batteries_def Let_def decode_row_def
  by (auto simp: refuse_rules Let_def split: pyval.splits option.splits intro!: refuse_rules)

section \<open>What a ready frame decodes to\<close>

text \<open>A field that was set stays set: nothing in the decoder clears one.\<close>

lemma stored_current: "store_numeric k x b = Inr (b', r) \<Longrightarrow> current b \<noteq> None \<Longrightarrow> current b' \<noteq> None"
  unfolding store_numeric_def update_temperature_sensor_def update_cell_voltage_def Let_def
  by (auto simp: set_float_field_def split: if_splits)

definition has_current :: "battery_data \<Rightarrow> bool" where
  "has_current b = (current b \<noteq> None)"

lemma current_kept: "has_current b \<Longrightarrow> has_current (update clk k v b)"
  unfolding has_current_def by (cases clk k v b rule: update_cases) (auto dest: stored_current)

lemma current_set: "is_finite x \<Longrightarrow> has_current (update clk ''current'' (UNum x) b)"
  by (simp add: has_current_def update_def canonical_key_def bool_keys_def store_numeric_def starts_with_def float_keys_def set_float_field_def Let_def)

lemma number_finite: "row_number row k = Inr x \<Longrightarrow> is_finite x"
  by (auto simp: row_number_def number_def split: option.splits sum.splits if_splits)

lemma measured_current: "update_measurements clk row cs b = Inr b' \<Longrightarrow> has_current b'"
proof -
  assume "update_measurements clk row cs b = Inr b'"
  then obtain b1 b2 where s:
    "foldM (\<lambda>f. put_number clk f (row_number row f)) [''voltage'', ''current'', ''soc'', ''temperature''] b = Inr b1"
    "put_temperatures clk row b1 = Inr b2" "foldM (Telemetry.put_cell clk) (enum1 cs) b2 = Inr b'"
    by (auto simp: update_measurements_def)
  obtain v x y z where "is_finite x" "b1 = update clk ''temperature'' (UNum z) (update clk ''soc'' (UNum y)
      (update clk ''current'' (UNum x) (update clk ''voltage'' (UNum v) b)))"
    using s(1) by (auto simp: put_number_def dest: number_finite)
  then have "has_current b1" by (simp only: current_kept current_set )
  then have "has_current b2"
    using s(2) by (auto simp: put_temperatures_def split: pyval.splits if_splits
        elim!: foldM_invariant [where P = has_current] dest!: put_number_Inr intro: current_kept)
  with s(3) show ?thesis
    by (rule foldM_invariant) (auto dest!: put_cell_Inr intro: current_kept)
qed

lemma row_current:
  assumes "decode_complete_row clk row b n now = Inr b'"
  shows "has_current b'"
proof -
  obtain age cs b1 b2 where s: "update_measurements clk row cs b = Inr b1" "foldM (put_status clk row) status_fields b1 = Inr b2"
    and b': "b' = (mark_sample_time status_fields (fsub now age) (retime (fsub now age)
          (update_optional_fields clk row b2)))\<lparr>last_update := fsub now age\<rparr>"
    using assms by (auto simp: decode_complete_row_def Let_def split: if_splits)
  from s(2) have "current b2 = current b1" by (rule foldM_put_status) simp
  then have "has_current b2" using measured_current [OF s(1)] by (simp add: has_current_def)
  then have "has_current (update_optional_fields clk row b2)"
    by (rule update_optional_fields_keeps) (rule current_kept)
  then show ?thesis unfolding b' by (simp add: has_current_def mark_sample_time_def retime_def Let_def)
qed

lemma ready_passes:
  assumes "Telemetry.decode_batteries (Fin 10000) frame 1 1 4 (Fin 10000) = Inr bats" "frame_ready frame" "map_of bats 1 = Some b"
  shows "ready_oracle b"
proof -
  have clock: "clock (Fin 10000)" "\<bar>10000 :: rat\<bar> \<le> pow2 60"
    using is_dbl_of_int [of 10000] pow2_nat [of 60] by (simp_all add: clock_iff fmax_def pow2_nat)
  have wf: "battery_wf b"
    by (rule decode_batteries_wf(1) [OF assms(1,2) clock(1) _ assms(3)]) (rule clock_minus_age [OF clock(2)])
  have d: "decoded (Fin 10000) (Fin 10000) b" using decode_batteries_complete(2) [OF assms] by simp
  obtain rows seen where r: "foldM (decode_row (Fin 10000) 1 4 (Fin 10000)) rows (empty_slots 1 4, []) = Inr (bats, seen)"
    "int (length seen) = 1"
    using assms(1,2) by (auto simp: Telemetry.decode_batteries_def Let_def split: pyval.splits if_splits)
  then have len: "length seen = length (empty_slots 1 4)" by (simp add: empty_slots_def)
  have "has_current b"
    using complete_rows.loop_complete [OF r(1) len assms(3)] row_current by auto
  moreover have valid: "is_valid (Fin 10000) b" using d by (simp add: decoded_def)
  moreover have "fle (last_update b) (Fin 10000)"
  proof -
    obtain t where t: "sample b ''voltage'' = Some t" "fresh (Fin 10000) t"
      using valid_required [OF valid, of "''voltage''"] by (auto simp: required_fields_def)
    then have "last_update b = t" using d by (auto simp: decoded_def)
    moreover have "t = NInf \<or> clock t" using wf t(1) by (auto simp: battery_wf_def dest!: map_of_SomeD)
    ultimately show ?thesis using t(2) fresh_bounds(1) [of 10000] clock(1) by (auto simp: clock_iff)
  qed
  ultimately show ?thesis
    using wf by (auto simp: has_current_def ready_oracle_def is_valid_iff present_def positive_voltage_def soc_in_range_def battery_wf_def
      finite_opt_def list_all_iff dict_vals_def split: option.splits)
qed

lemma header_facts:
  assumes "Telemetry.decode_header payload = Inr (frame, boot, sq)"
  shows "boot \<noteq> [] \<and> 0 \<le> sq"
proof -
  obtain doc where doc: "json_loads dict_hook payload = Inr doc"
    using assms by (auto simp: Telemetry.decode_header_def)
  show ?thesis
    using assms doc by (cases doc) (auto simp: Telemetry.decode_header_def valid_boot_id_def py_len_def split: option.splits if_splits)
qed

lemma waiting_passes: "waiting_oracle (new_battery 1 4)"
  by code_simp

text \<open>A text the reader has room for: the harness sees the header the decoder gives.\<close>

lemma header_within:
  assumes "loads_within room dict_hook payload \<noteq> Inl recursion_error"
  shows "decode_header_within room payload = Telemetry.decode_header payload"
  using assms loads_runs_out [of room dict_hook payload]
  by (cases "json_loads dict_hook payload") (auto simp: decode_header_within_def Telemetry.decode_header_def runs_out_def)

lemma oracle_passes:
  assumes "loads_within room dict_hook payload \<noteq> Inl recursion_error"
  shows "test_one_input room payload"
proof (cases "Telemetry.decode_header payload")
  case (Inl e)
  then show ?thesis using header_refuses [of payload] by (simp add: test_one_input_def refuses_def header_within [OF assms])
next
  case (Inr p)
  note decoded_header = Inr
  obtain frame boot sq where p: "p = (frame, boot, sq)" by (cases p)
  have header: "boot \<noteq> []" "0 \<le> sq" using header_facts decoded_header p by auto
  show ?thesis
  proof (cases "Telemetry.decode_batteries (Fin 10000) frame 1 1 4 (Fin 10000)")
    case (Inl e)
    then show ?thesis using decoded_header p batteries_refuse [of "Fin 10000" frame 1 1 4 "Fin 10000"]
      by (simp add: test_one_input_def refuses_def header_within [OF assms])
  next
    case (Inr bats)
    note bats = Inr
    show ?thesis
    proof (cases "frame_ready frame")
      case True
      have keys: "dict_keys bats = [1..1]" by (rule decode_batteries_complete(1) [OF bats True])
      then obtain b where b: "map_of bats 1 = Some b" by (cases "map_of bats 1") (auto simp: map_of_eq_None_iff dict_keys_def)
      show ?thesis using decoded_header p bats header True keys b ready_passes [OF bats True b]
        by (simp add: test_one_input_def header_within [OF assms])
    next
      case False
      then have "bats = [(1, new_battery 1 4)]" using bats by (simp add: Telemetry.decode_batteries_def empty_slots_def Let_def)
      then show ?thesis using decoded_header p bats header False waiting_passes
        by (simp add: test_one_input_def dict_keys_def header_within [OF assms])
    qed
  qed
qed

lemma oracle_crashes: "loads_within room dict_hook payload = Inl recursion_error \<Longrightarrow> \<not> test_one_input room payload"
  by (simp add: test_one_input_def decode_header_within_def value_error_def recursion_error_def)

text \<open>C26: Which inputs refute the fuzzing oracle.  The test passes on a text exactly when \<open>json.loads\<close> does not
  run out of the \<open>room\<close> nested calls the recursion limit leaves: then the schema-1 decoder returns or raises a
  \<open>ValueError\<close>, a ready frame decodes to one valid battery with finite readings, a state of charge in range and
  a sample time no later than the clock, and a frame that is not ready to an empty one.  So it passes on every
  text with at most \<open>room\<close> opening brackets, and the \<open>RecursionError\<close> the harness does not catch fails it on
  a text of one bracket more.\<close>

theorem fuzz_oracle_holds:
  "test_one_input room payload = (loads_within room dict_hook payload \<noteq> Inl recursion_error)
   \<and> (room < openings payload \<or> test_one_input room payload)
   \<and> \<not> test_one_input room (replicate (Suc room) CHR ''['')"
  using oracle_passes [of room payload] oracle_crashes [of room payload] oracle_crashes [OF loads_too_deep, of room]
    loads_forward [of room payload] by blast

end
