(* ===== verification/Shlex.thy ===== *)
theory Shlex
  imports PyText
begin

text \<open>
  The part of the standard library's \<open>shlex\<close> the installer uses: quoting the words of a launcher and
  splitting a launcher's text into words (POSIX mode, no comments, split at white space only).  What
  is quoted and joined splits into the same words.
\<close>

definition apostrophe :: char where "apostrophe = CHR 0x27"
definition dquote :: char where "dquote = CHR 0x22"
definition backslash :: char where "backslash = CHR 0x5C"

section \<open>Quoting\<close>

text \<open>A word of letters, digits and these marks needs no quotes.\<close>

definition safe_char :: "char \<Rightarrow> bool" where
  "safe_char c \<longleftrightarrow> (let n = code c in (97 \<le> n \<and> n \<le> 122) \<or> (65 \<le> n \<and> n \<le> 90) \<or> (48 \<le> n \<and> n \<le> 57))
     \<or> c \<in> set ''_@%+=:,./-''"

definition shlex_quote :: "string \<Rightarrow> string" where
  "shlex_quote s = (if s = [] then [apostrophe, apostrophe]
     else if list_all safe_char s then s
     else apostrophe # concat (map (\<lambda>c. if c = apostrophe then [apostrophe, dquote, apostrophe, dquote, apostrophe] else [c]) s)
       @ [apostrophe])"

definition shlex_join :: "string list \<Rightarrow> string" where
  "shlex_join ws = join_with '' '' (map shlex_quote ws)"

section \<open>Splitting\<close>

definition shell_space :: "char \<Rightarrow> bool" where
  "shell_space c \<longleftrightarrow> c \<in> {CHR 0x20, CHR 0x09, CHR 0x0D, CHR 0x0A}"

text \<open>Between words, in a word, in quotes, after a backslash in a word or in quotes.\<close>

datatype lexer = LStart | LWord | LQuote char | LEscape "char option"

text \<open>The token read so far, and whether a part of it was quoted: an empty quoted word counts.\<close>

fun lex_go :: "lexer \<Rightarrow> string \<Rightarrow> bool \<Rightarrow> string \<Rightarrow> string list res" where
  "lex_go LStart tok quoted [] = Inr []"
| "lex_go LWord tok quoted [] = Inr (if tok = [] \<and> \<not> quoted then [] else [tok])"
| "lex_go (LQuote q) tok quoted [] = Inl (ValueError ''No closing quotation'')"
| "lex_go (LEscape e) tok quoted [] = Inl (ValueError ''No escaped character'')"
| "lex_go LStart tok quoted (c # cs) =
     (if shell_space c then lex_go LStart tok quoted cs
      else if c = backslash then lex_go (LEscape None) tok quoted cs
      else if c = apostrophe \<or> c = dquote then lex_go (LQuote c) tok quoted cs
      else lex_go LWord [c] quoted cs)"
| "lex_go LWord tok quoted (c # cs) =
     (if shell_space c then (if tok \<noteq> [] \<or> quoted
        then and_then (lex_go LStart [] False cs) (\<lambda>ws. Inr (tok # ws)) else lex_go LStart tok quoted cs)
      else if c = apostrophe \<or> c = dquote then lex_go (LQuote c) tok quoted cs
      else if c = backslash then lex_go (LEscape None) tok quoted cs
      else lex_go LWord (tok @ [c]) quoted cs)"
| "lex_go (LQuote q) tok quoted (c # cs) =
     (if c = q then lex_go LWord tok True cs
      else if c = backslash \<and> q = dquote then lex_go (LEscape (Some q)) tok True cs
      else lex_go (LQuote q) (tok @ [c]) True cs)"
| "lex_go (LEscape e) tok quoted (c # cs) =
     (case e of None \<Rightarrow> lex_go LWord (tok @ [c]) quoted cs
      | Some q \<Rightarrow> lex_go (LQuote q) (if c \<noteq> backslash \<and> c \<noteq> q then tok @ [backslash, c] else tok @ [c]) quoted cs)"

definition shlex_split :: "string \<Rightarrow> string list res" where
  "shlex_split s = lex_go LStart [] False s"

section \<open>What is joined splits again\<close>

lemma marks_distinct [simp]: "dquote \<noteq> apostrophe" "backslash \<noteq> apostrophe" "backslash \<noteq> dquote"
  "apostrophe \<noteq> dquote" "apostrophe \<noteq> backslash" "dquote \<noteq> backslash"
  "\<not> shell_space apostrophe" "\<not> shell_space dquote" "\<not> shell_space backslash" "shell_space (CHR 0x20)"
  by (simp_all add: dquote_def apostrophe_def backslash_def shell_space_def)

lemma safe_plain: "safe_char c \<Longrightarrow> \<not> shell_space c \<and> c \<noteq> apostrophe \<and> c \<noteq> dquote \<and> c \<noteq> backslash"
  by (auto simp: safe_char_def shell_space_def apostrophe_def dquote_def backslash_def code_def)

lemma lex_word: "list_all safe_char s \<Longrightarrow> lex_go LWord tok q (s @ r) = lex_go LWord (tok @ s) q r"
  by (induction s arbitrary: tok) (auto simp: safe_plain)

lemma lex_quoted:
  "lex_go (LQuote apostrophe) tok q (concat (map (\<lambda>c. if c = apostrophe then [apostrophe, dquote, apostrophe, dquote, apostrophe] else [c]) s)
     @ apostrophe # r) = lex_go LWord (tok @ s) True r"
  by (induction s arbitrary: tok q) auto

lemma lex_quote:
  "\<exists>tok q. (tok \<noteq> [] \<or> q) \<and> tok = s \<and> lex_go LStart [] False (shlex_quote s @ r) = lex_go LWord tok q r"
proof (cases "s = [] \<or> \<not> list_all safe_char s")
  case True
  then show ?thesis using lex_quoted [of "[]" False s r] by (auto simp: shlex_quote_def)
next
  case False
  then obtain c cs where s: "s = c # cs" "safe_char c" "list_all safe_char cs" by (cases s) auto
  then show ?thesis using lex_word [of cs "[c]" False r] safe_plain [OF s(2)] by (auto simp: shlex_quote_def)
qed

lemma split_join: "shlex_split (shlex_join ws) = Inr ws"
proof -
  have "lex_go LStart [] False (join_with '' '' (map shlex_quote ws)) = Inr ws"
  proof (induction ws rule: induct_list012)
    case (2 w)
    then show ?case using lex_quote [of w "[]"] by auto
  next
    case (3 w v ws)
    then show ?case using lex_quote [of w "CHR 0x20 # join_with '' '' (map shlex_quote (v # ws))"] by auto
  qed simp
  then show ?thesis by (simp add: shlex_split_def shlex_join_def)
qed

text \<open>Words between other words.\<close>

definition plain_word :: "string \<Rightarrow> bool" where
  "plain_word w \<longleftrightarrow> w \<noteq> [] \<and> list_all (\<lambda>c. \<not> shell_space c \<and> c \<noteq> apostrophe \<and> c \<noteq> dquote \<and> c \<noteq> backslash) w"

lemma lex_plain:
  "list_all (\<lambda>c. \<not> shell_space c \<and> c \<noteq> apostrophe \<and> c \<noteq> dquote \<and> c \<noteq> backslash) w \<Longrightarrow>
    lex_go LWord tok q (w @ r) = lex_go LWord (tok @ w) q r"
  by (induction w arbitrary: tok) auto

lemma lex_plain_word:
  assumes "plain_word w" "shell_space c"
  shows "lex_go LStart [] False (w @ c # r) = and_then (lex_go LStart [] False r) (\<lambda>ws. Inr (w # ws))"
proof -
  obtain x xs where w: "w = x # xs" using assms(1) by (cases w) (auto simp: plain_word_def)
  then show ?thesis using assms lex_plain [of xs "[x]" False "c # r"] by (auto simp: plain_word_def)
qed

lemma lex_quoted_word:
  assumes "shell_space c"
  shows "lex_go LStart [] False (shlex_quote s @ c # r) = and_then (lex_go LStart [] False r) (\<lambda>ws. Inr (s # ws))"
  using lex_quote [of s "c # r"] assms by auto

lemma lex_joined:
  "lex_go LStart [] False (shlex_join ws @ [CHR 0x0A]) = Inr ws"
proof -
  have nl: "shell_space (CHR 0x0A)" by (simp add: shell_space_def)
  have "lex_go LStart [] False (join_with '' '' (map shlex_quote ws) @ [CHR 0x0A]) = Inr ws"
  proof (induction ws rule: induct_list012)
    case 1
    then show ?case by (simp add: nl)
  next
    case (2 w)
    then show ?case using lex_quoted_word [OF nl, of w "[]"] by simp
  next
    case (3 w v ws)
    then show ?case
      using lex_quoted_word [of "CHR 0x20" w "join_with '' '' (map shlex_quote (v # ws)) @ [CHR 0x0A]"] by simp
  qed
  then show ?thesis by (simp add: shlex_join_def)
qed

end
