(* ===== verification/TopologyInstall.thy ===== *)
theory TopologyInstall
  imports Topology Shlex
begin

text \<open>
  \<open>dbus_mqtt_battery/topology_install.py\<close>: the plan that installs a managed chain as a supervised
  service, its application with rollback, and the retirement of a service.

  The file system is a list of absolute paths with their nodes; a path is the list of its
  components, a symbolic link stores its target, and only the last component of a path may be a
  link.  One write operation may fail (\<open>faults\<close> counts the operations before it), at any
  point; \<open>_atomic_text\<close> is one operation: its temporary file is gone whether it fails or not.
  Documents the installer writes with \<open>json.dumps\<close> and reads with \<open>json.loads\<close> are kept as values.
  SHA-256 is a parameter; the three readings of the manifest during a plan may differ.
\<close>

section \<open>The file system\<close>

type_synonym path = "string list"

datatype content = Text string | Document pyval

datatype node = File content int | Dir | Link path

record fs =
  nodes :: "(path \<times> node) list"
  faults :: "nat option"

text \<open>\<open>lstat\<close> and \<open>stat\<close>: the node at a path, and behind a link.\<close>

definition lnode :: "fs \<Rightarrow> path \<Rightarrow> node option" where
  "lnode s p = map_of (nodes s) p"

definition node_at :: "fs \<Rightarrow> path \<Rightarrow> node option" where
  "node_at s p = (case lnode s p of Some (Link t) \<Rightarrow> (case lnode s t of Some (Link u) \<Rightarrow> None | r \<Rightarrow> r) | r \<Rightarrow> r)"

definition is_symlink :: "fs \<Rightarrow> path \<Rightarrow> bool" where
  "is_symlink s p = (case lnode s p of Some (Link t) \<Rightarrow> True | _ \<Rightarrow> False)"

definition path_exists :: "fs \<Rightarrow> path \<Rightarrow> bool" where
  "path_exists s p = (node_at s p \<noteq> None)"

definition is_file :: "fs \<Rightarrow> path \<Rightarrow> bool" where
  "is_file s p = (case node_at s p of Some (File c m) \<Rightarrow> True | _ \<Rightarrow> False)"

definition is_dir :: "fs \<Rightarrow> path \<Rightarrow> bool" where
  "is_dir s p = (node_at s p = Some Dir)"

definition resolve :: "fs \<Rightarrow> path \<Rightarrow> path" where
  "resolve s p = (case lnode s p of Some (Link t) \<Rightarrow> t | _ \<Rightarrow> p)"

definition path_text :: "path \<Rightarrow> string" where
  "path_text p = concat (map (\<lambda>c. ''/'' @ c) p)"

definition read_content :: "fs \<Rightarrow> path \<Rightarrow> (content \<times> int) res" where
  "read_content s p = (case node_at s p of
     Some (File c m) \<Rightarrow> Inr (c, m)
   | Some Dir \<Rightarrow> Inl (OSError ''Is a directory'')
   | _ \<Rightarrow> Inl (OSError ''No such file or directory''))"

text \<open>Text mode: the bytes are UTF-8, and every line end becomes a line feed.\<close>

fun universal_newlines :: "string \<Rightarrow> string" where
  "universal_newlines [] = []"
| "universal_newlines [c] = [if c = CHR 0x0D then CHR 0x0A else c]"
| "universal_newlines (c # d # cs) =
     (if c = CHR 0x0D then CHR 0x0A # universal_newlines (if d = CHR 0x0A then cs else d # cs)
      else c # universal_newlines (d # cs))"

definition decode_content :: "content \<Rightarrow> content res" where
  "decode_content c = (case c of
     Text x \<Rightarrow> if utf8_valid x then Inr (Text (universal_newlines x)) else Inl (ValueError ''invalid start byte'')
   | Document v \<Rightarrow> Inr (Document v))"

definition read_text :: "fs \<Rightarrow> path \<Rightarrow> (content \<times> int) res" where
  "read_text s p = and_then (read_content s p) (\<lambda>(c, m). and_then (decode_content c) (\<lambda>t. Inr (t, m)))"

definition document_of :: "content \<Rightarrow> pyval res" where
  "document_of c = (case c of Text x \<Rightarrow> json_loads dict_hook x | Document v \<Rightarrow> Inr v)"

section \<open>Ownership\<close>

definition registry_path :: "path \<Rightarrow> path" where
  "registry_path package = package @ [''topology-services.json'']"

definition service_name_ok :: "string \<Rightarrow> bool" where
  "service_name_ok n = (starts_with ''dbus-mqtt-chain-'' n \<and> id_pattern (drop 16 n))"

definition registry :: "fs \<Rightarrow> path \<Rightarrow> pyobj res" where
  "registry s package = (let p = registry_path package in
     if is_symlink s p then Inl (ValueError ''topology ownership registry must not be a symlink'')
     else if \<not> path_exists s p then Inr []
     else and_then (and_then (read_text s p) (\<lambda>(c, m). document_of c)) (\<lambda>v. case v of
       VDict d \<Rightarrow> if \<not> eq_int (vget d ''config_version'') 1 then Inl (ValueError ''invalid topology ownership registry'')
         else (case vget d ''services'' of
           VDict services \<Rightarrow> if list_all (\<lambda>(n, x). service_name_ok n \<and> as_dict x \<noteq> None) services then Inr services
             else Inl (ValueError ''invalid owned topology service name'')
         | _ \<Rightarrow> Inl (ValueError ''invalid topology ownership registry''))
     | _ \<Rightarrow> Inl (ValueError ''invalid topology ownership registry'')))"

text \<open>\<open>tokens[tokens.index(flag) + 1]\<close>.\<close>

fun word_after :: "string \<Rightarrow> string list \<Rightarrow> string option" where
  "word_after flag [] = None"
| "word_after flag (w # ws) = (if w = flag then (case ws of [] \<Rightarrow> None | v # vs \<Rightarrow> Some v) else word_after flag ws)"

definition runner_identity :: "string \<Rightarrow> (string option \<times> int option) res" where
  "runner_identity text = and_then (shlex_split text) (\<lambda>tokens. Inr (word_after ''--service-suffix'' tokens,
     case word_after ''--instance'' tokens of None \<Rightarrow> None | Some w \<Rightarrow> int_of_str w))"

section \<open>Checking the paths\<close>

definition service_dir :: "path \<Rightarrow> string \<Rightarrow> path" where
  "service_dir package name = package @ [''service'', name]"

definition launcher_path :: "path \<Rightarrow> string \<Rightarrow> path" where
  "launcher_path package name = service_dir package name @ [''run'']"

definition log_launcher_path :: "path \<Rightarrow> string \<Rightarrow> path" where
  "log_launcher_path package name = service_dir package name @ [''log'', ''run'']"

definition marker_path :: "path \<Rightarrow> string \<Rightarrow> path" where
  "marker_path package name = service_dir package name @ [''.topology-ready'']"

definition log_dir :: "path \<Rightarrow> string \<Rightarrow> path" where
  "log_dir package name = service_dir package name @ [''log'']"

definition require_all :: "('a \<Rightarrow> bool) \<Rightarrow> ('a \<Rightarrow> string) \<Rightarrow> 'a list \<Rightarrow> unit res" where
  "require_all ok message xs = foldM (\<lambda>x u. check (ok x) (ValueError (message x))) xs ()"

definition check_name :: "fs \<Rightarrow> path \<Rightarrow> path \<Rightarrow> path \<Rightarrow> string \<Rightarrow> unit res" where
  "check_name s package service logs name =
     (let target = service_dir package name; link = service @ [name] in
      and_then (require_all (\<lambda>p. \<not> is_symlink s p) (\<lambda>p. ''refusing symlink in installation path: '' @ path_text p)
        [target, log_dir package name, launcher_path package name, log_launcher_path package name,
         marker_path package name, logs @ [name]]) (\<lambda>_.
      and_then (require_all (\<lambda>p. path_exists s p \<longrightarrow> is_file s p) (\<lambda>p. ''launcher path is not a regular file: '' @ path_text p)
        [launcher_path package name, log_launcher_path package name, marker_path package name]) (\<lambda>_.
      and_then (require_all (\<lambda>p. path_exists s p \<longrightarrow> is_dir s p) (\<lambda>p. ''service path is not a directory: '' @ path_text p)
        [target, log_dir package name, logs @ [name]]) (\<lambda>_.
      if is_symlink s link then check (resolve s link = resolve s target) (ValueError (''service link belongs to another installation: '' @ name))
      else check (\<not> path_exists s link) (ValueError (''refusing to replace a real supervised service directory: '' @ name))))))"

definition check_paths :: "fs \<Rightarrow> path \<Rightarrow> path \<Rightarrow> path \<Rightarrow> string list \<Rightarrow> unit res" where
  "check_paths s package service logs names =
     (if is_symlink s package \<or> is_symlink s (package @ [''service''])
      then Inl (ValueError ''package and persistent service roots must not be symlinks'')
      else foldM (\<lambda>n u. check_name s package service logs n) names ())"

section \<open>The plan\<close>

record service_plan =
  sp_name :: string
  sp_chain :: string
  sp_suffix :: string
  sp_instance :: int
  sp_cells :: "int list"
  sp_output :: string
  sp_charge_voltage :: "pyfloat option"
  sp_system_voltage :: "pyfloat option"
  sp_run :: string
  sp_log_run :: string

record install_plan =
  ip_manifest :: path
  ip_digest :: string
  ip_package :: path
  ip_service :: path
  ip_log :: path
  ip_services :: "service_plan list"
  ip_live_checked :: bool

definition newline :: string where "newline = [CHR 0x0A]"

definition service_argv :: "string \<Rightarrow> path \<Rightarrow> string \<Rightarrow> string list" where
  "service_argv broker manifest chain = [''python3'', ''dbus-mqtt-battery.py'', ''--broker'', broker,
     ''--topology'', path_text manifest, ''--chain'', chain]"

definition launcher :: "path \<Rightarrow> string list \<Rightarrow> string" where
  "launcher package argv = ''#!/bin/sh'' @ newline @ ''exec 2>&1'' @ newline @ ''cd '' @ shlex_quote (path_text package)
     @ '' || exit 1'' @ newline @ ''exec '' @ shlex_join argv @ newline"

definition log_launcher :: "path \<Rightarrow> string \<Rightarrow> string" where
  "log_launcher logs name = ''#!/bin/sh'' @ newline @ ''exec 2>&1'' @ newline @ ''exec ''
     @ shlex_join [''multilog'', ''t'', ''s25000'', ''n4'', path_text (logs @ [name])] @ newline"

definition service_name :: "chain_topology \<Rightarrow> string" where
  "service_name c = ''dbus-mqtt-chain-'' @ chain_id c"

definition plan_service :: "path \<Rightarrow> path \<Rightarrow> string \<Rightarrow> path \<Rightarrow> chain_topology \<Rightarrow> service_plan res" where
  "plan_service package logs broker manifest c =
     and_then (case protection_profile c of None \<Rightarrow> Inr None
       | Some p \<Rightarrow> and_then (of_pyint (total_cells c)) (\<lambda>n. Inr (Some (fmul (cell_max_voltage p) n)))) (\<lambda>volts.
     Inr \<lparr>sp_name = service_name c, sp_chain = chain_id c, sp_suffix = service_suffix c, sp_instance = device_instance c,
       sp_cells = map member_cells (members c), sp_output = chain_output c, sp_charge_voltage = volts,
       sp_system_voltage = system_voltage_limit c,
       sp_run = launcher package (service_argv broker manifest (chain_id c)),
       sp_log_run = log_launcher logs (service_name c)\<rparr>)"

text \<open>The launchers below \<open>service/*/run\<close>, by the name of their directory.\<close>

definition runner_names :: "fs \<Rightarrow> path \<Rightarrow> string list" where
  "runner_names s package = List.map_filter (\<lambda>(p, n). case drop (length package) p of
     [a, name, b] \<Rightarrow> if take (length package) p = package \<and> a = ''service'' \<and> b = ''run'' \<and> path_exists s p then Some name else None | _ \<Rightarrow> None) (nodes s)"

definition runner_conflict :: "service_plan list \<Rightarrow> string \<Rightarrow> string option \<times> int option \<Rightarrow> bool" where
  "runner_conflict services name ident = list_ex (\<lambda>sp. name = sp_name sp \<or> fst ident = Some (sp_suffix sp)
     \<or> snd ident = Some (sp_instance sp)) services"

definition check_runner :: "fs \<Rightarrow> path \<Rightarrow> pyobj \<Rightarrow> service_plan list \<Rightarrow> string \<Rightarrow> unit res" where
  "check_runner s package owned services name =
     (if has_key owned name then Inr ()
      else and_then (read_text s (launcher_path package name)) (\<lambda>(c, m).
        and_then (case c of Text x \<Rightarrow> runner_identity x | Document v \<Rightarrow> Inr (None, None)) (\<lambda>ident.
        check (\<not> runner_conflict services name ident) (ValueError (''identity conflicts with existing unowned service '' @ name)))))"

definition same_owned :: "pyobj \<Rightarrow> service_plan \<Rightarrow> string \<times> int \<Rightarrow> bool" where
  "same_owned owned sp live = (case vget owned (sp_name sp) of
     VDict owner \<Rightarrow> vget owner ''service_suffix'' = VStr (fst live) \<and> fst live = sp_suffix sp
       \<and> eq_int (vget owner ''device_instance'') (snd live) \<and> snd live = sp_instance sp
   | _ \<Rightarrow> False)"

definition live_conflict :: "pyobj \<Rightarrow> service_plan list \<Rightarrow> string \<times> int \<Rightarrow> bool" where
  "live_conflict owned services live = list_ex (\<lambda>sp. (fst live = sp_suffix sp \<or> snd live = sp_instance sp)
     \<and> \<not> same_owned owned sp live) services"

text \<open>What the plan reads beside the file system: the broker option and the manifest three times.\<close>

record plan_input =
  pi_package :: path
  pi_service :: path
  pi_log :: path
  pi_options :: path
  pi_first :: "string res"
  pi_second :: "string res"
  pi_third :: "string res"

definition broker_of :: "fs \<Rightarrow> path \<Rightarrow> string res" where
  "broker_of s options = (let p = options @ [''broker''] in
     and_then (if path_exists s p then and_then (read_text s p) (\<lambda>(c, m). case c of Text x \<Rightarrow> Inr (py_strip x) | Document v \<Rightarrow> Inr [])
       else Inr ''127.0.0.1'') (\<lambda>b.
     and_then (check (b \<noteq> [] \<and> CHR 0x0A \<notin> set b \<and> CHR 0x00 \<notin> set b) (ValueError ''broker must be one nonempty value'')) (\<lambda>_. Inr b)))"

definition build_plan :: "(string \<Rightarrow> string) \<Rightarrow> (string \<Rightarrow> bool) \<Rightarrow> fs \<Rightarrow> plan_input \<Rightarrow> path \<Rightarrow> (string \<times> int) list option \<Rightarrow> install_plan res" where
  "build_plan sha uni s inp manifest live =
     (let package = pi_package inp in
      if is_symlink s manifest \<or> \<not> is_file s manifest
      then Inl (ValueError ''topologyFile must name an absolute regular file, not a symlink'')
      else if take (length (resolve s package)) manifest = resolve s package
      then Inl (ValueError ''keep topology configuration outside the overlaid package directory'')
      else and_then (pi_first inp) (\<lambda>first. and_then (load_manifest uni (pi_second inp)) (\<lambda>chains.
        and_then (pi_third inp) (\<lambda>third.
        and_then (check (sha third = sha first) (ValueError ''topology changed during validation'')) (\<lambda>_.
        and_then (registry s package) (\<lambda>owned. and_then (broker_of s (pi_options inp)) (\<lambda>broker.
        and_then (mapM (plan_service package (pi_log inp) broker manifest) chains) (\<lambda>services.
        let names = map sp_name services in
        and_then (check (set (dict_keys owned) \<subseteq> set names) (ValueError ''explicitly retire removed topology services before applying'')) (\<lambda>_.
        and_then (check_paths s package (pi_service inp) (pi_log inp) names) (\<lambda>_.
        and_then (foldM (\<lambda>n u. check_runner s package owned services n) (runner_names s package) ()) (\<lambda>_.
        and_then (case live of None \<Rightarrow> Inr () | Some ls \<Rightarrow> foldM (\<lambda>l u. check (\<not> live_conflict owned services l)
            (ValueError (''identity conflicts with live battery service '' @ fst l))) ls ()) (\<lambda>_.
        Inr \<lparr>ip_manifest = manifest, ip_digest = sha first, ip_package = package, ip_service = pi_service inp,
          ip_log = pi_log inp, ip_services = services, ip_live_checked = (live \<noteq> None)\<rparr>))))))))))))"

section \<open>Write operations\<close>

text \<open>A file operation: the exception it ends with, if any, and the file system after it.\<close>

type_synonym operation = "fs \<Rightarrow> exn option \<times> fs"

definition io_error :: exn where
  "io_error = OSError ''Input/output error''"

definition write_op :: "((path \<times> node) list \<Rightarrow> (path \<times> node) list) \<Rightarrow> operation" where
  "write_op f s = (case faults s of
     Some 0 \<Rightarrow> (Some io_error, s\<lparr>faults := None\<rparr>)
   | Some (Suc n) \<Rightarrow> (None, s\<lparr>nodes := f (nodes s), faults := Some n\<rparr>)
   | None \<Rightarrow> (None, s\<lparr>nodes := f (nodes s)\<rparr>))"

definition remove_node :: "path \<Rightarrow> (path \<times> node) list \<Rightarrow> (path \<times> node) list" where
  "remove_node p ns = filter (\<lambda>(q, n). q \<noteq> p) ns"

definition atomic_text :: "path \<Rightarrow> content \<Rightarrow> int \<Rightarrow> operation" where
  "atomic_text p c mode s = (if lnode s p = Some Dir then (Some (OSError ''Is a directory''), s)
     else write_op (dict_set p (File c mode)) s)"

definition unlink_missing_ok :: "path \<Rightarrow> operation" where
  "unlink_missing_ok p s = (case lnode s p of
     None \<Rightarrow> (None, s) | Some Dir \<Rightarrow> (Some (OSError ''Is a directory''), s) | _ \<Rightarrow> write_op (remove_node p) s)"

definition make_dir :: "path \<Rightarrow> operation" where
  "make_dir p s = (if lnode s p \<noteq> None then (Some (OSError ''File exists''), s) else write_op (dict_set p Dir) s)"

definition remove_dir :: "path \<Rightarrow> operation" where
  "remove_dir p s = (if lnode s p \<noteq> Some Dir then (Some (OSError ''Not a directory''), s)
     else if list_ex (\<lambda>(q, n). take (length p) q = p \<and> q \<noteq> p) (nodes s) then (Some (OSError ''Directory not empty''), s)
     else write_op (remove_node p) s)"

definition make_link :: "path \<Rightarrow> path \<Rightarrow> operation" where
  "make_link p t s = (if lnode s p \<noteq> None then (Some (OSError ''File exists''), s) else write_op (dict_set p (Link t)) s)"

text \<open>Moving a directory with all that is below it.\<close>

definition moved :: "path \<Rightarrow> path \<Rightarrow> path \<Rightarrow> path" where
  "moved source dest p = (if take (length source) p = source then dest @ drop (length source) p else p)"

definition rename_dir :: "path \<Rightarrow> path \<Rightarrow> operation" where
  "rename_dir source dest s = (if lnode s source = None then (Some (OSError ''No such file or directory''), s)
     else write_op (map (\<lambda>(q, n). (moved source dest q, n))) s)"

fun in_turn :: "operation list \<Rightarrow> operation" where
  "in_turn [] s = (None, s)"
| "in_turn (a # as) s = (case a s of (None, t) \<Rightarrow> in_turn as t | r \<Rightarrow> r)"

text \<open>The directories \<open>ensure_directory\<close> has to make, from the top, and \<open>mkdir\<close> with its parents.\<close>

fun missing_dirs :: "fs \<Rightarrow> path \<Rightarrow> nat \<Rightarrow> path list" where
  "missing_dirs s p 0 = []"
| "missing_dirs s p (Suc n) = (if path_exists s p then [] else missing_dirs s (butlast p) n @ [p])"

definition missing_at :: "fs \<Rightarrow> path \<Rightarrow> path list" where
  "missing_at s p = missing_dirs s p (length p)"

definition make_dirs :: "path \<Rightarrow> operation" where
  "make_dirs p s = (if path_exists s p \<and> \<not> is_dir s p then (Some (OSError ''File exists''), s)
     else in_turn (map make_dir (missing_at s p)) s)"

section \<open>Applying a plan\<close>

text \<open>The files in the order they are written, with the modes \<open>0o755\<close> and \<open>0o600\<close>.\<close>

definition plan_files :: "install_plan \<Rightarrow> (path \<times> content \<times> int) list" where
  "plan_files plan = concat (map (\<lambda>sp. [(launcher_path (ip_package plan) (sp_name sp), Text (sp_run sp), 493),
       (log_launcher_path (ip_package plan) (sp_name sp), Text (sp_log_run sp), 493)]) (ip_services plan))
   @ [(registry_path (ip_package plan), Document (VDict [(''config_version'', VInt 1),
        (''manifest'', VStr (path_text (ip_manifest plan))), (''manifest_sha256'', VStr (ip_digest plan)),
        (''services'', VDict (map (\<lambda>sp. (sp_name sp, VDict [(''chain_id'', VStr (sp_chain sp)),
          (''service_suffix'', VStr (sp_suffix sp)), (''device_instance'', VInt (sp_instance sp))])) (ip_services plan)))]), 384)]
   @ map (\<lambda>sp. (marker_path (ip_package plan) (sp_name sp), Text (ip_digest plan @ newline), 384)) (ip_services plan)"

text \<open>What the try block has done so far: the files it began to write, the links and the directories it made.\<close>

record progress =
  pr_fs :: fs
  pr_written :: "path list"
  pr_links :: "path list"
  pr_dirs :: "path list"

type_synonym step = "progress \<Rightarrow> exn option \<times> progress"

definition ensure_directory :: "path \<Rightarrow> step" where
  "ensure_directory p g = (let missing = missing_at (pr_fs g) p in case make_dirs p (pr_fs g) of
     (None, s) \<Rightarrow> (None, g\<lparr>pr_fs := s, pr_dirs := pr_dirs g @ missing\<rparr>)
   | (Some e, s) \<Rightarrow> (Some e, g\<lparr>pr_fs := s\<rparr>))"

definition write_file :: "path \<times> content \<times> int \<Rightarrow> step" where
  "write_file f g = (case f of (p, c, mode) \<Rightarrow> case ensure_directory (butlast p) g of
     (Some e, h) \<Rightarrow> (Some e, h)
   | (None, h) \<Rightarrow> (case atomic_text p c mode (pr_fs h) of
        (r, s) \<Rightarrow> (r, h\<lparr>pr_fs := s, pr_written := pr_written h @ [p]\<rparr>)))"

definition activate :: "install_plan \<Rightarrow> service_plan \<Rightarrow> step" where
  "activate plan sp g = (let link = ip_service plan @ [sp_name sp] in
     if is_symlink (pr_fs g) link then (None, g)
     else case make_link link (service_dir (ip_package plan) (sp_name sp)) (pr_fs g) of
       (None, s) \<Rightarrow> (None, g\<lparr>pr_fs := s, pr_links := pr_links g @ [link]\<rparr>)
     | (Some e, s) \<Rightarrow> (Some e, g\<lparr>pr_fs := s\<rparr>))"

fun steps :: "step list \<Rightarrow> step" where
  "steps [] g = (None, g)"
| "steps (a # as) g = (case a g of (None, h) \<Rightarrow> steps as h | r \<Rightarrow> r)"

definition install_steps :: "install_plan \<Rightarrow> step list" where
  "install_steps plan = ensure_directory (ip_service plan)
     # map (\<lambda>sp. ensure_directory (ip_log plan @ [sp_name sp])) (ip_services plan)
     @ map write_file (plan_files plan) @ map (activate plan) (ip_services plan)"

text \<open>The content of a file before the run, if it existed.\<close>

type_synonym backup = "path \<Rightarrow> (content \<times> int) option"

definition restore_file :: "backup \<Rightarrow> path \<Rightarrow> operation" where
  "restore_file previous p = (case previous p of None \<Rightarrow> unlink_missing_ok p | Some (c, mode) \<Rightarrow> atomic_text p c mode)"

definition roll_back :: "backup \<Rightarrow> progress \<Rightarrow> operation" where
  "roll_back previous g = in_turn (map (restore_file previous) (rev (pr_written g)) @ map remove_dir (rev (pr_dirs g)))"

definition interrupted :: exn where
  "interrupted = RuntimeError ''service activation interrupted after launchers completed; preserved state requires another preflight/apply''"

definition run_install :: "install_plan \<Rightarrow> backup \<Rightarrow> operation" where
  "run_install plan previous s =
     (case steps (install_steps plan) \<lparr>pr_fs = s, pr_written = [], pr_links = [], pr_dirs = []\<rparr> of
        (None, g) \<Rightarrow> (None, pr_fs g)
      | (Some e, g) \<Rightarrow> if pr_links g \<noteq> [] then (Some interrupted, pr_fs g)
          else (case roll_back previous g (pr_fs g) of (None, t) \<Rightarrow> (Some e, t) | (Some e', t) \<Rightarrow> (Some e', t)))"

definition previous_of :: "fs \<Rightarrow> path \<Rightarrow> (content \<times> int) option res" where
  "previous_of s p = (if path_exists s p then and_then (read_text s p) (\<lambda>x. Inr (Some x)) else Inr None)"

definition apply_plan :: "(string \<Rightarrow> string) \<Rightarrow> install_plan \<Rightarrow> string res \<Rightarrow> operation" where
  "apply_plan sha plan manifest s =
     (case and_then (check (list_all (\<lambda>sp. sp_output sp = ''managed'') (ip_services plan))
          (ValueError ''offline chains cannot be installed as supervised battery services'')) (\<lambda>_.
        and_then (check (ip_live_checked plan) (ValueError ''apply requires a successful live D-Bus identity check'')) (\<lambda>_.
        and_then manifest (\<lambda>content.
        and_then (check (sha content = ip_digest plan) (ValueError ''topology changed after preflight; build a new plan'')) (\<lambda>_.
        and_then (check_paths s (ip_package plan) (ip_service plan) (ip_log plan) (map sp_name (ip_services plan))) (\<lambda>_.
        mapM (\<lambda>f. and_then (previous_of s (fst f)) (\<lambda>x. Inr (fst f, x))) (plan_files plan)))))) of
      Inl e \<Rightarrow> (Some e, s)
    | Inr olds \<Rightarrow> run_install plan (\<lambda>p. case map_of olds p of Some x \<Rightarrow> x | None \<Rightarrow> None) s)"

section \<open>Retirement\<close>

text \<open>What opening the supervisor's control pipe for writing ends with: a missing pipe or one without a
  reader (\<open>ENXIO\<close>) is a stopped supervisor, an open one is a running supervisor.\<close>

datatype pipe = NoPipe | NoReader | HasReader | PipeError

definition require_stopped :: "fs \<Rightarrow> (path \<Rightarrow> pipe) \<Rightarrow> string \<Rightarrow> path \<Rightarrow> unit res" where
  "require_stopped s pipe_at name d = (let status = d @ [''status'']; ok = d @ [''ok''] in
     if is_symlink s d \<or> is_symlink s status \<or> is_symlink s ok
     then Inl (ValueError ''supervisor state must not be symlinked for retirement'')
     else and_then (if \<not> path_exists s status then Inr ()
         else and_then (read_content s status) (\<lambda>(c, m). case c of
           Text x \<Rightarrow> check (length x = 18 \<and> list_all (\<lambda>b. b = CHR 0x00) (take 4 (drop 12 x)))
             (ValueError (''service child is not confirmed stopped: '' @ name))
         | Document v \<Rightarrow> Inl (ValueError (''service child is not confirmed stopped: '' @ name)))) (\<lambda>_.
       case pipe_at ok of NoPipe \<Rightarrow> Inr () | NoReader \<Rightarrow> Inr () | PipeError \<Rightarrow> Inl io_error
       | HasReader \<Rightarrow> Inl (ValueError (''supervisor is still running: '' @ name))))"

definition require_quiescent :: "fs \<Rightarrow> (path \<Rightarrow> pipe) \<Rightarrow> path \<Rightarrow> string \<Rightarrow> unit res" where
  "require_quiescent s pipe_at package name =
     foldM (\<lambda>d u. require_stopped s pipe_at name d)
       [service_dir package name @ [''supervise''], service_dir package name @ [''log'', ''supervise'']] ()"

definition retired_dir :: "path \<Rightarrow> path" where
  "retired_dir package = package @ [''retired-topology'']"

definition retire_checks :: "fs \<Rightarrow> (path \<Rightarrow> pipe) \<Rightarrow> path \<Rightarrow> path \<Rightarrow> string \<Rightarrow> pyobj res" where
  "retire_checks s pipe_at package service chain =
     (let name = ''dbus-mqtt-chain-'' @ chain; target = service_dir package name; dest = retired_dir package @ [name] in
      and_then (check (id_pattern chain) (ValueError ''invalid chain id for retirement'')) (\<lambda>_.
      and_then (registry s package) (\<lambda>owned.
      and_then (check (has_key owned name) (ValueError ''retirement only accepts installer-owned topology services'')) (\<lambda>_.
      and_then (check (\<not> path_exists s (service @ [name]) \<and> \<not> is_symlink s (service @ [name]))
        (ValueError ''stop the main/log supervisors and unlink the service before retirement'')) (\<lambda>_.
      and_then (check (\<not> is_symlink s target \<and> is_dir s target \<and> \<not> is_symlink s (target @ [''log'']))
        (ValueError ''owned persistent service directory is missing or symlinked'')) (\<lambda>_.
      and_then (require_quiescent s pipe_at package name) (\<lambda>_.
      and_then (check (\<not> is_symlink s (retired_dir package) \<and> \<not> path_exists s dest \<and> \<not> is_symlink s dest)
        (ValueError ''retirement destination is symlinked or already contains recovery state'')) (\<lambda>_.
      Inr owned))))))))"

definition retire_dir_op :: "path \<Rightarrow> operation" where
  "retire_dir_op p s = (if is_dir s p then (None, s) else make_dir p s)"

definition retire_service :: "(path \<Rightarrow> pipe) \<Rightarrow> path \<Rightarrow> path \<Rightarrow> string \<Rightarrow> operation" where
  "retire_service pipe_at package service chain s =
     (let name = ''dbus-mqtt-chain-'' @ chain; target = service_dir package name; dest = retired_dir package @ [name] in
      case retire_checks s pipe_at package service chain of
        Inl e \<Rightarrow> (Some e, s)
      | Inr owned \<Rightarrow> (case in_turn [retire_dir_op (retired_dir package), rename_dir target dest] s of
          (Some e, t) \<Rightarrow> (Some e, t)
        | (None, t) \<Rightarrow>
           (case atomic_text (registry_path package) (Document (VDict [(''config_version'', VInt 1),
               (''services'', VDict (filter (\<lambda>(n, v). n \<noteq> name) owned))])) 384 t of
              (None, u) \<Rightarrow> (None, u)
            | (Some e, u) \<Rightarrow> (case rename_dir dest target u of (None, v) \<Rightarrow> (Some e, v) | (Some e', v) \<Rightarrow> (Some e', v)))))"

definition require_no_owned_services :: "fs \<Rightarrow> path \<Rightarrow> unit res" where
  "require_no_owned_services s package = and_then (registry s package) (\<lambda>owned.
     check (owned = []) (ValueError ''explicitly retire every topology service with --retire before uninstall''))"

section \<open>The command\<close>

record install_args =
  ia_manifest :: "path option"
  ia_check_live :: bool
  ia_apply :: bool
  ia_retire :: "string option"
  ia_check_uninstall :: bool

text \<open>What the command meets: the manifest's readings, the live identities, the supervisors.\<close>

record install_world =
  iw_sha :: "string \<Rightarrow> string"
  iw_uni :: "string \<Rightarrow> bool"
  iw_input :: plan_input
  iw_live :: "(string \<times> int) list res"
  iw_last :: "string res"
  iw_pipes :: "path \<Rightarrow> pipe"

text \<open>\<open>args.retire\<close> counts when it is not empty.\<close>

definition retire_arg :: "install_args \<Rightarrow> string option" where
  "retire_arg a = (case ia_retire a of Some [] \<Rightarrow> None | r \<Rightarrow> r)"

definition install_main :: "install_world \<Rightarrow> install_args \<Rightarrow> operation" where
  "install_main w a s =
     (if retire_arg a \<noteq> None \<or> ia_check_uninstall a
      then if ia_manifest a \<noteq> None \<or> ia_apply a \<or> ia_check_live a \<or> (retire_arg a \<noteq> None \<and> ia_check_uninstall a)
        then (Some (ValueError ''retirement/uninstall check must be used alone''), s)
        else (case retire_arg a of
            Some chain \<Rightarrow> retire_service (iw_pipes w) (pi_package (iw_input w)) (pi_service (iw_input w)) chain s
          | None \<Rightarrow> (case require_no_owned_services s (pi_package (iw_input w)) of Inl e \<Rightarrow> (Some e, s) | Inr u \<Rightarrow> (None, s)))
      else case ia_manifest a of
        None \<Rightarrow> (Some (ValueError ''a manifest is required for preflight/apply''), s)
      | Some manifest \<Rightarrow>
          (case and_then (if ia_check_live a \<or> ia_apply a then and_then (iw_live w) (\<lambda>ls. Inr (Some ls)) else Inr None)
              (\<lambda>live. build_plan (iw_sha w) (iw_uni w) s (iw_input w) manifest live) of
            Inl e \<Rightarrow> (Some e, s)
          | Inr plan \<Rightarrow> if ia_apply a then apply_plan (iw_sha w) plan (iw_last w) s else (None, s)))"

end
