(* ===== verification/InstallRollback.thy ===== *)
theory InstallRollback
  imports TopologyInstall
begin

text \<open>
  Installation is all or nothing: the write operations change a file system in known ways, the steps
  of an installation keep the state before it recoverable, and the roll back recovers it.
\<close>

section \<open>Write operations\<close>

lemma write_op_cases:
  assumes "write_op f s = (r, t)"
  obtains (fails) "r = Some io_error" "nodes t = nodes s" "faults t = None"
  | (works) "r = None" "nodes t = f (nodes s)"
  using assms by (auto simp: write_op_def split: option.splits nat.splits)

lemma write_op_unfaulted: "faults s = None \<Longrightarrow> write_op f s = (None, s\<lparr>nodes := f (nodes s)\<rparr>)"
  by (simp add: write_op_def)

lemma map_of_remove_node: "map_of (remove_node p ns) q = (if q = p then None else map_of ns q)"
  unfolding remove_node_def by (induction ns) auto

text \<open>What an operation adds: a node \<open>n\<close> at a path where nothing was; nothing else.\<close>

definition adds :: "path set \<Rightarrow> (node \<Rightarrow> bool) \<Rightarrow> fs \<Rightarrow> fs \<Rightarrow> bool" where
  "adds P ok s t \<longleftrightarrow> (\<forall>p. lnode t p = lnode s p \<or> (lnode s p = None \<and> p \<in> P \<and> (\<exists>n. lnode t p = Some n \<and> ok n)))"

lemma adds_refl: "adds P ok s s"
  by (simp add: adds_def)

lemma adds_same: "nodes t = nodes s \<Longrightarrow> adds P ok s t"
  by (simp add: adds_def lnode_def)

lemma adds_trans: "adds P ok s t \<Longrightarrow> adds P ok t u \<Longrightarrow> adds P ok s u"
  unfolding adds_def by metis

lemma adds_mono: "adds P ok s t \<Longrightarrow> P \<subseteq> Q \<Longrightarrow> adds Q ok s t"
  unfolding adds_def by blast

lemma adds_kept: "adds P ok s t \<Longrightarrow> lnode s p = Some n \<Longrightarrow> lnode t p = Some n"
  unfolding adds_def by (metis option.discI)

lemma make_dir_adds: "make_dir p s = (r, t) \<Longrightarrow> adds {p} (\<lambda>n. n = Dir) s t"
  by (auto simp: make_dir_def adds_refl split: if_splits elim!: write_op_cases intro: adds_same)
    (auto simp: adds_def lnode_def)

lemma make_link_adds: "make_link p q s = (r, t) \<Longrightarrow> adds {p} (\<lambda>n. n = Link q) s t"
  by (auto simp: make_link_def adds_refl split: if_splits elim!: write_op_cases intro: adds_same)
    (auto simp: adds_def lnode_def)

lemma make_all_adds: "in_turn (map make_dir qs) s = (r, t) \<Longrightarrow> adds (set qs) (\<lambda>n. n = Dir) s t"
proof (induction qs arbitrary: s)
  case (Cons q qs)
  obtain r' u where u: "make_dir q s = (r', u)" by fastforce
  have step: "adds (set (q # qs)) (\<lambda>n. n = Dir) s u" by (rule adds_mono [OF make_dir_adds [OF u]]) simp
  show ?case
  proof (cases r')
    case None
    then have "in_turn (map make_dir qs) u = (r, t)" using Cons.prems u by simp
    from adds_mono [OF Cons.IH [OF this], of "set (q # qs)"] step show ?thesis by (auto intro: adds_trans)
  next
    case (Some e)
    then show ?thesis using Cons.prems u step by simp
  qed
qed (simp add: adds_refl)

section \<open>Making directories\<close>

definition prefixes :: "path \<Rightarrow> path list" where
  "prefixes p = map (\<lambda>n. take n p) [0..<Suc (length p)]"

lemma in_prefixes: "q \<in> set (prefixes p) \<longleftrightarrow> (\<exists>n \<le> length p. q = take n p)"
  unfolding prefixes_def by (auto simp: image_iff simp del: upt_Suc) (metis less_Suc_eq_le atLeastLessThan_iff)+

lemma prefixes_length: "q \<in> set (prefixes p) \<Longrightarrow> length q \<le> length p"
  by (auto simp: in_prefixes)

lemma prefixes_self: "p \<in> set (prefixes p)"
  by (auto simp: in_prefixes)

lemma prefixes_butlast: "set (prefixes (butlast p)) \<subseteq> set (prefixes p)"
proof
  fix q
  assume "q \<in> set (prefixes (butlast p))"
  then obtain n where "n \<le> length p - 1" "q = take n (take (length p - 1) p)"
    by (auto simp: in_prefixes butlast_conv_take)
  then have "q = take n p \<and> n \<le> length p" by auto
  then show "q \<in> set (prefixes p)" by (auto simp: in_prefixes)
qed

lemma missing_dirs_prefix: "q \<in> set (missing_dirs s p n) \<Longrightarrow> q \<in> set (prefixes p) \<and> \<not> path_exists s q"
proof (induction n arbitrary: p)
  case (Suc n)
  then show ?case using prefixes_self [of p] prefixes_butlast [of p] by (auto split: if_splits)
qed simp

lemma missing_dirs_distinct: "n \<le> length p \<Longrightarrow> distinct (missing_dirs s p n)"
proof (induction n arbitrary: p)
  case (Suc n)
  then have "p \<notin> set (prefixes (butlast p))" using prefixes_length [of p "butlast p"] by auto
  then have "p \<notin> set (missing_dirs s (butlast p) n)" using missing_dirs_prefix by blast
  then show ?case using Suc by simp
qed simp

text \<open>A directory can be made: each of its prefixes is free or a directory.\<close>

definition clear :: "fs \<Rightarrow> path \<Rightarrow> bool" where
  "clear s p = list_all (\<lambda>q. lnode s q = None \<or> is_dir s q) (prefixes p)"

lemma make_all_fails:
  "distinct qs \<Longrightarrow> \<forall>q \<in> set qs. lnode s q = None \<Longrightarrow> in_turn (map make_dir qs) s = (Some e, t) \<Longrightarrow> faults t = None"
proof (induction qs arbitrary: s)
  case (Cons q qs)
  obtain r u where u: "make_dir q s = (r, u)" by fastforce
  from u Cons.prems(2) have w: "write_op (dict_set q Dir) s = (r, u)" by (simp add: make_dir_def)
  then show ?case
  proof (cases rule: write_op_cases)
    case fails
    then show ?thesis using Cons.prems(3) u by simp
  next
    case works
    then have "\<forall>q' \<in> set qs. lnode u q' = None" using Cons.prems(1,2) by (auto simp: lnode_def)
    then show ?thesis using Cons.IH [of u] Cons.prems(1,3) u works(1) by simp
  qed
qed simp

lemma make_dirs_adds: "make_dirs p s = (r, t) \<Longrightarrow> adds (set (prefixes p)) (\<lambda>n. n = Dir) s t"
  unfolding make_dirs_def missing_at_def
  by (auto split: if_splits intro: adds_refl adds_mono dest!: make_all_adds missing_dirs_prefix)

lemma make_dirs_fails:
  assumes "make_dirs p s = (Some e, t)" "clear s p"
  shows "faults t = None"
proof -
  have c: "lnode s q = None" if "q \<in> set (prefixes p)" "\<not> path_exists s q" for q
    using assms(2) that by (auto simp: clear_def list_all_iff is_dir_def path_exists_def)
  from prefixes_self [of p] assms(2) have "path_exists s p \<longrightarrow> is_dir s p"
    by (auto simp: clear_def list_all_iff path_exists_def node_at_def)
  then have m: "in_turn (map make_dir (missing_at s p)) s = (Some e, t)" using assms(1) by (auto simp: make_dirs_def)
  show ?thesis
    by (rule make_all_fails [OF _ _ m]) (use missing_dirs_distinct missing_dirs_prefix c in \<open>auto simp: missing_at_def\<close>)
qed

section \<open>What a run may touch\<close>

definition file_paths :: "install_plan \<Rightarrow> path list" where
  "file_paths plan = map fst (plan_files plan)"

definition link_paths :: "install_plan \<Rightarrow> path list" where
  "link_paths plan = map (\<lambda>sp. ip_service plan @ [sp_name sp]) (ip_services plan)"

definition install_dirs :: "install_plan \<Rightarrow> path list" where
  "install_dirs plan = ip_service plan # map (\<lambda>sp. ip_log plan @ [sp_name sp]) (ip_services plan) @ map butlast (file_paths plan)"

definition made_paths :: "install_plan \<Rightarrow> path list" where
  "made_paths plan = concat (map prefixes (install_dirs plan))"

text \<open>The roots are apart: files, links and directories are different paths.\<close>

definition layout_ok :: "install_plan \<Rightarrow> bool" where
  "layout_ok plan \<longleftrightarrow> distinct (file_paths plan) \<and> distinct (link_paths plan)
     \<and> list_all (\<lambda>p. p \<notin> set (made_paths plan) \<and> p \<notin> set (link_paths plan)) (file_paths plan)
     \<and> list_all (\<lambda>p. p \<notin> set (made_paths plan)) (link_paths plan)"

text \<open>The file system before the run: directories can be made, a planned file is absent or a regular file, a
  link is absent or a link.\<close>

definition file_or_free :: "fs \<Rightarrow> path \<Rightarrow> bool" where
  "file_or_free s p = (case lnode s p of None \<Rightarrow> True | Some (File c m) \<Rightarrow> True | _ \<Rightarrow> False)"

definition recoverable :: "install_plan \<Rightarrow> fs \<Rightarrow> bool" where
  "recoverable plan s \<longleftrightarrow> list_all (clear s) (install_dirs plan) \<and> list_all (file_or_free s) (file_paths plan)
     \<and> list_all (\<lambda>p. lnode s p = None \<or> is_symlink s p) (link_paths plan)"

definition file_at :: "fs \<Rightarrow> path \<Rightarrow> bool" where
  "file_at s p = (case lnode s p of Some (File c m) \<Rightarrow> True | _ \<Rightarrow> False)"

definition evolved :: "install_plan \<Rightarrow> path set \<Rightarrow> fs \<Rightarrow> fs \<Rightarrow> bool" where
  "evolved plan W s t \<longleftrightarrow> (\<forall>p. lnode t p = lnode s p
     \<or> (lnode s p = None \<and> lnode t p = Some Dir \<and> p \<in> set (made_paths plan)) \<or> (p \<in> W \<and> file_at t p))"

definition tracked :: "install_plan \<Rightarrow> fs \<Rightarrow> progress \<Rightarrow> bool" where
  "tracked plan s g \<longleftrightarrow> evolved plan (set (pr_written g)) s (pr_fs g) \<and> set (pr_written g) \<subseteq> set (file_paths plan)
     \<and> pr_links g = []"

lemma made_prefix: "d \<in> set (install_dirs plan) \<Longrightarrow> set (prefixes d) \<subseteq> set (made_paths plan)"
  by (auto simp: made_paths_def)

lemma not_made: "layout_ok plan \<Longrightarrow> p \<in> set (made_paths plan) \<Longrightarrow> p \<notin> set (file_paths plan) \<and> p \<notin> set (link_paths plan)"
  by (auto simp: layout_ok_def list_all_iff)

lemma evolved_adds:
  assumes "evolved plan W s t" "adds (set (made_paths plan)) (\<lambda>n. n = Dir) t u"
  shows "evolved plan W s u"
  unfolding evolved_def
proof
  fix p
  have a: "lnode u p = lnode t p \<or> (lnode t p = None \<and> p \<in> set (made_paths plan) \<and> lnode u p = Some Dir)"
    using assms(2) by (auto simp: adds_def)
  have e: "lnode t p = lnode s p \<or> (lnode s p = None \<and> lnode t p = Some Dir \<and> p \<in> set (made_paths plan))
      \<or> (p \<in> W \<and> file_at t p)" using assms(1) by (simp add: evolved_def)
  from a show "lnode u p = lnode s p \<or> (lnode s p = None \<and> lnode u p = Some Dir \<and> p \<in> set (made_paths plan))
      \<or> (p \<in> W \<and> file_at u p)"
  proof
    assume "lnode u p = lnode t p"
    with e show ?thesis by (simp add: file_at_def)
  next
    assume n: "lnode t p = None \<and> p \<in> set (made_paths plan) \<and> lnode u p = Some Dir"
    with e have "lnode s p = None" by (auto simp: file_at_def)
    with n show ?thesis by simp
  qed
qed

lemma link_unchanged:
  assumes "layout_ok plan" "evolved plan W s t" "W \<subseteq> set (file_paths plan)" "p \<in> set (link_paths plan)"
  shows "lnode t p = lnode s p"
proof -
  have "p \<notin> set (made_paths plan)" using not_made [OF assms(1)] assms(4) by blast
  moreover have "p \<notin> set (file_paths plan)" using assms(1,4) by (auto simp: layout_ok_def list_all_iff)
  ultimately show ?thesis using assms(2,3) unfolding evolved_def by blast
qed

lemma file_not_dir:
  assumes "layout_ok plan" "recoverable plan s" "evolved plan W s t" "p \<in> set (file_paths plan)"
  shows "lnode t p \<noteq> Some Dir"
proof -
  have "p \<notin> set (made_paths plan)" using not_made [OF assms(1)] assms(4) by blast
  moreover have "lnode s p \<noteq> Some Dir"
    using assms(2,4) by (auto simp: recoverable_def list_all_iff file_or_free_def)
  ultimately show ?thesis using assms(3) by (auto simp: evolved_def file_at_def dest!: spec [of _ p])
qed

lemma clear_kept:
  assumes "layout_ok plan" "recoverable plan s" "evolved plan W s t" "W \<subseteq> set (file_paths plan)" "d \<in> set (install_dirs plan)"
  shows "clear t d"
proof -
  have e: "lnode t q = lnode s q \<or> (lnode s q = None \<and> lnode t q = Some Dir) \<or> (q \<in> set (file_paths plan) \<and> file_at t q)" for q
    using assms(3,4) by (auto simp: evolved_def)
  have dir: "lnode t q = Some Dir" if "lnode s q = Some Dir" for q
    using e [of q] that assms(2) by (auto simp: recoverable_def file_or_free_def list_all_iff)
  have "lnode t q = None \<or> is_dir t q" if q: "q \<in> set (prefixes d)" for q
  proof -
    have "q \<notin> set (file_paths plan)" using not_made [OF assms(1)] made_prefix [OF assms(5)] q by auto
    then have c: "lnode t q = lnode s q \<or> lnode t q = Some Dir" using e [of q] by auto
    have "lnode s q = None \<or> is_dir s q"
      using assms(2,5) q by (auto simp: recoverable_def clear_def list_all_iff)
    with c dir show ?thesis
      by (auto simp: is_dir_def node_at_def split: option.splits node.splits)
  qed
  then show ?thesis by (simp add: clear_def list_all_iff)
qed

section \<open>Every step keeps the state before recoverable\<close>

definition step_safe :: "install_plan \<Rightarrow> fs \<Rightarrow> step \<Rightarrow> bool" where
  "step_safe plan s a \<longleftrightarrow> (\<forall>g r h. tracked plan s g \<longrightarrow> a g = (r, h) \<longrightarrow>
     pr_links h \<noteq> [] \<or> (tracked plan s h \<and> (r = None \<or> faults (pr_fs h) = None)))"

definition keeps_links :: "step \<Rightarrow> bool" where
  "keeps_links a \<longleftrightarrow> (\<forall>g. pr_links g \<noteq> [] \<longrightarrow> pr_links (snd (a g)) \<noteq> [])"

lemma ensure_safe:
  assumes "layout_ok plan" "recoverable plan s" "d \<in> set (install_dirs plan)"
  shows "step_safe plan s (ensure_directory d)"
  unfolding step_safe_def
proof (intro allI impI disjI2)
  fix g r h
  assume t: "tracked plan s g" and a: "ensure_directory d g = (r, h)"
  obtain r' u where u: "make_dirs d (pr_fs g) = (r', u)" by fastforce
  have "adds (set (made_paths plan)) (\<lambda>n. n = Dir) (pr_fs g) u"
    by (rule adds_mono [OF make_dirs_adds [OF u] made_prefix [OF assms(3)]])
  then have e: "evolved plan (set (pr_written g)) s u" using t by (auto simp: tracked_def intro: evolved_adds)
  have "clear (pr_fs g) d" using clear_kept [OF assms(1,2)] t assms(3) by (auto simp: tracked_def)
  then have "r' = None \<or> faults u = None" using make_dirs_fails u by (cases r') auto
  then show "tracked plan s h \<and> (r = None \<or> faults (pr_fs h) = None)"
    using a u e t by (auto simp: ensure_directory_def tracked_def Let_def split: option.splits)
qed

lemma ensure_links: "pr_links (snd (ensure_directory d g)) = pr_links g"
  by (auto simp: ensure_directory_def Let_def split: prod.splits option.splits)

lemma write_links: "pr_links (snd (write_file f g)) = pr_links g"
  using ensure_links [of "butlast (fst f)" g]
  by (auto simp: write_file_def split: prod.splits option.splits)

lemma atomic_evolved:
  assumes "atomic_text p c m s = (r, t)" "lnode s p \<noteq> Some Dir"
  shows "(r = None \<or> faults t = None) \<and> (\<forall>q. lnode t q = lnode s q \<or> (q = p \<and> lnode t q = Some (File c m)))
    \<and> (r = None \<longrightarrow> lnode t p = Some (File c m))"
proof -
  have "write_op (dict_set p (File c m)) s = (r, t)" using assms by (simp add: atomic_text_def)
  then show ?thesis by (cases rule: write_op_cases) (auto simp: lnode_def)
qed

lemma write_safe:
  assumes "layout_ok plan" "recoverable plan s" "f \<in> set (plan_files plan)"
  shows "step_safe plan s (write_file f)"
  unfolding step_safe_def
proof (intro allI impI disjI2)
  fix g r h
  assume t: "tracked plan s g" and a: "write_file f g = (r, h)"
  obtain p c m where f: "f = (p, c, m)" by (cases f)
  have p: "p \<in> set (file_paths plan)" using assms(3) f by (force simp: file_paths_def)
  then have d: "butlast p \<in> set (install_dirs plan)" by (simp add: install_dirs_def)
  obtain r' h' where e: "ensure_directory (butlast p) g = (r', h')" by fastforce
  have "pr_links h' = []" using ensure_links [of "butlast p" g] t e by (simp add: tracked_def)
  then have t': "tracked plan s h'" "r' = None \<or> faults (pr_fs h') = None"
    using ensure_safe [OF assms(1,2) d, unfolded step_safe_def, rule_format, OF t e] by auto
  show "tracked plan s h \<and> (r = None \<or> faults (pr_fs h) = None)"
  proof (cases r')
    case None
    obtain r'' u where u: "atomic_text p c m (pr_fs h') = (r'', u)" by fastforce
    have h: "r = r''" "h = h'\<lparr>pr_fs := u, pr_written := pr_written h' @ [p]\<rparr>"
      using a f e None u by (auto simp: write_file_def)
    have "lnode (pr_fs h') p \<noteq> Some Dir"
      using file_not_dir [OF assms(1,2)] t'(1) p by (auto simp: tracked_def)
    from atomic_evolved [OF u this] have w: "r'' = None \<or> faults u = None"
      "\<And>q. lnode u q = lnode (pr_fs h') q \<or> (q = p \<and> lnode u q = Some (File c m))" by auto
    have "evolved plan (set (pr_written h') \<union> {p}) s u"
      unfolding evolved_def
    proof
      fix q
      show "lnode u q = lnode s q \<or> (lnode s q = None \<and> lnode u q = Some Dir \<and> q \<in> set (made_paths plan))
        \<or> (q \<in> set (pr_written h') \<union> {p} \<and> file_at u q)"
        using w(2) [of q] t'(1) by (auto simp: tracked_def evolved_def file_at_def)
    qed
    then show ?thesis using h w(1) t'(1) p by (simp add: tracked_def)
  next
    case (Some e')
    then show ?thesis using a f e t' by (simp add: write_file_def)
  qed
qed

lemma activate_safe:
  assumes "layout_ok plan" "recoverable plan s" "sp \<in> set (ip_services plan)"
  shows "step_safe plan s (activate plan sp)"
  unfolding step_safe_def
proof (intro allI impI)
  fix g r h
  assume t: "tracked plan s g" and a: "activate plan sp g = (r, h)"
  let ?link = "ip_service plan @ [sp_name sp]"
  have l: "?link \<in> set (link_paths plan)" using assms(3) by (simp add: link_paths_def)
  then have "lnode (pr_fs g) ?link = lnode s ?link"
    using t link_unchanged [OF assms(1), of "set (pr_written g)"] by (simp add: tracked_def)
  moreover have "lnode s ?link = None \<or> is_symlink s ?link" using l assms(2) by (auto simp: recoverable_def list_all_iff)
  ultimately have c: "lnode (pr_fs g) ?link = None \<or> is_symlink (pr_fs g) ?link" by (auto simp: is_symlink_def)
  show "pr_links h \<noteq> [] \<or> (tracked plan s h \<and> (r = None \<or> faults (pr_fs h) = None))"
  proof (cases "is_symlink (pr_fs g) ?link")
    case True
    then show ?thesis using a t by (simp add: activate_def)
  next
    case False
    then have w: "make_link ?link (service_dir (ip_package plan) (sp_name sp)) (pr_fs g)
        = write_op (dict_set ?link (Link (service_dir (ip_package plan) (sp_name sp)))) (pr_fs g)"
      using c by (simp add: make_link_def)
    obtain r' u where u: "write_op (dict_set ?link (Link (service_dir (ip_package plan) (sp_name sp)))) (pr_fs g) = (r', u)" by fastforce
    from u show ?thesis
    proof (cases rule: write_op_cases)
      case fails
      then have "tracked plan s (g\<lparr>pr_fs := u\<rparr>)" using t by (simp add: tracked_def evolved_def lnode_def file_at_def)
      then show ?thesis using a False w u fails by (auto simp: activate_def Let_def)
    next
      case works
      then show ?thesis using a False w u by (auto simp: activate_def Let_def)
    qed
  qed
qed

lemma activate_links: "keeps_links (activate plan sp)"
  by (auto simp: keeps_links_def activate_def Let_def split: prod.splits option.splits)

lemma install_steps_safe:
  assumes "layout_ok plan" "recoverable plan s" "a \<in> set (install_steps plan)"
  shows "step_safe plan s a \<and> keeps_links a"
  using assms ensure_safe [OF assms(1,2)] write_safe [OF assms(1,2)] activate_safe [OF assms(1,2)] activate_links
  by (auto simp: install_steps_def install_dirs_def keeps_links_def ensure_links write_links)

lemma steps_links: "\<forall>a \<in> set as. keeps_links a \<Longrightarrow> pr_links g \<noteq> [] \<Longrightarrow> steps as g = (r, h) \<Longrightarrow> pr_links h \<noteq> []"
proof (induction as arbitrary: g)
  case (Cons a as)
  obtain r' h' where a: "a g = (r', h')" by fastforce
  have "pr_links h' \<noteq> []" using Cons.prems(1,2) a by (auto simp: keeps_links_def dest!: spec [of _ g])
  then show ?case using Cons a by (cases r') auto
qed simp

lemma steps_tracked:
  "\<forall>a \<in> set as. step_safe plan s a \<and> keeps_links a \<Longrightarrow> tracked plan s g \<Longrightarrow> steps as g = (r, h) \<Longrightarrow>
    pr_links h = [] \<Longrightarrow> tracked plan s h \<and> (r = None \<or> faults (pr_fs h) = None)"
proof (induction as arbitrary: g)
  case (Cons a as)
  obtain r' h' where a: "a g = (r', h')" by fastforce
  then have *: "pr_links h' \<noteq> [] \<or> (tracked plan s h' \<and> (r' = None \<or> faults (pr_fs h') = None))"
    using Cons.prems(1,2) by (auto simp: step_safe_def)
  show ?case
  proof (cases r')
    case None
    then have st: "steps as h' = (r, h)" using Cons.prems(3) a by simp
    then have "pr_links h' = []" using steps_links [of as h'] Cons.prems(1,4) by auto
    then show ?thesis using Cons.IH [of h'] Cons.prems(1,4) st * None by auto
  next
    case (Some e')
    then show ?thesis using Cons.prems(3,4) a * by auto
  qed
qed simp

lemma steps_safe:
  "\<forall>a \<in> set as. step_safe plan s a \<and> keeps_links a \<Longrightarrow> tracked plan s g \<Longrightarrow> steps as g = (Some e, h) \<Longrightarrow>
    pr_links h = [] \<Longrightarrow> tracked plan s h \<and> faults (pr_fs h) = None"
  using steps_tracked by fastforce

section \<open>Rolling back\<close>

text \<open>What a run must bring back: files and links.  Directories are not part of it.\<close>

definition payload :: "fs \<Rightarrow> path \<Rightarrow> node option" where
  "payload s p = (case lnode s p of Some Dir \<Rightarrow> None | r \<Rightarrow> r)"

lemma payload_same: "lnode t p = lnode s p \<Longrightarrow> payload t p = payload s p"
  by (simp add: payload_def)

definition saved :: "backup \<Rightarrow> fs \<Rightarrow> path \<Rightarrow> bool" where
  "saved previous s p \<longleftrightarrow> lnode s p = (case previous p of None \<Rightarrow> None | Some (c, m) \<Rightarrow> Some (File c m))"

lemma in_turn_append: "in_turn (as @ bs) s = (case in_turn as s of (None, t) \<Rightarrow> in_turn bs t | r \<Rightarrow> r)"
  by (induction as arbitrary: s) (auto split: prod.splits option.splits)

lemma restore_works:
  assumes "faults t = None" "lnode t p \<noteq> Some Dir" "saved previous s p"
  shows "\<exists>u. restore_file previous p t = (None, u) \<and> faults u = None \<and> (\<forall>q. lnode u q = (if q = p then lnode s p else lnode t q))"
  using assms
  by (cases "previous p"; cases "lnode t p")
    (auto simp: restore_file_def saved_def unlink_missing_ok_def atomic_text_def write_op_unfaulted lnode_def
      map_of_remove_node split: node.splits)

lemma restore_all:
  assumes "layout_ok plan" "recoverable plan s"
  shows "evolved plan (set ps) s t \<Longrightarrow> faults t = None \<Longrightarrow> set ps \<subseteq> set (file_paths plan) \<Longrightarrow>
    \<forall>p \<in> set ps. saved previous s p \<Longrightarrow> \<exists>u. in_turn (map (restore_file previous) ps) t = (None, u) \<and> evolved plan {} s u"
proof (induction ps arbitrary: t)
  case (Cons p ps)
  have "lnode t p \<noteq> Some Dir" using file_not_dir [OF assms Cons.prems(1)] Cons.prems(3) by simp
  from restore_works [OF Cons.prems(2) this, of previous s] Cons.prems(4) obtain u where
    u: "restore_file previous p t = (None, u)" "faults u = None" "\<And>q. lnode u q = (if q = p then lnode s p else lnode t q)"
    by auto
  have "evolved plan (set ps) s u"
    using Cons.prems(1) by (auto simp: evolved_def file_at_def u(3))
  then show ?case using Cons.IH [of u] u(1,2) Cons.prems(3,4) by auto
qed simp

lemma remove_dir_payload: "remove_dir p s = (r, t) \<Longrightarrow> payload t q = payload s q"
  by (auto simp: remove_dir_def split: if_splits elim!: write_op_cases)
    (auto simp: payload_def lnode_def map_of_remove_node)

lemma remove_dirs_payload: "in_turn (map remove_dir ds) s = (r, t) \<Longrightarrow> payload t q = payload s q"
proof (induction ds arbitrary: s)
  case (Cons d ds)
  obtain r' u where "remove_dir d s = (r', u)" by fastforce
  then show ?case using Cons remove_dir_payload [of d s r' u q] by (cases r') auto
qed simp

lemma evolved_payload: "evolved plan {} s t \<Longrightarrow> payload t p = payload s p"
  by (auto simp: evolved_def payload_def dest!: spec [of _ p])

lemma roll_back_restores:
  assumes "layout_ok plan" "recoverable plan s" "tracked plan s g" "faults (pr_fs g) = None"
    "\<forall>p \<in> set (file_paths plan). saved previous s p" "roll_back previous g (pr_fs g) = (r, t)"
  shows "payload t p = payload s p"
proof -
  have "\<exists>u. in_turn (map (restore_file previous) (rev (pr_written g))) (pr_fs g) = (None, u) \<and> evolved plan {} s u"
    by (rule restore_all [OF assms(1,2)]) (use assms(3,4,5) in \<open>auto simp: tracked_def\<close>)
  then obtain u where u: "in_turn (map (restore_file previous) (rev (pr_written g))) (pr_fs g) = (None, u)" "evolved plan {} s u"
    by auto
  then have "in_turn (map remove_dir (rev (pr_dirs g))) u = (r, t)"
    using assms(6) by (simp add: roll_back_def in_turn_append)
  then show ?thesis using remove_dirs_payload evolved_payload [OF u(2)] by simp
qed

section \<open>What a finished run leaves\<close>

definition installed :: "fs \<Rightarrow> path \<times> content \<times> int \<Rightarrow> bool" where
  "installed s f = (lnode s (fst f) = Some (File (fst (snd f)) (snd (snd f))))"

definition step_keeps :: "path \<Rightarrow> step \<Rightarrow> bool" where
  "step_keeps p a \<longleftrightarrow> (\<forall>g n. lnode (pr_fs g) p = Some n \<longrightarrow> lnode (pr_fs (snd (a g))) p = Some n)"

lemma step_keepsD: "step_keeps p a \<Longrightarrow> a g = (r, h) \<Longrightarrow> lnode (pr_fs g) p = Some n \<Longrightarrow> lnode (pr_fs h) p = Some n"
  by (auto simp: step_keeps_def dest!: spec [of _ g])

lemma ensure_keeps: "step_keeps p (ensure_directory d)"
  by (auto simp: step_keeps_def ensure_directory_def Let_def split: prod.splits option.splits
    dest!: make_dirs_adds elim: adds_kept)

lemma activate_keeps: "step_keeps p (activate plan sp)"
  by (auto simp: step_keeps_def activate_def Let_def split: prod.splits option.splits
    dest!: make_link_adds elim: adds_kept)

lemma atomic_keeps: "atomic_text q c m s = (r, t) \<Longrightarrow> p \<noteq> q \<Longrightarrow> lnode t p = lnode s p"
  using atomic_evolved [of q c m s r t] by (cases "lnode s q = Some Dir") (auto simp: atomic_text_def)

lemma write_keeps: "p \<noteq> fst f \<Longrightarrow> step_keeps p (write_file f)"
  by (auto simp: step_keeps_def write_file_def atomic_keeps split: prod.splits option.splits
    dest!: step_keepsD [OF ensure_keeps])

lemma write_installs: "write_file f g = (None, h) \<Longrightarrow> installed (pr_fs h) f"
proof -
  assume a: "write_file f g = (None, h)"
  obtain p c m where f: "f = (p, c, m)" by (cases f)
  obtain h' where e: "ensure_directory (butlast p) g = (None, h')"
    using a f by (auto simp: write_file_def split: prod.splits option.splits)
  obtain u where u: "atomic_text p c m (pr_fs h') = (None, u)" "pr_fs h = u"
    using a f e by (auto simp: write_file_def split: prod.splits)
  then have "lnode (pr_fs h') p \<noteq> Some Dir" by (auto simp: atomic_text_def)
  then show ?thesis using atomic_evolved [OF u(1)] u(2) f by (auto simp: installed_def)
qed

text \<open>The link of a service leads to the directory of that service.\<close>

definition linked :: "install_plan \<Rightarrow> fs \<Rightarrow> service_plan \<Rightarrow> bool" where
  "linked plan s sp \<longleftrightarrow>
     lnode s (ip_service plan @ [sp_name sp]) = Some (Link (service_dir (ip_package plan) (sp_name sp)))"

lemma activate_links_it:
  "activate plan sp g = (None, h) \<Longrightarrow> is_symlink (pr_fs g) (ip_service plan @ [sp_name sp]) \<longrightarrow> linked plan (pr_fs g) sp \<Longrightarrow>
    linked plan (pr_fs h) sp"
  by (auto simp: activate_def make_link_def Let_def linked_def lnode_def split: if_splits prod.splits option.splits
    elim!: write_op_cases)

lemma activate_other:
  assumes "activate plan sp g = (r, h)" "q \<noteq> ip_service plan @ [sp_name sp]"
  shows "lnode (pr_fs h) q = lnode (pr_fs g) q"
  using assms
  by (auto simp: activate_def Let_def adds_def split: if_splits prod.splits option.splits dest!: make_link_adds)

lemma steps_keep: "\<forall>a \<in> set as. step_keeps p a \<Longrightarrow> lnode (pr_fs g) p = Some n \<Longrightarrow> steps as g = (r, h) \<Longrightarrow>
    lnode (pr_fs h) p = Some n"
proof (induction as arbitrary: g)
  case (Cons a as)
  obtain r' h' where a: "a g = (r', h')" by fastforce
  then have "lnode (pr_fs h') p = Some n" using Cons.prems(1,2) by (auto simp: step_keeps_def dest!: spec [of _ g])
  then show ?case using Cons a by (cases r') auto
qed simp

lemma steps_append: "steps (as @ bs) g = (case steps as g of (None, h) \<Rightarrow> steps bs h | r \<Rightarrow> r)"
  by (induction as arbitrary: g) (auto split: prod.splits option.splits)

lemma steps_links_same:
  "\<forall>a \<in> set as. \<forall>g. pr_links (snd (a g)) = pr_links g \<Longrightarrow> steps as g = (r, h) \<Longrightarrow> pr_links h = pr_links g"
proof (induction as arbitrary: g)
  case (Cons a as)
  obtain r' h' where a: "a g = (r', h')" by fastforce
  then have "pr_links h' = pr_links g" using Cons.prems(1) by (auto dest!: spec [of _ g])
  then show ?case using Cons a by (cases r') auto
qed simp

lemma linked_late:
  "steps (as @ bs @ cs) g = (r, h) \<Longrightarrow> steps as g = (r1, h1) \<Longrightarrow> steps bs h1 = (r2, h2) \<Longrightarrow> pr_links h1 = [] \<Longrightarrow>
    pr_links h2 = [] \<Longrightarrow> r = None \<or> pr_links h \<noteq> [] \<Longrightarrow> r1 = None \<and> r2 = None \<and> steps cs h2 = (r, h)"
  by (cases r1; cases r2) (auto simp: steps_append)

lemma writes_install:
  "distinct (map fst fs) \<Longrightarrow> steps (map write_file fs) g = (None, h) \<Longrightarrow> \<forall>f \<in> set fs. installed (pr_fs h) f"
proof (induction fs arbitrary: g)
  case (Cons f fs)
  obtain h' where a: "write_file f g = (None, h')" "steps (map write_file fs) h' = (None, h)"
    using Cons.prems(2) by (auto split: prod.splits option.splits)
  have "\<forall>b \<in> set (map write_file fs). step_keeps (fst f) b" using Cons.prems(1) by (auto intro!: write_keeps)
  then have "installed (pr_fs h) f"
    using write_installs [OF a(1)] steps_keep [OF _ _ a(2)] by (auto simp: installed_def)
  then show ?case using Cons.IH [OF _ a(2)] Cons.prems(1) by simp
qed simp

lemma activations_link:
  "distinct (map (\<lambda>sp. ip_service plan @ [sp_name sp]) sps) \<Longrightarrow> steps (map (activate plan) sps) g = (None, h) \<Longrightarrow>
    \<forall>sp \<in> set sps. is_symlink (pr_fs g) (ip_service plan @ [sp_name sp]) \<longrightarrow> linked plan (pr_fs g) sp \<Longrightarrow>
    \<forall>sp \<in> set sps. linked plan (pr_fs h) sp"
proof (induction sps arbitrary: g)
  case (Cons sp sps)
  obtain h' where a: "activate plan sp g = (None, h')" "steps (map (activate plan) sps) h' = (None, h)"
    using Cons.prems(2) by (auto split: prod.splits option.splits)
  have k: "\<forall>b \<in> set (map (activate plan) sps). step_keeps p b" for p by (auto intro!: activate_keeps)
  have "linked plan (pr_fs h') sp" using activate_links_it [OF a(1)] Cons.prems(3) by simp
  then have "linked plan (pr_fs h) sp" using steps_keep [OF k _ a(2)] by (simp add: linked_def)
  moreover have "is_symlink (pr_fs h') (ip_service plan @ [sp_name u]) \<longrightarrow> linked plan (pr_fs h') u" if "u \<in> set sps" for u
  proof -
    have "ip_service plan @ [sp_name u] \<noteq> ip_service plan @ [sp_name sp]" using that Cons.prems(1) by (force simp: image_iff)
    from activate_other [OF a(1) this] Cons.prems(3) that show ?thesis by (simp add: linked_def is_symlink_def)
  qed
  ultimately show ?case using Cons.IH [OF _ a(2)] Cons.prems(1) by simp
qed simp

lemma run_installs:
  assumes "steps (install_steps plan) g = (r, h)" "layout_ok plan" "recoverable plan s" "tracked plan s g"
    "r = None \<or> pr_links h \<noteq> []"
    and links: "\<forall>sp \<in> set (ip_services plan). is_symlink s (ip_service plan @ [sp_name sp]) \<longrightarrow> linked plan s sp"
  shows "(\<forall>f \<in> set (plan_files plan). installed (pr_fs h) f) \<and>
    (r = None \<longrightarrow> (\<forall>sp \<in> set (ip_services plan). linked plan (pr_fs h) sp))"
proof -
  let ?pre = "ensure_directory (ip_service plan) # map (\<lambda>sp. ensure_directory (ip_log plan @ [sp_name sp])) (ip_services plan)"
  let ?writes = "map write_file (plan_files plan)" and ?acts = "map (activate plan) (ip_services plan)"
  have parts: "install_steps plan = ?pre @ ?writes @ ?acts" by (simp add: install_steps_def)
  have g0: "pr_links g = []" and d: "distinct (file_paths plan)" using assms(2,4) by (simp_all add: tracked_def layout_ok_def)
  obtain r1 h1 where 1: "steps ?pre g = (r1, h1)" by fastforce
  obtain r2 h2 where 2: "steps ?writes h1 = (r2, h2)" by fastforce
  have l1: "pr_links h1 = []" using steps_links_same [OF _ 1] g0 ensure_links by auto
  have l2: "pr_links h2 = []" using steps_links_same [OF _ 2] l1 write_links by auto
  have n: "r1 = None" "r2 = None" "steps ?acts h2 = (r, h)"
    using linked_late [OF assms(1) [unfolded parts] 1 2 l1 l2 assms(5)] by auto
  have safe: "\<forall>a \<in> set (?pre @ ?writes @ ?acts). step_safe plan s a \<and> keeps_links a"
    using install_steps_safe [OF assms(2,3)] parts by auto
  have "tracked plan s h1" using steps_tracked [OF _ assms(4) 1 l1] safe by auto
  then have t2: "tracked plan s h2" using steps_tracked [OF _ _ 2 l2] safe by auto
  have w: "\<forall>f \<in> set (plan_files plan). installed (pr_fs h2) f"
    using writes_install [of "plan_files plan" h1 h2] d 2 n(2) by (simp add: file_paths_def)
  have k: "\<forall>b \<in> set ?acts. step_keeps p b" for p by (auto intro!: activate_keeps)
  have files: "\<forall>f \<in> set (plan_files plan). installed (pr_fs h) f"
    using w steps_keep [OF k _ n(3)] by (auto simp: installed_def)
  have "lnode (pr_fs h2) p = lnode s p" if "p \<in> set (link_paths plan)" for p
    using link_unchanged [OF assms(2), of "set (pr_written h2)" s "pr_fs h2"] t2 that by (simp add: tracked_def)
  then have "\<forall>sp \<in> set (ip_services plan). is_symlink (pr_fs h2) (ip_service plan @ [sp_name sp]) \<longrightarrow> linked plan (pr_fs h2) sp"
    using links by (simp add: link_paths_def linked_def is_symlink_def)
  then have "r = None \<longrightarrow> (\<forall>sp \<in> set (ip_services plan). linked plan (pr_fs h) sp)"
    using activations_link [of plan "ip_services plan" h2 h] n(3) assms(2) by (auto simp: layout_ok_def link_paths_def)
  with files show ?thesis by blast
qed

section \<open>Applying a plan\<close>

text \<open>The files before the run read back as they are: text without carriage returns.\<close>

definition read_exactly :: "fs \<Rightarrow> path \<Rightarrow> bool" where
  "read_exactly s p = (case lnode s p of Some (File (Text x) m) \<Rightarrow> CHR 0x0D \<notin> set x | _ \<Rightarrow> True)"

lemma newlines_kept: "CHR 0x0D \<notin> set x \<Longrightarrow> universal_newlines x = x"
  by (induction x rule: universal_newlines.induct) auto

lemma previous_saved:
  assumes "previous_of s p = Inr b" "file_or_free s p" "read_exactly s p"
  shows "lnode s p = (case b of None \<Rightarrow> None | Some (c, m) \<Rightarrow> Some (File c m))"
  using assms
  by (auto simp: previous_of_def file_or_free_def read_exactly_def path_exists_def node_at_def read_text_def
    read_content_def decode_content_def newlines_kept split: option.splits node.splits content.splits if_splits)

lemma mapM_lookup:
  "mapM (\<lambda>f. and_then (g (fst f)) (\<lambda>x. Inr (fst f, x))) fs = Inr olds \<Longrightarrow> f \<in> set fs \<Longrightarrow>
    \<exists>b. map_of olds (fst f) = Some b \<and> g (fst f) = Inr b"
  by (induction fs arbitrary: olds) auto

lemma run_all_or_nothing:
  assumes "layout_ok plan" "recoverable plan s" "\<forall>p \<in> set (file_paths plan). saved previous s p"
    "run_install plan previous s = (r, t)"
    and links: "\<forall>sp \<in> set (ip_services plan). is_symlink s (ip_service plan @ [sp_name sp]) \<longrightarrow> linked plan s sp"
  shows "(r = None \<longrightarrow> (\<forall>sp \<in> set (ip_services plan). linked plan t sp))
    \<and> ((r = None \<or> r = Some interrupted) \<and> (\<forall>f \<in> set (plan_files plan). installed t f)
       \<or> r \<noteq> None \<and> (\<forall>p. payload t p = payload s p))"
proof -
  let ?g = "\<lparr>pr_fs = s, pr_written = [], pr_links = [], pr_dirs = []\<rparr>"
  have g: "tracked plan s ?g" by (simp add: tracked_def evolved_def)
  obtain r' h where h: "steps (install_steps plan) ?g = (r', h)" by fastforce
  show ?thesis
  proof (cases "r' = None \<or> pr_links h \<noteq> []")
    case True
    then have "t = pr_fs h" "r = None \<or> r = Some interrupted" "r = None \<longrightarrow> r' = None"
      using assms(4) h by (auto simp: run_install_def split: option.splits)
    then show ?thesis using run_installs [OF h assms(1,2) g True links] by auto
  next
    case False
    then obtain e where e: "r' = Some e" "pr_links h = []" by auto
    have "tracked plan s h \<and> faults (pr_fs h) = None"
      by (rule steps_safe [OF _ g _ e(2)]) (use h e(1) install_steps_safe [OF assms(1,2)] in auto)
    moreover obtain r2 where "roll_back previous h (pr_fs h) = (r2, t)" "r \<noteq> None"
      using assms(4) h e by (auto simp: run_install_def split: prod.splits option.splits)
    ultimately show ?thesis using roll_back_restores [OF assms(1,2) _ _ assms(3)] by auto
  qed
qed

text \<open>The check of the paths accepts a link that exists only when it leads to the directory of the service.\<close>

lemma check_paths_links:
  assumes "check_paths s package service logs names = Inr ()" "n \<in> set names" "is_symlink s (service @ [n])"
  shows "lnode s (service @ [n]) = Some (Link (service_dir package n))"
proof -
  have "check_name s package service logs n = Inr ()"
    using assms(1,2) by (auto simp: check_paths_def foldM_unit split: if_splits)
  then have c: "\<not> is_symlink s (service_dir package n)" "resolve s (service @ [n]) = resolve s (service_dir package n)"
    using assms(3) by (auto simp: check_name_def require_all_def Let_def foldM_unit check_def split: if_splits)
  then show ?thesis using assms(3) by (auto simp: is_symlink_def resolve_def split: option.splits node.splits)
qed

lemma apply_outcome:
  assumes "layout_ok plan" "recoverable plan s" "list_all (read_exactly s) (file_paths plan)"
    "apply_plan sha plan manifest s = (r, t)"
  shows "(r = None \<longrightarrow> (\<forall>sp \<in> set (ip_services plan). linked plan t sp))
    \<and> ((r = None \<or> r = Some interrupted) \<and> (\<forall>f \<in> set (plan_files plan). installed t f)
       \<or> r \<noteq> None \<and> (\<forall>p. payload t p = payload s p))"
proof (cases "t = s \<and> r \<noteq> None")
  case True
  then show ?thesis by auto
next
  case False
  then obtain olds u where o: "mapM (\<lambda>f. and_then (previous_of s (fst f)) (\<lambda>x. Inr (fst f, x))) (plan_files plan) = Inr olds"
    "run_install plan (\<lambda>p. case map_of olds p of Some x \<Rightarrow> x | None \<Rightarrow> None) s = (r, t)"
    "check_paths s (ip_package plan) (ip_service plan) (ip_log plan) (map sp_name (ip_services plan)) = Inr u"
    using assms(4) unfolding apply_plan_def by (auto split: sum.splits)
  have "saved (\<lambda>p. case map_of olds p of Some x \<Rightarrow> x | None \<Rightarrow> None) s p" if p: "p \<in> set (file_paths plan)" for p
  proof -
    obtain f where f: "f \<in> set (plan_files plan)" "p = fst f" using p by (auto simp: file_paths_def)
    obtain b where "map_of olds p = Some b" "previous_of s p = Inr b" using mapM_lookup [OF o(1) f(1)] f(2) by auto
    moreover have "file_or_free s p" "read_exactly s p" using assms(2,3) p by (auto simp: recoverable_def list_all_iff)
    ultimately show ?thesis using previous_saved by (simp add: saved_def)
  qed
  moreover have "is_symlink s (ip_service plan @ [sp_name sp]) \<longrightarrow> linked plan s sp" if "sp \<in> set (ip_services plan)" for sp
    using check_paths_links [OF o(3) [simplified]] that by (simp add: linked_def)
  ultimately show ?thesis using run_all_or_nothing [OF assms(1,2) _ o(2)] by blast
qed

end
