(* ===== verification/InstallRetire.thy ===== *)
theory InstallRetire
  imports InstallRollback
begin

text \<open>
  Retirement: a service directory moves with all that is below it, and moves back when the registry
  cannot be written.
\<close>

section \<open>Moving a directory\<close>

definition below :: "path \<Rightarrow> path \<Rightarrow> bool" where
  "below d p = (take (length d) p = d)"

lemma below_append [simp]: "below d (d @ q)"
  by (simp add: below_def)

lemma below_drop: "below d p \<Longrightarrow> p = d @ drop (length d) p"
  unfolding below_def by (metis append_take_drop_id)

definition moving :: "path \<Rightarrow> path \<Rightarrow> (path \<times> node) list \<Rightarrow> (path \<times> node) list" where
  "moving source dest ns = map (\<lambda>(q, n). (moved source dest q, n)) ns"

lemma moved_below [simp]: "moved source dest (source @ q) = dest @ q"
  by (simp add: moved_def)

lemma moved_else [simp]: "\<not> below source q \<Longrightarrow> moved source dest q = q"
  by (simp add: moved_def below_def)

lemma moved_cases:
  obtains q where "p = source @ q" "moved source dest p = dest @ q" | "\<not> below source p" "moved source dest p = p"
  by (cases "below source p") (metis below_drop moved_below, simp)

lemma moving_lookup:
  assumes "\<forall>(q, n) \<in> set ns. \<not> below dest q"
  shows "map_of (moving source dest ns) (dest @ q) = map_of ns (source @ q)"
  using assms
proof (induction ns)
  case (Cons x ns)
  obtain p n where x: "x = (p, n)" by fastforce
  then have "\<not> below dest p" using Cons.prems by simp
  then have "dest @ q = moved source dest p \<longleftrightarrow> source @ q = p"
    by (cases rule: moved_cases [of p source dest]) auto
  then show ?case using Cons x by (simp add: moving_def)
qed (simp add: moving_def)

lemma moving_gone:
  assumes "\<not> below source dest" "\<not> below dest source" "length source = length dest"
  shows "map_of (moving source dest ns) (source @ q) = None"
proof (induction ns)
  case (Cons x ns)
  obtain p n where x: "x = (p, n)" by fastforce
  have "source \<noteq> dest" using assms(1) below_append [of source "[]"] by auto
  then have "moved source dest p \<noteq> source @ q"
    using assms(3) by (cases rule: moved_cases [of p source dest]) auto
  then show ?case using Cons x by (simp add: moving_def)
qed (simp add: moving_def)

lemma moving_other:
  assumes "\<not> below source p" "\<not> below dest p"
  shows "map_of (moving source dest ns) p = map_of ns p"
proof (induction ns)
  case (Cons x ns)
  obtain r n where x: "x = (r, n)" by fastforce
  have "p = moved source dest r \<longleftrightarrow> p = r"
    using assms by (cases rule: moved_cases [of r source dest]) auto
  then show ?case using Cons x by (simp add: moving_def)
qed (simp add: moving_def)

lemma moving_back:
  assumes "\<forall>(q, n) \<in> set ns. \<not> below dest q"
  shows "moving dest source (moving source dest ns) = ns"
  using assms
proof (induction ns)
  case (Cons x ns)
  obtain p n where x: "x = (p, n)" by fastforce
  then have "\<not> below dest p" using Cons.prems by simp
  then have "moved dest source (moved source dest p) = p"
    by (cases rule: moved_cases [of p source dest]) auto
  then show ?case using Cons x by (simp add: moving_def)
qed (simp add: moving_def)

section \<open>Retirement\<close>

definition chain_service :: "path \<Rightarrow> string \<Rightarrow> path" where
  "chain_service package chain = service_dir package (''dbus-mqtt-chain-'' @ chain)"

definition retired_service :: "path \<Rightarrow> string \<Rightarrow> path" where
  "retired_service package chain = retired_dir package @ [''dbus-mqtt-chain-'' @ chain]"

lemma retire_paths: "\<not> below (chain_service package chain) (retired_service package chain)"
  "\<not> below (retired_service package chain) (chain_service package chain)"
  "length (chain_service package chain) = length (retired_service package chain)"
  "\<not> below (chain_service package chain) (registry_path package)" "\<not> below (retired_service package chain) (registry_path package)"
  "\<not> below (retired_service package chain) (retired_dir package)" "registry_path package \<noteq> retired_dir package"
  by (auto simp: below_def chain_service_def retired_service_def service_dir_def retired_dir_def registry_path_def)

definition remaining :: "pyobj \<Rightarrow> string \<Rightarrow> pyobj" where
  "remaining owned chain = filter (\<lambda>(n, v). n \<noteq> ''dbus-mqtt-chain-'' @ chain) owned"

lemma owned_registry_file:
  assumes "registry s package = Inr owned" "owned \<noteq> []"
  shows "\<exists>c m. lnode s (registry_path package) = Some (File c m)"
  using assms
  by (auto simp: registry_def Let_def is_symlink_def path_exists_def node_at_def read_text_def read_content_def
    split: if_splits option.splits node.splits)

lemma owned_names:
  assumes "registry s package = Inr owned"
  shows "list_all (\<lambda>(n, x). service_name_ok n \<and> as_dict x \<noteq> None) owned"
proof (cases "owned = []")
  case False
  then obtain v where v: "(case v of
       VDict d \<Rightarrow> if \<not> eq_int (vget d ''config_version'') 1 then Inl (ValueError ''invalid topology ownership registry'')
         else (case vget d ''services'' of
           VDict services \<Rightarrow> if list_all (\<lambda>(n, x). service_name_ok n \<and> as_dict x \<noteq> None) services then Inr services
             else Inl (ValueError ''invalid owned topology service name'')
         | _ \<Rightarrow> Inl (ValueError ''invalid topology ownership registry''))
     | _ \<Rightarrow> Inl (ValueError ''invalid topology ownership registry'')) = Inr owned"
    using assms by (auto simp: registry_def Let_def simp del: not_None_eq split: if_splits)
  then show ?thesis by (cases v) (auto split: if_splits pyval.splits)
qed simp

lemma registry_read_back:
  assumes "lnode t (registry_path package) = Some (File (Document (VDict [(''config_version'', VInt 1), (''services'', VDict d)])) m)"
    "list_all (\<lambda>(n, x). service_name_ok n \<and> as_dict x \<noteq> None) d"
  shows "registry t package = Inr d"
  using assms
  by (simp add: registry_def Let_def is_symlink_def path_exists_def node_at_def read_text_def read_content_def
    decode_content_def document_of_def vget_def dict_get_def get_default_def)

lemma rename_moves:
  "rename_dir source dest s = (r, t) \<Longrightarrow> lnode s source \<noteq> None \<Longrightarrow>
    (r = None \<and> nodes t = moving source dest (nodes s)) \<or> (r \<noteq> None \<and> nodes t = nodes s \<and> faults t = None)"
  by (auto simp: rename_dir_def moving_def elim!: write_op_cases)

lemma dir_node: "is_dir s p \<Longrightarrow> \<not> is_symlink s p \<Longrightarrow> lnode s p = Some Dir"
  by (auto simp: is_dir_def node_at_def is_symlink_def split: option.splits node.splits)

lemma retire_parts:
  assumes "retire_checks s pipe_at package service chain = Inr owned"
  shows "registry s package = Inr owned \<and> owned \<noteq> [] \<and> lnode s (chain_service package chain) = Some Dir"
proof -
  note r = assms [unfolded retire_checks_def Let_def, simplified and_then_Inr_iff check_Inr_iff]
  from r have "registry s package = Inr owned" "has_key owned (''dbus-mqtt-chain-'' @ chain)"
    "\<not> is_symlink s (chain_service package chain)" "is_dir s (chain_service package chain)"
    unfolding chain_service_def by blast+
  then show ?thesis using dir_node by (auto simp: has_key_def)
qed

text \<open>After the checks and the two renames.\<close>

lemma retire_moved:
  assumes "retire_checks s pipe_at package service chain = Inr owned" "\<forall>(q, n) \<in> set (nodes s). \<not> below (retired_service package chain) q"
    "in_turn [retire_dir_op (retired_dir package), rename_dir (chain_service package chain) (retired_service package chain)] s = (r, t)"
  shows "\<exists>u. adds {retired_dir package} (\<lambda>n. n = Dir) s u \<and> (\<forall>(q, n) \<in> set (nodes u). \<not> below (retired_service package chain) q)
    \<and> (r = None \<and> nodes t = moving (chain_service package chain) (retired_service package chain) (nodes u)
       \<or> r \<noteq> None \<and> nodes t = nodes u)"
proof -
  obtain r' u where u: "retire_dir_op (retired_dir package) s = (r', u)" by fastforce
  then have a: "adds {retired_dir package} (\<lambda>n. n = Dir) s u"
    by (auto simp: retire_dir_op_def split: if_splits intro: adds_refl make_dir_adds)
  have n: "nodes u = nodes s \<or> nodes u = dict_set (retired_dir package) Dir (nodes s)"
    using u by (auto simp: retire_dir_op_def make_dir_def split: if_splits elim!: write_op_cases)
  have b: "\<forall>(q, n) \<in> set (nodes u). \<not> below (retired_service package chain) q"
    using n assms(2) retire_paths(6) [of package chain] by (auto dest!: in_set_dict_set)
  show ?thesis
  proof (cases r')
    case None
    then have "rename_dir (chain_service package chain) (retired_service package chain) u = (r, t)"
      using assms(3) u by (auto split: prod.splits option.splits)
    moreover have "lnode u (chain_service package chain) = Some Dir" using adds_kept [OF a] retire_parts [OF assms(1)] by blast
    ultimately show ?thesis using rename_moves a b by fastforce
  next
    case (Some e)
    then show ?thesis using assms(3) u a b by auto
  qed
qed

definition registry_left :: "pyobj \<Rightarrow> string \<Rightarrow> content" where
  "registry_left owned chain = Document (VDict [(''config_version'', VInt 1), (''services'', VDict (remaining owned chain))])"

lemma retire_service_parts:
  assumes "retire_service pipe_at package service chain s = (r, t)"
  shows "(r \<noteq> None \<and> t = s) \<or> (\<exists>owned r1 u. retire_checks s pipe_at package service chain = Inr owned
    \<and> in_turn [retire_dir_op (retired_dir package), rename_dir (chain_service package chain) (retired_service package chain)] s = (r1, u)
    \<and> (r1 \<noteq> None \<and> r = r1 \<and> t = u \<or> r1 = None \<and> (\<exists>r2 v. atomic_text (registry_path package) (registry_left owned chain) 384 u = (r2, v)
      \<and> (r2 = None \<and> r = None \<and> t = v \<or> r2 \<noteq> None \<and> r \<noteq> None
        \<and> (\<exists>r3. rename_dir (retired_service package chain) (chain_service package chain) v = (r3, t))))))"
proof (cases "retire_checks s pipe_at package service chain")
  case (Inl e)
  then show ?thesis using assms by (auto simp: retire_service_def Let_def)
next
  case (Inr owned)
  obtain r1 u where u: "in_turn [retire_dir_op (retired_dir package), rename_dir (chain_service package chain) (retired_service package chain)] s = (r1, u)"
    by fastforce
  obtain r2 v where v: "atomic_text (registry_path package) (registry_left owned chain) 384 u = (r2, v)" by fastforce
  obtain r3 w where w: "rename_dir (retired_service package chain) (chain_service package chain) v = (r3, w)" by fastforce
  note parts = Inr u [unfolded chain_service_def retired_service_def] v [unfolded registry_left_def remaining_def]
    w [unfolded chain_service_def retired_service_def]
  have "(r, t) = (case r1 of Some e \<Rightarrow> (Some e, u) | None \<Rightarrow> (case r2 of None \<Rightarrow> (None, v)
      | Some e \<Rightarrow> (case r3 of None \<Rightarrow> (Some e, w) | Some e' \<Rightarrow> (Some e', w))))"
    unfolding assms [symmetric] retire_service_def Let_def
    by (simp only: parts sum.case prod.case split: option.split)
  then show ?thesis using Inr u v w by (cases r1; cases r2; cases r3) auto
qed

lemma retire_failed:
  assumes "retire_service pipe_at package service chain s = (Some e, t)" "\<forall>(q, n) \<in> set (nodes s). \<not> below (retired_service package chain) q"
  shows "payload t p = payload s p"
proof (cases "t = s")
  case False
  let ?source = "chain_service package chain" and ?dest = "retired_service package chain"
  from retire_service_parts [OF assms(1)] False obtain owned r1 u where
    c: "retire_checks s pipe_at package service chain = Inr owned" and
    u: "in_turn [retire_dir_op (retired_dir package), rename_dir ?source ?dest] s = (r1, u)" and
    rest: "r1 \<noteq> None \<and> t = u \<or> r1 = None \<and> (\<exists>r2 v r3. atomic_text (registry_path package) (registry_left owned chain) 384 u = (Some r2, v)
      \<and> rename_dir ?dest ?source v = (r3, t))"
    by auto
  from retire_moved [OF c assms(2) u] obtain u' where
    a: "adds {retired_dir package} (\<lambda>n. n = Dir) s u'" and b: "\<forall>(q, n) \<in> set (nodes u'). \<not> below ?dest q" and
    m: "r1 = None \<and> nodes u = moving ?source ?dest (nodes u') \<or> r1 \<noteq> None \<and> nodes u = nodes u'" by auto
  have dirs: "payload u' p = payload s p" using a by (auto simp: adds_def payload_def dest!: spec [of _ p])
  note f = retire_parts [OF c]
  have "nodes t = nodes u'"
  proof (cases r1)
    case None
    then obtain r2 v r3 where v: "atomic_text (registry_path package) (registry_left owned chain) 384 u = (Some r2, v)"
      "rename_dir ?dest ?source v = (r3, t)" using rest by auto
    have nu: "nodes u = moving ?source ?dest (nodes u')" using m None by simp
    have "lnode u (registry_path package) = lnode u' (registry_path package)"
      unfolding lnode_def nu by (rule moving_other) (rule retire_paths)+
    moreover obtain x y where "lnode s (registry_path package) = Some (File x y)" using owned_registry_file f by blast
    ultimately have "lnode u (registry_path package) \<noteq> Some Dir" using adds_kept [OF a] by auto
    then have "write_op (dict_set (registry_path package) (File (registry_left owned chain) 384)) u = (Some r2, v)"
      using v(1) by (simp add: atomic_text_def)
    then have nv: "nodes v = nodes u" "faults v = None" by (auto elim!: write_op_cases)
    have "lnode u' ?source = Some Dir" using adds_kept [OF a] f by blast
    then have "lnode v ?dest = Some Dir"
      using moving_lookup [OF b, of ?source "[]"] nu nv(1) by (simp add: lnode_def)
    then have "nodes t = moving ?dest ?source (nodes v)"
      using v(2) nv(2) by (auto simp: rename_dir_def write_op_unfaulted moving_def)
    then show ?thesis using nv(1) nu moving_back [OF b] by simp
  qed (use m rest in auto)
  then show ?thesis using dirs by (simp add: payload_def lnode_def)
qed simp

lemma retire_done:
  assumes "retire_service pipe_at package service chain s = (None, t)" "\<forall>(q, n) \<in> set (nodes s). \<not> below (retired_service package chain) q"
    "registry s package = Inr owned"
  shows "lnode t (retired_service package chain @ q) = lnode s (chain_service package chain @ q)
    \<and> lnode t (chain_service package chain @ q) = None \<and> registry t package = Inr (remaining owned chain)"
proof -
  let ?source = "chain_service package chain" and ?dest = "retired_service package chain"
  from retire_service_parts [OF assms(1)] assms(3) obtain u where
    c: "retire_checks s pipe_at package service chain = Inr owned" and
    u: "in_turn [retire_dir_op (retired_dir package), rename_dir ?source ?dest] s = (None, u)" and
    w: "atomic_text (registry_path package) (registry_left owned chain) 384 u = (None, t)"
    using retire_parts by fastforce
  from retire_moved [OF c assms(2) u] obtain u' where
    a: "adds {retired_dir package} (\<lambda>n. n = Dir) s u'" and b: "\<forall>(q, n) \<in> set (nodes u'). \<not> below ?dest q" and
    nu: "nodes u = moving ?source ?dest (nodes u')" by auto
  have nt: "nodes t = dict_set (registry_path package) (File (registry_left owned chain) 384) (nodes u)"
    using w by (auto simp: atomic_text_def split: if_splits elim!: write_op_cases)
  have other: "\<not> below ?dest (registry_path package)" "\<not> below ?source (registry_path package)" by (rule retire_paths)+
  have apart: "?dest @ q \<noteq> registry_path package" "?source @ q \<noteq> registry_path package"
    using other below_append by metis+
  have "retired_dir package \<noteq> ?source @ q"
    by (auto simp: retired_dir_def chain_service_def service_dir_def)
  then have same: "lnode u' (?source @ q) = lnode s (?source @ q)" using a unfolding adds_def by (metis singletonD)
  have "lnode t (?dest @ q) = lnode s (?source @ q)"
    using moving_lookup [OF b, of ?source q] apart(1) same by (auto simp: lnode_def nt nu)
  moreover have "lnode t (?source @ q) = None"
    using moving_gone [OF retire_paths(1,2,3)] apart(2) by (auto simp: lnode_def nt nu)
  moreover have "registry t package = Inr (remaining owned chain)"
  proof (rule registry_read_back)
    show "lnode t (registry_path package) = Some (File (Document (VDict [(''config_version'', VInt 1), (''services'', VDict (remaining owned chain))])) 384)"
      by (simp add: lnode_def nt registry_left_def)
    show "list_all (\<lambda>(n, x). service_name_ok n \<and> as_dict x \<noteq> None) (remaining owned chain)"
      using owned_names [OF assms(3)] by (auto simp: remaining_def list_all_iff)
  qed
  ultimately show ?thesis by simp
qed
end
