(* ===== verification/InstallProps.thy ===== *)
theory InstallProps
  imports InstallRetire TopologyProps
begin

text \<open>
  What the installer promises: launchers that run exactly the planned command, identities that
  collide with nothing, an application that either completes its launchers or restores every file,
  and a retirement that is undone when it cannot be recorded.
\<close>

section \<open>Launchers\<close>

lemma launcher_words: "plain_word ''#!/bin/sh''" "plain_word ''exec''" "plain_word ''2>&1''" "plain_word ''cd''" "plain_word ''||''"
  "plain_word ''exit''" "plain_word ''1''" "shell_space (CHR 0x20)" "shell_space (CHR 0x0A)"
  by code_simp+

lemma launcher_text: "launcher package argv = ''#!/bin/sh'' @ CHR 0x0A # (''exec'' @ CHR 0x20 # (''2>&1'' @ CHR 0x0A # (''cd'' @ CHR 0x20 #
    (shlex_quote (path_text package) @ CHR 0x20 # (''||'' @ CHR 0x20 # (''exit'' @ CHR 0x20 # (''1'' @ CHR 0x0A # (''exec'' @ CHR 0x20 #
    (shlex_join argv @ [CHR 0x0A])))))))))"
  by (simp add: launcher_def newline_def)

lemma launcher_split: "shlex_split (launcher package argv)
    = Inr ([''#!/bin/sh'', ''exec'', ''2>&1'', ''cd'', path_text package, ''||'', ''exit'', ''1'', ''exec''] @ argv)"
proof -
  note lex = lex_plain_word lex_quoted_word launcher_words lex_joined and_then_simps
  show ?thesis unfolding shlex_split_def launcher_text by (simp only: lex) simp
qed

section \<open>Plans\<close>

lemma guard_Inr: "(if b then Inl e else r) = Inr y \<longleftrightarrow> \<not> b \<and> r = Inr y"
  by simp

lemma build_plan_parts:
  assumes "build_plan sha uni s inp manifest live = Inr plan"
  shows "\<exists>cs owned broker. load_manifest uni (pi_second inp) = Inr cs \<and> broker_of s (pi_options inp) = Inr broker \<and> registry s (pi_package inp) = Inr owned
    \<and> mapM (plan_service (pi_package inp) (pi_log inp) broker manifest) cs = Inr (ip_services plan)
    \<and> foldM (\<lambda>n u. check_runner s (pi_package inp) owned (ip_services plan) n) (runner_names s (pi_package inp)) () = Inr ()
    \<and> (\<forall>ls. live = Some ls \<longrightarrow> foldM (\<lambda>l u. check (\<not> live_conflict owned (ip_services plan) l)
       (ValueError (''identity conflicts with live battery service '' @ fst l))) ls () = Inr ())"
proof -
  note r = assms [unfolded build_plan_def Let_def, simplified guard_Inr and_then_Inr_iff]
  from r obtain first cs third owned broker services where
    "load_manifest uni (pi_second inp) = Inr cs" "broker_of s (pi_options inp) = Inr broker" "registry s (pi_package inp) = Inr owned"
    "mapM (plan_service (pi_package inp) (pi_log inp) broker manifest) cs = Inr services"
    "foldM (\<lambda>n u. check_runner s (pi_package inp) owned services n) (runner_names s (pi_package inp)) () = Inr ()"
    "(case live of None \<Rightarrow> Inr () | Some ls \<Rightarrow> foldM (\<lambda>l u. check (\<not> live_conflict owned services l)
            (ValueError (''identity conflicts with live battery service '' @ fst l))) ls ()) = Inr ()"
    "ip_services plan = services"
    by auto
  then show ?thesis by (intro exI [of _ cs] exI [of _ owned] exI [of _ broker]) auto
qed

lemma plan_service_fields:
  assumes "plan_service package logs broker manifest c = Inr sp"
  shows "sp_name sp = service_name c" "sp_suffix sp = service_suffix c" "sp_instance sp = device_instance c"
    "sp_run sp = launcher package (service_argv broker manifest (sp_chain sp))" "sp_output sp = chain_output c"
  using assms by (auto simp: plan_service_def)

lemma planned_services:
  assumes "mapM (plan_service package logs broker manifest) cs = Inr services"
  shows "map sp_name services = map service_name cs \<and> map sp_suffix services = map service_suffix cs
    \<and> map sp_instance services = map device_instance cs"
  using assms by (induction cs arbitrary: services) (auto dest: plan_service_fields)

lemma planned_distinct:
  assumes "mapM (plan_service package logs broker manifest) cs = Inr services" "manifest_wf cs"
  shows "distinct (map sp_name services) \<and> distinct (map sp_suffix services) \<and> distinct (map sp_instance services)"
proof -
  have "distinct (map service_name cs)"
    using assms(2) by (auto simp: manifest_wf_def distinct_map service_name_def inj_on_def)
  then show ?thesis using planned_services [OF assms(1)] assms(2) by (simp add: manifest_wf_def)
qed

lemma planned_launcher:
  "mapM (plan_service package logs broker manifest) cs = Inr services \<Longrightarrow> sp \<in> set services \<Longrightarrow>
    sp_run sp = launcher package (service_argv broker manifest (sp_chain sp))"
  by (induction cs arbitrary: services) (auto dest: plan_service_fields(4))

lemma runner_unrelated:
  assumes "check_runner s package owned services name = Inr ()" "\<not> has_key owned name"
    "read_text s (launcher_path package name) = Inr (Text x, m)" "runner_identity x = Inr (sfx, inst)" "sp \<in> set services"
  shows "name \<noteq> sp_name sp \<and> sfx \<noteq> Some (sp_suffix sp) \<and> inst \<noteq> Some (sp_instance sp)"
  using assms by (auto simp: check_runner_def runner_conflict_def list_ex_iff)

text \<open>C40: Every launcher of a plan, read as shell words, changes to the package directory and runs exactly the planned
  command: the broker, the manifest's path and the chain's name arrive as single words whatever characters they hold.\<close>

theorem launcher_quoted:
  assumes "build_plan sha uni s inp manifest live = Inr plan" "sp \<in> set (ip_services plan)"
  shows "\<exists>broker. broker_of s (pi_options inp) = Inr broker \<and> shlex_split (sp_run sp)
    = Inr ([''#!/bin/sh'', ''exec'', ''2>&1'', ''cd'', path_text (pi_package inp), ''||'', ''exit'', ''1'', ''exec'',
        ''python3'', ''dbus-mqtt-battery.py'', ''--broker'', broker, ''--topology'', path_text manifest, ''--chain'', sp_chain sp])"
  using build_plan_parts [OF assms(1)] planned_launcher assms(2) by (auto simp: launcher_split service_argv_def)

text \<open>C24: A plan made against the live services never reuses an identity: its services have distinct names, suffixes
  and instances, a live battery service shares a suffix or an instance with a planned one only when it is that very
  service, already owned, and a launcher that is not owned shares no name, suffix or instance with any.\<close>

theorem plan_identities_safe:
  assumes "build_plan sha uni s inp manifest (Some ls) = Inr plan" "registry s (pi_package inp) = Inr owned"
  shows "distinct (map sp_name (ip_services plan)) \<and> distinct (map sp_suffix (ip_services plan))
    \<and> distinct (map sp_instance (ip_services plan))
    \<and> (\<forall>l \<in> set ls. \<forall>sp \<in> set (ip_services plan). fst l = sp_suffix sp \<or> snd l = sp_instance sp \<longrightarrow> same_owned owned sp l)
    \<and> (\<forall>name \<in> set (runner_names s (pi_package inp)). \<forall>x m sfx inst. \<not> has_key owned name \<longrightarrow>
        read_text s (launcher_path (pi_package inp) name) = Inr (Text x, m) \<longrightarrow> runner_identity x = Inr (sfx, inst) \<longrightarrow>
        (\<forall>sp \<in> set (ip_services plan). name \<noteq> sp_name sp \<and> sfx \<noteq> Some (sp_suffix sp) \<and> inst \<noteq> Some (sp_instance sp)))"
proof -
  obtain cs broker where p: "load_manifest uni (pi_second inp) = Inr cs"
    "mapM (plan_service (pi_package inp) (pi_log inp) broker manifest) cs = Inr (ip_services plan)"
    "foldM (\<lambda>n u. check_runner s (pi_package inp) owned (ip_services plan) n) (runner_names s (pi_package inp)) () = Inr ()"
    "foldM (\<lambda>l u. check (\<not> live_conflict owned (ip_services plan) l)
       (ValueError (''identity conflicts with live battery service '' @ fst l))) ls () = Inr ()"
    using build_plan_parts [OF assms(1)] assms(2) by auto
  have "same_owned owned sp l" if "l \<in> set ls" "sp \<in> set (ip_services plan)" "fst l = sp_suffix sp \<or> snd l = sp_instance sp" for l sp
    using foldM_unit [THEN iffD1, OF p(4), THEN bspec, OF that(1)] that(2,3) by (auto simp: live_conflict_def list_ex_iff)
  moreover note runner_unrelated [OF foldM_unit [THEN iffD1, OF p(3), THEN bspec]]
  ultimately show ?thesis
    using planned_distinct [OF p(2) load_manifest_ok [OF p(1)]] by blast
qed

section \<open>Applying and retiring\<close>

text \<open>C39: A run that ends without an error has installed everything: every launcher, the registry and every readiness
  marker with its planned content and mode, and for every service the link that leads to the directory of that service,
  whether the run made it or found it.\<close>

theorem apply_completes:
  assumes "layout_ok plan" "recoverable plan s" "list_all (read_exactly s) (file_paths plan)"
    "apply_plan sha plan manifest s = (None, t)"
  shows "(\<forall>(p, c, m) \<in> set (plan_files plan). lnode t p = Some (File c m))
    \<and> (\<forall>sp \<in> set (ip_services plan).
        lnode t (ip_service plan @ [sp_name sp]) = Some (Link (ip_package plan @ [''service'', sp_name sp])))"
  using apply_outcome [OF assms] by (auto simp: installed_def linked_def service_dir_def)

text \<open>C10: Application is all or nothing: when one write fails, wherever it is, the run either puts every file and link
  back as it was, or links had appeared already and every launcher, registry and marker is complete.\<close>

theorem apply_all_or_nothing:
  assumes "layout_ok plan" "recoverable plan s" "list_all (read_exactly s) (file_paths plan)"
    "apply_plan sha plan manifest s = (Some e, t)"
  shows "(\<forall>p. payload t p = payload s p)
    \<or> e = interrupted \<and> (\<forall>(p, c, m) \<in> set (plan_files plan). lnode t p = Some (File c m))"
  using apply_outcome [OF assms] by (auto simp: installed_def)

text \<open>Retiring a service moves its whole directory aside and takes exactly its entry out of the registry.\<close>

theorem retire_moves_service:
  assumes "retire_service pipe_at package service chain s = (None, t)" "registry s package = Inr owned"
    "list_all (\<lambda>(q, n). \<not> below (retired_dir package @ [''dbus-mqtt-chain-'' @ chain]) q) (nodes s)"
  shows "lnode t (retired_dir package @ (''dbus-mqtt-chain-'' @ chain) # q) = lnode s (service_dir package (''dbus-mqtt-chain-'' @ chain) @ q)
    \<and> lnode t (service_dir package (''dbus-mqtt-chain-'' @ chain) @ q) = None
    \<and> registry t package = Inr (filter (\<lambda>(n, v). n \<noteq> ''dbus-mqtt-chain-'' @ chain) owned)"
  using retire_done [OF assms(1) _ assms(2), of q] assms(3)
  by (simp add: retired_service_def chain_service_def remaining_def list_all_iff)

text \<open>A retirement that fails, at a check or at a write, leaves every file and link where it was.\<close>

theorem retire_undone:
  assumes "retire_service pipe_at package service chain s = (Some e, t)"
    "list_all (\<lambda>(q, n). \<not> below (retired_dir package @ [''dbus-mqtt-chain-'' @ chain]) q) (nodes s)"
  shows "payload t p = payload s p"
  by (rule retire_failed [OF assms(1)]) (use assms(2) in \<open>simp add: retired_service_def list_all_iff\<close>)

section \<open>A site\<close>

definition site :: fs where
  "site = \<lparr>nodes = [([''data''], Dir), ([''data'', ''battery''], Dir), ([''data'', ''battery'', ''service''], Dir),
     ([''data'', ''battery'', ''service'', ''old''], Dir),
     ([''data'', ''battery'', ''service'', ''old'', ''run''], File (Text ''exec python3 x.py --service-suffix old --instance 12'') 493),
     ([''data'', ''topology.json''], File (Text offline_manifest) 420),
     ([''service''], Dir)], faults = None\<rparr>"

definition site_input :: plan_input where
  "site_input = \<lparr>pi_package = [''data'', ''battery''], pi_service = [''service''], pi_log = [''var'', ''log''],
     pi_options = [''data'', ''options''], pi_first = Inr offline_manifest, pi_second = Inr offline_manifest,
     pi_third = Inr offline_manifest\<rparr>"

definition site_plan :: "install_plan res" where
  "site_plan = build_plan (\<lambda>x. ''digest'') (\<lambda>_. True) site site_input [''data'', ''topology.json''] (Some [(''other'', 3)])"

definition offline_chain :: chain_topology where
  "offline_chain = \<lparr>chain_id = ''h'', topic_prefix = ''b'', telemetry_schema = 2,
     members = [\<lparr>bms_id = 7, member_cells = 8, member_temperatures = 1, capacity_ah = None,
       member_charge_current = None, member_discharge_current = None\<rparr>,
     \<lparr>bms_id = 3, member_cells = 4, member_temperatures = 1, capacity_ah = None,
       member_charge_current = None, member_discharge_current = None\<rparr>],
     service_suffix = ''h'', device_instance = 600, product_name = ''h'', chain_output = ''offline'',
     protection_profile = None, system_voltage_limit = None\<rparr>"

lemma offline_parsed: "parse_manifest (\<lambda>_. True) offline_document = Inr [offline_chain]"
  by code_simp

lemma site_loads: "load_manifest (\<lambda>_. True) (Inr offline_manifest) = Inr [offline_chain]"
  using offline_parsed offline_parses offline_valid
  by (simp add: load_manifest_def json_loads_bytes_def Let_def MAX_MANIFEST_BYTES_def)

lemma site_paths: "check_paths site [''data'', ''battery''] [''service''] [''var'', ''log''] [''dbus-mqtt-chain-h''] = Inr ()"
  by code_simp

lemma site_read: "registry site [''data'', ''battery''] = Inr []"
  "broker_of site [''data'', ''options''] = Inr ''127.0.0.1''"
  "runner_names site [''data'', ''battery''] = [''old'']"
  "\<not> is_symlink site [''data'', ''topology.json'']" "is_file site [''data'', ''topology.json'']" "resolve site [''data'', ''battery''] = [''data'', ''battery'']"
  by code_simp+

lemma site_identity: "read_text site (launcher_path [''data'', ''battery''] ''old'') = Inr (Text ''exec python3 x.py --service-suffix old --instance 12'', 493)"
  "runner_identity ''exec python3 x.py --service-suffix old --instance 12'' = Inr (Some ''old'', Some 12)"
  by code_simp+

lemma site_service: "plan_service [''data'', ''battery''] [''var'', ''log''] ''127.0.0.1'' [''data'', ''topology.json''] offline_chain
  = Inr \<lparr>sp_name = service_name offline_chain, sp_chain = ''h'', sp_suffix = ''h'', sp_instance = 600,
       sp_cells = [8, 4], sp_output = ''offline'', sp_charge_voltage = None, sp_system_voltage = None,
       sp_run = launcher [''data'', ''battery''] (service_argv ''127.0.0.1'' [''data'', ''topology.json''] ''h''),
       sp_log_run = log_launcher [''var'', ''log''] (service_name offline_chain)\<rparr>"
  by (simp add: plan_service_def offline_chain_def)

lemma offline_chain_fields: "chain_id offline_chain = ''h''"
  by (simp add: offline_chain_def)

lemma site_planned: "\<exists>plan. site_plan = Inr plan \<and> length (ip_services plan) = 1"
  by (simp add: site_plan_def build_plan_def site_input_def site_loads site_paths site_read site_service
    check_runner_def site_identity runner_conflict_def live_conflict_def Let_def has_key_def dict_keys_def
    offline_chain_fields service_name_def)

text \<open>The same site with its plan's directories and a managed service to install, and one to retire.\<close>

definition managed_service :: service_plan where
  "managed_service = \<lparr>sp_name = ''dbus-mqtt-chain-h'', sp_chain = ''h'', sp_suffix = ''h'', sp_instance = 600, sp_cells = [8, 8],
     sp_output = ''managed'', sp_charge_voltage = None, sp_system_voltage = None,
     sp_run = launcher [''data'', ''battery''] (service_argv ''127.0.0.1'' [''data'', ''topology.json''] ''h''),
     sp_log_run = log_launcher [''var'', ''log''] ''dbus-mqtt-chain-h''\<rparr>"

definition managed_plan :: install_plan where
  "managed_plan = \<lparr>ip_manifest = [''data'', ''topology.json''], ip_digest = ''digest'', ip_package = [''data'', ''battery''],
     ip_service = [''service''], ip_log = [''var'', ''log''], ip_services = [managed_service], ip_live_checked = True\<rparr>"

lemma managed_layout: "layout_ok managed_plan"
  by code_simp

lemma site_recoverable: "recoverable managed_plan site \<and> list_all (read_exactly site) (file_paths managed_plan)"
  by code_simp

lemma site_applied: "fst (apply_plan (\<lambda>_. ''digest'') managed_plan (Inr []) site) = None"
  by code_simp

lemma faulty_applied: "fst (apply_plan (\<lambda>_. ''digest'') managed_plan (Inr []) (site\<lparr>faults := Some 8\<rparr>)) = Some io_error"
  by code_simp

theorem launcher_quoted_witness:
  "\<exists>plan sp. site_plan = Inr plan \<and> sp \<in> set (ip_services plan) \<and> shlex_split (sp_run sp)
    = Inr ([''#!/bin/sh'', ''exec'', ''2>&1'', ''cd'', ''/data/battery'', ''||'', ''exit'', ''1'', ''exec'', ''python3'', ''dbus-mqtt-battery.py'',
        ''--broker'', ''127.0.0.1'', ''--topology'', ''/data/topology.json'', ''--chain'', sp_chain sp])"
proof -
  obtain plan sp where p: "site_plan = Inr plan" "sp \<in> set (ip_services plan)"
    using site_planned by (auto simp: length_Suc_conv)
  have t: "path_text [''data'', ''battery''] = ''/data/battery''" "path_text [''data'', ''topology.json''] = ''/data/topology.json''"
    by code_simp+
  show ?thesis
    using launcher_quoted [OF p(1) [unfolded site_plan_def] p(2)] p
    by (auto simp: site_input_def site_read t)
qed

theorem plan_identities_safe_witness:
  "\<exists>plan. site_plan = Inr plan \<and> distinct (map sp_suffix (ip_services plan))
    \<and> \<not> (\<exists>sp \<in> set (ip_services plan). sp_suffix sp = ''old'' \<or> sp_instance sp = 12 \<or> sp_name sp = ''old'')"
proof -
  obtain plan where p: "site_plan = Inr plan" using site_planned by auto
  have o: "registry site (pi_package site_input) = Inr []" by (simp add: site_input_def site_read)
  have "distinct (map sp_suffix (ip_services plan))
    \<and> (\<forall>sp \<in> set (ip_services plan). ''old'' \<noteq> sp_name sp \<and> Some ''old'' \<noteq> Some (sp_suffix sp) \<and> Some (12 :: int) \<noteq> Some (sp_instance sp))"
    using plan_identities_safe [OF p [unfolded site_plan_def] o]
    by (simp add: site_input_def site_read site_identity has_key_def)
  then show ?thesis using p by (intro exI [of _ plan]) auto
qed

theorem apply_completes_witness:
  "\<exists>t. apply_plan (\<lambda>_. ''digest'') managed_plan (Inr []) site = (None, t)
    \<and> lnode t [''service'', ''dbus-mqtt-chain-h''] = Some (Link [''data'', ''battery'', ''service'', ''dbus-mqtt-chain-h''])"
proof -
  obtain t where t: "apply_plan (\<lambda>_. ''digest'') managed_plan (Inr []) site = (None, t)"
    using site_applied by (metis fst_conv surj_pair)
  show ?thesis
    using apply_completes [OF managed_layout conjunct1 [OF site_recoverable] conjunct2 [OF site_recoverable] t] t
    by (auto simp: managed_plan_def managed_service_def)
qed

lemma faulty_recoverable: "recoverable managed_plan (site\<lparr>faults := Some 8\<rparr>)"
  "list_all (read_exactly (site\<lparr>faults := Some 8\<rparr>)) (file_paths managed_plan)"
  by code_simp+

theorem apply_all_or_nothing_witness:
  "\<exists>t. apply_plan (\<lambda>_. ''digest'') managed_plan (Inr []) (site\<lparr>faults := Some 8\<rparr>) = (Some io_error, t)
    \<and> payload t [''data'', ''battery'', ''service'', ''dbus-mqtt-chain-h'', ''run''] = None"
proof -
  obtain t where t: "apply_plan (\<lambda>_. ''digest'') managed_plan (Inr []) (site\<lparr>faults := Some 8\<rparr>) = (Some io_error, t)"
    using faulty_applied by (metis fst_conv surj_pair)
  have "payload (site\<lparr>faults := Some 8\<rparr>) [''data'', ''battery'', ''service'', ''dbus-mqtt-chain-h'', ''run''] = None" by code_simp
  then show ?thesis
    using apply_all_or_nothing [OF managed_layout faulty_recoverable t] t
    by (auto simp: io_error_def interrupted_def)
qed

definition owned_site :: fs where
  "owned_site = \<lparr>nodes = [([''data''], Dir), ([''data'', ''battery''], Dir), ([''data'', ''battery'', ''service''], Dir),
     ([''data'', ''battery'', ''service'', ''dbus-mqtt-chain-h''], Dir),
     ([''data'', ''battery'', ''service'', ''dbus-mqtt-chain-h'', ''run''], File (Text ''exec'') 493),
     ([''data'', ''battery'', ''topology-services.json''],
       File (Document (VDict [(''config_version'', VInt 1), (''services'', VDict [(''dbus-mqtt-chain-h'', VDict [])])])) 384)],
     faults = None\<rparr>"

lemma owned_retired: "fst (retire_service (\<lambda>_. NoPipe) [''data'', ''battery''] [''service''] ''h'' owned_site) = None"
  "fst (retire_service (\<lambda>_. NoPipe) [''data'', ''battery''] [''service''] ''h'' (owned_site\<lparr>faults := Some 2\<rparr>)) = Some io_error"
  "registry owned_site [''data'', ''battery''] = Inr [(''dbus-mqtt-chain-h'', VDict [])]"
  "list_all (\<lambda>(q, n). \<not> below (retired_dir [''data'', ''battery''] @ [''dbus-mqtt-chain-'' @ ''h'']) q) (nodes owned_site)"
  "list_all (\<lambda>(q, n). \<not> below (retired_dir [''data'', ''battery''] @ [''dbus-mqtt-chain-'' @ ''h'']) q) (nodes (owned_site\<lparr>faults := Some 2\<rparr>))"
  by code_simp+

theorem retire_moves_service_witness:
  "\<exists>t. retire_service (\<lambda>_. NoPipe) [''data'', ''battery''] [''service''] ''h'' owned_site = (None, t)
    \<and> registry t [''data'', ''battery''] = Inr []"
proof -
  obtain t where t: "retire_service (\<lambda>_. NoPipe) [''data'', ''battery''] [''service''] ''h'' owned_site = (None, t)"
    using owned_retired(1) by (metis fst_conv surj_pair)
  show ?thesis using retire_moves_service [OF t owned_retired(3,4)] t by simp
qed

theorem retire_undone_witness:
  "\<exists>t. retire_service (\<lambda>_. NoPipe) [''data'', ''battery''] [''service''] ''h'' (owned_site\<lparr>faults := Some 2\<rparr>) = (Some io_error, t)
    \<and> payload t [''data'', ''battery'', ''service'', ''dbus-mqtt-chain-h'', ''run''] = Some (File (Text ''exec'') 493)"
proof -
  obtain t where t: "retire_service (\<lambda>_. NoPipe) [''data'', ''battery''] [''service''] ''h'' (owned_site\<lparr>faults := Some 2\<rparr>) = (Some io_error, t)"
    using owned_retired(2) by (metis fst_conv surj_pair)
  have "payload (owned_site\<lparr>faults := Some 2\<rparr>) [''data'', ''battery'', ''service'', ''dbus-mqtt-chain-h'', ''run''] = Some (File (Text ''exec'') 493)"
    by code_simp
  then show ?thesis using retire_undone [OF t owned_retired(5)] t by metis
qed

end
