(* ===== verification/JsonText.thy ===== *)
theory JsonText
  imports Topology
begin

text \<open>
  \<open>json.dumps\<close> as the release scripts call it: keys sorted, ASCII only, either compact
  (the text every identity digest is taken of) or indented by two (what the ledger stores).
  The shortest decimal text of a float (\<open>float.__repr__\<close>) is the parameter \<open>ft\<close>.  The round trip
  \<open>loads_dumps\<close> says that reading a printed float-free value gives the value with its keys sorted,
  so that a digest of the text binds the value.
\<close>

section \<open>Code points\<close>

text \<open>The code points of a UTF-8 text; \<^const>\<open>utf8_encode\<close> is the inverse on one code point.\<close>

fun code_points :: "string \<Rightarrow> int list" where
  "code_points [] = []"
| "code_points (a # s) = (let n = code a; c = (\<lambda>x. code x - 128) in
     if n < 192 then n # code_points s
     else if n < 224 then (case s of b # t \<Rightarrow> ((n - 192) * 64 + c b) # code_points t | [] \<Rightarrow> [])
     else if n < 240 then (case s of b # d # t \<Rightarrow> ((n - 224) * 4096 + c b * 64 + c d) # code_points t | _ \<Rightarrow> [])
     else (case s of b # d # e # t \<Rightarrow> ((n - 240) * 262144 + c b * 4096 + c d * 64 + c e) # code_points t | _ \<Rightarrow> []))"

definition hex_digit :: "int \<Rightarrow> char" where
  "hex_digit n = (if n < 10 then chr (48 + n) else chr (87 + n))"

definition hex_quad :: "int \<Rightarrow> string" where
  "hex_quad n = [hex_digit (n div 4096 mod 16), hex_digit (n div 256 mod 16),
     hex_digit (n div 16 mod 16), hex_digit (n mod 16)]"

text \<open>One code point between the quotes (\<open>ensure_ascii=True\<close>).\<close>

definition backslash :: "string \<Rightarrow> string" where
  "backslash s = CHR 0x5C # s"

definition escape_point :: "int \<Rightarrow> string" where
  "escape_point n =
     (if n = 34 then backslash [CHR 0x22] else if n = 92 then backslash [CHR 0x5C]
      else if n = 10 then backslash ''n'' else if n = 13 then backslash ''r''
      else if n = 9 then backslash ''t'' else if n = 12 then backslash ''f''
      else if n = 8 then backslash ''b''
      else if 32 \<le> n \<and> n < 127 then [chr n]
      else if n < 65536 then backslash (CHR ''u'' # hex_quad n)
      else backslash (CHR ''u'' # hex_quad (55296 + (n - 65536) div 1024))
         @ backslash (CHR ''u'' # hex_quad (56320 + (n - 65536) mod 1024)))"

definition json_string :: "string \<Rightarrow> string" where
  "json_string s = CHR 0x22 # concat (map escape_point (code_points s)) @ [CHR 0x22]"

section \<open>Values\<close>

text \<open>The separators of the two call styles: \<open>separators=(",", ":")\<close> and \<open>indent=2\<close>.\<close>

datatype layout = Compact | Indented

fun gap :: "layout \<Rightarrow> nat \<Rightarrow> string" where
  "gap Compact n = []"
| "gap Indented n = CHR 0x0A # replicate (2 * n) (CHR '' '')"

fun colon :: "layout \<Rightarrow> string" where
  "colon Compact = '':''"
| "colon Indented = '': ''"

definition surround :: "layout \<Rightarrow> nat \<Rightarrow> char \<Rightarrow> char \<Rightarrow> string list \<Rightarrow> string" where
  "surround l n a z items = (if items = [] then [a, z]
     else a # gap l (Suc n) @ join_with (CHR '','' # gap l (Suc n)) items @ gap l n @ [z])"

fun dump :: "(pyfloat \<Rightarrow> string) \<Rightarrow> layout \<Rightarrow> nat \<Rightarrow> pyval \<Rightarrow> string" where
  "dump ft l n VNone = ''null''"
| "dump ft l n (VBool b) = (if b then ''true'' else ''false'')"
| "dump ft l n (VInt i) = show_int i"
| "dump ft l n (VFloat f) = (case f of NaN \<Rightarrow> ''NaN'' | PInf \<Rightarrow> ''Infinity'' | NInf \<Rightarrow> ''-Infinity'' | Fin x \<Rightarrow> ft f)"
| "dump ft l n (VStr s) = json_string s"
| "dump ft l n (VList vs) = surround l n (CHR ''['') (CHR '']'') (map (dump ft l (Suc n)) vs)"
| "dump ft l n (VDict d) = surround l n (CHR ''{'') (CHR ''}'')
     (map (\<lambda>(k, t). json_string k @ colon l @ t) (sort_key fst (map (\<lambda>(k, v). (k, dump ft l (Suc n) v)) d)))"

text \<open>
  What \<open>dumps\<close> refuses: an integer of more than 4300 digits and, with \<open>allow_nan=False\<close>, a
  float that is not finite.
\<close>

fun dumpable :: "bool \<Rightarrow> pyval \<Rightarrow> bool" where
  "dumpable nan (VInt i) = (length (show_nat \<bar>i\<bar>) \<le> 4300)"
| "dumpable nan (VFloat f) = (nan \<or> is_finite f)"
| "dumpable nan (VList vs) = list_all (dumpable nan) vs"
| "dumpable nan (VDict d) = list_all (\<lambda>(k, v). dumpable nan v) d"
| "dumpable nan _ = True"

definition dumps :: "(pyfloat \<Rightarrow> string) \<Rightarrow> layout \<Rightarrow> bool \<Rightarrow> pyval \<Rightarrow> string res" where
  "dumps ft l nan v = (if dumpable nan v then Inr (dump ft l 0 v) else Inl (ValueError ''not representable''))"

section \<open>Values that print without floats\<close>

text \<open>
  \<open>printable\<close>: every string is UTF-8, every integer can be printed, every object has each key once,
  and there is no float.  \<open>sorted_keys\<close> is the value the reader returns: each object in key order.
\<close>

fun printable :: "pyval \<Rightarrow> bool" where
  "printable (VInt i) = (length (show_nat \<bar>i\<bar>) \<le> 4300)"
| "printable (VFloat f) = False"
| "printable (VStr s) = utf8_valid s"
| "printable (VList vs) = list_all printable vs"
| "printable (VDict d) = (distinct (map fst d) \<and> list_all (\<lambda>(k, v). utf8_valid k \<and> printable v) d)"
| "printable _ = True"

fun sorted_keys :: "pyval \<Rightarrow> pyval" where
  "sorted_keys (VList vs) = VList (map sorted_keys vs)"
| "sorted_keys (VDict d) = VDict (sort_key fst (map (\<lambda>(k, v). (k, sorted_keys v)) d))"
| "sorted_keys v = v"

section \<open>Reading a printed string\<close>

definition scalar :: "int \<Rightarrow> bool" where
  "scalar n = (0 \<le> n \<and> n < 1114112 \<and> \<not> (55296 \<le> n \<and> n < 57344))"

lemma code_bounds: "0 \<le> code c" "code c < 256"
  using of_char_def [of c] unfolding code_def by (cases c; simp add: of_char_def)+

lemma chr_code [simp]: "chr (code c) = c"
  by (simp add: chr_def code_def)

lemma continuation: "is_cont b \<Longrightarrow> \<exists>x. b = chr (128 + x) \<and> code b - 128 = x \<and> 0 \<le> x \<and> x < 64"
  by (auto simp: is_cont_def intro!: exI [of _ "code b - 128"])

lemma digits64:
  assumes "0 \<le> (x :: int)" "x < 64"
  shows "(a * 64 + x) div 64 = a" "(a * 64 + x) mod 64 = x"
  using assms by simp_all

lemma encode_two:
  assumes "2 \<le> p" "p < 32" "0 \<le> x" "x < 64"
  shows "utf8_encode (p * 64 + x) = [chr (192 + p), chr (128 + x)]"
  using assms by (simp add: utf8_encode_def bytes_def)

lemma encode_three:
  assumes "0 \<le> p" "p < 16" "0 \<le> x" "x < 64" "0 \<le> y" "y < 64" "p = 0 \<longrightarrow> 32 \<le> x"
  shows "utf8_encode (p * 4096 + x * 64 + y) = [chr (224 + p), chr (128 + x), chr (128 + y)]"
proof -
  let ?m = "p * 4096 + x * 64 + y"
  have m: "?m = (p * 64 + x) * 64 + y" by simp
  have "?m div 64 = p * 64 + x" "?m mod 64 = y" unfolding m by (rule digits64; fact)+
  moreover have "?m div 4096 = p" using assms by simp
  moreover have "2048 \<le> ?m" "?m < 65536" using assms by (cases "p = 0"; simp)+
  ultimately show ?thesis using assms by (simp add: utf8_encode_def bytes_def)
qed

lemma encode_four:
  assumes "0 \<le> p" "p < 5" "0 \<le> x" "x < 64" "0 \<le> y" "y < 64" "0 \<le> z" "z < 64" "p = 0 \<longrightarrow> 16 \<le> x"
  shows "utf8_encode (p * 262144 + x * 4096 + y * 64 + z) = [chr (240 + p), chr (128 + x), chr (128 + y), chr (128 + z)]"
proof -
  define m where "m = p * 262144 + x * 4096 + y * 64 + z"
  define k where "k = (p * 64 + x) * 64 + y"
  have m: "m = k * 64 + z" and k: "k = (p * 64 + x) * 64 + y" by (simp_all add: m_def k_def)
  have d: "m div 64 = k" "m mod 64 = z" unfolding m by (rule digits64; fact)+
  have e: "k mod 64 = y" "k div 64 = p * 64 + x" unfolding k by (rule digits64; fact)+
  have f: "m div 4096 = p * 64 + x" "m div 262144 = p" using assms(3-8) by (simp_all add: m_def)
  have "65536 \<le> m" using assms by (cases "p = 0"; simp add: m_def)
  then have "utf8_encode m = [chr (240 + p), chr (128 + (p * 64 + x) mod 64), chr (128 + k mod 64), chr (128 + z)]"
    by (simp add: utf8_encode_def bytes_def d f)
  then show ?thesis using assms by (simp add: m_def e)
qed

lemma encode_points:
  "utf8_valid s \<Longrightarrow> concat (map utf8_encode (code_points s)) = s \<and> list_all scalar (code_points s)"
proof (induction s rule: utf8_valid.induct)
  case (2 a s)
  let ?n = "code a"
  consider "?n < 128" | "194 \<le> ?n" "?n < 224" | "224 \<le> ?n" "?n < 240" | "240 \<le> ?n" "?n < 245"
    using "2.prems" by (auto simp: Let_def split: if_splits)
  then show ?case
  proof cases
    case 1
    with 2 show ?thesis by (simp add: utf8_encode_def bytes_def scalar_def code_bounds)
  next
    case 2
    with "2.prems" obtain b t where s: "s = b # t" "is_cont b" "utf8_valid t"
      by (auto split: list.splits)
    obtain x where x: "b = chr (128 + x)" "code b - 128 = x" "0 \<le> x" "x < 64" using continuation [OF s(2)] by blast
    have "utf8_encode ((?n - 192) * 64 + x) = [a, b]"
      using encode_two [of "?n - 192" x] 2 x by simp
    moreover have "scalar ((?n - 192) * 64 + x)" using 2 x by (simp add: scalar_def)
    ultimately show ?thesis using s(1) x 2 "2.IH"(2) [OF _ _ _ s(1)] s(3) by simp
  next
    case 3
    with "2.prems" obtain b c t where s: "s = b # c # t" "is_cont b" "is_cont c" "utf8_valid t"
      "?n = 224 \<longrightarrow> 160 \<le> code b" "?n = 237 \<longrightarrow> code b < 160"
      by (cases s rule: utf8_valid.cases; auto simp: Let_def split: list.splits)
    obtain x where x: "b = chr (128 + x)" "code b - 128 = x" "0 \<le> x" "x < 64" using continuation [OF s(2)] by blast
    obtain y where y: "c = chr (128 + y)" "code c - 128 = y" "0 \<le> y" "y < 64" using continuation [OF s(3)] by blast
    have "utf8_encode ((?n - 224) * 4096 + x * 64 + y) = [a, b, c]"
      using encode_three [of "?n - 224" x y] 3 x y s(5) by simp
    moreover have "scalar ((?n - 224) * 4096 + x * 64 + y)"
    proof (cases "?n = 237")
      case True
      with x y s(6) show ?thesis by (simp add: scalar_def)
    next
      case False
      with 3 have "?n < 237 \<or> 237 < ?n" by auto
      then show ?thesis using 3 x y by (auto simp: scalar_def)
    qed
    ultimately show ?thesis using s(1) x y 3 "2.IH"(3) [OF _ _ _ _ s(1)] s(4) by (simp add: algebra_simps)
  next
    case 4
    with "2.prems" obtain b c d t where s: "s = b # c # d # t" "is_cont b" "is_cont c" "is_cont d" "utf8_valid t"
      "?n = 240 \<longrightarrow> 144 \<le> code b" "?n = 244 \<longrightarrow> code b < 144"
      by (cases s rule: utf8_valid.cases; auto simp: Let_def split: list.splits)
    obtain x where x: "b = chr (128 + x)" "code b - 128 = x" "0 \<le> x" "x < 64" using continuation [OF s(2)] by blast
    obtain y where y: "c = chr (128 + y)" "code c - 128 = y" "0 \<le> y" "y < 64" using continuation [OF s(3)] by blast
    obtain z where z: "d = chr (128 + z)" "code d - 128 = z" "0 \<le> z" "z < 64" using continuation [OF s(4)] by blast
    have "utf8_encode ((?n - 240) * 262144 + x * 4096 + y * 64 + z) = [a, b, c, d]"
      using encode_four [of "?n - 240" x y z] 4 x y z s(6) by simp
    moreover have "scalar ((?n - 240) * 262144 + x * 4096 + y * 64 + z)"
    proof -
      have "65536 \<le> (?n - 240) * 262144 + x * 4096 + y * 64 + z"
        using 4 x y z s(6) by (cases "?n = 240") auto
      moreover have "(?n - 240) * 262144 + x * 4096 + y * 64 + z < 1114112"
        using 4 x y z s(7) by (cases "?n = 244") auto
      ultimately show ?thesis by (simp add: scalar_def)
    qed
    ultimately show ?thesis using s(1) x y z 4 "2.IH"(4) [OF _ _ _ _ _ s(1)] s(5) by (simp add: algebra_simps)
  qed
qed simp

lemma hexval_digit [simp]: "0 \<le> n \<Longrightarrow> n < 16 \<Longrightarrow> hexval (hex_digit n) = Some n"
  by (simp add: hex_digit_def hexval_def Let_def)

lemma hex4_digits:
  "0 \<le> a \<Longrightarrow> a < 16 \<Longrightarrow> 0 \<le> b \<Longrightarrow> b < 16 \<Longrightarrow> 0 \<le> c \<Longrightarrow> c < 16 \<Longrightarrow> 0 \<le> d \<Longrightarrow> d < 16 \<Longrightarrow>
    hex4 (hex_digit a # hex_digit b # hex_digit c # hex_digit d # t) = Some (((a * 16 + b) * 16 + c) * 16 + d, t)"
  by (simp add: hex4_def)

lemma hex4_quad:
  assumes "0 \<le> n" "n < 65536"
  shows "hex4 (hex_quad n @ t) = Some (n, t)"
proof -
  have "n div 4096 mod 16 = n div 4096" using assms by simp
  moreover have "n div 4096 = n div 256 div 16" "n div 256 = n div 16 div 16"
    using zdiv_zmult2_eq [of 16 n 256] zdiv_zmult2_eq [of 16 n 16] by simp_all
  ultimately have "((n div 4096 mod 16 * 16 + n div 256 mod 16) * 16 + n div 16 mod 16) * 16 + n mod 16 = n"
    by (simp only: div_mult_mod_eq)
  then show ?thesis unfolding hex_quad_def append.simps by (subst hex4_digits) (simp_all only: pos_mod_sign pos_mod_bound zero_less_numeral)
qed

lemma unicode_escape_quad:
  assumes "0 \<le> n" "n < 65536" "\<not> (55296 \<le> n \<and> n < 56320)"
  shows "unicode_escape (hex_quad n @ t) = Some (utf8_encode n, t)"
  using assms(3) by (auto simp: unicode_escape_def hex4_quad [OF assms(1,2)])

lemma unicode_escape_pair:
  assumes "65536 \<le> n" "n < 1114112"
  shows "unicode_escape (hex_quad (55296 + (n - 65536) div 1024) @ backslash (CHR ''u'' # hex_quad (56320 + (n - 65536) mod 1024)) @ t)
     = Some (utf8_encode n, t)"
proof -
  define d where "d = n - 65536"
  have d: "0 \<le> d div 1024" "d div 1024 < 1024" "0 \<le> d mod 1024" "d mod 1024 < 1024" "d div 1024 * 1024 + d mod 1024 = d"
    using assms by (auto simp: d_def)
  have h: "hex4 (hex_quad (55296 + d div 1024) @ u) = Some (55296 + d div 1024, u)"
    "hex4 (hex_quad (56320 + d mod 1024) @ u) = Some (56320 + d mod 1024, u)" for u
    using d by (intro hex4_quad; simp)+
  show ?thesis unfolding d_def [symmetric]
    using d by (simp add: unicode_escape_def h backslash_def) (simp add: d_def)
qed

lemma scan_escape:
  assumes "scalar n"
  shows "scan_string (escape_point n @ t) = map_option (\<lambda>(u, q). (utf8_encode n @ u, q)) (scan_string t)"
proof -
  have plain: "scan_string ([chr n] @ t) = map_option (\<lambda>(u, q). (utf8_encode n @ u, q)) (scan_string t)"
    if "32 \<le> n" "n < 127" "n \<noteq> 34" "n \<noteq> 92"
  proof -
    have "chr n \<noteq> CHR 0x22" "chr n \<noteq> CHR 0x5C" "\<not> code (chr n) < 32"
      using that code_chr [of n] by (auto simp: code_def)
    then show ?thesis using that by (simp add: utf8_encode_def bytes_def)
  qed
  have quad: "scan_string (backslash (CHR ''u'' # hex_quad n) @ t) = map_option (\<lambda>(u, q). (utf8_encode n @ u, q)) (scan_string t)"
    if "n < 65536"
  proof -
    have "unicode_escape (hex_quad n @ t) = Some (utf8_encode n, t)"
      using that assms by (intro unicode_escape_quad) (auto simp: scalar_def)
    then show ?thesis by (simp add: backslash_def code_def)
  qed
  consider "n = 34 \<or> n = 92 \<or> n = 10 \<or> n = 13 \<or> n = 9 \<or> n = 12 \<or> n = 8"
    | "32 \<le> n" "n < 127" "n \<noteq> 34" "n \<noteq> 92"
    | "n < 65536" "\<not> (32 \<le> n \<and> n < 127)" "n \<noteq> 10" "n \<noteq> 13" "n \<noteq> 9" "n \<noteq> 12" "n \<noteq> 8"
    | "65536 \<le> n" by linarith
  then show ?thesis
  proof cases
    case 1
    then show ?thesis
      by (elim disjE) (simp_all add: escape_point_def backslash_def simple_escape_def utf8_encode_def bytes_def chr_def code_def char_of_def)
  next
    case 2
    then show ?thesis using plain by (simp add: escape_point_def)
  next
    case 3
    then have "escape_point n = backslash (CHR ''u'' # hex_quad n)" by (auto simp: escape_point_def)
    with 3 show ?thesis using quad by simp
  next
    case 4
    then have "escape_point n = backslash (CHR ''u'' # hex_quad (55296 + (n - 65536) div 1024))
         @ backslash (CHR ''u'' # hex_quad (56320 + (n - 65536) mod 1024))"
      by (simp add: escape_point_def)
    with unicode_escape_pair [OF 4] assms show ?thesis
      by (simp add: backslash_def scalar_def code_def)
  qed
qed

lemma scan_points:
  "list_all scalar ns \<Longrightarrow> scan_string (concat (map escape_point ns) @ CHR 0x22 # t) = Some (concat (map utf8_encode ns), t)"
  by (induction ns) (simp_all add: scan_escape)

lemma scan_json_string:
  "utf8_valid s \<Longrightarrow> scan_string (concat (map escape_point (code_points s)) @ CHR 0x22 # t) = Some (s, t)"
  using encode_points [of s] scan_points by simp

section \<open>Reading a printed value\<close>

text \<open>The characters that can follow a value in a printed text.\<close>

definition follows :: "string \<Rightarrow> bool" where
  "follows t = (t = [] \<or> hd t \<in> {CHR '','', CHR '']'', CHR ''}'', CHR 0x0A})"

lemma follows_char: "follows (c # t) \<Longrightarrow> \<not> is_digit c \<and> c \<noteq> CHR ''.'' \<and> ascii_lower c \<noteq> CHR ''e''"
  by (auto simp: follows_def is_digit_def code_def ascii_lower_def)

lemma span_digits_append:
  "\<forall>c \<in> set ds. is_digit c \<Longrightarrow> follows t \<Longrightarrow> span_digits (ds @ t) = (ds, t)"
proof (induction ds)
  case Nil
  then show ?case by (cases t) (auto dest: follows_char)
qed auto

lemma exponent_follows: "follows t \<Longrightarrow> json_exponent t = (0, t)"
  by (cases t) (auto simp: json_exponent_def dest: follows_char)

lemma scan_nat:
  assumes "0 \<le> n" "length (show_nat n) \<le> 4300" "follows t"
  shows "scan_number (show_nat n @ t) = Some (VInt n, t)"
    "scan_number (CHR ''-'' # show_nat n @ t) = Some (VInt (- n), t)"
proof -
  have digits: "\<forall>c \<in> set (show_nat n). is_digit c" using assms(1) by (rule show_nat_digits)
  obtain c r where cr: "show_nat n = c # r" using show_nat_nonempty [of n] by (cases "show_nat n") auto
  have "is_digit c" using digits cr by simp
  then have c: "c \<noteq> CHR ''-''" by (auto simp: is_digit_def code_def)
  have first: "(if c = CHR ''0'' then (''0'', r @ t) else span_digits (c # r @ t)) = (c # r, t)"
  proof (cases "n = 0")
    case True
    then have "c # r = ''0''" using cr by (simp add: show_nat.simps [of 0] digit_char_def chr_def char_of_def)
    then show ?thesis using cr by simp
  next
    case False
    then have "c \<noteq> CHR ''0''" using hd_show_nat [of n] assms(1) cr by simp
    then show ?thesis using span_digits_append [OF digits assms(3)] cr by (simp del: span_digits.simps)
  qed
  have stop: "(case t of c # r \<Rightarrow> if c = CHR ''.'' then (case span_digits r of (a, b) \<Rightarrow> if a = [] then ([], t) else (a, b)) else ([], t) | [] \<Rightarrow> ([], [])) = ([], t)"
    using assms(3) by (cases t) (auto dest: follows_char)
  have val: "nat_of_digits (map dval (c # r)) = n" "length (c # r) \<le> 4300"
    using nat_of_digits_show [OF assms(1)] assms(2) unfolding cr by auto
  show "scan_number (show_nat n @ t) = Some (VInt n, t)"
    "scan_number (CHR ''-'' # show_nat n @ t) = Some (VInt (- n), t)"
    unfolding cr append.simps scan_number_def list.case
    using c first stop val exponent_follows [OF assms(3)]
    by (simp_all add: Let_def del: span_digits.simps list.map list.size)
qed

lemma show_nat_Cons: "0 \<le> n \<Longrightarrow> \<exists>c r. show_nat n = c # r \<and> is_digit c"
  using show_nat_digits [of n] by (cases "show_nat n") auto

lemma scan_constant_digit: "is_digit c \<Longrightarrow> scan_constant (c # s) = None" "is_digit c \<Longrightarrow> scan_constant (CHR ''-'' # c # s) = None"
proof -
  assume "is_digit c"
  then have "c \<noteq> CHR ''n''" "c \<noteq> CHR ''t''" "c \<noteq> CHR ''f''" "c \<noteq> CHR ''N''" "c \<noteq> CHR ''I''" "c \<noteq> CHR ''-''"
    by (auto simp: is_digit_def code_def)
  then show "scan_constant (c # s) = None" "scan_constant (CHR ''-'' # c # s) = None"
    by (simp_all add: scan_constant_def constants_def starts_with_def)
qed

lemma scan_int:
  assumes "length (show_nat \<bar>i\<bar>) \<le> 4300" "follows t"
  shows "scan_value h (show_int i @ t) = Inr (VInt i, t)"
proof -
  obtain c r where c: "show_nat \<bar>i\<bar> = c # r" "is_digit c" using show_nat_Cons [of "\<bar>i\<bar>"] by auto
  have n: "c \<noteq> CHR 0x22" "c \<noteq> CHR ''[''" "c \<noteq> CHR ''{''" "c \<noteq> CHR ''-''" using c(2) by (auto simp: is_digit_def code_def)
  show ?thesis
  proof (cases "i < 0")
    case True
    have "show_int i @ t = CHR ''-'' # c # r @ t" using True c(1) by (simp add: show_int_def)
    moreover have "scan_number (CHR ''-'' # c # r @ t) = Some (VInt i, t)"
      using scan_nat(2) [of "\<bar>i\<bar>" t] assms c(1) True by simp
    ultimately show ?thesis by (simp only: scan_value.simps scan_constant_digit [OF c(2)]) simp
  next
    case False
    have "show_int i @ t = c # r @ t" using False c(1) by (simp add: show_int_def)
    moreover have "scan_number (c # r @ t) = Some (VInt i, t)"
      using scan_nat(1) [of "\<bar>i\<bar>" t] assms c(1) False by simp
    ultimately show ?thesis using n by (simp only: scan_value.simps scan_constant_digit [OF c(2)]) simp
  qed
qed

text \<open>A printed value starts with an ASCII character that is neither white space nor a closing bracket.\<close>

definition opens :: "string \<Rightarrow> bool" where
  "opens s = (case s of [] \<Rightarrow> False | c # r \<Rightarrow> code c < 128 \<and> code c \<notin> {32, 9, 10, 13} \<and> c \<noteq> CHR '']'' \<and> c \<noteq> CHR ''}'')"

lemma opens_Cons: "opens (c # s) \<longleftrightarrow> code c < 128 \<and> code c \<notin> {32, 9, 10, 13} \<and> c \<noteq> CHR '']'' \<and> c \<noteq> CHR ''}''"
  by (simp add: opens_def)

lemma opens_surround: "opens [a] \<Longrightarrow> opens (surround l n a z items)"
  by (simp add: surround_def opens_Cons)

lemma opens_brackets: "opens ''[''" "opens ''{''" "opens (CHR ''-'' # s)" "opens (CHR 0x22 # s)" "opens (CHR ''n'' # s)"
  "opens (CHR ''t'' # s)" "opens (CHR ''f'' # s)"
  by (simp_all add: opens_Cons code_def)

lemma opens_digit: "is_digit c \<Longrightarrow> opens (c # s)"
  by (auto simp: opens_Cons is_digit_def code_def)

lemma opens_dump:
  assumes "\<And>f. v \<noteq> VFloat f"
  shows "opens (dump ft l n v)"
proof (cases v)
  case (VInt i)
  obtain c r where "show_nat \<bar>i\<bar> = c # r" "is_digit c" using show_nat_Cons [of "\<bar>i\<bar>"] by auto
  then show ?thesis using VInt by (cases "i < 0") (simp_all add: show_int_def opens_brackets opens_digit)
qed (simp_all add: assms json_string_def opens_brackets opens_surround del: sort_key_simps)

lemma opens_printable: "printable v \<Longrightarrow> opens (dump ft l n v)"
  by (rule opens_dump) auto

lemma skip_opens: "opens s \<Longrightarrow> skip_ws (s @ t) = s @ t"
  by (cases s) (auto simp: opens_def)

lemma skip_spaces [simp]: "skip_ws (replicate k (CHR '' '') @ s) = skip_ws s"
  by (induction k) (simp_all add: code_def)

lemma skip_gap [simp]: "skip_ws (gap l n @ s) = skip_ws s"
  by (cases l) (simp_all add: code_def)

lemma follows_gap: "c \<in> {CHR '']'', CHR ''}''} \<Longrightarrow> follows (gap l n @ c # t)"
  by (cases l) (auto simp: follows_def)

lemma scan_items_printed:
  assumes "xs \<noteq> []"
    and "\<And>x t. x \<in> set xs \<Longrightarrow> follows t \<Longrightarrow> scan_value h (f x @ t) = Inr (g x, t)"
    and "\<And>x. x \<in> set xs \<Longrightarrow> opens (f x)"
  shows "scan_items h (join_with (CHR '','' # gap l m) (map f xs) @ gap l k @ CHR '']'' # t) = Inr (map g xs, t)"
  using assms
proof (induction xs rule: list_nonempty_induct)
  case (single x)
  then show ?case
    by (simp add: scan_items.simps [of h "f x @ gap l k @ CHR '']'' # t"] follows_gap) (simp add: code_def)
next
  case (cons x xs)
  let ?rest = "join_with (CHR '','' # gap l m) (map f xs) @ gap l k @ CHR '']'' # t"
  let ?r = "CHR '','' # gap l m @ ?rest"
  obtain y ys where xs: "xs = y # ys" using cons.hyps(1) by (cases xs) auto
  have sv: "scan_value h (f x @ ?r) = Inr (g x, ?r)" using cons.prems by (simp add: follows_def)
  have "opens (f y)" using cons.prems xs by simp
  then have "skip_ws ?rest = ?rest"
    using skip_opens [of "f y"] unfolding xs by (cases ys) simp_all
  moreover have "scan_items h ?rest = Inr (map g xs, t)" using cons by simp
  moreover have "length ?r < length (f x @ ?r)" using scan_length(1) [OF sv] .
  ultimately have "scan_items h (f x @ ?r) = Inr (g x # map g xs, t)"
    using sv by (subst scan_items.simps) (simp add: code_def)
  moreover have "join_with (CHR '','' # gap l m) (map f (x # xs)) @ gap l k @ CHR '']'' # t = f x @ ?r"
    by (simp add: xs)
  ultimately show ?case by simp
qed

lemma scan_pairs_printed:
  assumes "ps \<noteq> []"
    and "\<And>k v t. (k, v) \<in> set ps \<Longrightarrow> follows t \<Longrightarrow> scan_value h (f v @ t) = Inr (g v, t)"
    and "\<And>k v. (k, v) \<in> set ps \<Longrightarrow> opens (f v) \<and> utf8_valid k"
  shows "scan_pairs h (join_with (CHR '','' # gap l m) (map (\<lambda>(k, v). json_string k @ colon l @ f v) ps) @ gap l n @ CHR ''}'' # t)
    = Inr (map (\<lambda>(k, v). (k, g v)) ps, t)"
  using assms
proof (induction ps rule: list_nonempty_induct)
  case (single p)
  obtain k v where p: "p = (k, v)" by (cases p)
  let ?r = "gap l n @ CHR ''}'' # t"
  have sk: "scan_string (concat (map escape_point (code_points k)) @ CHR 0x22 # colon l @ f v @ ?r) = Some (k, colon l @ f v @ ?r)"
    using single p by (intro scan_json_string) auto
  have skip: "skip_ws (colon l @ f v @ ?r) = CHR '':'' # tl (colon l) @ f v @ ?r"
    "skip_ws (tl (colon l) @ f v @ ?r) = f v @ ?r"
    using skip_opens [of "f v" ?r] single(2) p by (cases l; simp add: code_def)+
  have sv: "scan_value h (f v @ ?r) = Inr (g v, ?r)" using single p by (simp add: follows_gap)
  have "skip_ws ?r = CHR ''}'' # t" by (simp add: code_def)
  with sk skip sv show ?case
    by (subst scan_pairs.simps) (simp add: p json_string_def del: skip_gap)
next
  case (cons p ps)
  obtain k v where p: "p = (k, v)" by (cases p)
  let ?rest = "join_with (CHR '','' # gap l m) (map (\<lambda>(k, v). json_string k @ colon l @ f v) ps) @ gap l n @ CHR ''}'' # t"
  let ?r = "CHR '','' # gap l m @ ?rest"
  obtain q qs where ps: "ps = q # qs" using cons.hyps(1) by (cases ps) auto
  have rest: "skip_ws ?rest = ?rest"
    unfolding ps by (cases qs; cases q; simp add: json_string_def code_def)
  have sk: "scan_string (concat (map escape_point (code_points k)) @ CHR 0x22 # colon l @ f v @ ?r) = Some (k, colon l @ f v @ ?r)"
    using cons.prems(2) [of k v] p by (intro scan_json_string) auto
  have skip: "skip_ws (colon l @ f v @ ?r) = CHR '':'' # tl (colon l) @ f v @ ?r"
    "skip_ws (tl (colon l) @ f v @ ?r) = f v @ ?r"
    using skip_opens [of "f v" ?r] cons.prems(2) [of k v] p by (cases l; simp add: code_def)+
  have sv: "scan_value h (f v @ ?r) = Inr (g v, ?r)" using cons.prems(1) [of k v ?r] p by (simp add: follows_def)
  have sp: "scan_pairs h ?rest = Inr (map (\<lambda>(k, v). (k, g v)) ps, t)" using cons by (metis list.set_intros(2))
  let ?s = "CHR 0x22 # concat (map escape_point (code_points k)) @ CHR 0x22 # colon l @ f v @ ?r"
  have "length ?r < length ?s" by simp
  moreover have "skip_ws ?r = ?r" by (simp add: code_def)
  moreover have "skip_ws (gap l m @ ?rest) = ?rest" using rest by simp
  ultimately have "scan_pairs h ?s = Inr ((k, g v) # map (\<lambda>(k, v). (k, g v)) ps, t)"
    using sk skip sv sp by (subst scan_pairs.simps) (simp del: skip_gap)
  moreover have "join_with (CHR '','' # gap l m) (map (\<lambda>(k, v). json_string k @ colon l @ f v) (p # ps)) @ gap l n @ CHR ''}'' # t = ?s"
    by (simp add: p ps json_string_def)
  ultimately show ?case by (simp add: p)
qed

lemma insort_map_snd: "insort_key fst (k, f v) (map (\<lambda>(k, v). (k, f v)) xs) = map (\<lambda>(k, v). (k, f v)) (insort_key fst (k, v) xs)"
  by (induction xs) auto

lemma sort_map_snd: "sort_key fst (map (\<lambda>(k, v). (k, f v)) d) = map (\<lambda>(k, v). (k, f v)) (sort_key fst d)"
  by (induction d) (auto simp: insort_map_snd)

text \<open>Hooks that keep an object whose keys are all different: the default one, and the one refusing duplicates.\<close>

definition keeps_objects :: "hook \<Rightarrow> bool" where
  "keeps_objects h \<longleftrightarrow> (\<forall>ps. distinct (map fst ps) \<longrightarrow> h ps = Inr (VDict ps))"

lemma opens_append: "opens s \<Longrightarrow> opens (s @ t)"
  by (cases s) (auto simp: opens_def)

lemma opens_join: "opens x \<Longrightarrow> opens (join_with sep (x # xs) @ t)"
  by (cases xs) (auto intro: opens_append)

lemma scan_list:
  "opens s \<Longrightarrow> scan_items h s = Inr (xs, q) \<Longrightarrow> scan_value h (CHR ''['' # gap l n @ s) = Inr (VList xs, q)"
  using skip_opens [of s "[]"] by (cases s) (auto simp: opens_def)

lemma scan_object:
  "opens s \<Longrightarrow> scan_pairs h s = Inr (ps, q) \<Longrightarrow> keeps_objects h \<Longrightarrow> distinct (map fst ps) \<Longrightarrow>
    scan_value h (CHR ''{'' # gap l n @ s) = Inr (VDict ps, q)"
  using skip_opens [of s "[]"] by (cases s) (auto simp: opens_def keeps_objects_def)

lemma scan_dump:
  assumes "keeps_objects h"
  shows "printable v \<Longrightarrow> follows t \<Longrightarrow> scan_value h (dump ft l n v @ t) = Inr (sorted_keys v, t)"
proof (induction v arbitrary: n t)
  case (VInt i)
  then show ?case by (simp add: scan_int)
next
  case (VStr s)
  then show ?case using scan_json_string [of s t] by (simp add: json_string_def)
next
  case (VList vs)
  show ?case
  proof (cases "vs = []")
    case True
    then show ?thesis by (simp add: surround_def code_def)
  next
    case False
    have "scan_items h (join_with (CHR '','' # gap l (Suc n)) (map (dump ft l (Suc n)) vs) @ gap l n @ CHR '']'' # t) = Inr (map sorted_keys vs, t)"
      using VList by (intro scan_items_printed False opens_dump) (auto simp: list_all_iff)
    moreover have "opens (join_with (CHR '','' # gap l (Suc n)) (map (dump ft l (Suc n)) vs) @ gap l n @ CHR '']'' # t)"
      using VList.prems False by (cases vs) (auto intro!: opens_join opens_dump simp del: join_with.simps)
    ultimately show ?thesis using scan_list False by (simp add: surround_def)
  qed
next
  case (VDict d)
  define e where "e = sort_key fst d"
  let ?item = "\<lambda>(k, v). json_string k @ colon l @ dump ft l (Suc n) v"
  have e: "set e = set d" "distinct (map fst e)" "sort_key fst (map (\<lambda>(k, v). (k, sorted_keys v)) d) = map (\<lambda>(k, v). (k, sorted_keys v)) e"
    "map (\<lambda>(k, t). json_string k @ colon l @ t) (sort_key fst (map (\<lambda>(k, v). (k, dump ft l (Suc n) v)) d)) = map ?item e"
    using VDict.prems by (auto simp: e_def sort_map_snd distinct_map)
  show ?case
  proof (cases "d = []")
    case True
    then show ?thesis using assms by (simp add: surround_def code_def keeps_objects_def)
  next
    case False
    then have ne: "e \<noteq> []" using e(1) by auto
    have "scan_pairs h (join_with (CHR '','' # gap l (Suc n)) (map ?item e) @ gap l n @ CHR ''}'' # t) = Inr (map (\<lambda>(k, v). (k, sorted_keys v)) e, t)"
    proof (rule scan_pairs_printed [OF ne])
      fix k v u
      assume kv: "(k, v) \<in> set e"
      then have pr: "printable v" "utf8_valid k" using VDict.prems e(1) by (auto simp: list_all_iff)
      show "opens (dump ft l (Suc n) v) \<and> utf8_valid k" using pr by (simp add: opens_printable)
      show "follows u \<Longrightarrow> scan_value h (dump ft l (Suc n) v @ u) = Inr (sorted_keys v, u)"
        using VDict.IH [of "(k, v)" v] kv e(1) pr by auto
    qed
    moreover have "opens (join_with (CHR '','' # gap l (Suc n)) (map ?item e) @ gap l n @ CHR ''}'' # t)"
      using ne by (cases e) (auto intro!: opens_join opens_brackets simp: json_string_def simp del: join_with.simps)
    moreover have "distinct (map fst (map (\<lambda>(k, v). (k, sorted_keys v)) e))" using e(2) by (simp add: comp_def split_def)
    ultimately show ?thesis using scan_object [OF _ _ assms] ne by (simp add: surround_def e(3,4) del: sort_key_simps)
  qed
qed (simp_all add: scan_constant_def constants_def starts_with_def)

text \<open>Reading a printed document gives the value with its keys sorted.\<close>

lemma printable_dumpable: "printable v \<Longrightarrow> dumpable nan v"
  by (induction v) (auto simp: list_all_iff)

lemma loads_dumps:
  assumes "keeps_objects h" "printable v" "dumps ft l nan v = Inr s"
  shows "json_loads h s = Inr (sorted_keys v)"
    and "json_loads h (s @ [CHR 0x0A]) = Inr (sorted_keys v)"
proof -
  have s: "s = dump ft l 0 v" using assms(3) by (simp add: dumps_def split: if_splits)
  have o: "opens s" unfolding s using assms(2) by (rule opens_printable)
  have v: "scan_value h (s @ t) = Inr (sorted_keys v, t)" if "follows t" for t
    unfolding s using scan_dump [OF assms(1,2) that] .
  have b: "\<not> starts_with [CHR 0xEF, CHR 0xBB, CHR 0xBF] (s @ t)" for t
    using o by (cases s) (auto simp: starts_with_def opens_def code_def)
  note facts = json_loads_def follows_def code_def
  show "json_loads h s = Inr (sorted_keys v)"
    using v [of "[]"] b [of "[]"] skip_opens [OF o, of "[]"] by (simp add: facts)
  show "json_loads h (s @ [CHR 0x0A]) = Inr (sorted_keys v)"
    using v [of "[CHR 0x0A]"] b [of "[CHR 0x0A]"] skip_opens [OF o, of "[CHR 0x0A]"] by (simp add: facts)
qed

lemma dumps_determines:
  assumes "printable v" "printable w" "dumps ft l nan v = Inr s" "dumps ft l nan w = Inr s"
  shows "sorted_keys v = sorted_keys w"
proof -
  have h: "keeps_objects (\<lambda>ps. Inr (VDict ps))" by (simp add: keeps_objects_def)
  from loads_dumps(1) [OF h assms(1,3)] loads_dumps(1) [OF h assms(2,4)] show ?thesis by simp
qed

end
