(* ===== verification/VersionPlan.thy ===== *)
theory VersionPlan
  imports JsonText
begin

text \<open>
  \<open>scripts/version_plan.py\<close>, the pure part: release identities, the validation of the versioning
  policy, the frozen plan, and its projections into package and platform version numbers.  A plan is
  the dict of the code.  SHA-256 and the shortest text of a float are the parameters \<open>sha256_hex\<close> and
  \<open>float_text\<close> of a \<open>hasher\<close>.  The interpolated values of error messages are left out.
\<close>

record hasher =
  sha256_hex :: "string \<Rightarrow> string"
  float_text :: "pyfloat \<Rightarrow> string"

section \<open>Checks\<close>

text \<open>\<open>VersionError\<close> is a \<open>ValueError\<close>.\<close>

definition require :: "bool \<Rightarrow> string \<Rightarrow> unit res" where
  "require condition message = check condition (ValueError message)"

lemma require_Inr [simp]: "require c m = Inr u \<longleftrightarrow> c"
  by (simp add: require_def)

lemma require_simps [res_simps]: "require True m = Inr ()" "require False m = Inl (ValueError m)"
  by (simp_all add: require_def check_def)

text \<open>\<open>v in {...}\<close>: a list or dict is not hashable.\<close>

definition member_of_set :: "pyval \<Rightarrow> string list \<Rightarrow> bool res" where
  "member_of_set v names = (case v of VStr s \<Rightarrow> Inr (s \<in> set names)
     | VList _ \<Rightarrow> Inl (TypeError ''unhashable type'') | VDict _ \<Rightarrow> Inl (TypeError ''unhashable type'')
     | _ \<Rightarrow> Inr False)"

definition require_in :: "pyval \<Rightarrow> string list \<Rightarrow> string \<Rightarrow> unit res" where
  "require_in v names message = and_then (member_of_set v names) (\<lambda>ok. require ok message)"

lemma require_in_Inr [simp]: "require_in v names m = Inr u \<longleftrightarrow> (\<exists>s \<in> set names. v = VStr s)"
  by (auto simp: require_in_def member_of_set_def split: pyval.splits)

definition is_str :: "(string \<Rightarrow> bool) \<Rightarrow> pyval \<Rightarrow> bool" where
  "is_str p v = (case v of VStr s \<Rightarrow> p s | _ \<Rightarrow> False)"

lemma is_str_iff: "is_str p v \<longleftrightarrow> (\<exists>s. v = VStr s \<and> p s)"
  by (cases v) (auto simp: is_str_def)

definition is_int :: "(int \<Rightarrow> bool) \<Rightarrow> pyval \<Rightarrow> bool" where
  "is_int p v = (case v of VInt i \<Rightarrow> p i | _ \<Rightarrow> False)"

lemma is_int_iff: "is_int p v \<longleftrightarrow> (\<exists>i. v = VInt i \<and> p i)"
  by (cases v) (auto simp: is_int_def)

section \<open>Patterns\<close>

definition lower_hex :: "char \<Rightarrow> bool" where
  "lower_hex c = (is_digit c \<or> (97 \<le> code c \<and> code c \<le> 102))"

definition sha_pattern :: "string \<Rightarrow> bool" where
  "sha_pattern s = (length s = 40 \<and> list_all lower_hex s)"

definition digest_pattern :: "string \<Rightarrow> bool" where
  "digest_pattern s = (length s = 64 \<and> list_all lower_hex s)"

definition positive_pattern :: "string \<Rightarrow> bool" where
  "positive_pattern s = (case s of [] \<Rightarrow> False | c # cs \<Rightarrow> c \<noteq> CHR ''0'' \<and> list_all is_digit s)"

definition base_pattern :: "string \<Rightarrow> bool" where
  "base_pattern s = (case py_split (CHR ''.'') s of
       [a, b, c] \<Rightarrow> list_all (\<lambda>n. n = ''0'' \<or> positive_pattern n) [a, b, c] | _ \<Rightarrow> False)"

definition nightly_pattern :: "string \<Rightarrow> bool" where
  "nightly_pattern s = (case py_split (CHR ''.'') s of
       [t, r, a] \<Rightarrow> length t = 14 \<and> list_all is_digit t \<and> positive_pattern r \<and> positive_pattern a | _ \<Rightarrow> False)"

text \<open>\<open>datetime.strptime(t, "%Y%m%d%H%M%S")\<close> accepts a text of fourteen digits.\<close>

definition field_at :: "nat \<Rightarrow> nat \<Rightarrow> string \<Rightarrow> int" where
  "field_at i n s = nat_of_digits (map dval (take n (drop i s)))"

definition days_in_month :: "int \<Rightarrow> int \<Rightarrow> int" where
  "days_in_month y m = (if m = 2 then (if y mod 4 = 0 \<and> (y mod 100 \<noteq> 0 \<or> y mod 400 = 0) then 29 else 28)
     else if m \<in> {4, 6, 9, 11} then 30 else 31)"

definition utc_timestamp :: "string \<Rightarrow> bool" where
  "utc_timestamp t = (let y = field_at 0 4 t; m = field_at 4 2 t; d = field_at 6 2 t in
     1 \<le> y \<and> 1 \<le> m \<and> m \<le> 12 \<and> 1 \<le> d \<and> d \<le> days_in_month y m
     \<and> field_at 8 2 t \<le> 23 \<and> field_at 10 2 t \<le> 59 \<and> field_at 12 2 t \<le> 59)"

section \<open>Declarations\<close>

definition version_field :: "pyval \<Rightarrow> string list res" where
  "version_field v = (case v of
       VStr s \<Rightarrow> (let parts = py_split (CHR ''.'') s in
         and_then (require (list_all (\<lambda>p. p \<noteq> []) parts) ''Dotted fields cannot contain empty segments; use a string array'') (\<lambda>_. Inr parts))
     | VList vs \<Rightarrow> and_then (require (vs \<noteq> [] \<and> list_all (is_str (\<lambda>_. True)) vs) ''Field must be a dotted string or a nonempty string array'')
         (\<lambda>_. Inr (map (\<lambda>x. the (as_str x)) vs))
     | _ \<Rightarrow> Inl (ValueError ''Field must be a dotted string or a nonempty string array''))"

definition relative :: "pyval \<Rightarrow> string res" where
  "relative v = and_then (require (is_str (\<lambda>s. s \<noteq> [] \<and> CHR 0x5C \<notin> set s \<and> CHR 0x00 \<notin> set s) v) ''Path must be a relative POSIX path'')
     (\<lambda>_. let s = the (as_str v) in
       and_then (require (\<not> starts_with ''/'' s \<and> list_all (\<lambda>p. p \<notin> {[], ''.'', ''..'', ''.git''}) (py_split (CHR ''/'') s)) ''Unsafe version path'')
         (\<lambda>_. Inr s))"

definition FORMATS :: "string list" where
  "FORMATS = [''json'', ''toml'', ''cargo-lock'', ''uv-lock'', ''npm-lock'', ''text'', ''python'', ''plist'', ''pbxproj'']"

definition VALUES :: "string list" where
  "VALUES = [''base'', ''full'', ''package'', ''build'', ''apple-build'']"

definition ARTIFACT_FORMATS :: "string list" where
  "ARTIFACT_FORMATS = [''oci'', ''json'', ''wheel'', ''sdist'', ''npm-tar'', ''ipa'', ''plist'', ''tar-text'', ''tar-toml'', ''tar-json'', ''zip-json'']"

definition one_line :: "string \<Rightarrow> bool" where
  "one_line s = list_all (\<lambda>c. c \<notin> {CHR 0x0D, CHR 0x0A, CHR 0x00}) s"

definition artifact_declaration :: "pyobj \<Rightarrow> unit res" where
  "artifact_declaration item = (let kind = the (as_str (vget item ''format'')) in
     and_then (require (kind = ''oci'' \<longrightarrow> has_key item ''field'' \<and> \<not> has_key item ''package'') ''OCI artifact requires an exact config field and no package selector'') (\<lambda>_.
     and_then (if kind \<in> {''tar-text'', ''tar-toml'', ''tar-json'', ''zip-json''}
       then and_then (require (has_key item ''member'') ''Archive field verification requires an exact member'')
              (\<lambda>_. and_then (relative (vget item ''member'')) (\<lambda>_. Inr ()))
       else require (\<not> has_key item ''member'') (kind @ '' does not accept member'')) (\<lambda>_.
     require (kind = ''tar-text'' \<longrightarrow> \<not> has_key item ''field'' \<and> \<not> has_key item ''package'') ''Text artifact has no field or package selector'')))"

definition input_declaration :: "pyobj \<Rightarrow> unit res" where
  "input_declaration item = (let kind = the (as_str (vget item ''format'')) in
     and_then (require (kind \<in> {''json'', ''toml'', ''python'', ''plist'', ''pbxproj''} \<longrightarrow> has_key item ''field'') (kind @ '' requires an explicit field'')) (\<lambda>_.
     and_then (require (kind \<in> {''cargo-lock'', ''uv-lock'', ''npm-lock'', ''pbxproj''} \<longrightarrow> has_key item ''package'') (kind @ '' requires an explicit owned package selector'')) (\<lambda>_.
     and_then (require (kind \<in> {''text'', ''cargo-lock'', ''uv-lock'', ''npm-lock''} \<longrightarrow> \<not> has_key item ''field'') (kind @ '' does not accept field'')) (\<lambda>_.
     require (kind \<in> {''text'', ''python'', ''plist''} \<longrightarrow> \<not> has_key item ''package'') (kind @ '' does not accept package'')))))"

definition declaration_keys :: "string list" where
  "declaration_keys = [''path'', ''format'', ''field'', ''package'', ''value'', ''prefix'', ''ecosystem'']"

definition version_declaration :: "bool \<Rightarrow> pyval \<Rightarrow> pyobj res" where
  "version_declaration artifact v = (case v of VDict item \<Rightarrow>
       and_then (require (set (dict_keys item) \<subseteq> set (if artifact then ''member'' # declaration_keys else declaration_keys)) ''Unsupported version declaration fields'') (\<lambda>_.
       and_then (require_in (vget item ''format'') (if artifact then ARTIFACT_FORMATS else FORMATS) ''Unsupported version format'') (\<lambda>_.
       and_then (if has_key item ''path'' then and_then (relative (vget item ''path'')) (\<lambda>_. Inr ())
                 else require artifact ''Version input requires path'') (\<lambda>_.
       and_then (require_in (get_default item ''value'' (VStr ''package'')) VALUES ''Unsupported version projection'') (\<lambda>_.
       and_then (require_in (get_default item ''ecosystem'' (VStr ''semver'')) [''semver'', ''pep440''] ''Unsupported package version ecosystem'') (\<lambda>_.
       and_then (require (is_str one_line (get_default item ''prefix'' (VStr []))) ''Invalid version prefix'') (\<lambda>_.
       and_then (if has_key item ''field'' then and_then (version_field (vget item ''field'')) (\<lambda>_. Inr ()) else Inr ()) (\<lambda>_.
       and_then (require (has_key item ''package'' \<longrightarrow> is_str (\<lambda>s. s \<noteq> [] \<and> one_line s) (vget item ''package'')) ''Invalid owned package selector'') (\<lambda>_.
       and_then (if artifact then artifact_declaration item else input_declaration item) (\<lambda>_. Inr item)))))))))
     | _ \<Rightarrow> Inl (ValueError ''Version declarations must be objects''))"

section \<open>The policy\<close>

definition receipt_name :: "string \<Rightarrow> bool" where
  "receipt_name s = (starts_with ''release-inputs-'' s \<and> ends_with ''.json'' s \<and> 20 < length s
     \<and> list_all (\<lambda>c. is_word c \<or> c = CHR ''.'' \<or> c = CHR ''-'') (drop 15 s)
     \<and> s \<noteq> ''release-inputs-fuzz.json'')"

definition required_build_receipts :: "pyobj \<Rightarrow> string list option res" where
  "required_build_receipts config = (if \<not> has_key config ''required_build_receipts'' then Inr None
     else case vget config ''required_build_receipts'' of
         VList vs \<Rightarrow> (if vs = [] \<or> \<not> list_all (is_str receipt_name) vs
             then Inl (ValueError ''required_build_receipts must be nonempty ASCII package receipt filenames'')
             else let names = map (\<lambda>v. the (as_str v)) vs in
               and_then (require (distinct names) ''required_build_receipts contains duplicate filenames'') (\<lambda>_. Inr (Some (remdups names))))
       | _ \<Rightarrow> Inl (ValueError ''required_build_receipts must be nonempty ASCII package receipt filenames''))"

definition policy_keys :: "string list" where
  "policy_keys = [''schema'', ''promotion'', ''files'', ''artifacts'', ''required_build_receipts'', ''build_number_floor'', ''toolkit_revision'']"

type_synonym selector = "string \<times> string \<times> string list \<times> string option"

definition selector_of :: "pyobj \<Rightarrow> selector res" where
  "selector_of item = and_then (if has_key item ''field'' then version_field (vget item ''field'') else Inr [])
     (\<lambda>field. Inr (the (as_str (vget item ''path'')), the (as_str (vget item ''format'')), field, as_str (vget item ''package'')))"

definition add_selector :: "pyval \<Rightarrow> selector list \<Rightarrow> selector list res" where
  "add_selector v selectors = and_then (version_declaration False v) (\<lambda>item.
     and_then (selector_of item) (\<lambda>s.
     and_then (require (s \<notin> set selectors) ''Duplicate version selector'') (\<lambda>_. Inr (s # selectors))))"

definition max_build :: int where "max_build = 2100000000"

definition version_files :: "pyobj \<Rightarrow> pyval list" where
  "version_files config = the (as_list (vget config ''files''))"

definition number_floor :: "pyobj \<Rightarrow> int" where
  "number_floor config = the (as_int (get_default config ''build_number_floor'' (VInt 0)))"

definition validate_policy :: "pyval \<Rightarrow> pyobj res" where
  "validate_policy policy = (case policy of VDict p \<Rightarrow> (case vget p ''versioning'' of VDict config \<Rightarrow>
       and_then (require (set (dict_keys config) \<subseteq> set policy_keys) ''Unsupported versioning fields'') (\<lambda>_.
       and_then (require (vget config ''schema'' = VInt 1) ''Unsupported versioning schema'') (\<lambda>_.
       and_then (require_in (vget config ''promotion'') [''promote-bytes'', ''final-build''] ''Unsupported promotion profile'') (\<lambda>_.
       and_then (require (has_key config ''build_number_floor'' \<longrightarrow> is_int (\<lambda>n. 0 \<le> n \<and> n < max_build) (vget config ''build_number_floor''))
          ''Native build number floor must be an integer in 0..2099999999'') (\<lambda>_.
       and_then (require (case vget config ''files'' of VList vs \<Rightarrow> vs \<noteq> [] | _ \<Rightarrow> False) ''Policy requires explicit version files'') (\<lambda>_.
       and_then (required_build_receipts config) (\<lambda>_.
       and_then (foldM add_selector (version_files config) []) (\<lambda>_.
       and_then (case get_default config ''artifacts'' (VList []) of
           VList vs \<Rightarrow> and_then (mapM (version_declaration True) vs) (\<lambda>_. Inr ())
         | _ \<Rightarrow> Inl (ValueError ''Artifact declarations must be an array'')) (\<lambda>_.
       and_then (require (has_key config ''toolkit_revision'' \<longrightarrow> is_str sha_pattern (vget config ''toolkit_revision'')) ''Toolkit revision must be a pinned SHA'')
         (\<lambda>_. Inr config)))))))))
       | _ \<Rightarrow> Inl (ValueError ''Policy requires versioning''))
     | _ \<Rightarrow> Inl (ValueError ''Policy must be an object''))"

text \<open>The digest of the canonical text binds every field of the policy.\<close>

definition json_bytes :: "hasher \<Rightarrow> pyval \<Rightarrow> string res" where
  "json_bytes H v = dumps (float_text H) Compact False v"

definition policy_digest :: "hasher \<Rightarrow> pyval \<Rightarrow> string res" where
  "policy_digest H policy = and_then (json_bytes H policy) (\<lambda>t. Inr (sha256_hex H t))"

section \<open>Identities\<close>

definition CHANNELS :: "string list" where
  "CHANNELS = [''nightly'', ''beta'', ''rc'', ''stable'']"

text \<open>\<open>str(n)\<close>: more than 4300 digits raise \<open>ValueError\<close>.\<close>

definition int_text :: "int \<Rightarrow> string res" where
  "int_text n = (if 4300 < length (show_nat \<bar>n\<bar>) then Inl (ValueError ''Exceeds the limit for integer string conversion'') else Inr (show_int n))"

definition identity :: "pyval \<Rightarrow> pyval \<Rightarrow> pyval \<Rightarrow> string res" where
  "identity base channel sequence =
     and_then (require (is_str base_pattern base) ''Base version must be strict X.Y.Z without prefix or suffix'') (\<lambda>_.
     and_then (require_in channel CHANNELS ''Unsupported release channel'') (\<lambda>_.
     let b = the (as_str base); c = the (as_str channel) in
     if c = ''stable'' then and_then (require (sequence = VNone) ''Stable must not have a sequence'') (\<lambda>_. Inr b)
     else if c = ''nightly'' then
       and_then (require (is_str nightly_pattern sequence) ''Nightly requires frozen UTCtimestamp.run.attempt suffix'') (\<lambda>_.
       let s = the (as_str sequence) in
       and_then (require (utc_timestamp (hd (py_split (CHR ''.'') s))) ''Invalid nightly UTC timestamp'') (\<lambda>_.
       Inr (b @ ''-'' @ c @ ''.'' @ s)))
     else and_then (require (is_int (\<lambda>n. 0 < n) sequence) ''Beta/RC sequence must be a positive integer'') (\<lambda>_.
       and_then (int_text (the (as_int sequence))) (\<lambda>t. Inr (b @ ''-'' @ c @ ''.'' @ t)))))"

section \<open>Projections\<close>

text \<open>\<open>d[k]\<close>.\<close>

definition item_of :: "pyobj \<Rightarrow> string \<Rightarrow> pyval res" where
  "item_of d k = (case map_of d k of None \<Rightarrow> Inl (KeyError k) | Some v \<Rightarrow> Inr v)"

text \<open>
  The text of a value in an f-string.  The identity of the plan and the declaration were checked before,
  so only strings and integers occur; the model raises for the texts of floats and containers.
\<close>

definition text_of :: "pyval \<Rightarrow> string res" where
  "text_of v = (case v of VStr s \<Rightarrow> Inr s | VInt n \<Rightarrow> int_text n
     | VNone \<Rightarrow> Inr ''None'' | VBool b \<Rightarrow> Inr (if b then ''True'' else ''False'') | _ \<Rightarrow> Inl (TypeError ''text of a container''))"

text \<open>The PEP 440 number of a nightly: its run times one million plus its attempt.\<close>

definition nightly_number :: "pyval \<Rightarrow> int res" where
  "nightly_number sequence = (case map int_of_str (tl (py_split (CHR ''.'') (the (as_str sequence)))) of
       [Some run_id, Some attempt] \<Rightarrow> (let number = run_id * 1000000 + attempt in
         and_then (require (attempt < 1000000 \<and> number \<le> 2 ^ 64 - 2) ''Nightly run or attempt is too large for PEP 440 projection'')
           (\<lambda>_. Inr number))
     | _ \<Rightarrow> Inl (ValueError ''invalid sequence''))"

definition package_version :: "pyobj \<Rightarrow> string \<Rightarrow> pyval res" where
  "package_version plan ecosystem =
     (let channel = vget plan ''channel''; base = vget plan ''base_version''; sequence = vget plan ''sequence'' in
      if channel = VStr ''rc'' \<and> vget plan ''promotion'' = VStr ''promote-bytes'' then item_of plan ''base_version''
      else if ecosystem = ''pep440'' then
        (if channel = VStr ''beta'' then and_then (text_of base) (\<lambda>b. and_then (text_of sequence) (\<lambda>n. Inr (VStr (b @ ''b'' @ n))))
         else if channel = VStr ''rc'' then and_then (text_of base) (\<lambda>b. and_then (text_of sequence) (\<lambda>n. Inr (VStr (b @ ''rc'' @ n))))
         else if channel = VStr ''nightly'' then and_then (nightly_number sequence) (\<lambda>n.
           and_then (text_of base) (\<lambda>b. Inr (VStr (b @ ''.dev'' @ show_int n))))
         else item_of plan ''version'')
      else item_of plan ''version'')"

definition apple_build :: "pyval \<Rightarrow> pyval" where
  "apple_build build = (case build of VInt b \<Rightarrow> if 0 < b \<and> b \<le> 99990000
       then (let n = b - 1 in VStr (show_int (n div 10000 + 1) @ ''.'' @ show_int (n div 100 mod 100) @ ''.'' @ show_int (n mod 100)))
       else VNone
     | _ \<Rightarrow> VNone)"

definition projections :: "pyobj \<Rightarrow> pyval \<Rightarrow> pyobj res" where
  "projections plan ecosystem =
     and_then (require_in ecosystem [''semver'', ''pep440''] ''Unsupported package ecosystem'') (\<lambda>_.
     and_then (package_version plan (the (as_str ecosystem))) (\<lambda>package.
     and_then (item_of plan ''build_number'') (\<lambda>build.
     and_then (item_of plan ''base_version'') (\<lambda>base.
     and_then (item_of plan ''version'') (\<lambda>full.
     Inr [(''base'', base), (''full'', full), (''package'', package), (''build'', build), (''apple-build'', apple_build build)])))))"

definition projected_value :: "pyobj \<Rightarrow> pyobj \<Rightarrow> pyval res" where
  "projected_value plan declaration =
     and_then (projections plan (get_default declaration ''ecosystem'' (VStr ''semver''))) (\<lambda>ps.
     and_then (item_of ps (the (as_str (get_default declaration ''value'' (VStr ''package''))))) (\<lambda>result.
     and_then (require (result \<noteq> VNone) ''Projection requires a valid allocated native build number'') (\<lambda>_.
     let prefix = the (as_str (get_default declaration ''prefix'' (VStr []))) in
     if prefix = [] then Inr result else and_then (text_of result) (\<lambda>t. Inr (VStr (prefix @ t))))))"

definition project_all :: "pyobj \<Rightarrow> pyval list \<Rightarrow> unit res" where
  "project_all plan files = and_then (mapM (\<lambda>v. projected_value plan (the (as_dict v))) files) (\<lambda>_. Inr ())"

section \<open>Plans\<close>

definition build_number_ok :: "pyval \<Rightarrow> bool" where
  "build_number_ok b = (b = VNone \<or> is_int (\<lambda>n. 0 < n \<and> n \<le> max_build) b)"

definition above_floor :: "pyval \<Rightarrow> pyobj \<Rightarrow> bool" where
  "above_floor b config = (b = VNone \<or> is_int (\<lambda>n. number_floor config < n) b)"

definition create_plan :: "hasher \<Rightarrow> pyval \<Rightarrow> pyval \<Rightarrow> pyval \<Rightarrow> pyval \<Rightarrow> pyval \<Rightarrow> pyval \<Rightarrow> pyobj res" where
  "create_plan H base channel sequence source_sha policy build_number =
     and_then (validate_policy policy) (\<lambda>config.
     and_then (identity base channel sequence) (\<lambda>version.
     and_then (require (is_str sha_pattern source_sha) ''Source SHA must be a full lowercase commit SHA'') (\<lambda>_.
     and_then (require (build_number_ok build_number) ''Build number must be a positive integer no greater than 2100000000'') (\<lambda>_.
     and_then (require (above_floor build_number config) ''Build number must exceed the declared migration floor'') (\<lambda>_.
     and_then (policy_digest H policy) (\<lambda>d.
     let plan = [(''schema_version'', VInt 1), (''base_version'', base), (''version'', VStr version), (''channel'', channel),
        (''sequence'', sequence), (''tag'', VStr (''v'' @ version)), (''source_sha'', source_sha), (''build_number'', build_number),
        (''policy_sha256'', VStr d), (''promotion'', vget config ''promotion'')] in
     and_then (project_all plan (version_files config)) (\<lambda>_. Inr plan)))))))"

definition plan_keys :: "string list" where
  "plan_keys = [''schema_version'', ''base_version'', ''version'', ''channel'', ''sequence'', ''tag'', ''source_sha'',
     ''build_number'', ''policy_sha256'', ''promotion'']"

definition check_binding :: "hasher \<Rightarrow> pyobj \<Rightarrow> pyval \<Rightarrow> unit res" where
  "check_binding H plan policy =
     and_then (validate_policy policy) (\<lambda>config.
     and_then (policy_digest H policy) (\<lambda>d.
     and_then (require (vget plan ''policy_sha256'' = VStr d) ''Release plan policy digest mismatch'') (\<lambda>_.
     and_then (require (vget plan ''promotion'' = vget config ''promotion'') ''Release plan promotion policy mismatch'') (\<lambda>_.
     and_then (require (above_floor (vget plan ''build_number'') config) ''Plan build number does not exceed the declared migration floor'') (\<lambda>_.
     project_all plan (version_files config))))))"

definition validate_plan :: "hasher \<Rightarrow> pyval \<Rightarrow> pyval option \<Rightarrow> pyval option \<Rightarrow> pyobj res" where
  "validate_plan H v policy source_sha = (case v of VDict plan \<Rightarrow>
       and_then (require (set (dict_keys plan) = set plan_keys) ''Unexpected or missing release-plan fields'') (\<lambda>_.
       and_then (require (vget plan ''schema_version'' = VInt 1) ''Unsupported release-plan schema'') (\<lambda>_.
       and_then (identity (vget plan ''base_version'') (vget plan ''channel'') (vget plan ''sequence'')) (\<lambda>version.
       and_then (require (vget plan ''version'' = VStr version \<and> vget plan ''tag'' = VStr (''v'' @ version)) ''Release version/tag/sequence disagree'') (\<lambda>_.
       and_then (require (is_str sha_pattern (vget plan ''source_sha'')) ''Invalid plan source SHA'') (\<lambda>_.
       and_then (require (is_str digest_pattern (vget plan ''policy_sha256'')) ''Invalid policy digest'') (\<lambda>_.
       and_then (require_in (vget plan ''promotion'') [''promote-bytes'', ''final-build''] ''Invalid plan promotion profile'') (\<lambda>_.
       and_then (require (build_number_ok (vget plan ''build_number'')) ''Invalid native build number'') (\<lambda>_.
       and_then (case policy of None \<Rightarrow> Inr () | Some p \<Rightarrow> check_binding H plan p) (\<lambda>_.
       and_then (require (case source_sha of None \<Rightarrow> True | Some s \<Rightarrow> vget plan ''source_sha'' = s) ''Release plan source SHA mismatch'')
         (\<lambda>_. Inr plan))))))))))
     | _ \<Rightarrow> Inl (ValueError ''Release plan must be an object''))"

definition plan_digest :: "hasher \<Rightarrow> pyval \<Rightarrow> string res" where
  "plan_digest H plan = and_then (validate_plan H plan None None) (\<lambda>_. policy_digest H plan)"

text \<open>\<open>effective_inputs_digest\<close>: the paths and content digests of the build inputs, in path order.\<close>

definition effective_input :: "pyval \<Rightarrow> (string \<times> pyval) list \<Rightarrow> (string \<times> pyval) list res" where
  "effective_input v seen = (case v of VDict item \<Rightarrow>
       and_then (item_of item ''path'') (\<lambda>p.
       and_then (relative p) (\<lambda>path.
       and_then (require (path \<notin> fst ` set seen) ''Duplicate effective input path'') (\<lambda>_.
       and_then (item_of item ''after_sha256'') (\<lambda>a.
       and_then (case a of VStr t \<Rightarrow> require (digest_pattern t) ''Invalid effective input digest'' | _ \<Rightarrow> Inl (TypeError ''expected string'')) (\<lambda>_.
       Inr (seen @ [(path, a)]))))))
     | _ \<Rightarrow> Inl (TypeError ''not subscriptable''))"

definition effective_inputs_digest :: "hasher \<Rightarrow> pyval list \<Rightarrow> string res" where
  "effective_inputs_digest H evidence = and_then (foldM effective_input evidence []) (\<lambda>entries.
     policy_digest H (VList (map (\<lambda>(p, a). VDict [(''path'', VStr p), (''sha256'', a)]) (sort_key fst entries))))"

end
