(* ===== verification/VersionPlanProps.thy ===== *)
theory VersionPlanProps
  imports VersionPlan
begin

text \<open>
  What a release plan guarantees: the accepted documents are exactly the plans that
  \<open>create_plan\<close> makes, a version text has one identity, and the platform numbers keep the order
  of the build numbers.
\<close>

section \<open>Identities\<close>

lemma split_chars: "y \<in> set s \<Longrightarrow> y = c \<or> (\<exists>w \<in> set (py_split c s). y \<in> set w)"
  by (induction c s rule: py_split.induct) (auto split: list.splits if_splits)

lemma base_chars: "base_pattern b \<Longrightarrow> c \<in> set b \<Longrightarrow> is_digit c \<or> c = CHR ''.''"
proof -
  assume b: "base_pattern b" and c: "c \<in> set b"
  obtain x y z where s: "py_split (CHR ''.'') b = [x, y, z]" "list_all (\<lambda>n. n = ''0'' \<or> positive_pattern n) [x, y, z]"
    using b by (auto simp: base_pattern_def split: list.splits)
  have "c = CHR ''.'' \<or> c \<in> set x \<or> c \<in> set y \<or> c \<in> set z" using split_chars [OF c, of "CHR ''.''"] s(1) by auto
  moreover have "\<forall>c \<in> set n. is_digit c" if "n = ''0'' \<or> positive_pattern n" for n
    using that by (auto simp: positive_pattern_def list_all_iff is_digit_def code_def split: list.splits)
  ultimately show ?thesis using s(2) by auto
qed

lemma base_no_dash: "base_pattern b \<Longrightarrow> CHR ''-'' \<notin> set b"
  using base_chars [of b "CHR ''-''"] by (auto simp: is_digit_def code_def)

text \<open>The suffix of a version: nothing for stable, else the channel and the sequence.\<close>

definition suffix_of :: "string \<Rightarrow> pyval \<Rightarrow> string" where
  "suffix_of c sequence = (case sequence of VStr s \<Rightarrow> ''-'' @ c @ ''.'' @ s | VInt n \<Rightarrow> ''-'' @ c @ ''.'' @ show_int n | _ \<Rightarrow> [])"

lemma identity_Inr:
  "identity base channel sequence = Inr v \<longleftrightarrow> (\<exists>b c. base = VStr b \<and> base_pattern b \<and> channel = VStr c \<and> v = b @ suffix_of c sequence \<and>
     (c = ''stable'' \<and> sequence = VNone
      \<or> c = ''nightly'' \<and> is_str (\<lambda>s. nightly_pattern s \<and> utc_timestamp (hd (py_split (CHR ''.'') s))) sequence
      \<or> c \<in> {''beta'', ''rc''} \<and> is_int (\<lambda>n. 0 < n \<and> length (show_nat n) \<le> 4300) sequence))"
  by (auto simp: identity_def Let_def CHANNELS_def is_str_iff is_int_iff suffix_of_def int_text_def split: if_splits)

text \<open>A version text has one identity: two releases whose identities are accepted and whose versions are equal have the same base version, channel and sequence, so that no two of them share a tag.\<close>

theorem version_unique:
  assumes "identity base channel sequence = Inr v" "identity base' channel' sequence' = Inr v"
  shows "base = base' \<and> channel = channel' \<and> sequence = sequence'"
proof -
  obtain b c where 1: "base = VStr b" "base_pattern b" "channel = VStr c" "v = b @ suffix_of c sequence"
    "c = ''stable'' \<and> sequence = VNone \<or> c = ''nightly'' \<and> is_str (\<lambda>_. True) sequence
      \<or> c \<in> {''beta'', ''rc''} \<and> is_int (\<lambda>n. 0 < n) sequence"
    using assms(1) by (auto simp: identity_Inr is_str_iff is_int_iff)
  obtain b' c' where 2: "base' = VStr b'" "base_pattern b'" "channel' = VStr c'" "v = b' @ suffix_of c' sequence'"
    "c' = ''stable'' \<and> sequence' = VNone \<or> c' = ''nightly'' \<and> is_str (\<lambda>_. True) sequence'
      \<or> c' \<in> {''beta'', ''rc''} \<and> is_int (\<lambda>n. 0 < n) sequence'"
    using assms(2) by (auto simp: identity_Inr is_str_iff is_int_iff)
  have cut: "takeWhile (\<lambda>x. x \<noteq> CHR ''-'') (d @ suffix_of e s) = d" if "base_pattern d" for d e s
    using base_no_dash [OF that] by (cases s) (auto simp: suffix_of_def takeWhile_append)
  have b: "b = b'" using cut [OF 1(2)] cut [OF 2(2)] 1(4) 2(4) by metis
  then have s: "suffix_of c sequence = suffix_of c' sequence'" using 1(4) 2(4) by simp
  show ?thesis using 1 2 b s
    by (auto simp: suffix_of_def is_str_iff is_int_iff show_int_def show_nat_inj)
qed

lemma version_unique_witness:
  "identity (VStr ''1.2.3'') (VStr ''rc'') (VInt 4) = Inr ''1.2.3-rc.4''
   \<and> (VStr ''1.2.3'', VStr ''rc'', VInt 4) = (VStr ''1.2.3'', VStr ''rc'', VInt 4)"
proof -
  have i: "identity (VStr ''1.2.3'') (VStr ''rc'') (VInt 4) = Inr ''1.2.3-rc.4''" by code_simp
  show ?thesis using i version_unique [OF i i] by simp
qed

section \<open>Accepted documents\<close>

text \<open>Projections read the fields of a plan, whatever their order.\<close>

lemma projected_value_cong:
  assumes "map_of p = map_of q"
  shows "projected_value p d = projected_value q d"
proof -
  have i: "item_of p k = item_of q k" for k using assms by (simp add: item_of_def)
  have v: "vget p k = vget q k" for k using assms by (simp add: vget_def dict_get_def)
  show ?thesis by (simp only: projected_value_def projections_def package_version_def i v)
qed

lemma project_all_cong: "map_of p = map_of q \<Longrightarrow> project_all p vs = project_all q vs"
  by (simp add: project_all_def projected_value_cong [of p q])

lemma policy_promotion: "validate_policy policy = Inr config \<Longrightarrow> \<exists>s \<in> {''promote-bytes'', ''final-build''}. vget config ''promotion'' = VStr s"
  by (auto simp: validate_policy_def split: pyval.splits)

definition frozen :: "pyval \<Rightarrow> pyval \<Rightarrow> string \<Rightarrow> pyval \<Rightarrow> pyval \<Rightarrow> pyval \<Rightarrow> string \<Rightarrow> pyval \<Rightarrow> pyobj" where
  "frozen base channel version sequence source_sha build_number d promotion =
     [(''schema_version'', VInt 1), (''base_version'', base), (''version'', VStr version), (''channel'', channel),
      (''sequence'', sequence), (''tag'', VStr (''v'' @ version)), (''source_sha'', source_sha), (''build_number'', build_number),
      (''policy_sha256'', VStr d), (''promotion'', promotion)]"

lemma create_plan_Inr:
  "create_plan H base channel sequence sha policy number = Inr plan \<longleftrightarrow>
     (\<exists>config version d. validate_policy policy = Inr config \<and> identity base channel sequence = Inr version \<and> is_str sha_pattern sha
        \<and> build_number_ok number \<and> above_floor number config \<and> policy_digest H policy = Inr d
        \<and> plan = frozen base channel version sequence sha number d (vget config ''promotion'')
        \<and> project_all plan (version_files config) = Inr ())"
  by (auto simp: create_plan_def Let_def frozen_def)

lemma vget_simps: "vget ((k, v) # d) j = (if j = k then v else vget d j)"
  by (simp add: vget_def dict_get_def)

lemma keys_frozen: "set (dict_keys (frozen b c v s h n d p)) = set plan_keys"
  by (simp add: frozen_def dict_keys_def plan_keys_def)

lemma frozen_fields:
  "vget (frozen b c v s h n d p) ''schema_version'' = VInt 1" "vget (frozen b c v s h n d p) ''version'' = VStr v"
  "vget (frozen b c v s h n d p) ''tag'' = VStr (''v'' @ v)" "vget (frozen b c v s h n d p) ''source_sha'' = h"
  "vget (frozen b c v s h n d p) ''policy_sha256'' = VStr d" "vget (frozen b c v s h n d p) ''promotion'' = p"
  "vget (frozen b c v s h n d p) ''base_version'' = b" "vget (frozen b c v s h n d p) ''channel'' = c"
  "vget (frozen b c v s h n d p) ''sequence'' = s" "vget (frozen b c v s h n d p) ''build_number'' = n"
  by (simp_all add: frozen_def vget_simps)

lemma map_of_frozen:
  assumes "set (dict_keys plan) = set plan_keys" "vget plan ''schema_version'' = VInt 1" "vget plan ''version'' = VStr v"
    "vget plan ''tag'' = VStr (''v'' @ v)" "vget plan ''policy_sha256'' = VStr d"
  shows "map_of plan = map_of (frozen (vget plan ''base_version'') (vget plan ''channel'') v (vget plan ''sequence'')
     (vget plan ''source_sha'') (vget plan ''build_number'') d (vget plan ''promotion''))" (is "_ = map_of ?q")
proof
  fix k
  show "map_of plan k = map_of ?q k"
  proof (cases "k \<in> set plan_keys")
    case True
    then have "map_of plan k = Some (vget plan k)"
      using assms(1) by (auto simp: set_dict_keys vget_def dict_get_def dom_def split: option.splits)
    moreover have "map_of ?q k = Some (vget plan k)" using True assms(2-5) by (auto simp: frozen_def plan_keys_def)
    ultimately show ?thesis by simp
  next
    case False
    then have "map_of plan k = None" using assms(1) set_dict_keys [of plan] by (metis domIff)
    moreover have "map_of ?q k = None" using False keys_frozen set_dict_keys by (metis domIff)
    ultimately show ?thesis by simp
  qed
qed

text \<open>C30: \<open>validate_plan\<close> accepts a document for a policy and a source commit exactly when it is the plan that \<open>create_plan\<close> makes from the document's own base version, channel, sequence and build number for that policy and commit, up to the order of its keys: no field can be edited without the document being refused, and every plan made is accepted.\<close>

theorem validate_plan_exact:
  assumes "\<forall>t. digest_pattern (sha256_hex H t)"
  shows "validate_plan H (VDict plan) (Some policy) (Some sha) = Inr plan \<longleftrightarrow>
    (\<exists>made. create_plan H (vget plan ''base_version'') (vget plan ''channel'') (vget plan ''sequence'') sha policy (vget plan ''build_number'') = Inr made
      \<and> map_of made = map_of plan)" (is "?accepted \<longleftrightarrow> ?made")
proof
  assume ?accepted
  then obtain v config d where a: "set (dict_keys plan) = set plan_keys" "vget plan ''schema_version'' = VInt 1"
      "identity (vget plan ''base_version'') (vget plan ''channel'') (vget plan ''sequence'') = Inr v"
      "vget plan ''version'' = VStr v" "vget plan ''tag'' = VStr (''v'' @ v)" "is_str sha_pattern (vget plan ''source_sha'')"
      "build_number_ok (vget plan ''build_number'')" "vget plan ''source_sha'' = sha"
      "validate_policy policy = Inr config" "policy_digest H policy = Inr d" "vget plan ''policy_sha256'' = VStr d"
      "vget plan ''promotion'' = vget config ''promotion''" "above_floor (vget plan ''build_number'') config"
      "project_all plan (version_files config) = Inr ()"
    by (auto simp: validate_plan_def check_binding_def)
  have m: "map_of plan = map_of (frozen (vget plan ''base_version'') (vget plan ''channel'') v (vget plan ''sequence'')
     sha (vget plan ''build_number'') d (vget config ''promotion''))"
    using map_of_frozen [OF a(1,2,4,5,11)] a(8,12) by simp
  show ?made using a m project_all_cong [OF m] by (auto simp: create_plan_Inr)
next
  assume ?made
  then obtain made config v d where m: "validate_policy policy = Inr config"
      "identity (vget plan ''base_version'') (vget plan ''channel'') (vget plan ''sequence'') = Inr v" "is_str sha_pattern sha"
      "build_number_ok (vget plan ''build_number'')" "above_floor (vget plan ''build_number'') config" "policy_digest H policy = Inr d"
      "made = frozen (vget plan ''base_version'') (vget plan ''channel'') v (vget plan ''sequence'') sha (vget plan ''build_number'') d (vget config ''promotion'')"
      "project_all made (version_files config) = Inr ()" "map_of made = map_of plan"
    by (auto simp: create_plan_Inr)
  have g: "vget plan = vget made" using m(9) by (auto simp: vget_def dict_get_def fun_eq_iff)
  have k: "set (dict_keys plan) = set plan_keys" using keys_frozen m(7,9) set_dict_keys by metis
  have p: "project_all plan (version_files config) = Inr ()" using m(8) project_all_cong [OF m(9)] by simp
  have d: "digest_pattern d" using m(6) assms by (auto simp: policy_digest_def)
  have f: "vget plan ''schema_version'' = VInt 1" "vget plan ''version'' = VStr v" "vget plan ''tag'' = VStr (''v'' @ v)"
      "vget plan ''source_sha'' = sha" "vget plan ''policy_sha256'' = VStr d" "vget plan ''promotion'' = vget config ''promotion''"
    using frozen_fields [of "vget plan ''base_version''" "vget plan ''channel''" v "vget plan ''sequence''" sha "vget plan ''build_number''" d "vget config ''promotion''"]
    unfolding m(7) [symmetric] g [symmetric] by blast+
  have "is_str digest_pattern (VStr d)" using d by (simp add: is_str_def)
  then show ?accepted using k f m(1-6) p policy_promotion [OF m(1)]
    by (auto simp: validate_plan_def check_binding_def)
qed

definition zero_hasher :: hasher where
  "zero_hasher = \<lparr>sha256_hex = (\<lambda>t. replicate 64 (CHR ''0'')), float_text = (\<lambda>f. [])\<rparr>"

definition sample_policy :: pyval where
  "sample_policy = VDict [(''versioning'', VDict [(''schema'', VInt 1), (''promotion'', VStr ''promote-bytes''),
     (''files'', VList [VDict [(''path'', VStr ''version''), (''format'', VStr ''text''), (''prefix'', VStr ''v'')]])])]"

definition sample_sha :: string where
  "sample_sha = replicate 40 (CHR ''a'')"

definition sample_plan :: pyobj where
  "sample_plan = frozen (VStr ''2.0.0'') (VStr ''beta'') ''2.0.0-beta.3'' (VInt 3) (VStr sample_sha) (VInt 17) (replicate 64 (CHR ''0'')) (VStr ''promote-bytes'')"

lemma validate_plan_exact_witness:
  "validate_plan zero_hasher (VDict sample_plan) (Some sample_policy) (Some (VStr sample_sha)) = Inr sample_plan
   \<and> validate_plan zero_hasher (VDict (sample_plan @ [(''build'', VNone)])) (Some sample_policy) (Some (VStr sample_sha)) \<noteq> Inr sample_plan"
proof
  have h: "\<forall>t. digest_pattern (sha256_hex zero_hasher t)"
    by (simp add: digest_pattern_def zero_hasher_def list_all_length lower_hex_def is_digit_def code_def)
  have c: "create_plan zero_hasher (VStr ''2.0.0'') (VStr ''beta'') (VInt 3) (VStr sample_sha) sample_policy (VInt 17) = Inr sample_plan"
    by code_simp
  have g: "vget sample_plan ''base_version'' = VStr ''2.0.0''" "vget sample_plan ''channel'' = VStr ''beta''"
    "vget sample_plan ''sequence'' = VInt 3" "vget sample_plan ''build_number'' = VInt 17"
    unfolding sample_plan_def frozen_fields by simp_all
  show "validate_plan zero_hasher (VDict sample_plan) (Some sample_policy) (Some (VStr sample_sha)) = Inr sample_plan"
    unfolding validate_plan_exact [OF h] g using c by blast
  show "validate_plan zero_hasher (VDict (sample_plan @ [(''build'', VNone)])) (Some sample_policy) (Some (VStr sample_sha)) \<noteq> Inr sample_plan"
    by code_simp
qed

section \<open>Platform build numbers\<close>

text \<open>The three components of the Apple build of a number, most significant first.\<close>

definition apple_parts :: "int \<Rightarrow> int list" where
  "apple_parts n = [(n - 1) div 10000 + 1, (n - 1) div 100 mod 100, (n - 1) mod 100]"

lemma apple_parts_value:
  assumes "apple_parts n = [a, b, c]"
  shows "n = (a - 1) * 10000 + b * 100 + c + 1" and "0 \<le> b" "b < 100" "0 \<le> c" "c < 100"
proof -
  have d: "(n - 1) div 10000 = (n - 1) div 100 div 100" using zdiv_zmult2_eq [of 100 "n - 1" 100] by simp
  have "(n - 1) div 100 = (a - 1) * 100 + b" using assms d div_mult_mod_eq [of "(n - 1) div 100" 100]
    by (simp add: apple_parts_def)
  moreover have "n - 1 = (n - 1) div 100 * 100 + c" using assms div_mult_mod_eq [of "n - 1" 100] by (simp add: apple_parts_def)
  ultimately show "n = (a - 1) * 10000 + b * 100 + c + 1" by simp
  show "0 \<le> b" "b < 100" "0 \<le> c" "c < 100" using assms by (auto simp: apple_parts_def)
qed

lemma apple_parts_less:
  assumes "m < n"
  shows "apple_parts m < apple_parts n"
proof -
  obtain a b c where m: "apple_parts m = [a, b, c]" by (simp add: apple_parts_def)
  obtain a' b' c' where n: "apple_parts n = [a', b', c']" by (simp add: apple_parts_def)
  show ?thesis using apple_parts_value [OF m] apple_parts_value [OF n] assms unfolding m n by auto
qed

text \<open>The Apple build numbers of two allocated build numbers are ordered as the numbers are, component by component, and stay inside the platform's limits: a first component from 1 to 9999 and two of at most two digits.\<close>

theorem apple_builds_ordered:
  assumes "0 < m" "m < n" "n \<le> 99990000"
  shows "apple_build (VInt m) = VStr (join_with ''.'' (map show_int (apple_parts m)))
    \<and> apple_build (VInt n) = VStr (join_with ''.'' (map show_int (apple_parts n)))
    \<and> apple_parts m < apple_parts n
    \<and> 1 \<le> hd (apple_parts m) \<and> hd (apple_parts n) \<le> 9999
    \<and> (\<forall>x. x \<in> set (tl (apple_parts n)) \<union> set (tl (apple_parts m)) \<longrightarrow> 0 \<le> x \<and> x \<le> 99)"
proof -
  have parts: "apple_build (VInt k) = VStr (join_with ''.'' (map show_int (apple_parts k)))"
    if "0 < k" "k \<le> 99990000" for k
    using that by (simp add: apple_build_def Let_def apple_parts_def)
  have small: "\<forall>x \<in> set (tl (apple_parts k)). 0 \<le> x \<and> x \<le> 99" for k
  proof -
    obtain a b c where k: "apple_parts k = [a, b, c]" by (simp add: apple_parts_def)
    show ?thesis using apple_parts_value(2-5) [OF k] by (simp add: k)
  qed
  have "(n - 1) div 10000 \<le> 9998" "0 \<le> (m - 1) div 10000" using assms by simp_all
  then have "1 \<le> hd (apple_parts m)" "hd (apple_parts n) \<le> 9999" by (simp_all add: apple_parts_def)
  moreover have "0 < n" "m \<le> 99990000" using assms by simp_all
  ultimately show ?thesis using parts [of m] parts [of n] small assms apple_parts_less [OF assms(2)] by blast
qed

lemma apple_builds_ordered_witness:
  "apple_build (VInt 10000) = VStr ''1.99.99'' \<and> apple_build (VInt 10001) = VStr ''2.0.0'' \<and> apple_parts 10000 < apple_parts 10001"
proof -
  have "apple_parts 10000 < apple_parts 10001" using apple_builds_ordered [of 10000 10001] by simp
  moreover have "apple_build (VInt 10000) = VStr ''1.99.99''" "apple_build (VInt 10001) = VStr ''2.0.0''" by code_simp+
  ultimately show ?thesis by simp
qed

end
