(* ===== verification/VersionLedger.thy ===== *)
theory VersionLedger
  imports VersionPlan
begin

text \<open>
  \<open>scripts/release_state.py\<close>: the ledger of reserved version plans, a JSON file on a branch of its
  own that runs read and write back under compare-and-swap, and from \<open>scripts/release_control.py\<close>
  the checks it calls (\<open>positive\<close>, \<open>version\<close>, \<open>parse_json\<close>, \<open>next_sequence\<close>, \<open>ensure_absent\<close>).  What
  GitHub answers during one operation is a \<open>github_view\<close>; what the operation asks GitHub to change
  is a list of requests.  The base64 transport of the file is left to the view.
\<close>

section \<open>Checks of the release engine\<close>

text \<open>\<open>ReleaseError\<close> is a \<open>RuntimeError\<close>.\<close>

definition rc_require :: "bool \<Rightarrow> string \<Rightarrow> unit res" where
  "rc_require condition message = check condition (RuntimeError message)"

lemma rc_require_Inr [simp]: "rc_require c m = Inr u \<longleftrightarrow> c"
  by (simp add: rc_require_def)

definition rc_version :: "string \<Rightarrow> string res" where
  "rc_version v = and_then (rc_require (base_pattern v) ''Version must be strict X.Y.Z without leading zeros'') (\<lambda>_. Inr v)"

text \<open>\<open>int(s)\<close> of a numeral: only its length can be refused.\<close>

definition int_of_numeral :: "string \<Rightarrow> int res" where
  "int_of_numeral s = (case int_of_str s of Some n \<Rightarrow> Inr n | None \<Rightarrow> Inl (ValueError ''Exceeds the limit for integer string conversion''))"

definition positive :: "pyval \<Rightarrow> string \<Rightarrow> int res" where
  "positive v name = (case v of
       VStr s \<Rightarrow> and_then (rc_require (positive_pattern s) (''Invalid '' @ name)) (\<lambda>_.
         int_of_numeral s)
     | VInt n \<Rightarrow> and_then (int_text n) (\<lambda>t. and_then (rc_require (positive_pattern t) (''Invalid '' @ name)) (\<lambda>_. Inr n))
     | _ \<Rightarrow> Inl (RuntimeError (''Invalid '' @ name)))"

definition no_duplicates :: hook where
  "no_duplicates pairs = (if distinct (map fst pairs) then Inr (VDict pairs) else Inl (RuntimeError ''Duplicate JSON field''))"

definition parse_json :: "string \<Rightarrow> pyval res" where
  "parse_json data = (case json_loads_bytes no_duplicates data of
     Inl (ValueError m) \<Rightarrow> Inl (RuntimeError ''Invalid JSON'') | r \<Rightarrow> r)"

definition rc_json_bytes :: "hasher \<Rightarrow> pyval \<Rightarrow> string res" where
  "rc_json_bytes H v = and_then (dumps (float_text H) Indented True v) (\<lambda>t. Inr (t @ [CHR 0x0A]))"

section \<open>What GitHub answers\<close>

record contents_reply =
  reply_type :: string
  reply_encoding :: string
  reply_raw :: "string res"
  reply_sha :: string

record github_view =
  view_file :: "contents_reply option"
  view_ref :: bool
  view_ref_later :: bool
  view_tags :: "string list"
  view_releases :: "(string \<times> bool) list"
  view_tag_ref :: "string \<Rightarrow> bool"
  view_release_tag :: "string \<Rightarrow> bool"

datatype request = CreateBranch string | PutLedger string "string option"

text \<open>A release is given by its tag and whether it is a draft.\<close>

definition tag_published :: "github_view \<Rightarrow> string \<Rightarrow> bool" where
  "tag_published gh tag = ((tag, False) \<in> set (view_releases gh))"

definition ensure_absent :: "github_view \<Rightarrow> string \<Rightarrow> unit res" where
  "ensure_absent gh tag =
     and_then (rc_require (\<not> view_tag_ref gh tag) (''Tag already exists: '' @ tag)) (\<lambda>_.
     and_then (rc_require (\<not> view_release_tag gh tag) (''Release already exists: '' @ tag)) (\<lambda>_.
     rc_require (tag \<notin> set (map fst (view_releases gh))) (''Draft release already exists: '' @ tag)))"

definition max_default :: "int list \<Rightarrow> int" where
  "max_default ns = fold max ns 0"

definition next_sequence :: "github_view \<Rightarrow> string \<Rightarrow> string \<Rightarrow> int res" where
  "next_sequence gh base channel =
     and_then (rc_require (channel \<in> {''beta'', ''rc''}) ''Sequence only applies to beta and rc'') (\<lambda>_.
     and_then (rc_version base) (\<lambda>v.
     let pre = ''v'' @ v @ ''-'' @ channel @ ''.''; tags = view_tags gh @ map fst (view_releases gh) in
     and_then (mapM int_of_numeral (filter positive_pattern (map (drop (length pre)) (filter (starts_with pre) tags)))) (\<lambda>numbers.
     Inr (max_default numbers + 1))))"

section \<open>Reading the ledger\<close>

definition ledger_counter :: "pyobj \<Rightarrow> int" where
  "ledger_counter st = the (as_int (vget st ''counter''))"

definition ledger_floor :: "pyobj \<Rightarrow> int" where
  "ledger_floor st = the (as_int (vget st ''publication_floor''))"

definition ledger_plans :: "pyobj \<Rightarrow> (string \<times> pyval) list" where
  "ledger_plans st = the (as_dict (vget st ''plans''))"

definition plan_of :: "pyval \<Rightarrow> pyobj" where
  "plan_of r = the (as_dict (vget (the (as_dict r)) ''plan''))"

definition check_record :: "hasher \<Rightarrow> int \<Rightarrow> string \<times> pyval \<Rightarrow> unit \<Rightarrow> unit res" where
  "check_record H counter kr u = (case kr of (key, r) \<Rightarrow>
     and_then (positive (VStr key) ''ledger run ID'') (\<lambda>_.
     case r of VDict d \<Rightarrow>
       and_then (validate_plan H (vget d ''plan'') None None) (\<lambda>plan.
       case vget plan ''build_number'' of
         VInt n \<Rightarrow> rc_require (n \<le> counter) ''Ledger counter moved backwards''
       | _ \<Rightarrow> Inl (TypeError ''<= not supported''))
     | _ \<Rightarrow> Inl (RuntimeError ''Invalid version reservation'')))"

definition check_state :: "hasher \<Rightarrow> pyval \<Rightarrow> pyobj res" where
  "check_state H v = (case v of VDict st \<Rightarrow>
       and_then (rc_require (vget st ''schema'' = VInt 1) ''Unsupported version ledger schema'') (\<lambda>_.
       and_then (rc_require (is_int (\<lambda>n. 0 \<le> n) (vget st ''counter'')) ''Invalid ledger counter'') (\<lambda>_.
       and_then (rc_require (is_int (\<lambda>n. 0 \<le> n \<and> n \<le> ledger_counter st) (vget st ''publication_floor'')) ''Invalid ledger publication floor'') (\<lambda>_.
       and_then (rc_require (as_dict (vget st ''plans'') \<noteq> None) ''Invalid ledger plans'') (\<lambda>_.
       and_then (foldM (check_record H (ledger_counter st)) (ledger_plans st) ()) (\<lambda>_. Inr st)))))
     | _ \<Rightarrow> Inl (RuntimeError ''Unsupported version ledger schema''))"

definition empty_ledger :: pyobj where
  "empty_ledger = [(''schema'', VInt 1), (''counter'', VInt 0), (''publication_floor'', VInt 0), (''plans'', VDict [])]"

definition read_state :: "hasher \<Rightarrow> github_view \<Rightarrow> (pyobj \<times> string option) res" where
  "read_state H gh = (case view_file gh of
       None \<Rightarrow> and_then (rc_require (\<not> view_ref gh) ''Version ledger is missing from its existing branch; restore it from history'')
         (\<lambda>_. Inr (empty_ledger, None))
     | Some reply \<Rightarrow>
         and_then (rc_require (reply_type reply = ''file'' \<and> reply_encoding reply = ''base64'') ''Ledger must be a regular JSON file'') (\<lambda>_.
         and_then (reply_raw reply) (\<lambda>raw.
         and_then (rc_require (length raw \<le> 4000000) ''Ledger requires compaction before another allocation'') (\<lambda>_.
         and_then (parse_json raw) (\<lambda>v.
         and_then (check_state H v) (\<lambda>st.
         and_then (rc_require (sha_pattern (reply_sha reply)) ''Invalid ledger blob SHA'') (\<lambda>_.
         Inr (st, Some (reply_sha reply)))))))))"

definition write_state :: "hasher \<Rightarrow> pyobj \<Rightarrow> string option \<Rightarrow> request res" where
  "write_state H st previous = and_then (rc_json_bytes H (VDict st)) (\<lambda>t. Inr (PutLedger t previous))"

section \<open>Reserving a plan\<close>

text \<open>Python's \<open>==\<close>: the order of keys does not count, and numbers compare by value.\<close>

fun num_value :: "pyval \<Rightarrow> pyfloat option" where
  "num_value (VInt i) = Some (Fin (of_int i))"
| "num_value (VBool b) = Some (Fin (if b then 1 else 0))"
| "num_value (VFloat f) = Some f"
| "num_value _ = None"

fun py_eq :: "pyval \<Rightarrow> pyval \<Rightarrow> bool" where
  "py_eq (VList xs) w = (case w of VList ys \<Rightarrow> length xs = length ys \<and> list_all (\<lambda>(f, y). f y) (zip (map py_eq xs) ys) | _ \<Rightarrow> False)"
| "py_eq (VDict d) w = (case w of VDict e \<Rightarrow> set (dict_keys e) \<subseteq> set (dict_keys d)
     \<and> list_all (\<lambda>(k, f). case map_of e k of None \<Rightarrow> False | Some y \<Rightarrow> f y) (map (\<lambda>(k, v). (k, py_eq v)) d) | _ \<Rightarrow> False)"
| "py_eq v w = (case (num_value v, num_value w) of (Some x, Some y) \<Rightarrow> feq x y | (None, None) \<Rightarrow> v = w | _ \<Rightarrow> False)"

definition reserved_sequences :: "pyobj \<Rightarrow> string \<Rightarrow> string \<Rightarrow> int list" where
  "reserved_sequences st base channel =
     map (\<lambda>(k, r). the (as_int (vget (plan_of r) ''sequence'')))
       (filter (\<lambda>(k, r). vget (plan_of r) ''base_version'' = VStr base \<and> vget (plan_of r) ''channel'' = VStr channel) (ledger_plans st))"

text \<open>The inputs of one reservation; \<open>stamp\<close> is \<open>now.strftime("%Y%m%d%H%M%S")\<close>.\<close>

record reserve_args =
  ra_policy :: pyval
  ra_base :: string
  ra_channel :: string
  ra_source_sha :: string
  ra_run_id :: int
  ra_attempt :: int
  ra_stamp :: string
  ra_parent :: pyval

definition choose_sequence :: "github_view \<Rightarrow> pyobj \<Rightarrow> reserve_args \<Rightarrow> pyval res" where
  "choose_sequence gh st a =
     (if ra_channel a \<in> {''beta'', ''rc''} then
        and_then (next_sequence gh (ra_base a) (ra_channel a)) (\<lambda>n.
        Inr (VInt (max n (max_default (reserved_sequences st (ra_base a) (ra_channel a)) + 1))))
      else if ra_channel a = ''nightly'' then
        Inr (VStr (ra_stamp a @ ''.'' @ show_int (ra_run_id a) @ ''.'' @ show_int (ra_attempt a)))
      else Inr VNone)"

definition resume_plan :: "hasher \<Rightarrow> pyval \<Rightarrow> reserve_args \<Rightarrow> pyobj res" where
  "resume_plan H r a =
     and_then (item_of (the (as_dict r)) ''plan'') (\<lambda>p.
     and_then (validate_plan H p (Some (ra_policy a)) (Some (VStr (ra_source_sha a)))) (\<lambda>plan.
     and_then (rc_require (vget plan ''base_version'' = VStr (ra_base a) \<and> vget plan ''channel'' = VStr (ra_channel a)) ''Run already reserved a different release identity'') (\<lambda>_.
     and_then (rc_require (py_eq (vget (the (as_dict r)) ''parent'') (ra_parent a)) ''Run already reserved a different RC'') (\<lambda>_.
     Inr plan))))"

definition policy_floor :: "pyval \<Rightarrow> int res" where
  "policy_floor policy = (case policy of VDict p \<Rightarrow> and_then (item_of p ''versioning'') (\<lambda>c. case c of
       VDict config \<Rightarrow> (case get_default config ''build_number_floor'' (VInt 0) of
           VInt n \<Rightarrow> and_then (rc_require (0 \<le> n) ''Invalid native build counter floor'') (\<lambda>_. Inr n)
         | _ \<Rightarrow> Inl (RuntimeError ''Invalid native build counter floor''))
       | _ \<Rightarrow> Inl (OtherError ''AttributeError'' ''get''))
     | _ \<Rightarrow> Inl (TypeError ''not subscriptable''))"

definition add_reservation :: "pyobj \<Rightarrow> int \<Rightarrow> string \<Rightarrow> pyobj \<Rightarrow> pyval \<Rightarrow> pyobj" where
  "add_reservation st number run_key plan parent =
     dict_set ''plans'' (VDict (dict_set run_key (VDict [(''plan'', VDict plan), (''parent'', parent)]) (ledger_plans st)))
       (dict_set ''counter'' (VInt number) st)"

definition reserve_plan :: "hasher \<Rightarrow> github_view \<Rightarrow> reserve_args \<Rightarrow> (pyobj \<times> request list) res" where
  "reserve_plan H gh a =
     and_then (positive (VInt (ra_run_id a)) ''run ID'') (\<lambda>run_id.
     let run_key = show_int run_id in
     and_then (read_state H gh) (\<lambda>(st, previous).
     case map_of (ledger_plans st) run_key of
       Some r \<Rightarrow> and_then (resume_plan H r a) (\<lambda>plan. Inr (plan, []))
     | None \<Rightarrow>
         and_then (choose_sequence gh st a) (\<lambda>sequence.
         and_then (policy_floor (ra_policy a)) (\<lambda>floor.
         let number = max (ledger_counter st) floor + 1 in
         and_then (create_plan H (VStr (ra_base a)) (VStr (ra_channel a)) sequence (VStr (ra_source_sha a)) (ra_policy a) (VInt number)) (\<lambda>plan.
         and_then (ensure_absent gh (the (as_str (vget plan ''tag'')))) (\<lambda>_.
         and_then (write_state H (add_reservation st number run_key plan (ra_parent a)) previous) (\<lambda>put.
         Inr (plan, (if view_ref_later gh then [] else [CreateBranch (ra_source_sha a)]) @ [put]))))))))"

section \<open>Publishing\<close>

definition released_plans :: "github_view \<Rightarrow> pyobj \<Rightarrow> pyobj list" where
  "released_plans gh st = filter (\<lambda>p. case vget p ''tag'' of VStr t \<Rightarrow> tag_published gh t | _ \<Rightarrow> False) (map (plan_of \<circ> snd) (ledger_plans st))"

definition build_of :: "pyobj \<Rightarrow> int" where
  "build_of plan = the (as_int (vget plan ''build_number''))"

definition verify_reservation :: "hasher \<Rightarrow> github_view \<Rightarrow> pyobj \<Rightarrow> pyval \<Rightarrow> pyval \<Rightarrow> pyval \<Rightarrow> unit res" where
  "verify_reservation H gh st plan run_id parent =
     and_then (validate_plan H plan None None) (\<lambda>p.
     and_then (positive run_id ''run ID'') (\<lambda>n.
     and_then (rc_require (case map_of (ledger_plans st) (show_int n) of None \<Rightarrow> False
         | Some r \<Rightarrow> py_eq r (VDict [(''plan'', plan), (''parent'', parent)])) ''Version reservation differs from build plan'') (\<lambda>_.
     and_then (case vget p ''build_number'' of VInt b \<Rightarrow> rc_require (ledger_floor st < b) ''Build number has already reached or fallen below the publication floor''
         | _ \<Rightarrow> Inl (TypeError ''> not supported'')) (\<lambda>_.
     rc_require (list_all (\<lambda>q. build_of q < build_of p) (released_plans gh st)) ''A package with this or a newer build number was already published''))))"

definition verify_promotion_order :: "hasher \<Rightarrow> github_view \<Rightarrow> pyobj \<Rightarrow> pyval \<Rightarrow> unit res" where
  "verify_promotion_order H gh st plan =
     and_then (validate_plan H plan None None) (\<lambda>p.
     and_then (rc_require (vget p ''channel'' = VStr ''rc'' \<and> vget p ''promotion'' = VStr ''promote-bytes'') ''Byte promotion requires a promote-bytes RC plan'') (\<lambda>_.
     and_then (rc_require (length (filter (\<lambda>(k, r). py_eq (VDict (plan_of r)) plan) (ledger_plans st)) = 1) ''Accepted RC has no unique durable version reservation'') (\<lambda>_.
     and_then (case vget p ''build_number'' of VInt b \<Rightarrow> rc_require (ledger_floor st \<le> b) ''Accepted RC build number is below the publication floor''
         | _ \<Rightarrow> Inl (TypeError ''>= not supported'')) (\<lambda>_.
     and_then (rc_require (tag_published gh (the (as_str (vget p ''tag'')))) ''Accepted RC is no longer published'') (\<lambda>_.
     rc_require (list_all (\<lambda>q. vget q ''tag'' = vget p ''tag'' \<or> build_of q \<le> build_of p) (released_plans gh st)) ''A newer native build was published after the accepted RC'')))))"

definition begin_publication :: "hasher \<Rightarrow> github_view \<Rightarrow> pyval \<Rightarrow> pyval \<Rightarrow> pyval \<Rightarrow> bool \<Rightarrow> (string \<times> request list) res" where
  "begin_publication H gh plan run_id parent promotion =
     and_then (positive run_id ''run ID'') (\<lambda>_.
     and_then (read_state H gh) (\<lambda>(st, previous).
     and_then (if promotion then verify_promotion_order H gh st plan else verify_reservation H gh st plan run_id parent) (\<lambda>_.
     let st' = dict_set ''publication_floor'' (vget (the (as_dict plan)) ''build_number'') st in
     and_then (write_state H st' previous) (\<lambda>put.
     and_then (rc_json_bytes H (VDict st')) (\<lambda>text. Inr (text, [put]))))))"

end
