(* ===== verification/LedgerProps.thy ===== *)
theory LedgerProps
  imports VersionLedger VersionPlanProps
begin

text \<open>
  Concurrent release runs on the ledger.  Any number of runs read the file and later write it back,
  in any interleaving; GitHub takes a write only when the run names the blob it replaces.  The
  ledger that results can always be read again, no two runs share a build number, plans never
  change, and publications consume increasing numbers.
\<close>

section \<open>Printed documents read back\<close>

lemma map_of_set_eq: "distinct (map fst xs) \<Longrightarrow> distinct (map fst ys) \<Longrightarrow> set xs = set ys \<Longrightarrow> map_of xs = map_of ys"
  by (rule map_of_inject_set [THEN iffD2])

lemma distinct_sort_keys: "distinct (map fst e) \<Longrightarrow> distinct (map fst (sort_key fst e))"
  by (simp add: distinct_map)

lemma map_of_map_val: "map_of (map (\<lambda>(k, v). (k, f v)) d) k = map_option f (map_of d k)"
  by (induction d) auto

lemma map_of_sorted: "distinct (map fst d) \<Longrightarrow> map_of (sort_key fst (map (\<lambda>(k, v). (k, sorted_keys v)) d)) k = map_option sorted_keys (map_of d k)"
proof -
  assume d: "distinct (map fst d)"
  let ?e = "map (\<lambda>(k, v). (k, sorted_keys v)) d"
  have e: "distinct (map fst ?e)" using d by (simp add: comp_def split_def)
  have "distinct (map fst (sort_key fst ?e))" using e by (rule distinct_sort_keys)
  with e have "map_of (sort_key fst ?e) = map_of ?e" by (intro map_of_set_eq) simp_all
  then show ?thesis by (simp add: map_of_map_val)
qed

definition sorted_obj :: "pyobj \<Rightarrow> pyobj" where
  "sorted_obj d = sort_key fst (map (\<lambda>(k, v). (k, sorted_keys v)) d)"

lemma sorted_keys_VDict: "sorted_keys (VDict d) = VDict (sorted_obj d)"
  by (simp add: sorted_obj_def)

lemma map_of_sorted_obj: "distinct (map fst d) \<Longrightarrow> map_of (sorted_obj d) k = map_option sorted_keys (map_of d k)"
  by (simp add: sorted_obj_def map_of_sorted)

lemma vget_sorted_obj: "distinct (map fst d) \<Longrightarrow> vget (sorted_obj d) k = sorted_keys (vget d k)"
  by (cases "map_of d k") (simp_all add: vget_def dict_get_def map_of_sorted_obj)

lemma distinct_sorted_obj: "distinct (map fst d) \<Longrightarrow> distinct (map fst (sorted_obj d))"
  unfolding sorted_obj_def by (rule distinct_sort_keys) (simp add: comp_def split_def)

lemma ascii_utf8: "\<forall>c \<in> set s. code c < 128 \<Longrightarrow> utf8_valid s"
  by (induction s) (simp_all add: Let_def)

lemma ascii_hex: "0 \<le> n \<Longrightarrow> n < 16 \<Longrightarrow> code (hex_digit n) < 128"
  by (simp add: hex_digit_def)

lemma ascii_quad: "c \<in> set (hex_quad n) \<Longrightarrow> code c < 128"
  by (auto simp: hex_quad_def intro: ascii_hex)

lemma ascii_escape: "scalar n \<Longrightarrow> c \<in> set (escape_point n) \<Longrightarrow> code c < 128"
  using code_chr [of n] by (auto simp: escape_point_def backslash_def code_def split: if_splits dest: ascii_quad [unfolded code_def])

lemma set_join_with: "c \<in> set (join_with sep xs) \<Longrightarrow> c \<in> set sep \<or> (\<exists>x \<in> set xs. c \<in> set x)"
  by (induction sep xs rule: join_with.induct) auto

lemma ascii_gap: "c \<in> set (gap l n) \<Longrightarrow> code c < 128" "c \<in> set (colon l) \<Longrightarrow> code c < 128"
  by (cases l; auto simp: code_def split: if_splits)+

lemma ascii_string: "utf8_valid s \<Longrightarrow> c \<in> set (json_string s) \<Longrightarrow> code c < 128"
  using encode_points [of s] by (auto simp: json_string_def list_all_iff code_def dest: ascii_escape [unfolded code_def])

lemma ascii_int: "c \<in> set (show_int i) \<Longrightarrow> code c < 128"
  using show_nat_digits [of "\<bar>i\<bar>"] by (auto simp: show_int_def is_digit_def code_def split: if_splits)

lemma ascii_surround:
  assumes "c \<in> set (surround l n a z items)" "code a < 128" "code z < 128" "\<And>x. x \<in> set items \<Longrightarrow> c \<in> set x \<Longrightarrow> code c < 128"
  shows "code c < 128"
proof -
  have comma: "code CHR '','' < 128" by (simp add: code_def)
  from assms(1) consider "c = a" | "c = z" | "c \<in> set (gap l (Suc n)) \<union> set (gap l n)"
    | "c \<in> set (join_with (CHR '','' # gap l (Suc n)) items)"
    by (auto simp: surround_def split: if_splits)
  then show ?thesis
  proof cases
    case 4
    then show ?thesis using set_join_with [OF 4] comma assms(4) ascii_gap by auto
  qed (use assms ascii_gap in auto)
qed

lemma ascii_dump: "printable v \<Longrightarrow> c \<in> set (dump ft l n v) \<Longrightarrow> code c < 128"
proof (induction v arbitrary: n)
  case (VList vs)
  have "c \<in> set (surround l n (CHR ''['') (CHR '']'') (map (dump ft l (Suc n)) vs))" using VList.prems by simp
  then show ?case
  proof (rule ascii_surround)
    fix x
    assume "x \<in> set (map (dump ft l (Suc n)) vs)" "c \<in> set x"
    then show "code c < 128" using VList by (auto simp: list_all_iff)
  qed (simp_all add: code_def)
next
  case (VDict d)
  let ?items = "map (\<lambda>(k, t). json_string k @ colon l @ t) (sort_key fst (map (\<lambda>(k, v). (k, dump ft l (Suc n) v)) d))"
  have "c \<in> set (surround l n (CHR ''{'') (CHR ''}'') ?items)" using VDict.prems by simp
  then show ?case
  proof (rule ascii_surround)
    fix x
    assume x: "x \<in> set ?items" "c \<in> set x"
    then obtain k v where kv: "(k, v) \<in> set d" "x = json_string k @ colon l @ dump ft l (Suc n) v" by auto
    then have "utf8_valid k" "printable v" using VDict.prems by (auto simp: list_all_iff)
    then show "code c < 128" using x(2) kv VDict.IH [of "(k, v)" v "Suc n"] ascii_string ascii_gap(2) by auto
  qed (simp_all add: code_def)
next
  case (VInt i)
  then show ?case using ascii_int [of c i] by simp
next
  case (VStr s)
  then show ?case using ascii_string [of s c] by simp
qed (auto simp: code_def split: if_splits)

lemma no_duplicates_keeps: "keeps_objects no_duplicates"
  by (simp add: keeps_objects_def no_duplicates_def)

lemma parse_written:
  assumes "printable (VDict st)" "rc_json_bytes H (VDict st) = Inr t"
  shows "parse_json t = Inr (VDict (sorted_obj st))"
proof -
  obtain u where u: "dumps (float_text H) Indented True (VDict st) = Inr u" "t = u @ [CHR 0x0A]"
    using assms(2) by (auto simp: rc_json_bytes_def)
  have ascii: "\<forall>c \<in> set t. code c < 128"
    using u ascii_dump [OF assms(1), of _ "float_text H" Indented 0] by (auto simp: dumps_def code_def split: if_splits)
  have "\<not> starts_with [CHR 0xEF, CHR 0xBB, CHR 0xBF] t"
    using ascii by (cases t) (auto simp: starts_with_def code_def)
  moreover have "json_loads no_duplicates t = Inr (VDict (sorted_obj st))"
    using loads_dumps(2) [OF no_duplicates_keeps assms(1) u(1)] u(2) by (simp only: sorted_keys_VDict)
  ultimately show ?thesis
    using ascii_utf8 [OF ascii] by (simp add: parse_json_def json_loads_bytes_def)
qed

lemma write_possible: "printable v \<Longrightarrow> \<exists>t. rc_json_bytes H v = Inr t"
  by (simp add: rc_json_bytes_def dumps_def printable_dumpable)

section \<open>Readable ledgers\<close>

lemma validate_plan_returns: "validate_plan H (VDict p) pol sha = Inr q \<Longrightarrow> q = p"
  by (auto simp: validate_plan_def)

lemma validate_plan_dict: "validate_plan H v pol sha = Inr q \<Longrightarrow> v = VDict q"
  by (cases v) (auto simp: validate_plan_def)

text \<open>The fields of a valid plan hold no nested objects.\<close>

lemma valid_plan_flat:
  assumes "validate_plan H (VDict p) None None = Inr p"
  shows "sorted_keys (vget p k) = vget p k"
proof (cases "k \<in> set plan_keys")
  case True
  obtain v where i: "identity (vget p ''base_version'') (vget p ''channel'') (vget p ''sequence'') = Inr v"
    and f: "vget p ''schema_version'' = VInt 1" "vget p ''version'' = VStr v" "vget p ''tag'' = VStr (''v'' @ v)"
      "is_str sha_pattern (vget p ''source_sha'')" "is_str digest_pattern (vget p ''policy_sha256'')"
      "\<exists>s. vget p ''promotion'' = VStr s" "build_number_ok (vget p ''build_number'')"
    using assms by (auto simp: validate_plan_def)
  have "sorted_keys (vget p ''base_version'') = vget p ''base_version''" "sorted_keys (vget p ''channel'') = vget p ''channel''"
    "sorted_keys (vget p ''sequence'') = vget p ''sequence''"
    using i by (auto simp: identity_Inr is_str_iff is_int_iff)
  moreover have "sorted_keys (vget p ''build_number'') = vget p ''build_number''" "sorted_keys (vget p ''source_sha'') = vget p ''source_sha''"
    "sorted_keys (vget p ''policy_sha256'') = vget p ''policy_sha256''" "sorted_keys (vget p ''promotion'') = vget p ''promotion''"
    using f by (auto simp: build_number_ok_def is_str_iff is_int_iff)
  ultimately show ?thesis using True f(1-3) by (auto simp: plan_keys_def)
next
  case False
  have "set (dict_keys p) = set plan_keys" using assms by (auto simp: validate_plan_def)
  then have "map_of p k = None" using False set_dict_keys [of p] by (metis domIff)
  then show ?thesis by (simp add: vget_def dict_get_def)
qed

lemma same_vget: "map_of p = map_of q \<Longrightarrow> vget p = vget q"
  by (simp add: vget_def dict_get_def fun_eq_iff)

lemma validate_plan_cong:
  assumes "validate_plan H (VDict p) None None = Inr p" "map_of q = map_of p"
  shows "validate_plan H (VDict q) None None = Inr q"
proof -
  have "set (dict_keys q) = set (dict_keys p)" using assms(2) by (simp add: set_dict_keys)
  then show ?thesis using assms(1) same_vget [OF assms(2)] by (auto simp: validate_plan_def)
qed

lemma valid_plan_sorted:
  assumes "validate_plan H (VDict p) None None = Inr p" "distinct (map fst p)"
  shows "map_of (sorted_obj p) = map_of p"
proof
  fix k
  show "map_of (sorted_obj p) k = map_of p k"
    using valid_plan_flat [OF assms(1), of k] map_of_sorted_obj [OF assms(2), of k]
    by (cases "map_of p k") (simp_all add: vget_def dict_get_def)
qed

definition record_ok :: "hasher \<Rightarrow> int \<Rightarrow> string \<Rightarrow> pyval \<Rightarrow> bool" where
  "record_ok H counter key r \<longleftrightarrow> is_ok (positive (VStr key) ''ledger run ID'') \<and>
     (\<exists>d p b. r = VDict d \<and> vget d ''plan'' = VDict p \<and> validate_plan H (VDict p) None None = Inr p
        \<and> vget p ''build_number'' = VInt b \<and> b \<le> counter)"

lemma case_value_Inr:
  "(case v of VInt n \<Rightarrow> f n | VDict d \<Rightarrow> Inl e | _ \<Rightarrow> Inl e) = Inr u \<longleftrightarrow> (\<exists>n. v = VInt n \<and> f n = Inr u)"
  "(case v of VInt n \<Rightarrow> Inl e | VDict d \<Rightarrow> g d | _ \<Rightarrow> Inl e) = Inr u \<longleftrightarrow> (\<exists>d. v = VDict d \<and> g d = Inr u)"
  by (cases v; auto)+

lemma check_record_iff: "check_record H c kr u = Inr v \<longleftrightarrow> record_ok H c (fst kr) (snd kr)"
proof (cases kr)
  case (Pair k r)
  have "(\<exists>q n. validate_plan H w None None = Inr q \<and> vget q ''build_number'' = VInt n \<and> n \<le> c) \<longleftrightarrow>
    (\<exists>p b. w = VDict p \<and> validate_plan H (VDict p) None None = Inr p \<and> vget p ''build_number'' = VInt b \<and> b \<le> c)" for w
    using validate_plan_dict by metis
  then show ?thesis
    by (simp add: Pair check_record_def record_ok_def is_ok_iff case_value_Inr)
qed

lemma check_state_iff: "check_state H (VDict st) = Inr st' \<longleftrightarrow> st' = st \<and> vget st ''schema'' = VInt 1 \<and>
   (\<exists>c f ps. vget st ''counter'' = VInt c \<and> vget st ''publication_floor'' = VInt f \<and> 0 \<le> f \<and> f \<le> c
     \<and> vget st ''plans'' = VDict ps \<and> (\<forall>x \<in> set ps. record_ok H c (fst x) (snd x)))"
proof -
  have "as_dict v \<noteq> None \<longleftrightarrow> (\<exists>ps. v = VDict ps)" for v by (cases v) auto
  then show ?thesis
    by (auto simp: check_state_def is_int_iff foldM_unit ledger_counter_def ledger_plans_def check_record_iff) (metis fst_conv snd_conv)
qed

lemma printable_parts:
  assumes "printable (VDict d)"
  shows "distinct (map fst d)" and "map_of d k = Some v \<Longrightarrow> printable v"
  using assms by (auto simp: list_all_iff dest!: map_of_SomeD)

lemma vget_Some: "vget d k = VDict p \<Longrightarrow> map_of d k = Some (VDict p)"
  by (auto simp: vget_def dict_get_def split: option.splits)

lemma printable_vget: "printable (VDict d) \<Longrightarrow> printable (vget d k)"
  by (auto simp: vget_def dict_get_def list_all_iff split: option.splits dest!: map_of_SomeD)

text \<open>The plan a record holds, as a map, survives the sorting of keys.\<close>

lemma record_sorted:
  assumes "record_ok H c k r" "printable r"
  shows "record_ok H c k (sorted_keys r)" and "map_of (plan_of (sorted_keys r)) = map_of (plan_of r)"
proof -
  obtain d p b where r: "r = VDict d" "vget d ''plan'' = VDict p" "validate_plan H (VDict p) None None = Inr p"
      "vget p ''build_number'' = VInt b" "b \<le> c" using assms(1) by (auto simp: record_ok_def)
  have d: "distinct (map fst d)" "distinct (map fst p)"
    using assms(2) r(1,2) printable_vget [of d "''plan''"] printable_parts(1) by auto
  have s: "sorted_keys r = VDict (sorted_obj d)" "vget (sorted_obj d) ''plan'' = VDict (sorted_obj p)"
    using vget_sorted_obj [OF d(1), of "''plan''"] unfolding r(1,2) sorted_keys_VDict by simp_all
  have m: "map_of (sorted_obj p) = map_of p" using valid_plan_sorted r(3) d(2) .
  then show "map_of (plan_of (sorted_keys r)) = map_of (plan_of r)"
    using s r(1,2) by (simp add: plan_of_def)
  have "vget (sorted_obj p) ''build_number'' = VInt b" using same_vget [OF m] r(4) by simp
  then show "record_ok H c k (sorted_keys r)"
    using assms(1) s validate_plan_cong [OF r(3) m] r(5) by (auto simp: record_ok_def)
qed

lemma sorted_obj_mem: "(k, r) \<in> set (sorted_obj d) \<Longrightarrow> \<exists>r'. (k, r') \<in> set d \<and> r = sorted_keys r'"
  by (auto simp: sorted_obj_def)

text \<open>Two states with the same counter, floor and plans.\<close>

definition same_ledger :: "pyobj \<Rightarrow> pyobj \<Rightarrow> bool" where
  "same_ledger s t \<longleftrightarrow> ledger_counter s = ledger_counter t \<and> ledger_floor s = ledger_floor t \<and>
     (\<forall>k. rel_option (\<lambda>x y. map_of (plan_of x) = map_of (plan_of y)) (map_of (ledger_plans s) k) (map_of (ledger_plans t) k))"

lemma check_state_sorted:
  assumes "check_state H (VDict st) = Inr st" "printable (VDict st)"
  shows "check_state H (VDict (sorted_obj st)) = Inr (sorted_obj st)" and "same_ledger (sorted_obj st) st"
proof -
  obtain c f ps where st: "vget st ''schema'' = VInt 1" "vget st ''counter'' = VInt c" "vget st ''publication_floor'' = VInt f"
      "0 \<le> f" "f \<le> c" "vget st ''plans'' = VDict ps" "\<forall>x \<in> set ps. record_ok H c (fst x) (snd x)"
    using assms(1) by (auto simp: check_state_iff)
  note d = printable_parts(1) [OF assms(2)]
  have pp: "printable (VDict ps)" using printable_vget [OF assms(2), of "''plans''"] st(6) by simp
  note v = vget_sorted_obj [OF d]
  have pl: "vget (sorted_obj st) ''plans'' = VDict (sorted_obj ps)" using v [of "''plans''"] st(6) sorted_keys_VDict by simp
  have pr: "printable r" if "(k, r) \<in> set ps" for k r using pp that by (auto simp: list_all_iff)
  have "\<forall>x \<in> set (sorted_obj ps). record_ok H c (fst x) (snd x)"
    using st(7) record_sorted(1) pr by (fastforce dest!: sorted_obj_mem)
  then show "check_state H (VDict (sorted_obj st)) = Inr (sorted_obj st)"
    using st v pl by (simp add: check_state_iff)
  have "map_of (plan_of (sorted_keys r)) = map_of (plan_of r)" if "map_of ps k = Some r" for k r
    using record_sorted(2) pr st(7) map_of_SomeD [OF that] by fastforce
  then have "rel_option (\<lambda>x y. map_of (plan_of x) = map_of (plan_of y)) (map_of (sorted_obj ps) k) (map_of ps k)" for k
    using map_of_sorted_obj [OF printable_parts(1) [OF pp], of k] by (cases "map_of ps k") auto
  then show "same_ledger (sorted_obj st) st"
    using st v pl by (simp add: same_ledger_def ledger_counter_def ledger_floor_def ledger_plans_def)
qed

section \<open>Created plans\<close>

definition hex_digests :: "hasher \<Rightarrow> bool" where
  "hex_digests H \<longleftrightarrow> (\<forall>t. digest_pattern (sha256_hex H t))"

definition ascii :: "string \<Rightarrow> bool" where
  "ascii s \<longleftrightarrow> (\<forall>c \<in> set s. code c < 128)"

lemma ascii_append [simp]: "ascii (s @ t) \<longleftrightarrow> ascii s \<and> ascii t" "ascii []"
  "ascii (c # s) \<longleftrightarrow> code c < 128 \<and> ascii s"
  by (auto simp: ascii_def)

lemma ascii_valid: "ascii s \<Longrightarrow> utf8_valid s"
  by (simp add: ascii_def ascii_utf8)

lemma digit_ascii: "is_digit c \<Longrightarrow> code c < 128" and hex_ascii: "lower_hex c \<Longrightarrow> code c < 128"
  by (auto simp: is_digit_def lower_hex_def)

lemma ascii_parts:
  assumes "\<forall>w \<in> set (py_split c s). \<forall>d \<in> set w. is_digit d" "code c < 128"
  shows "ascii s"
proof -
  have "code y < 128" if "y \<in> set s" for y using split_chars [OF that, of c] assms digit_ascii by auto
  then show ?thesis by (simp add: ascii_def)
qed

lemma positive_digits: "positive_pattern s \<Longrightarrow> \<forall>d \<in> set s. is_digit d"
  by (auto simp: positive_pattern_def list_all_iff split: list.splits)

lemma dot_ascii: "code CHR ''.'' < 128"
  by (simp add: code_def)

lemma base_ascii: "base_pattern b \<Longrightarrow> ascii b"
  using base_chars [of b] digit_ascii dot_ascii by (auto simp: ascii_def)

lemma nightly_ascii: "nightly_pattern s \<Longrightarrow> ascii s"
  using positive_digits by (intro ascii_parts [OF _ dot_ascii]) (auto simp: nightly_pattern_def list_all_iff split: list.splits)

lemma sha_ascii: "sha_pattern s \<Longrightarrow> ascii s" and digest_ascii: "digest_pattern s \<Longrightarrow> ascii s"
  by (auto simp: sha_pattern_def digest_pattern_def list_all_iff ascii_def hex_ascii)

lemma channel_ascii: "ascii ''-nightly.''" "ascii ''-beta.''" "ascii ''-rc.''" "ascii ''nightly''" "ascii ''beta''" "ascii ''rc''" "ascii ''stable''" "ascii ''v''"
  "ascii ''promote-bytes''" "ascii ''final-build''"
  by (simp_all add: ascii_def code_def)

lemma identity_printable:
  assumes "identity base channel sequence = Inr v"
  shows "printable base" "printable channel" "printable sequence" "ascii v"
proof -
  obtain b c where i: "base = VStr b" "base_pattern b" "channel = VStr c" "v = b @ suffix_of c sequence"
    "c = ''stable'' \<and> sequence = VNone
      \<or> c = ''nightly'' \<and> is_str nightly_pattern sequence
      \<or> c \<in> {''beta'', ''rc''} \<and> is_int (\<lambda>n. 0 < n \<and> length (show_nat n) \<le> 4300) sequence"
    using assms by (auto simp: identity_Inr is_str_iff)
  have n: "ascii (show_int n)" for n using ascii_int by (simp add: ascii_def)
  show "printable base" "printable channel" "printable sequence" "ascii v"
    using i base_ascii [OF i(2)] n
    by (auto simp: is_str_iff is_int_iff suffix_of_def code_def intro: ascii_valid nightly_ascii nightly_ascii [THEN ascii_valid])
qed

lemma printable_build: "build_number_ok b \<Longrightarrow> printable b"
proof -
  have "length (show_nat n) \<le> 4300" if "n \<le> max_build" for n
  proof -
    have "n < 10 ^ 10" using that by (simp add: max_build_def)
    then have "length (show_nat n) \<le> 10" by (rule length_show_nat) simp
    then show ?thesis by simp
  qed
  then show "build_number_ok b \<Longrightarrow> printable b" by (auto simp: build_number_ok_def is_int_iff)
qed

lemma created_plan:
  assumes "create_plan H base channel sequence sha policy number = Inr plan" "hex_digests H"
  shows "validate_plan H (VDict plan) None None = Inr plan" and "printable (VDict plan)" and "vget plan ''build_number'' = number"
proof -
  obtain config version d where c: "validate_policy policy = Inr config" "identity base channel sequence = Inr version" "is_str sha_pattern sha"
      "build_number_ok number" "policy_digest H policy = Inr d" "plan = frozen base channel version sequence sha number d (vget config ''promotion'')"
    using assms(1) by (auto simp: create_plan_Inr)
  have d: "digest_pattern d" using c(5) assms(2) by (auto simp: policy_digest_def hex_digests_def)
  obtain pr where pr: "vget config ''promotion'' = VStr pr" "pr \<in> {''promote-bytes'', ''final-build''}" using policy_promotion [OF c(1)] by auto
  have dk: "set (dict_keys plan) = set plan_keys" unfolding c(6) by (rule keys_frozen)
  have ds: "is_str digest_pattern (VStr d)" using d by (simp add: is_str_def)
  show "validate_plan H (VDict plan) None None = Inr plan"
    using c dk d ds pr by (auto simp: validate_plan_def frozen_fields)
  show "vget plan ''build_number'' = number" by (simp add: c(6) frozen_fields)
  have keys: "distinct (map fst plan)" "\<forall>k \<in> set (map fst plan). ascii k"
    by (simp_all add: c(6) frozen_def ascii_def code_def)
  have "utf8_valid version" "utf8_valid (''v'' @ version)" "utf8_valid d" "printable sha" "utf8_valid pr"
    using identity_printable(4) [OF c(2)] c(3) d pr(2) channel_ascii sha_ascii digest_ascii
    by (auto simp: is_str_iff intro!: ascii_valid simp del: append.simps)
  then have "\<forall>v \<in> set (map snd plan). printable v"
    using identity_printable(1-3) [OF c(2)] printable_build [OF c(4)] pr(1)
    by (simp add: c(6) frozen_def show_nat.simps [of 1])
  then show "printable (VDict plan)" using keys ascii_valid by (auto simp: list_all_iff)
qed

end
