(* ===== verification/LedgerRuns.thy ===== *)
theory LedgerRuns
  imports LedgerProps
begin

text \<open>
  Any interleaving of release runs on the ledger of \<open>release_state.py\<close>.  A run pulls what GitHub
  shows, later reserves a plan or begins a publication on what it pulled, and GitHub takes the write
  only when it names the blob that the write replaces.
\<close>

section \<open>One write\<close>

definition unique_numbers :: "pyobj \<Rightarrow> bool" where
  "unique_numbers st \<longleftrightarrow> (\<forall>k k' r r'. map_of (ledger_plans st) k = Some r \<longrightarrow> map_of (ledger_plans st) k' = Some r' \<longrightarrow>
     build_of (plan_of r) = build_of (plan_of r') \<longrightarrow> k = k')"

definition extends :: "pyobj \<Rightarrow> pyobj \<Rightarrow> bool" where
  "extends s t \<longleftrightarrow> ledger_counter s \<le> ledger_counter t \<and> ledger_floor s \<le> ledger_floor t \<and>
     (\<forall>k r. map_of (ledger_plans s) k = Some r \<longrightarrow> (\<exists>r'. map_of (ledger_plans t) k = Some r' \<and> map_of (plan_of r') = map_of (plan_of r)))"

lemma extends_refl: "extends s s"
  by (auto simp: extends_def)

lemma extends_trans: "extends s t \<Longrightarrow> extends t u \<Longrightarrow> extends s u"
  unfolding extends_def by (metis order_trans)

lemma build_of_cong: "map_of p = map_of q \<Longrightarrow> build_of p = build_of q"
  using same_vget [of p q] by (simp add: build_of_def)

lemma same_ledger_plans:
  assumes "same_ledger s t"
  shows "map_of (ledger_plans s) k = Some r \<Longrightarrow> \<exists>r'. map_of (ledger_plans t) k = Some r' \<and> map_of (plan_of r) = map_of (plan_of r')"
    and "map_of (ledger_plans t) k = Some r' \<Longrightarrow> \<exists>r. map_of (ledger_plans s) k = Some r \<and> map_of (plan_of r) = map_of (plan_of r')"
proof -
  have "rel_option (\<lambda>x y. map_of (plan_of x) = map_of (plan_of y)) (map_of (ledger_plans s) k) (map_of (ledger_plans t) k)"
    using assms by (simp add: same_ledger_def)
  then show "map_of (ledger_plans s) k = Some r \<Longrightarrow> \<exists>r'. map_of (ledger_plans t) k = Some r' \<and> map_of (plan_of r) = map_of (plan_of r')"
    and "map_of (ledger_plans t) k = Some r' \<Longrightarrow> \<exists>r. map_of (ledger_plans s) k = Some r \<and> map_of (plan_of r) = map_of (plan_of r')"
    by (auto elim: option.rel_cases)
qed

lemma same_extends: "same_ledger s t \<Longrightarrow> extends t s"
  using same_ledger_plans(2) [of s t] by (auto simp: extends_def same_ledger_def)

lemma same_unique:
  assumes "same_ledger s t" "unique_numbers t"
  shows "unique_numbers s"
  unfolding unique_numbers_def
proof (intro allI impI)
  fix k k' r r'
  assume k: "map_of (ledger_plans s) k = Some r" "map_of (ledger_plans s) k' = Some r'" "build_of (plan_of r) = build_of (plan_of r')"
  obtain x where x: "map_of (ledger_plans t) k = Some x" "build_of (plan_of x) = build_of (plan_of r)"
    using same_ledger_plans(1) [OF assms(1) k(1)] build_of_cong by metis
  obtain y where y: "map_of (ledger_plans t) k' = Some y" "build_of (plan_of y) = build_of (plan_of r')"
    using same_ledger_plans(1) [OF assms(1) k(2)] build_of_cong by metis
  show "k = k'" using assms(2) x y k(3) unfolding unique_numbers_def by metis
qed

lemma printable_dict_set:
  assumes "printable (VDict d)" "utf8_valid k" "printable v"
  shows "printable (VDict (dict_set k v d))"
proof -
  have "distinct (map fst (dict_set k v d))" using assms(1) by (simp add: distinct_update)
  then show ?thesis using assms by (auto simp: list_all_iff dest!: in_set_dict_set)
qed

lemma vget_dict_set: "vget (dict_set k v d) j = (if j = k then v else vget d j)"
  by (simp add: vget_def dict_get_def)

lemma record_ok_mono: "record_ok H c k r \<Longrightarrow> c \<le> c' \<Longrightarrow> record_ok H c' k r"
  by (force simp: record_ok_def)

lemma printable_sorted: "printable v \<Longrightarrow> printable (sorted_keys v)"
proof (induction v)
  case (VDict d)
  have "distinct (map fst (sorted_obj d))" using VDict.prems by (intro distinct_sorted_obj) simp
  moreover have "utf8_valid k \<and> printable x" if kx: "(k, x) \<in> set (sorted_obj d)" for k x
  proof -
    obtain y where y: "(k, y) \<in> set d" "x = sorted_keys y" using sorted_obj_mem [OF kx] by blast
    then show ?thesis using VDict.IH [of "(k, y)" y] VDict.prems by (auto simp: list_all_iff)
  qed
  ultimately have "printable (VDict (sorted_obj d))" by (auto simp: list_all_iff)
  then show ?case by (simp only: sorted_keys_VDict)
qed (auto simp: list_all_iff)

definition ledger_ok :: "hasher \<Rightarrow> pyobj \<Rightarrow> bool" where
  "ledger_ok H st \<longleftrightarrow> check_state H (VDict st) = Inr st \<and> printable (VDict st) \<and> unique_numbers st"

lemma ledger_ok_sorted:
  assumes "ledger_ok H st"
  shows "ledger_ok H (sorted_obj st)" and "same_ledger (sorted_obj st) st"
proof -
  have c: "check_state H (VDict st) = Inr st" "printable (VDict st)" "unique_numbers st" using assms by (auto simp: ledger_ok_def)
  note s = check_state_sorted [OF c(1,2)]
  have "printable (VDict (sorted_obj st))" using printable_sorted [OF c(2)] by (simp only: sorted_keys_VDict)
  then show "ledger_ok H (sorted_obj st)" using s same_unique c(3) by (auto simp: ledger_ok_def)
  show "same_ledger (sorted_obj st) st" by (rule s(2))
qed

lemma ledger_ok_parts:
  assumes "ledger_ok H st"
  obtains c f ps where "vget st ''schema'' = VInt 1" "vget st ''counter'' = VInt c" "vget st ''publication_floor'' = VInt f" "0 \<le> f" "f \<le> c"
    "vget st ''plans'' = VDict ps" "\<forall>x \<in> set ps. record_ok H c (fst x) (snd x)" "ledger_plans st = ps" "ledger_counter st = c" "ledger_floor st = f"
    "printable (VDict ps)"
  using assms printable_vget [of st "''plans''"]
  by (auto simp: ledger_ok_def check_state_iff ledger_counter_def ledger_floor_def ledger_plans_def)

lemma record_number:
  assumes "ledger_ok H st" "map_of (ledger_plans st) k = Some r"
  shows "build_of (plan_of r) \<le> ledger_counter st"
proof -
  obtain c ps where p: "\<forall>x \<in> set ps. record_ok H c (fst x) (snd x)" "ledger_plans st = ps" "ledger_counter st = c"
    using assms(1) by (elim ledger_ok_parts)
  have "record_ok H c k r" using p assms(2) by (auto dest!: map_of_SomeD)
  then show ?thesis using p by (auto simp: record_ok_def build_of_def plan_of_def)
qed

lemma reserve_ok:
  assumes ok: "ledger_ok H st" and free: "map_of (ledger_plans st) key = None" "utf8_valid key" "is_ok (positive (VStr key) ''ledger run ID'')"
    and plan: "validate_plan H (VDict plan) None None = Inr plan" "printable (VDict plan)" "vget plan ''build_number'' = VInt number"
    and number: "ledger_counter st < number" "printable (VInt number)" and parent: "printable parent"
  shows "ledger_ok H (add_reservation st number key plan parent)" and "extends st (add_reservation st number key plan parent)"
    and "ledger_floor (add_reservation st number key plan parent) = ledger_floor st"
proof -
  let ?t = "add_reservation st number key plan parent"
  let ?r = "VDict [(''plan'', VDict plan), (''parent'', parent)]"
  obtain c f ps where p: "vget st ''schema'' = VInt 1" "vget st ''counter'' = VInt c" "vget st ''publication_floor'' = VInt f" "0 \<le> f" "f \<le> c"
      "vget st ''plans'' = VDict ps" "\<forall>x \<in> set ps. record_ok H c (fst x) (snd x)" "ledger_plans st = ps" "ledger_counter st = c" "ledger_floor st = f"
      "printable (VDict ps)"
    using ok by (elim ledger_ok_parts)
  have v: "vget ?t ''schema'' = VInt 1" "vget ?t ''counter'' = VInt number" "vget ?t ''publication_floor'' = VInt f"
      "vget ?t ''plans'' = VDict (dict_set key ?r ps)"
    using p by (simp_all add: add_reservation_def vget_dict_set)
  have pl: "ledger_plans ?t = dict_set key ?r ps" using v(4) by (simp add: ledger_plans_def)
  have new: "record_ok H number key ?r"
    using free(3) plan by (simp add: record_ok_def vget_def dict_get_def)
  have old: "record_ok H number (fst x) (snd x)" if "x \<in> set ps" for x
    using that p(7,9) number(1) by (auto intro: record_ok_mono)
  have "\<forall>x \<in> set (dict_set key ?r ps). record_ok H number (fst x) (snd x)"
    using new old by (auto dest!: in_set_dict_set)
  then have c: "check_state H (VDict ?t) = Inr ?t" using v p(4,5,9) number(1) by (simp add: check_state_iff)
  have k: "utf8_valid ''plan''" "utf8_valid ''parent''" "utf8_valid ''plans''" "utf8_valid ''counter''"
    by (intro ascii_valid; simp add: code_def)+
  have "printable ?r" using plan(2) parent k by simp
  then have pr: "printable (VDict ?t)"
    unfolding add_reservation_def p(8) using ok p(11) free(2) number(2) k by (intro printable_dict_set) (auto simp: ledger_ok_def)
  have b: "build_of (plan_of ?r) = number" using plan(3) by (simp add: build_of_def plan_of_def vget_def dict_get_def)
  have less: "build_of (plan_of r) < number" if "map_of ps k = Some r" for k r
    using record_number [OF ok, of k r] that p(8) number(1) by simp
  have "unique_numbers ?t" using ok b less unfolding unique_numbers_def pl map_of_dict_set ledger_ok_def p(8)
    by (auto split: if_splits) (metis less_irrefl)+
  with c pr show "ledger_ok H ?t" by (simp add: ledger_ok_def)
  show "ledger_floor ?t = ledger_floor st" using v(3) p(10) by (simp add: ledger_floor_def)
  then show "extends st ?t" using p v number(1) free(1) pl by (auto simp: extends_def ledger_counter_def)
qed

lemma publish_ok:
  assumes ok: "ledger_ok H st" and b: "ledger_floor st \<le> b" "b \<le> ledger_counter st" "printable (VInt b)"
  shows "ledger_ok H (dict_set ''publication_floor'' (VInt b) st)" and "extends st (dict_set ''publication_floor'' (VInt b) st)"
    and "ledger_floor (dict_set ''publication_floor'' (VInt b) st) = b"
proof -
  let ?t = "dict_set ''publication_floor'' (VInt b) st"
  obtain c f ps where p: "vget st ''schema'' = VInt 1" "vget st ''counter'' = VInt c" "vget st ''publication_floor'' = VInt f" "0 \<le> f" "f \<le> c"
      "vget st ''plans'' = VDict ps" "\<forall>x \<in> set ps. record_ok H c (fst x) (snd x)" "ledger_plans st = ps" "ledger_counter st = c" "ledger_floor st = f"
    using ok by (elim ledger_ok_parts)
  have v: "vget ?t ''schema'' = VInt 1" "vget ?t ''counter'' = VInt c" "vget ?t ''publication_floor'' = VInt b" "vget ?t ''plans'' = VDict ps"
    using p by (simp_all add: vget_dict_set)
  have k: "utf8_valid ''publication_floor''" by (intro ascii_valid; simp add: code_def)
  have pl: "ledger_plans ?t = ledger_plans st" "ledger_counter ?t = c" using v p by (simp_all add: ledger_plans_def ledger_counter_def)
  have "check_state H (VDict ?t) = Inr ?t" using v p b by (simp add: check_state_iff)
  moreover have "printable (VDict ?t)" using ok b(3) k by (intro printable_dict_set) (auto simp: ledger_ok_def)
  moreover have "unique_numbers ?t" using ok pl(1) by (simp add: unique_numbers_def ledger_ok_def)
  ultimately show "ledger_ok H ?t" by (simp add: ledger_ok_def)
  show "ledger_floor ?t = b" using v(3) by (simp add: ledger_floor_def)
  then show "extends st ?t" using pl p b by (simp add: extends_def)
qed

section \<open>What the operations write\<close>

lemma int_of_show:
  assumes "0 \<le> n" "length (show_nat n) \<le> 4300"
  shows "int_of_str (show_nat n) = Some n"
  using assms show_nat_digits [of n]
  by (simp add: int_of_str_def py_strip_digits take_sign_digits take_digits_all nat_of_digits_show)

lemma run_key:
  assumes "positive (VInt i) m = Inr n"
  shows "n = i" and "is_ok (positive (VStr (show_int i)) m')" and "utf8_valid (show_int i)"
proof -
  have i: "n = i" "length (show_nat \<bar>i\<bar>) \<le> 4300" "positive_pattern (show_int i)"
    using assms by (auto simp: positive_def int_text_def split: if_splits)
  have "\<not> i < 0"
  proof
    assume "i < 0"
    then have "CHR ''-'' \<in> set (show_int i)" by (simp add: show_int_def)
    with positive_digits [OF i(3)] have "is_digit (CHR ''-'')" by blast
    then show False by (simp add: is_digit_def code_def)
  qed
  then have "int_of_str (show_int i) = Some i" using int_of_show [of i] i(2) by (simp add: show_int_def)
  then show "is_ok (positive (VStr (show_int i)) m')" using i(3) by (simp add: positive_def int_of_numeral_def rc_require_def check_def)
  show "n = i" by (rule i(1))
  show "utf8_valid (show_int i)" using ascii_int by (intro ascii_utf8) blast
qed

lemma reserve_writes:
  assumes r: "reserve_plan H gh a = Inr (plan, reqs)" and h: "hex_digests H" and parent: "printable (ra_parent a)"
    and st: "read_state H gh = Inr (st, prev)" and ok: "ledger_ok H st"
  shows "reqs = [] \<or> (\<exists>st' t pre. ledger_ok H st' \<and> extends st st' \<and> ledger_floor st' = ledger_floor st
    \<and> rc_json_bytes H (VDict st') = Inr t \<and> reqs = map CreateBranch pre @ [PutLedger t prev])"
proof (cases "map_of (ledger_plans st) (show_int (ra_run_id a))")
  case (Some x)
  then show ?thesis using r st by (auto simp: reserve_plan_def Let_def dest: run_key(1))
next
  case None
  let ?key = "show_int (ra_run_id a)"
  obtain n where n: "positive (VInt (ra_run_id a)) ''run ID'' = Inr n" using r by (auto simp: reserve_plan_def)
  note key = run_key [OF n]
  obtain sequence floor t where c: "policy_floor (ra_policy a) = Inr floor"
      "create_plan H (VStr (ra_base a)) (VStr (ra_channel a)) sequence (VStr (ra_source_sha a)) (ra_policy a) (VInt (max (ledger_counter st) floor + 1)) = Inr plan"
      "rc_json_bytes H (VDict (add_reservation st (max (ledger_counter st) floor + 1) ?key plan (ra_parent a))) = Inr t"
      "reqs = (if view_ref_later gh then [] else [CreateBranch (ra_source_sha a)]) @ [PutLedger t prev]"
    using r st None n key(1) by (auto simp: reserve_plan_def Let_def write_state_def)
  note p = created_plan [OF c(2) h]
  have build: "printable (VInt (max (ledger_counter st) floor + 1))"
    using c(2) by (intro printable_build) (auto simp: create_plan_Inr)
  note res = reserve_ok [OF ok None key(3,2) p(1,2,3) _ build parent]
  have "ledger_counter st < max (ledger_counter st) floor + 1" by simp
  note res = res [OF this]
  have "\<exists>pre. reqs = map CreateBranch pre @ [PutLedger t prev]"
    unfolding c(4) by (auto intro: exI [of _ "[]"] exI [of _ "[ra_source_sha a]"])
  with res c(3) show ?thesis by blast
qed

text \<open>Python's equality of two dicts gives equal integers under equal keys.\<close>

lemma py_eq_field:
  assumes "py_eq (VDict d) (VDict e)" "map_of d k = Some v"
  shows "\<exists>w. map_of e k = Some w \<and> py_eq v w"
  using assms by (force simp: list_all_iff split: option.splits dest: map_of_SomeD)

lemma py_eq_dict: "py_eq (VDict d) w \<Longrightarrow> \<exists>e. w = VDict e"
  by (cases w) auto

lemma py_eq_int: "py_eq (VInt i) (VInt j) \<Longrightarrow> i = j"
  by simp

lemma py_eq_number:
  assumes "py_eq (VDict p) (VDict q)" "vget p ''build_number'' = VInt i" "vget q ''build_number'' = VInt j"
  shows "i = j"
proof -
  have "map_of p ''build_number'' = Some (VInt i)" using assms(2) by (auto simp: vget_def dict_get_def split: option.splits)
  from py_eq_field [OF assms(1) this] obtain w where "map_of q ''build_number'' = Some w" "py_eq (VInt i) w" by blast
  moreover have "w = VInt j" using calculation(1) assms(3) by (simp add: vget_def dict_get_def)
  ultimately show ?thesis using py_eq_int by blast
qed

lemma publish_writes:
  assumes b: "begin_publication H gh (VDict plan) run_id parent promotion = Inr (text, reqs)"
    and st: "read_state H gh = Inr (st, prev)" and ok: "ledger_ok H st"
  shows "\<exists>st'. ledger_ok H st' \<and> extends st st' \<and> ledger_floor st' = build_of plan \<and> ledger_floor st \<le> build_of plan
    \<and> (\<not> promotion \<longrightarrow> ledger_floor st < build_of plan) \<and> rc_json_bytes H (VDict st') = Inr text \<and> reqs = [PutLedger text prev]"
proof -
  let ?t = "dict_set ''publication_floor'' (vget plan ''build_number'') st"
  have v: "if promotion then verify_promotion_order H gh st (VDict plan) = Inr () else verify_reservation H gh st (VDict plan) run_id parent = Inr ()"
    and t: "rc_json_bytes H (VDict ?t) = Inr text" "reqs = [PutLedger text prev]"
    using b st by (auto simp: begin_publication_def write_state_def Let_def split: if_splits)
  have valid: "validate_plan H (VDict plan) None None = Inr plan"
    using v validate_plan_returns by (fastforce simp: verify_promotion_order_def verify_reservation_def split: if_splits)
  obtain n where n: "vget plan ''build_number'' = VInt n" "ledger_floor st \<le> n" "\<not> promotion \<longrightarrow> ledger_floor st < n"
    using v valid by (auto simp: verify_promotion_order_def verify_reservation_def case_value_Inr split: if_splits)
  obtain c ps where ps: "\<forall>x \<in> set ps. record_ok H c (fst x) (snd x)" "ledger_plans st = ps" "ledger_counter st = c"
    using ok by (elim ledger_ok_parts)
  have "\<exists>k r. (k, r) \<in> set ps \<and> py_eq (VDict (plan_of r)) (VDict plan)"
  proof (cases promotion)
    case True
    then have "length (filter (\<lambda>(k, r). py_eq (VDict (plan_of r)) (VDict plan)) ps) = 1"
      using v valid ps(2) by (auto simp: verify_promotion_order_def simp del: py_eq.simps)
    then show ?thesis by (fastforce simp: length_Suc_conv filter_eq_Cons_iff simp del: py_eq.simps)
  next
    case False
    let ?w = "VDict [(''plan'', VDict plan), (''parent'', parent)]"
    obtain key r where r: "map_of ps key = Some r" "py_eq r ?w"
      using v valid ps(2) False by (auto simp: verify_reservation_def simp del: py_eq.simps split: option.splits)
    then have "(key, r) \<in> set ps" "record_ok H c key r" using ps(1) by (auto dest!: map_of_SomeD)
    then obtain d p where d: "r = VDict d" "vget d ''plan'' = VDict p" by (auto simp: record_ok_def)
    have "py_eq (VDict d) ?w" using r(2) d(1) by simp
    from py_eq_field [OF this vget_Some [OF d(2)]] have "py_eq (VDict p) (VDict plan)" by (simp del: py_eq.simps)
    moreover have "plan_of r = p" using d by (simp add: plan_of_def)
    ultimately show ?thesis using \<open>(key, r) \<in> set ps\<close> by blast
  qed
  then obtain k r where kr: "(k, r) \<in> set ps" "py_eq (VDict (plan_of r)) (VDict plan)" by blast
  then have "record_ok H c k r" using ps(1) by auto
  then obtain m where m: "vget (plan_of r) ''build_number'' = VInt m" "m \<le> c" by (auto simp: record_ok_def plan_of_def)
  have "n \<le> ledger_counter st" using py_eq_number [OF kr(2) m(1) n(1)] m(2) ps(3) by simp
  moreover have "printable (VInt n)" using valid n(1) printable_build [of "vget plan ''build_number''"] by (auto simp: validate_plan_def)
  ultimately show ?thesis using publish_ok [OF ok n(2)] t n by (auto simp: build_of_def)
qed

section \<open>Interleaved runs\<close>

text \<open>
  GitHub and git as the code relies on them: \<open>blob_id\<close> names the content of a file, and \<open>accepts cur sha\<close>
  says whether a write that names the blob \<open>sha\<close> (or none) replaces the file content \<open>cur\<close> (or none).
\<close>

record release_env =
  env_hash :: hasher
  blob_id :: "string \<Rightarrow> string"
  accepts :: "string option \<Rightarrow> string option \<Rightarrow> bool"

definition compare_and_swap :: "release_env \<Rightarrow> bool" where
  "compare_and_swap E \<longleftrightarrow> (\<forall>cur sha. accepts E cur sha \<longrightarrow> sha = map_option (blob_id E) cur)"

text \<open>
  The file, what each runner pulled, the contents the file has had, and the numbers that
  publications other than byte promotions consumed, the latest first.
\<close>

record ledger_world =
  stored :: "string option"
  pulls :: "nat \<Rightarrow> github_view option"
  past :: "string list"
  consumed :: "int list"

definition fresh_world :: ledger_world where
  "fresh_world = \<lparr>stored = None, pulls = (\<lambda>_. None), past = [], consumed = []\<rparr>"

definition reply_of :: "release_env \<Rightarrow> string \<Rightarrow> contents_reply" where
  "reply_of E t = \<lparr>reply_type = ''file'', reply_encoding = ''base64'', reply_raw = Inr t, reply_sha = blob_id E t\<rparr>"

fun perform :: "release_env \<Rightarrow> request list \<Rightarrow> ledger_world \<Rightarrow> ledger_world" where
  "perform E [] w = w"
| "perform E (CreateBranch sha # rs) w = perform E rs w"
| "perform E (PutLedger t prev # rs) w =
     (if accepts E (stored w) prev then perform E rs (w\<lparr>stored := Some t, past := t # past w\<rparr>) else w)"

definition taken :: "release_env \<Rightarrow> request list \<Rightarrow> ledger_world \<Rightarrow> bool" where
  "taken E reqs w = list_all (\<lambda>r. case r of PutLedger t prev \<Rightarrow> accepts E (stored w) prev | _ \<Rightarrow> True) reqs"

inductive ledger_step :: "release_env \<Rightarrow> ledger_world \<Rightarrow> ledger_world \<Rightarrow> bool" for E where
  pull: "view_file gh = map_option (reply_of E) (stored w) \<Longrightarrow>
    ledger_step E w (w\<lparr>pulls := (pulls w)(i := Some gh)\<rparr>)"
| reserve: "pulls w i = Some gh \<Longrightarrow> reserve_plan (env_hash E) gh a = Inr (plan, reqs) \<Longrightarrow> printable (ra_parent a) \<Longrightarrow>
    ledger_step E w (perform E reqs w)"
| publish: "pulls w i = Some gh \<Longrightarrow> begin_publication (env_hash E) gh (VDict plan) run_id parent promotion = Inr (body, reqs) \<Longrightarrow>
    taken E reqs w \<Longrightarrow>
    ledger_step E w ((perform E reqs w)\<lparr>consumed := (if promotion then consumed w else build_of plan # consumed w)\<rparr>)"

abbreviation ledger_runs :: "release_env \<Rightarrow> ledger_world \<Rightarrow> ledger_world \<Rightarrow> bool" where
  "ledger_runs E \<equiv> (ledger_step E)\<^sup>*\<^sup>*"

text \<open>What a run that reads now gets.\<close>

definition current_ledger :: "ledger_world \<Rightarrow> pyobj" where
  "current_ledger w = (case stored w of None \<Rightarrow> empty_ledger | Some t \<Rightarrow> (case parse_json t of Inr (VDict st) \<Rightarrow> st | _ \<Rightarrow> []))"

definition no_collision :: "release_env \<Rightarrow> string list \<Rightarrow> bool" where
  "no_collision E ts \<longleftrightarrow> inj_on (blob_id E) (set ts)"

definition pulled_ok :: "release_env \<Rightarrow> string list \<Rightarrow> github_view \<Rightarrow> bool" where
  "pulled_ok E ts gh \<longleftrightarrow> (case view_file gh of None \<Rightarrow> True | Some r \<Rightarrow> \<exists>t \<in> set ts. r = reply_of E t)"

definition world_ok :: "release_env \<Rightarrow> ledger_world \<Rightarrow> bool" where
  "world_ok E w \<longleftrightarrow> ledger_ok (env_hash E) (current_ledger w)
     \<and> (\<forall>t. stored w = Some t \<longrightarrow> t \<in> set (past w) \<and> parse_json t = Inr (VDict (current_ledger w)))
     \<and> (\<forall>i gh. pulls w i = Some gh \<longrightarrow> pulled_ok E (past w) gh)
     \<and> sorted_wrt (>) (consumed w) \<and> (\<forall>n \<in> set (consumed w). n \<le> ledger_floor (current_ledger w))"

lemma empty_ledger_ok: "ledger_ok H empty_ledger"
proof -
  have k: "utf8_valid ''schema''" "utf8_valid ''counter''" "utf8_valid ''publication_floor''" "utf8_valid ''plans''"
    by (intro ascii_valid; simp add: code_def)+
  have s: "length (show_nat 0) \<le> 4300" "length (show_nat 1) \<le> 4300" by (simp_all add: show_nat.simps)
  have "printable (VDict empty_ledger)" using k s by (simp add: empty_ledger_def)
  moreover have "check_state H (VDict empty_ledger) = Inr empty_ledger" by (simp add: check_state_iff empty_ledger_def vget_simps)
  moreover have "unique_numbers empty_ledger" by (simp add: unique_numbers_def ledger_plans_def empty_ledger_def vget_simps)
  ultimately show ?thesis by (simp add: ledger_ok_def)
qed

text \<open>A write that GitHub takes was computed from the current ledger.\<close>

lemma taken_current:
  assumes "world_ok E w" "compare_and_swap E" "no_collision E (past w)" "pulls w i = Some gh"
    and "read_state (env_hash E) gh = Inr (st, prev)" "accepts E (stored w) prev"
  shows "st = current_ledger w"
proof -
  have p: "pulled_ok E (past w) gh" and cas: "prev = map_option (blob_id E) (stored w)"
    using assms by (auto simp: world_ok_def compare_and_swap_def)
  show ?thesis
  proof (cases "view_file gh")
    case None
    then have "st = empty_ledger" "prev = None" using assms(5) by (auto simp: read_state_def)
    then show ?thesis using cas by (simp add: current_ledger_def)
  next
    case (Some r)
    then obtain t where t: "t \<in> set (past w)" "r = reply_of E t" using p by (auto simp: pulled_ok_def)
    then obtain v where v: "parse_json t = Inr v" "check_state (env_hash E) v = Inr st" "prev = Some (blob_id E t)"
      using assms(5) Some by (auto simp: read_state_def reply_of_def)
    then obtain u where u: "stored w = Some u" "blob_id E u = blob_id E t" using cas by auto
    then have "u = t" using assms(1,3) t(1) by (auto simp: world_ok_def no_collision_def inj_on_def)
    then show ?thesis using u(1) v assms(1) by (auto simp: world_ok_def check_state_iff)
  qed
qed

lemma pulled_ok_mono: "pulled_ok E ts gh \<Longrightarrow> set ts \<subseteq> set us \<Longrightarrow> pulled_ok E us gh"
  by (auto simp: pulled_ok_def split: option.splits)

lemma perform_branches: "perform E (map CreateBranch bs @ rs) w = perform E rs w"
  by (induction bs) auto

text \<open>A taken write leaves a readable ledger that extends the one it replaces.\<close>

lemma write_taken:
  assumes "world_ok E w" "ledger_ok (env_hash E) st'" "extends (current_ledger w) st'" "rc_json_bytes (env_hash E) (VDict st') = Inr t"
    and ns: "sorted_wrt (>) ns" "\<forall>n \<in> set ns. n \<le> ledger_floor st'"
  defines "w' \<equiv> w\<lparr>stored := Some t, past := t # past w, consumed := ns\<rparr>"
  shows "world_ok E w'" and "extends (current_ledger w) (current_ledger w')"
proof -
  have parse: "parse_json t = Inr (VDict (sorted_obj st'))"
    using assms(2,4) by (intro parse_written) (simp_all add: ledger_ok_def)
  have cur: "current_ledger w' = sorted_obj st'" by (simp add: w'_def current_ledger_def parse)
  note s = ledger_ok_sorted [OF assms(2)]
  show "extends (current_ledger w) (current_ledger w')"
    unfolding cur using assms(3) same_extends [OF s(2)] by (rule extends_trans)
  have "ledger_floor (sorted_obj st') = ledger_floor st'" using s(2) by (simp add: same_ledger_def)
  moreover have "pulled_ok E (t # past w) gh" if "pulls w i = Some gh" for i gh
  proof (rule pulled_ok_mono)
    show "pulled_ok E (past w) gh" using assms(1) that unfolding world_ok_def by blast
  qed auto
  ultimately show "world_ok E w'"
    using s(1) parse ns unfolding world_ok_def cur by (auto simp: w'_def)
qed

lemma no_collision_mono: "no_collision E us \<Longrightarrow> set ts \<subseteq> set us \<Longrightarrow> no_collision E ts"
  unfolding no_collision_def by (rule inj_on_subset)

lemma reserve_requests:
  assumes "reserve_plan H gh a = Inr (plan, reqs)" "read_state H gh = Inr (st, prev)"
  shows "reqs = [] \<or> (\<exists>pre t. reqs = map CreateBranch pre @ [PutLedger t prev])"
proof (cases "map_of (ledger_plans st) (show_int (ra_run_id a))")
  case (Some x)
  then show ?thesis using assms by (auto simp: reserve_plan_def Let_def dest: run_key(1))
next
  case None
  obtain n where n: "positive (VInt (ra_run_id a)) ''run ID'' = Inr n" using assms by (auto simp: reserve_plan_def)
  obtain t where "reqs = (if view_ref_later gh then [] else [CreateBranch (ra_source_sha a)]) @ [PutLedger t prev]"
    using assms None n run_key(1) [OF n] by (auto simp: reserve_plan_def Let_def write_state_def)
  then show ?thesis by (auto intro: exI [of _ "[]"] exI [of _ "[ra_source_sha a]"])
qed

lemma begin_requests:
  assumes "begin_publication H gh plan run_id parent promotion = Inr (text, reqs)" "read_state H gh = Inr (st, prev)"
  shows "reqs = [PutLedger text prev]"
  using assms by (auto simp: begin_publication_def write_state_def Let_def)

lemma step_ok:
  assumes "ledger_step E w w'" "world_ok E w" "compare_and_swap E" "no_collision E (past w')" "hex_digests (env_hash E)"
  shows "world_ok E w' \<and> extends (current_ledger w) (current_ledger w')"
  using assms(1)
proof cases
  case (pull gh i)
  have "pulled_ok E (past w) gh" using pull(2) assms(2) by (cases "stored w") (auto simp: pulled_ok_def world_ok_def)
  then show ?thesis using assms(2) unfolding pull(1) by (auto simp: world_ok_def current_ledger_def extends_refl)
next
  case (reserve i gh a plan reqs)
  obtain st prev where st: "read_state (env_hash E) gh = Inr (st, prev)"
    using reserve(3) by (auto simp: reserve_plan_def Let_def)
  show ?thesis
  proof (cases "\<exists>pre t. reqs = map CreateBranch pre @ [PutLedger t prev] \<and> accepts E (stored w) prev")
    case False
    then have "w' = w" using reserve_requests [OF reserve(3) st] reserve(1) by (auto simp: perform_branches)
    then show ?thesis using assms(2) by (simp add: extends_refl)
  next
    case True
    then obtain pre t where q: "reqs = map CreateBranch pre @ [PutLedger t prev]" "accepts E (stored w) prev" by blast
    then have w': "w' = w\<lparr>stored := Some t, past := t # past w, consumed := consumed w\<rparr>"
      using reserve(1) by (simp add: perform_branches)
    then have "no_collision E (past w)" by (intro no_collision_mono [OF assms(4)]) auto
    then have cur: "st = current_ledger w" using taken_current [OF assms(2,3) _ reserve(2) st q(2)] by simp
    then have "ledger_ok (env_hash E) st" using assms(2) by (simp add: world_ok_def)
    then obtain st' where "ledger_ok (env_hash E) st'" "extends st st'" "ledger_floor st' = ledger_floor st" "rc_json_bytes (env_hash E) (VDict st') = Inr t"
      using reserve_writes [OF reserve(3) assms(5) reserve(4) st] q(1) by auto
    then show ?thesis using write_taken [OF assms(2), of st' t "consumed w"] assms(2) unfolding w' cur by (auto simp: world_ok_def)
  qed
next
  case (publish i gh plan run_id parent promotion body reqs)
  obtain st prev where st: "read_state (env_hash E) gh = Inr (st, prev)"
    using publish(3) by (auto simp: begin_publication_def)
  have q: "reqs = [PutLedger body prev]" using begin_requests [OF publish(3) st] .
  have acc: "accepts E (stored w) prev" using publish(4) by (simp add: taken_def q)
  let ?ns = "if promotion then consumed w else build_of plan # consumed w"
  have w': "w' = w\<lparr>stored := Some body, past := body # past w, consumed := ?ns\<rparr>"
    using publish(1) acc q by simp
  then have "no_collision E (past w)" by (intro no_collision_mono [OF assms(4)]) auto
  then have cur: "st = current_ledger w" using taken_current [OF assms(2,3) _ publish(2) st acc] by simp
  then have "ledger_ok (env_hash E) st" using assms(2) by (simp add: world_ok_def)
  then obtain st' where s: "ledger_ok (env_hash E) st'" "extends st st'" "ledger_floor st' = build_of plan" "ledger_floor st \<le> build_of plan"
      "\<not> promotion \<longrightarrow> ledger_floor st < build_of plan" "rc_json_bytes (env_hash E) (VDict st') = Inr body"
    using publish_writes [OF publish(3) st] by blast
  have old: "sorted_wrt (>) (consumed w)" "\<forall>n \<in> set (consumed w). n \<le> ledger_floor st"
    using assms(2) cur by (auto simp: world_ok_def)
  have "sorted_wrt (>) ?ns" "\<forall>n \<in> set ?ns. n \<le> ledger_floor st'"
    using s(3-5) old by (auto intro: le_less_trans order_trans)
  then show ?thesis using write_taken [OF assms(2) s(1) _ s(6)] s(2) unfolding w' cur by blast
qed

lemma past_grows: "ledger_step E w w' \<Longrightarrow> set (past w) \<subseteq> set (past w')"
proof (induction rule: ledger_step.induct)
  case (reserve w i gh a plan reqs)
  have "set (past w) \<subseteq> set (past (perform E reqs w))" by (induction E reqs w rule: perform.induct) auto
  then show ?case .
next
  case (publish w i gh plan run_id parent promotion body reqs)
  have "set (past w) \<subseteq> set (past (perform E reqs w))" by (induction E reqs w rule: perform.induct) auto
  then show ?case by simp
qed simp

lemma past_grows_runs: "ledger_runs E w w' \<Longrightarrow> set (past w) \<subseteq> set (past w')"
  by (induction rule: rtranclp_induct) (auto dest: past_grows)

lemma runs_ok:
  assumes "ledger_runs E w w'" "world_ok E w" "compare_and_swap E" "no_collision E (past w')" "hex_digests (env_hash E)"
  shows "world_ok E w' \<and> extends (current_ledger w) (current_ledger w')"
  using assms(1,4)
proof (induction rule: rtranclp_induct)
  case base
  then show ?case using assms(2) extends_refl by blast
next
  case (step v w')
  have "no_collision E (past v)" using no_collision_mono [OF step.prems past_grows [OF step.hyps(2)]] .
  then have "world_ok E v" "extends (current_ledger w) (current_ledger v)" using step.IH by auto
  then show ?case using step_ok [OF step.hyps(2) _ assms(3) step.prems assms(5)] extends_trans by blast
qed

lemma fresh_ok: "world_ok E fresh_world"
  using empty_ledger_ok by (simp add: world_ok_def fresh_world_def current_ledger_def)

section \<open>The properties\<close>

text \<open>C18: Whatever release runs do on a ledger that starts empty, and however their reads and writes interleave, the ledger can be read again and no two runs hold the same build number; every number is at most the counter, and the publication floor never passes it.\<close>

theorem build_numbers_unique:
  assumes "ledger_runs E fresh_world w" "compare_and_swap E" "no_collision E (past w)" "hex_digests (env_hash E)"
  shows "check_state (env_hash E) (VDict (current_ledger w)) = Inr (current_ledger w)
    \<and> inj_on (\<lambda>k. build_of (plan_of (the (map_of (ledger_plans (current_ledger w)) k)))) (set (dict_keys (ledger_plans (current_ledger w))))
    \<and> (\<forall>k r. map_of (ledger_plans (current_ledger w)) k = Some r \<longrightarrow> build_of (plan_of r) \<le> ledger_counter (current_ledger w))
    \<and> ledger_floor (current_ledger w) \<le> ledger_counter (current_ledger w)"
proof -
  let ?st = "current_ledger w"
  have ok: "ledger_ok (env_hash E) ?st" using runs_ok [OF assms(1) fresh_ok assms(2-4)] by (simp add: world_ok_def)
  have "inj_on (\<lambda>k. build_of (plan_of (the (map_of (ledger_plans ?st) k)))) (set (dict_keys (ledger_plans ?st)))"
    using ok unfolding ledger_ok_def unique_numbers_def set_dict_keys by (intro inj_onI) auto
  moreover have "ledger_floor ?st \<le> ledger_counter ?st" using ok by (elim ledger_ok_parts) simp
  ultimately show ?thesis using ok record_number [OF ok] by (simp add: ledger_ok_def)
qed

text \<open>C31: The ledger is append-only: from any point of any interleaving of release runs on, a reserved plan stays the plan of its run, and the counter and the publication floor never decrease.\<close>

theorem ledger_append_only:
  assumes "ledger_runs E fresh_world v" "ledger_runs E v w" "compare_and_swap E" "no_collision E (past w)" "hex_digests (env_hash E)"
  shows "ledger_counter (current_ledger v) \<le> ledger_counter (current_ledger w)
    \<and> ledger_floor (current_ledger v) \<le> ledger_floor (current_ledger w)
    \<and> (\<forall>k r. map_of (ledger_plans (current_ledger v)) k = Some r \<longrightarrow>
        (\<exists>r'. map_of (ledger_plans (current_ledger w)) k = Some r' \<and> map_of (plan_of r') = map_of (plan_of r)))"
proof -
  have "no_collision E (past v)" using no_collision_mono [OF assms(4) past_grows_runs [OF assms(2)]] .
  then have "world_ok E v" using runs_ok [OF assms(1) fresh_ok assms(3) _ assms(5)] by blast
  then show ?thesis using runs_ok [OF assms(2) _ assms(3-5)] by (simp add: extends_def)
qed

text \<open>C25: Delayed runs cannot publish backwards: in any interleaving, the build numbers consumed by publications (byte promotions keep the number of the release candidate they copy) strictly increase, and none is above the ledger's publication floor.\<close>

theorem publications_increase:
  assumes "ledger_runs E fresh_world w" "compare_and_swap E" "no_collision E (past w)" "hex_digests (env_hash E)"
  shows "sorted_wrt (<) (rev (consumed w)) \<and> (\<forall>n \<in> set (consumed w). n \<le> ledger_floor (current_ledger w))"
  using runs_ok [OF assms(1) fresh_ok assms(2-4)] by (simp add: world_ok_def sorted_wrt_rev)

text \<open>C36: A ledger that a run wrote reads back as the same ledger: the text of a readable state, parsed and checked again, gives its counter, floor, run keys and plans, with the blob identity for the next write.\<close>

theorem ledger_reads_back:
  assumes "check_state H (VDict st) = Inr st" "printable (VDict st)" "rc_json_bytes H (VDict st) = Inr t" "length t \<le> 4000000"
    and "view_file gh = Some \<lparr>reply_type = ''file'', reply_encoding = ''base64'', reply_raw = Inr t, reply_sha = sha\<rparr>" "sha_pattern sha"
  shows "\<exists>st'. read_state H gh = Inr (st', Some sha) \<and> same_ledger st' st"
  using parse_written [OF assms(2,3)] check_state_sorted [OF assms(1,2)] assms(4-6)
  by (simp add: read_state_def rc_require_def check_def)

section \<open>A sample run\<close>

definition sample_args :: reserve_args where
  "sample_args = \<lparr>ra_policy = sample_policy, ra_base = ''2.0.0'', ra_channel = ''beta'', ra_source_sha = sample_sha,
     ra_run_id = 81, ra_attempt = 1, ra_stamp = ''20250101000000'', ra_parent = VNone\<rparr>"

definition first_view :: github_view where
  "first_view = \<lparr>view_file = None, view_ref = False, view_ref_later = False, view_tags = [''v2.0.0-beta.2''], view_releases = [],
     view_tag_ref = (\<lambda>_. False), view_release_tag = (\<lambda>_. False)\<rparr>"

definition first_plan :: pyobj where
  "first_plan = frozen (VStr ''2.0.0'') (VStr ''beta'') ''2.0.0-beta.3'' (VInt 3) (VStr sample_sha) (VInt 1) (replicate 64 (CHR ''0'')) (VStr ''promote-bytes'')"

definition first_state :: pyobj where
  "first_state = add_reservation empty_ledger 1 ''81'' first_plan VNone"

definition ledger_text :: "pyobj \<Rightarrow> string" where
  "ledger_text st = dump (\<lambda>f. []) Indented 0 (VDict st) @ [CHR 0x0A]"

definition first_text :: string where
  "first_text = ledger_text first_state"

lemma first_reservation: "reserve_plan zero_hasher first_view sample_args = Inr (first_plan, [CreateBranch sample_sha, PutLedger first_text None])"
  by code_simp

definition first_blob :: string where
  "first_blob = replicate 40 (CHR ''b'')"

definition second_view :: github_view where
  "second_view = first_view\<lparr>view_file := Some \<lparr>reply_type = ''file'', reply_encoding = ''base64'', reply_raw = Inr first_text,
     reply_sha = first_blob\<rparr>\<rparr>"

definition second_state :: pyobj where
  "second_state = dict_set ''publication_floor'' (VInt 1) (sorted_obj first_state)"

lemma first_state_printable: "printable (VDict first_state)" by code_simp

lemma first_state_checked: "check_state zero_hasher (VDict first_state) = Inr first_state" by code_simp

lemma counted: "foldl (\<lambda>n c. n + 1) (a :: int) xs = a + int (length xs)"
  by (induction xs arbitrary: a) auto

lemma first_text_short: "length first_text \<le> 4000000"
proof -
  have "foldl (\<lambda>n c. n + 1) (0 :: int) first_text \<le> 4000000" by code_simp
  then show ?thesis by (simp add: counted)
qed

lemma first_text_written: "rc_json_bytes zero_hasher (VDict first_state) = Inr first_text" by code_simp

lemma first_blob_sha: "sha_pattern first_blob" by code_simp

lemmas first_state_ok = first_state_printable first_state_checked first_text_short first_text_written first_blob_sha

lemma second_read: "read_state zero_hasher second_view = Inr (sorted_obj first_state, Some first_blob)"
  using parse_written [OF first_state_ok(1,4)] check_state_sorted(1) [OF first_state_ok(2,1)] first_state_ok(3,5)
  by (simp add: read_state_def second_view_def rc_require_def check_def)

lemma second_verified: "verify_reservation zero_hasher second_view (sorted_obj first_state) (VDict first_plan) (VInt 81) VNone = Inr ()"
  by code_simp

lemma second_written: "rc_json_bytes zero_hasher (VDict second_state) = Inr (ledger_text second_state)"
proof -
  have "dumpable True (VDict second_state)" by code_simp
  then show ?thesis by (simp add: rc_json_bytes_def dumps_def ledger_text_def zero_hasher_def)
qed

lemma first_publication:
  "begin_publication zero_hasher second_view (VDict first_plan) (VInt 81) VNone False
    = Inr (ledger_text second_state, [PutLedger (ledger_text second_state) (Some first_blob)])"
proof -
  have "positive (VInt 81) ''run ID'' = Inr 81" by code_simp
  moreover have "vget (the (as_dict (VDict first_plan))) ''build_number'' = VInt 1" by code_simp
  ultimately show ?thesis
    by (simp add: begin_publication_def second_read second_verified write_state_def second_state_def [symmetric] second_written)
qed

definition sample_env :: release_env where
  "sample_env = (let b = (\<lambda>t. if t = first_text then first_blob else replicate 40 (CHR ''c'')) in
     \<lparr>env_hash = zero_hasher, blob_id = b, accepts = (\<lambda>cur sha. sha = map_option b cur)\<rparr>)"

definition reserved_world :: ledger_world where
  "reserved_world = \<lparr>stored = Some first_text, pulls = (\<lambda>_. None)(0 := Some first_view), past = [first_text], consumed = []\<rparr>"

definition published_world :: ledger_world where
  "published_world = \<lparr>stored = Some (ledger_text second_state), pulls = (\<lambda>_. None)(0 := Some first_view, 1 := Some second_view),
     past = [ledger_text second_state, first_text], consumed = [1]\<rparr>"

lemma sample_env_simps: "env_hash sample_env = zero_hasher" "blob_id sample_env first_text = first_blob"
  "accepts sample_env cur sha \<longleftrightarrow> sha = map_option (blob_id sample_env) cur"
  by (simp_all add: sample_env_def Let_def)

lemma sample_swap: "compare_and_swap sample_env"
  by (simp add: compare_and_swap_def sample_env_simps)

lemma sample_hex: "hex_digests (env_hash sample_env)"
  by (simp add: hex_digests_def sample_env_simps digest_pattern_def zero_hasher_def list_all_length lower_hex_def is_digit_def code_def)

lemma texts_differ: "ledger_text second_state \<noteq> first_text"
  by code_simp

lemma sample_collision: "no_collision sample_env (past published_world)"
proof -
  have "blob_id sample_env (ledger_text second_state) \<noteq> first_blob"
    using texts_differ by (simp add: sample_env_def Let_def first_blob_def)
  then show ?thesis by (auto simp: no_collision_def published_world_def inj_on_def sample_env_simps)
qed

lemma sample_reserved: "ledger_runs sample_env fresh_world reserved_world"
proof -
  let ?w = "fresh_world\<lparr>pulls := (pulls fresh_world)(0 := Some first_view)\<rparr>"
  have "ledger_step sample_env fresh_world ?w"
    by (rule ledger_step.pull) (simp add: first_view_def fresh_world_def)
  moreover have "ledger_step sample_env ?w (perform sample_env [CreateBranch sample_sha, PutLedger first_text None] ?w)"
    by (rule ledger_step.reserve [where i = 0 and gh = first_view and a = sample_args and plan = first_plan])
      (simp_all add: sample_env_simps first_reservation [unfolded first_text_def [symmetric]] sample_args_def [THEN arg_cong, of ra_parent])
  moreover have "perform sample_env [CreateBranch sample_sha, PutLedger first_text None] ?w = reserved_world"
    by (simp add: sample_env_simps fresh_world_def reserved_world_def)
  ultimately show ?thesis by (metis rtranclp.rtrancl_refl rtranclp.rtrancl_into_rtrancl)
qed

lemma sample_published: "ledger_runs sample_env reserved_world published_world"
proof -
  let ?w = "reserved_world\<lparr>pulls := (pulls reserved_world)(1 := Some second_view)\<rparr>"
  let ?reqs = "[PutLedger (ledger_text second_state) (Some first_blob)]"
  have 1: "ledger_step sample_env reserved_world ?w"
    by (rule ledger_step.pull) (simp add: second_view_def reserved_world_def reply_of_def sample_env_simps)
  have 2: "ledger_step sample_env ?w ((perform sample_env ?reqs ?w)\<lparr>consumed := (if False then consumed ?w else build_of first_plan # consumed ?w)\<rparr>)"
    by (rule ledger_step.publish [where i = 1 and gh = second_view and plan = first_plan and run_id = "VInt 81" and parent = VNone and body = "ledger_text second_state"])
      (simp_all add: first_publication sample_env_simps taken_def reserved_world_def)
  have "build_of first_plan = 1" by (simp add: build_of_def first_plan_def frozen_fields)
  then have 3: "(perform sample_env ?reqs ?w)\<lparr>consumed := (if False then consumed ?w else build_of first_plan # consumed ?w)\<rparr> = published_world"
    by (simp add: sample_env_simps reserved_world_def published_world_def)
  show ?thesis by (rule rtranclp.rtrancl_into_rtrancl [OF r_into_rtranclp [of "ledger_step sample_env", OF 1] 2 [unfolded 3]])
qed

lemma sample_runs: "ledger_runs sample_env fresh_world published_world"
  using sample_reserved sample_published by (rule rtranclp_trans)

lemma build_numbers_unique_witness:
  "ledger_runs sample_env fresh_world published_world
   \<and> check_state zero_hasher (VDict (current_ledger published_world)) = Inr (current_ledger published_world)"
  using build_numbers_unique [OF sample_runs sample_swap sample_collision sample_hex] sample_runs by (simp add: sample_env_simps)

lemma ledger_append_only_witness:
  "ledger_runs sample_env reserved_world published_world
   \<and> ledger_counter (current_ledger reserved_world) \<le> ledger_counter (current_ledger published_world)"
  using ledger_append_only [OF sample_reserved sample_published sample_swap sample_collision sample_hex] sample_published by simp

lemma publications_increase_witness:
  "consumed published_world = [1] \<and> 1 \<le> ledger_floor (current_ledger published_world)"
  using publications_increase [OF sample_runs sample_swap sample_collision sample_hex] by (simp add: published_world_def)

lemma ledger_reads_back_witness:
  "view_file second_view \<noteq> None \<and> is_ok (read_state zero_hasher second_view)"
proof -
  have "view_file second_view = Some \<lparr>reply_type = ''file'', reply_encoding = ''base64'', reply_raw = Inr first_text, reply_sha = first_blob\<rparr>"
    by (simp add: second_view_def)
  from ledger_reads_back [OF first_state_ok(2,1,4,3) this first_state_ok(5)] have "is_ok (read_state zero_hasher second_view)"
    by (auto simp: is_ok_iff)
  then show ?thesis by (simp add: second_view_def)
qed

end
