(* ===== verification/ChangeScope.thy ===== *)
theory ChangeScope
  imports VersionPlan
begin

text \<open>
  \<open>scripts/change_scope.py\<close>: whether a change may skip the heavy jobs.  Git is the parameter
  \<open>run_git\<close>, from an argument vector to the bytes it prints or the exception it raises; what it needs
  of the repository directory is \<open>repo_dir\<close>.  Bytes are strings of bytes.
\<close>

section \<open>Paths\<close>

text \<open>\<open>PurePosixPath\<close> (up to Python 3.13): parts, text, suffix and stem of a relative path.\<close>

definition posix_parts :: "string \<Rightarrow> string list" where
  "posix_parts path = filter (\<lambda>p. p \<noteq> [] \<and> p \<noteq> ''.'') (py_split (CHR ''/'') path)"

definition posix_text :: "string \<Rightarrow> string" where
  "posix_text path = (if posix_parts path = [] then ''.'' else join_with ''/'' (posix_parts path))"

definition posix_name :: "string \<Rightarrow> string" where
  "posix_name path = (if posix_parts path = [] then [] else last (posix_parts path))"

definition extension_of :: "string \<Rightarrow> string" where
  "extension_of name = (let ext = rev (takeWhile (\<lambda>c. c \<noteq> CHR ''.'') (rev name)) in
     if CHR ''.'' \<in> set name \<and> ext \<noteq> [] \<and> length ext + 1 < length name then CHR ''.'' # ext else [])"

definition posix_suffix :: "string \<Rightarrow> string" where
  "posix_suffix path = extension_of (posix_name path)"

definition posix_stem :: "string \<Rightarrow> string" where
  "posix_stem path = (let name = posix_name path in take (length name - length (extension_of name)) name)"

definition DOCUMENT_NAMES :: "string list" where
  "DOCUMENT_NAMES = [''readme'', ''changelog'', ''contributing'', ''security'', ''releasing'', ''code_of_conduct'']"

definition PROTECTED_PARTS :: "string list" where
  "PROTECTED_PARTS = [''src'', ''source'', ''sources'', ''test'', ''tests'', ''testdata'', ''fixtures'', ''__tests__'', ''snapshots'',
     ''resources'', ''assets'', ''templates'', ''scripts'', ''script'', ''tools'', ''ci'', ''workflows'', ''actions'', ''hooks'', ''bin'',
     ''lib'', ''app'', ''apps'', ''build'', ''dist'', ''target'', ''config'', ''configs'', ''configuration'', ''dependencies'', ''deps'',
     ''packages'', ''package'', ''packaging'', ''node_modules'', ''gradle'', ''cmake'', ''docker'', ''deploy'', ''deployment'',
     ''migrations'', ''charts'', ''helm'', ''k8s'', ''vendor-bin'']"

definition literal_path :: "pyval \<Rightarrow> bool" where
  "literal_path v = (case v of VStr path \<Rightarrow> path \<noteq> [] \<and> CHR 0x5C \<notin> set path \<and> CHR 0x00 \<notin> set path
       \<and> \<not> starts_with ''/'' path \<and> posix_text path = path \<and> posix_parts path \<noteq> [] \<and> ''..'' \<notin> set (posix_parts path)
       \<and> \<not> list_ex (\<lambda>c. c \<in> set path) ''*?[''
     | _ \<Rightarrow> False)"

definition document_name :: "pyval \<Rightarrow> bool" where
  "document_name v = (literal_path v \<and> py_lower (posix_suffix (the (as_str v))) \<in> {''.md'', ''.rst''})"

definition documentation_path :: "string \<Rightarrow> string list \<Rightarrow> bool" where
  "documentation_path path explicit = (document_name (VStr path) \<and>
     (let parts = map py_lower (posix_parts path) in
       \<not> list_ex (\<lambda>p. starts_with ''.'' p \<or> p \<in> set PROTECTED_PARTS) (butlast parts)
       \<and> \<not> starts_with ''.'' (last parts)
       \<and> (path \<in> set explicit
          \<or> (length parts = 1 \<and> py_lower (posix_stem path) \<in> set DOCUMENT_NAMES)
          \<or> (1 < length parts \<and> hd parts = ''docs''))))"

section \<open>Decisions and revisions\<close>

type_synonym decision = "bool \<times> string"

definition subscript :: "pyval \<Rightarrow> string \<Rightarrow> pyval res" where
  "subscript v k = (case v of VDict d \<Rightarrow> item_of d k | _ \<Rightarrow> Inl (TypeError ''indices must be integers''))"

definition revision_ok :: "pyval \<Rightarrow> bool" where
  "revision_ok v = is_str (\<lambda>s. sha_pattern s \<and> s \<noteq> replicate 40 (CHR ''0'')) v"

definition event_pair :: "pyval \<Rightarrow> string \<Rightarrow> (pyval \<times> pyval \<times> string) res" where
  "event_pair event event_name =
     (if event_name = ''pull_request'' then
        and_then (subscript event ''pull_request'') (\<lambda>pull.
        and_then (subscript pull ''base'') (\<lambda>b. and_then (subscript b ''sha'') (\<lambda>base.
        and_then (subscript pull ''head'') (\<lambda>h. and_then (subscript h ''sha'') (\<lambda>head.
        Inr (base, head, ''...''))))))
      else if event_name = ''merge_group'' then
        and_then (subscript event ''merge_group'') (\<lambda>group.
        and_then (subscript group ''base_sha'') (\<lambda>base. and_then (subscript group ''head_sha'') (\<lambda>head.
        Inr (base, head, ''..''))))
      else
        and_then (subscript event ''before'') (\<lambda>base. and_then (subscript event ''after'') (\<lambda>head.
        Inr (base, head, ''..''))))"

definition event_revisions :: "string \<Rightarrow> pyval \<Rightarrow> (string \<times> string \<times> string) res" where
  "event_revisions event_name event =
     and_then (check (as_dict event \<noteq> None) (TypeError ''Invalid event object'')) (\<lambda>_.
     and_then (event_pair event event_name) (\<lambda>(base, head, separator).
     and_then (check (revision_ok base \<and> revision_ok head) (ValueError ''Expected nonzero full commit SHA'')) (\<lambda>_.
     Inr (the (as_str base), the (as_str head), separator))))"

section \<open>Git\<close>

record git_env =
  repo_dir :: "unit res"
  run_git :: "string list \<Rightarrow> string res"

definition diff_range :: "string \<Rightarrow> bool" where
  "diff_range s = (sha_pattern (take 40 s) \<and> (let r = drop 40 s in
     (starts_with ''...'' r \<and> sha_pattern (drop 3 r)) \<or> (starts_with ''..'' r \<and> sha_pattern (drop 2 r))))"

definition git_arguments :: "string \<Rightarrow> string \<Rightarrow> string list res" where
  "git_arguments operation revision =
     (if operation = ''shallow'' \<and> revision = [] then Inr [''git'', ''rev-parse'', ''--is-shallow-repository'']
      else if operation = ''commit-type'' then
        (if sha_pattern revision then Inr [''git'', ''cat-file'', ''-t'', ''--'', revision] else Inl (ValueError ''Expected one exact object ID''))
      else if operation = ''diff'' then
        (if diff_range revision then Inr [''git'', ''diff'', ''--raw'', ''--no-abbrev'', ''-z'', ''--no-renames'', ''--no-ext-diff'', ''--no-textconv'',
            ''--no-relative'', ''--ignore-submodules=none'', ''--end-of-options'', revision, ''--'']
         else Inl (ValueError ''Expected an exact two-commit range''))
      else Inl (ValueError ''Unsupported Git read operation''))"

definition git :: "git_env \<Rightarrow> string \<Rightarrow> string \<Rightarrow> string res" where
  "git G operation revision = and_then (repo_dir G) (\<lambda>_. and_then (git_arguments operation revision) (run_git G))"

section \<open>Records of a raw diff\<close>

definition byte_space :: "char \<Rightarrow> bool" where
  "byte_space c = (code c \<in> {32, 9, 10, 13, 11, 12})"

definition bytes_strip :: "string \<Rightarrow> string" where
  "bytes_strip s = rev (dropWhile byte_space (rev (dropWhile byte_space s)))"

text \<open>\<open>bytes.split()\<close>: the words between runs of white space.\<close>

fun byte_words :: "string \<Rightarrow> string list" where
  "byte_words [] = []"
| "byte_words (c # s) = (if byte_space c then byte_words s
     else case s of [] \<Rightarrow> [[c]]
       | d # _ \<Rightarrow> if byte_space d then [c] # byte_words s
           else (case byte_words s of [] \<Rightarrow> [[c]] | w # ws \<Rightarrow> (c # w) # ws))"

definition ascii_revision :: "string \<Rightarrow> bool res" where
  "ascii_revision s = (if list_all (\<lambda>c. code c < 128) s then Inr (sha_pattern s) else Inl (ValueError ''ordinal not in range''))"

definition expected_modes :: "(string \<times> (string \<times> string)) list" where
  "expected_modes = [(''A'', ''000000'', ''100644''), (''D'', ''100644'', ''000000''), (''M'', ''100644'', ''100644'')]"

definition classify_record :: "string \<Rightarrow> string \<Rightarrow> string list \<Rightarrow> string list \<Rightarrow> decision option res" where
  "classify_record header raw_path explicit required = (case byte_words header of
       [before, after, old_hash, new_hash, status] \<Rightarrow>
         (if \<not> starts_with '':'' before then Inr (Some (True, ''invalid-diff'')) else
          and_then (ascii_revision old_hash) (\<lambda>old. and_then (if old then ascii_revision new_hash else Inr False) (\<lambda>ok.
          if \<not> ok then Inr (Some (True, ''invalid-diff''))
          else if map_of expected_modes status \<noteq> Some (tl before, after) then Inr (Some (True, ''non-regular-or-mode-change''))
          else if \<not> utf8_valid raw_path then Inl (ValueError ''invalid start byte'')
          else if raw_path \<in> set required then Inr (Some (True, ''required-path-change''))
          else if \<not> documentation_path raw_path explicit then Inr (Some (True, ''non-documentation-change''))
          else Inr None)))
     | _ \<Rightarrow> Inr (Some (True, ''invalid-diff'')))"

definition MAX_DIFF_BYTES :: nat where
  "MAX_DIFF_BYTES = 8388608"

fun classify_records :: "string list \<Rightarrow> string list \<Rightarrow> string list \<Rightarrow> decision res" where
  "classify_records (header # path # records) explicit required =
     and_then (classify_record header path explicit required) (\<lambda>result. case result of
       Some d \<Rightarrow> Inr d | None \<Rightarrow> classify_records records explicit required)"
| "classify_records _ explicit required = Inr (False, ''documentation-only'')"

definition classify_diff :: "string \<Rightarrow> string list \<Rightarrow> string list \<Rightarrow> decision res" where
  "classify_diff raw explicit required =
     (if raw = [] then Inr (True, ''empty-diff'')
      else if MAX_DIFF_BYTES < length raw \<or> last raw \<noteq> CHR 0x00 then Inr (True, ''invalid-diff'')
      else let records = py_split (CHR 0x00) (butlast raw) in
        if odd (length records) then Inr (True, ''invalid-diff'')
        else classify_records records explicit required)"

section \<open>The decision\<close>

definition EVENTS :: "string list" where
  "EVENTS = [''pull_request'', ''merge_group'', ''push'']"

text \<open>The exceptions \<open>classify\<close> turns into a decision: \<open>OSError\<close>, \<open>ValueError\<close> and \<open>SubprocessError\<close>.\<close>

fun git_error :: "exn \<Rightarrow> bool" where
  "git_error (OSError m) = True"
| "git_error (ValueError m) = True"
| "git_error (OtherError c m) = (c = ''SubprocessError'')"
| "git_error e = False"

definition read_diff :: "git_env \<Rightarrow> string \<Rightarrow> string \<Rightarrow> string \<Rightarrow> string list \<Rightarrow> string list \<Rightarrow> decision res" where
  "read_diff G base head separator explicit required =
     and_then (git G ''shallow'' []) (\<lambda>shallow.
     if bytes_strip shallow \<noteq> ''false'' then Inr (True, ''incomplete-history'') else
     and_then (git G ''commit-type'' base) (\<lambda>t. if bytes_strip t \<noteq> ''commit'' then Inr (True, ''invalid-revisions'') else
     and_then (git G ''commit-type'' head) (\<lambda>t. if bytes_strip t \<noteq> ''commit'' then Inr (True, ''invalid-revisions'') else
     and_then (git G ''diff'' (base @ separator @ head)) (\<lambda>raw. classify_diff raw explicit required))))"

definition exact_paths :: "(pyval \<Rightarrow> bool) \<Rightarrow> pyval \<Rightarrow> string list option" where
  "exact_paths p v = (case v of VList vs \<Rightarrow> if list_all p vs then Some (map (\<lambda>x. the (as_str x)) vs) else None | _ \<Rightarrow> None)"

definition classify :: "git_env \<Rightarrow> string \<Rightarrow> pyval \<Rightarrow> pyval \<Rightarrow> pyval \<Rightarrow> bool \<Rightarrow> decision res" where
  "classify G event_name event documentation_paths required_paths force =
     (if force then Inr (True, ''forced'')
      else if event_name \<notin> set EVENTS then Inr (True, ''unsupported-event'')
      else case exact_paths document_name documentation_paths of None \<Rightarrow> Inr (True, ''invalid-documentation-paths'') | Some explicit \<Rightarrow>
        (case exact_paths literal_path required_paths of None \<Rightarrow> Inr (True, ''invalid-required-paths'') | Some required \<Rightarrow>
          (case event_revisions event_name event of
             Inl e \<Rightarrow> Inr (True, ''invalid-revisions'')
           | Inr (base, head, separator) \<Rightarrow>
               (case read_diff G base head separator explicit required of
                  Inl e \<Rightarrow> if git_error e then Inr (True, ''git-error'') else Inl e
                | Inr d \<Rightarrow> Inr d))))"

text \<open>The recognised command line; the event file is read by the runner's path.\<close>

record scope_args =
  sa_event_name :: string
  sa_documentation_path :: "string list"
  sa_documentation_json :: string
  sa_require_path :: "string list"
  sa_required_json :: string
  sa_force :: bool

definition json_paths :: "string \<Rightarrow> string list \<Rightarrow> pyval res" where
  "json_paths text repeated = and_then (json_loads dict_hook text) (\<lambda>v. case v of
       VList vs \<Rightarrow> Inr (VList (map VStr repeated @ vs)) | _ \<Rightarrow> Inl (TypeError ''Expected an array of exact paths''))"

definition from_arguments :: "git_env \<Rightarrow> pyval res \<Rightarrow> scope_args \<Rightarrow> decision res" where
  "from_arguments G event_file a =
     (if sa_force a \<or> sa_event_name a \<notin> set EVENTS then classify G (sa_event_name a) VNone (VList []) (VList []) (sa_force a)
      else case json_paths (sa_documentation_json a) (sa_documentation_path a) of Inl e \<Rightarrow> Inr (True, ''invalid-documentation-paths'')
      | Inr documentation \<Rightarrow>
        (case json_paths (sa_required_json a) (sa_require_path a) of Inl e \<Rightarrow> Inr (True, ''invalid-required-paths'')
         | Inr required \<Rightarrow>
           (case event_file of Inl e \<Rightarrow> Inr (True, ''invalid-event-file'')
            | Inr event \<Rightarrow> classify G (sa_event_name a) event documentation required False)))"

text \<open>The two lines appended to the job outputs.\<close>

definition job_outputs :: "decision \<Rightarrow> string" where
  "job_outputs d = (case d of (run_all, reason) \<Rightarrow>
     ''run='' @ (if run_all then ''true'' else ''false'') @ [CHR 0x0A] @ ''reason='' @ reason @ [CHR 0x0A])"

end
