(* ===== verification/ChangeScopeProps.thy ===== *)
theory ChangeScopeProps
  imports ChangeScope
begin

text \<open>
  When a change may skip the heavy jobs: exactly when git's complete diff lists ordinary
  documentation changes only, and never on doubt.
\<close>

section \<open>The raw diff format of git\<close>

text \<open>One record of \<open>git diff --raw -z\<close>: \<open>:old new oldhash newhash status\<close> and the path, each ended by NUL.\<close>

record change =
  old_mode :: string
  new_mode :: string
  old_blob :: string
  new_blob :: string
  change_status :: string
  change_path :: string

definition well_formed :: "change \<Rightarrow> bool" where
  "well_formed c \<longleftrightarrow> length (old_mode c) = 6 \<and> list_all is_digit (old_mode c) \<and> length (new_mode c) = 6 \<and> list_all is_digit (new_mode c)
     \<and> sha_pattern (old_blob c) \<and> sha_pattern (new_blob c)
     \<and> change_status c \<noteq> [] \<and> list_all (\<lambda>x. is_alpha x \<or> is_digit x) (change_status c) \<and> CHR 0x00 \<notin> set (change_path c)"

definition record_header :: "change \<Rightarrow> string" where
  "record_header c = '':'' @ old_mode c @ '' '' @ new_mode c @ '' '' @ old_blob c @ '' '' @ new_blob c @ '' '' @ change_status c"

definition raw_diff :: "change list \<Rightarrow> string" where
  "raw_diff cs = concat (map (\<lambda>c. record_header c @ [CHR 0x00] @ change_path c @ [CHR 0x00]) cs)"

text \<open>An ordinary documentation change, as the policy words it.\<close>

definition ordinary :: "string list \<Rightarrow> string list \<Rightarrow> change \<Rightarrow> bool" where
  "ordinary explicit required c \<longleftrightarrow>
     (change_status c, old_mode c, new_mode c) \<in> {(''A'', ''000000'', ''100644''), (''D'', ''100644'', ''000000''), (''M'', ''100644'', ''100644'')}
     \<and> utf8_valid (change_path c) \<and> change_path c \<notin> set required \<and> documentation_path (change_path c) explicit"

section \<open>Splitting\<close>

lemma split_word: "c \<notin> set w \<Longrightarrow> py_split c w = [w]"
  by (induction w) auto

lemma split_words: "c \<notin> set w \<Longrightarrow> py_split c (w @ c # s) = w # py_split c s"
  by (induction w) auto

lemma split_terminated:
  "ws \<noteq> [] \<Longrightarrow> \<forall>w \<in> set ws. c \<notin> set w \<Longrightarrow> py_split c (butlast (concat (map (\<lambda>w. w @ [c]) ws))) = ws"
proof (induction ws rule: list_nonempty_induct)
  case (single w)
  then show ?case by (simp add: split_word)
next
  case (cons w ws)
  have "concat (map (\<lambda>w. w @ [c]) ws) \<noteq> []" using cons.hyps(1) by (cases ws) auto
  then show ?case using cons by (simp add: butlast_append split_words)
qed

lemma words_one: "w \<noteq> [] \<Longrightarrow> \<forall>c \<in> set w. \<not> byte_space c \<Longrightarrow> byte_words w = [w]"
proof (induction w)
  case (Cons a w)
  then show ?case by (cases w) auto
qed simp

lemma words_cons: "w \<noteq> [] \<Longrightarrow> \<forall>c \<in> set w. \<not> byte_space c \<Longrightarrow> byte_words (w @ CHR '' '' # s) = w # byte_words s"
proof (induction w)
  case (Cons a w)
  have "byte_space (CHR '' '')" by (simp add: byte_space_def code_def)
  with Cons show ?case by (cases w) auto
qed simp

lemma no_space: "is_digit c \<Longrightarrow> \<not> byte_space c" "lower_hex c \<Longrightarrow> \<not> byte_space c" "is_alpha c \<Longrightarrow> \<not> byte_space c"
  by (auto simp: is_digit_def lower_hex_def is_alpha_def is_lower_def byte_space_def)

lemma no_nul: "\<not> is_digit (CHR 0x00)" "\<not> lower_hex (CHR 0x00)" "\<not> is_alpha (CHR 0x00)"
  by (auto simp: is_digit_def lower_hex_def is_alpha_def is_lower_def code_def)

definition solid :: "char \<Rightarrow> bool" where
  "solid c \<longleftrightarrow> \<not> byte_space c \<and> c \<noteq> CHR 0x00"

lemma solid_char: "is_digit c \<Longrightarrow> solid c" "lower_hex c \<Longrightarrow> solid c" "is_alpha c \<Longrightarrow> solid c"
  using no_space no_nul by (auto simp: solid_def)

lemma header_words:
  assumes "well_formed c"
  shows "byte_words (record_header c) = ['':'' @ old_mode c, new_mode c, old_blob c, new_blob c, change_status c]"
    and "CHR 0x00 \<notin> set (record_header c)"
proof -
  have colon: "\<not> byte_space (CHR '':'')" by (simp add: byte_space_def code_def)
  have ne: "new_mode c \<noteq> []" "old_blob c \<noteq> []" "new_blob c \<noteq> []" "change_status c \<noteq> []"
    using assms by (auto simp: well_formed_def sha_pattern_def)
  have "\<forall>x \<in> set (old_mode c) \<union> set (new_mode c) \<union> set (old_blob c) \<union> set (new_blob c) \<union> set (change_status c). solid x"
    using assms solid_char by (auto simp: well_formed_def sha_pattern_def list_all_iff)
  then have s: "\<forall>x \<in> set (old_mode c) \<union> set (new_mode c) \<union> set (old_blob c) \<union> set (new_blob c) \<union> set (change_status c). \<not> byte_space x \<and> x \<noteq> CHR 0x00"
    by (simp add: solid_def)
  then show "CHR 0x00 \<notin> set (record_header c)" by (auto simp: record_header_def)
  have "byte_words (('':'' @ old_mode c) @ CHR '' '' # new_mode c @ CHR '' '' # old_blob c @ CHR '' '' # new_blob c @ CHR '' '' # change_status c)
    = ['':'' @ old_mode c, new_mode c, old_blob c, new_blob c, change_status c]"
  proof -
    have 1: "byte_words (('':'' @ old_mode c) @ CHR '' '' # u) = ('':'' @ old_mode c) # byte_words u" for u
      using s colon by (intro words_cons) auto
    have 2: "byte_words (new_mode c @ CHR '' '' # u) = new_mode c # byte_words u" for u
      using ne s by (intro words_cons) auto
    have 3: "byte_words (old_blob c @ CHR '' '' # u) = old_blob c # byte_words u" for u
      using ne s by (intro words_cons) auto
    have 4: "byte_words (new_blob c @ CHR '' '' # u) = new_blob c # byte_words u" for u
      using ne s by (intro words_cons) auto
    have "byte_words (change_status c) = [change_status c]" using ne s by (intro words_one) auto
    then show ?thesis by (simp only: 1 2 3 4)
  qed
  then show "byte_words (record_header c) = ['':'' @ old_mode c, new_mode c, old_blob c, new_blob c, change_status c]"
    by (simp add: record_header_def)
qed

lemma sha_code: "sha_pattern s \<Longrightarrow> list_all (\<lambda>c. code c < 128) s"
  by (auto simp: sha_pattern_def list_all_iff lower_hex_def is_digit_def)

lemma modes_iff: "map_of expected_modes s = Some (x, y) \<longleftrightarrow>
  (s, x, y) \<in> {(''A'', ''000000'', ''100644''), (''D'', ''100644'', ''000000''), (''M'', ''100644'', ''100644'')}"
  by (auto simp: expected_modes_def)

lemma classify_rendered:
  assumes "well_formed c"
  shows "classify_record (record_header c) (change_path c) explicit required = Inr None \<longleftrightarrow> ordinary explicit required c"
  using assms sha_code modes_iff [of "change_status c" "old_mode c" "new_mode c"]
  by (auto simp: classify_record_def header_words(1) [OF assms] ascii_revision_def well_formed_def ordinary_def starts_with_def)

lemma record_runs: "classify_record h p explicit required = Inr (Some d) \<Longrightarrow> fst d"
  by (auto simp: classify_record_def split: list.splits if_splits)

fun pairs_of :: "'a list \<Rightarrow> ('a \<times> 'a) list" where
  "pairs_of (x # y # zs) = (x, y) # pairs_of zs"
| "pairs_of _ = []"

lemma records_skip: "classify_records rs explicit required = Inr (False, reason) \<longleftrightarrow>
  reason = ''documentation-only'' \<and> (\<forall>hp \<in> set (pairs_of rs). classify_record (fst hp) (snd hp) explicit required = Inr None)"
proof (induction rs explicit required rule: classify_records.induct)
  case (1 h p rs explicit required)
  show ?case
  proof (cases "classify_record h p explicit required")
    case (Inr r)
    then show ?thesis using 1 record_runs [of h p explicit required] by (cases r) auto
  qed simp
qed auto

lemma pairs_of_rendered: "pairs_of (concat (map (\<lambda>c. [f c, g c]) cs)) = map (\<lambda>c. (f c, g c)) cs"
  by (induction cs) auto

lemma diff_skips:
  assumes "list_all well_formed cs"
  shows "classify_diff (raw_diff cs) explicit required = Inr (False, ''documentation-only'') \<longleftrightarrow>
    cs \<noteq> [] \<and> length (raw_diff cs) \<le> MAX_DIFF_BYTES \<and> list_all (ordinary explicit required) cs"
proof (cases "cs = []")
  case True
  then show ?thesis by (simp add: raw_diff_def classify_diff_def)
next
  case False
  let ?ws = "concat (map (\<lambda>c. [record_header c, change_path c]) cs)"
  have raw: "raw_diff cs = concat (map (\<lambda>w. w @ [CHR 0x00]) ?ws)" unfolding raw_diff_def by (induction cs) auto
  have ws: "?ws \<noteq> []" using False by (cases cs) auto
  have nul: "\<forall>w \<in> set ?ws. CHR 0x00 \<notin> set w" using assms header_words(2) by (auto simp: list_all_iff well_formed_def)
  have split: "py_split (CHR 0x00) (butlast (raw_diff cs)) = ?ws" unfolding raw using ws nul by (rule split_terminated)
  have last: "raw_diff cs \<noteq> []" "last (raw_diff cs) = CHR 0x00"
    using False unfolding raw_diff_def by (induction cs rule: rev_induct) auto
  have even: "even (length ?ws)" by (induction cs) auto
  have "(\<forall>hp \<in> set (pairs_of ?ws). classify_record (fst hp) (snd hp) explicit required = Inr None) \<longleftrightarrow> list_all (ordinary explicit required) cs"
    using assms classify_rendered by (auto simp: pairs_of_rendered list_all_iff)
  then show ?thesis using False last even split records_skip [of ?ws explicit required]
    by (auto simp: classify_diff_def Let_def)
qed

text \<open>C32: A diff in git's raw format skips the heavy jobs exactly when it lists at least one change, is within the size bound, and every change adds, deletes or modifies a regular documentation file that is valid UTF-8, not required and in no protected place; any other record, a rename, a mode change, a link or a module among them, asks for the full pipeline.\<close>

theorem diff_skips_exactly:
  assumes "list_all well_formed cs"
  shows "classify_diff (raw_diff cs) explicit required = Inr (False, ''documentation-only'') \<longleftrightarrow>
    cs \<noteq> [] \<and> length (raw_diff cs) \<le> MAX_DIFF_BYTES \<and> list_all (ordinary explicit required) cs"
  using assms by (rule diff_skips)

definition sample_change :: "string \<Rightarrow> string \<Rightarrow> change" where
  "sample_change status path = \<lparr>old_mode = ''100644'', new_mode = ''100644'', old_blob = replicate 40 (CHR ''a''),
     new_blob = replicate 40 (CHR ''b''), change_status = status, change_path = path\<rparr>"

lemma diff_skips_exactly_witness:
  "classify_diff (raw_diff [sample_change ''M'' ''docs/usage.md'', sample_change ''M'' ''README.md'']) [] [] = Inr (False, ''documentation-only'')
   \<and> classify_diff (raw_diff [sample_change ''M'' ''README.md'', sample_change ''M'' ''docs/tests/data.md'']) [] [] \<noteq> Inr (False, ''documentation-only'')"
proof -
  let ?good = "[sample_change ''M'' ''docs/usage.md'', sample_change ''M'' ''README.md'']"
  let ?bad = "[sample_change ''M'' ''README.md'', sample_change ''M'' ''docs/tests/data.md'']"
  have "list_all well_formed ?good" "list_all well_formed ?bad" by code_simp+
  note exact = diff_skips_exactly [OF this(1)] diff_skips_exactly [OF this(2)]
  have "list_all (ordinary [] []) ?good" "\<not> list_all (ordinary [] []) ?bad"
    unfolding ordinary_def by code_simp+
  moreover have "length (raw_diff ?good) \<le> MAX_DIFF_BYTES"
    by (simp add: raw_diff_def record_header_def sample_change_def MAX_DIFF_BYTES_def)
  ultimately show ?thesis using exact by simp
qed

section \<open>The whole decision\<close>

text \<open>A documentation file outside every hidden or protected directory.\<close>

definition plain_document :: "string \<Rightarrow> bool" where
  "plain_document path \<longleftrightarrow> py_lower (posix_suffix path) \<in> {''.md'', ''.rst''} \<and> ''..'' \<notin> set (posix_parts path)
     \<and> (\<forall>p \<in> set (butlast (map py_lower (posix_parts path))). p \<notin> set PROTECTED_PARTS \<and> \<not> starts_with ''.'' p)"

definition regular_change :: "string \<Rightarrow> bool" where
  "regular_change header \<longleftrightarrow> (\<exists>b y u v s. byte_words header = [b, y, u, v, s] \<and> sha_pattern u \<and> sha_pattern v
     \<and> (s, tl b, y) \<in> {(''A'', ''000000'', ''100644''), (''D'', ''100644'', ''000000''), (''M'', ''100644'', ''100644'')})"

lemma documentation_plain: "documentation_path path explicit \<Longrightarrow> plain_document path"
  by (auto simp: documentation_path_def plain_document_def document_name_def literal_path_def Let_def list_ex_iff)

lemma record_skip:
  assumes "classify_record header path explicit required = Inr None"
  shows "regular_change header \<and> path \<notin> set required \<and> plain_document path"
proof -
  obtain b y u v s where w: "byte_words header = [b, y, u, v, s]"
    using assms by (auto simp: classify_record_def split: list.splits)
  then show ?thesis using assms modes_iff [of s "tl b" y] documentation_plain [of path explicit]
    by (auto simp: classify_record_def regular_change_def ascii_revision_def split: if_splits)
qed

lemma classify_diff_skip:
  assumes "classify_diff raw explicit required = Inr (False, reason)"
  shows "raw \<noteq> [] \<and> (\<forall>hp \<in> set (pairs_of (py_split (CHR 0x00) (butlast raw))). regular_change (fst hp) \<and> snd hp \<notin> set required \<and> plain_document (snd hp))"
  using assms record_skip by (auto simp: classify_diff_def Let_def records_skip split: if_splits)

lemma read_diff_skip:
  assumes "read_diff G base head separator explicit required = Inr (False, reason)"
  shows "\<exists>shallow raw. git G ''shallow'' [] = Inr shallow \<and> bytes_strip shallow = ''false''
    \<and> git G ''diff'' (base @ separator @ head) = Inr raw \<and> classify_diff raw explicit required = Inr (False, reason)"
  using assms by (auto simp: read_diff_def split: if_splits)

lemma classify_skip:
  assumes "classify G event_name event documentation required_paths force = Inr (False, reason)"
  shows "\<not> force \<and> event_name \<in> set EVENTS \<and> (\<exists>explicit required base head separator.
    exact_paths document_name documentation = Some explicit \<and> exact_paths literal_path required_paths = Some required
    \<and> event_revisions event_name event = Inr (base, head, separator) \<and> read_diff G base head separator explicit required = Inr (False, reason))"
  using assms by (auto simp: classify_def split: if_splits option.splits sum.splits)

lemma json_paths_required:
  assumes "json_paths text repeated = Inr v" "exact_paths p v = Some required"
  shows "set repeated \<subseteq> set required"
proof -
  have "\<exists>vs. v = VList (map VStr repeated @ vs)"
  proof (cases "json_loads dict_hook text")
    case (Inr x)
    then show ?thesis using assms(1) by (cases x) (auto simp: json_paths_def)
  qed (use assms(1) in \<open>simp add: json_paths_def\<close>)
  then show ?thesis using assms(2) by (auto simp: exact_paths_def split: if_splits)
qed

text \<open>C33: The heavy jobs are skipped only on evidence: when the decision is not to run, the run was not forced, the event is supported and names two full nonzero commits, the history is complete, and git's diff of exactly that range is not empty and lists only regular files added, deleted or modified that are documents outside every hidden or protected directory and not among the required paths.\<close>

theorem skip_is_grounded:
  assumes "from_arguments G event_file a = Inr (False, reason)"
  shows "\<not> sa_force a \<and> sa_event_name a \<in> set EVENTS \<and> (\<exists>event base head separator shallow raw required.
    event_file = Inr event \<and> event_revisions (sa_event_name a) event = Inr (base, head, separator)
    \<and> git G ''shallow'' [] = Inr shallow \<and> bytes_strip shallow = ''false''
    \<and> git G ''diff'' (base @ separator @ head) = Inr raw \<and> raw \<noteq> [] \<and> set (sa_require_path a) \<subseteq> set required
    \<and> (\<forall>hp \<in> set (pairs_of (py_split (CHR 0x00) (butlast raw))). regular_change (fst hp) \<and> snd hp \<notin> set required \<and> plain_document (snd hp)))"
proof -
  have run: "\<not> (sa_force a \<or> sa_event_name a \<notin> set EVENTS)"
    using assms by (auto simp: from_arguments_def classify_def split: if_splits)
  then obtain documentation required_paths event where d: "json_paths (sa_required_json a) (sa_require_path a) = Inr required_paths"
      "event_file = Inr event" "classify G (sa_event_name a) event documentation required_paths False = Inr (False, reason)"
    using assms by (auto simp: from_arguments_def split: sum.splits)
  then obtain explicit required base head separator where c: "exact_paths literal_path required_paths = Some required"
      "event_revisions (sa_event_name a) event = Inr (base, head, separator)" "read_diff G base head separator explicit required = Inr (False, reason)"
    using classify_skip [OF d(3)] by blast
  show ?thesis
    using run d(2) c(2) read_diff_skip [OF c(3)] classify_diff_skip [of _ explicit required reason] json_paths_required [OF d(1) c(1)] by blast
qed

text \<open>A push whose diff git reports as one changed document.\<close>

definition sample_git :: git_env where
  "sample_git = \<lparr>repo_dir = Inr (), run_git = (\<lambda>args. if args ! 1 = ''rev-parse'' then Inr (''false'' @ [CHR 0x0A])
     else if args ! 1 = ''cat-file'' then Inr (''commit'' @ [CHR 0x0A]) else Inr (raw_diff [sample_change ''M'' ''docs/usage.md'']))\<rparr>"

definition sample_event :: pyval where
  "sample_event = VDict [(''before'', VStr (replicate 40 (CHR ''1''))), (''after'', VStr (replicate 40 (CHR ''2'')))]"

definition sample_scope :: scope_args where
  "sample_scope = \<lparr>sa_event_name = ''push'', sa_documentation_path = [], sa_documentation_json = ''[]'', sa_require_path = [''docs/api.md''],
     sa_required_json = ''[]'', sa_force = False\<rparr>"

lemma skip_is_grounded_witness:
  "from_arguments sample_git (Inr sample_event) sample_scope = Inr (False, ''documentation-only'') \<and> \<not> sa_force sample_scope"
proof -
  have raw: "classify_diff (raw_diff [sample_change ''M'' ''docs/usage.md'']) [] [''docs/api.md''] = Inr (False, ''documentation-only'')"
  proof -
    have "list_all well_formed [sample_change ''M'' ''docs/usage.md'']" by code_simp
    moreover have "list_all (ordinary [] [''docs/api.md'']) [sample_change ''M'' ''docs/usage.md'']" unfolding ordinary_def by code_simp
    moreover have "length (raw_diff [sample_change ''M'' ''docs/usage.md'']) \<le> MAX_DIFF_BYTES"
      by (simp add: raw_diff_def record_header_def sample_change_def MAX_DIFF_BYTES_def)
    ultimately show ?thesis using diff_skips by blast
  qed
  let ?b = "replicate 40 (CHR ''1'')" and ?h = "replicate 40 (CHR ''2'')"
  have rev: "event_revisions ''push'' sample_event = Inr (?b, ?h, ''..'')" by code_simp
  have git: "git sample_git ''shallow'' [] = Inr (''false'' @ [CHR 0x0A])" "git sample_git ''commit-type'' ?b = Inr (''commit'' @ [CHR 0x0A])"
    "git sample_git ''commit-type'' ?h = Inr (''commit'' @ [CHR 0x0A])" "bytes_strip (''false'' @ [CHR 0x0A]) = ''false''"
    "bytes_strip (''commit'' @ [CHR 0x0A]) = ''commit''" "git_arguments ''diff'' (?b @ ''..'' @ ?h) = Inr [''git'', ''diff'', ''--raw'', ''--no-abbrev'', ''-z'', ''--no-renames'', ''--no-ext-diff'', ''--no-textconv'',
            ''--no-relative'', ''--ignore-submodules=none'', ''--end-of-options'', ?b @ ''..'' @ ?h, ''--'']"
    by code_simp+
  have diff: "git sample_git ''diff'' (?b @ ''..'' @ ?h) = Inr (raw_diff [sample_change ''M'' ''docs/usage.md''])"
    unfolding git_def git(6) by (simp add: sample_git_def)
  have "read_diff sample_git ?b ?h ''..'' [] [''docs/api.md''] = Inr (False, ''documentation-only'')"
    unfolding read_diff_def git(1-3) and_then_simps git(4,5) diff raw by simp
  moreover have "json_paths ''[]'' [] = Inr (VList [])" "json_paths ''[]'' [''docs/api.md''] = Inr (VList [VStr ''docs/api.md''])"
    "exact_paths literal_path (VList [VStr ''docs/api.md'']) = Some [''docs/api.md'']" "exact_paths document_name (VList []) = Some []" "''push'' \<in> set EVENTS"
    by code_simp+
  ultimately have d: "from_arguments sample_git (Inr sample_event) sample_scope = Inr (False, ''documentation-only'')"
    using rev by (simp add: from_arguments_def sample_scope_def classify_def)
  show ?thesis using skip_is_grounded [OF d] d by simp
qed

end
