(* ===== verification/SecurityGate.thy ===== *)
theory SecurityGate
  imports VersionLedger ChangeScope
begin

text \<open>
  \<open>scripts/bandit_sarif.py\<close> and \<open>scripts/run_bandit.py\<close>: the conversion of a scanner report to SARIF
  and the gate that runs the scanner.  The scanner, its own regression tests and the installed
  version are a \<open>scanner\<close>; the two files of the gate are its state, and every operation on them may fail
  (\<open>gate_faults\<close>).
\<close>

section \<open>The report\<close>

definition positive_number :: "pyval \<Rightarrow> bool" where
  "positive_number v = (case v of VInt n \<Rightarrow> 0 < n | VFloat f \<Rightarrow> \<not> fle f (Fin 0) | _ \<Rightarrow> False)"

definition validate_report :: "pyval \<Rightarrow> pyobj res" where
  "validate_report report = (case report of VDict r \<Rightarrow>
       and_then (check (vget r ''errors'' = VList []) (ValueError ''Bandit scan is incomplete: errors must be an empty list'')) (\<lambda>_.
       and_then (check (as_list (vget r ''results'') \<noteq> None) (TypeError ''Bandit report is missing its results list'')) (\<lambda>_.
       case get_default r ''metrics'' (VDict []) of VDict m \<Rightarrow>
         (case vget m ''_totals'' of VDict t \<Rightarrow>
            and_then (check (positive_number (vget t ''loc'')) (ValueError ''Bandit scanned no source; refusing an empty security report'')) (\<lambda>_. Inr r)
          | _ \<Rightarrow> Inl (TypeError ''Bandit report is missing scan metrics''))
       | _ \<Rightarrow> Inl (OtherError ''AttributeError'' ''get'')))
     | _ \<Rightarrow> Inl (TypeError ''Bandit report must be an object''))"

definition hashable :: "pyval \<Rightarrow> bool" where
  "hashable v = (case v of VList _ \<Rightarrow> False | VDict _ \<Rightarrow> False | _ \<Rightarrow> True)"

definition levels :: "(string \<times> string) list" where
  "levels = [(''LOW'', ''note''), (''MEDIUM'', ''warning''), (''HIGH'', ''error'')]"

definition level_of :: "pyval \<Rightarrow> string res" where
  "level_of v = (case v of VStr s \<Rightarrow> (case map_of levels s of None \<Rightarrow> Inl (KeyError s) | Some l \<Rightarrow> Inr l)
     | _ \<Rightarrow> if hashable v then Inl (KeyError ''severity'') else Inl (TypeError ''unhashable type''))"

text \<open>\<open>urllib.parse.quote(s, safe="/")\<close> on the bytes of the text.\<close>

definition upper_hex :: "int \<Rightarrow> char" where
  "upper_hex n = (if n < 10 then chr (48 + n) else chr (55 + n))"

definition quote_char :: "char \<Rightarrow> string" where
  "quote_char c = (if is_word c \<or> c \<in> set ''.-~/'' then [c] else [CHR ''%'', upper_hex (code c div 16), upper_hex (code c mod 16)])"

definition quote_path :: "string \<Rightarrow> string" where
  "quote_path s = concat (map quote_char s)"

definition sarif_rule :: "pyval \<Rightarrow> pyval \<Rightarrow> pyval \<Rightarrow> pyval" where
  "sarif_rule rule_id name uri = VDict [(''id'', rule_id), (''name'', name), (''shortDescription'', VDict [(''text'', name)]), (''helpUri'', uri)]"

definition sarif_result :: "pyval \<Rightarrow> pyval \<Rightarrow> string \<Rightarrow> string \<Rightarrow> int \<Rightarrow> pyval" where
  "sarif_result rule_id message level path line = VDict [(''ruleId'', rule_id), (''message'', VDict [(''text'', message)]), (''level'', VStr level),
     (''locations'', VList [VDict [(''physicalLocation'', VDict [(''artifactLocation'', VDict [(''uri'', VStr (quote_path path))]),
        (''region'', VDict [(''startLine'', VInt line)])])]])]"

text \<open>One finding: the rules seen so far and the results, extended.\<close>

type_synonym sarif_parts = "(pyval \<times> pyval) list \<times> pyval list"

definition convert_finding :: "pyval \<Rightarrow> sarif_parts \<Rightarrow> sarif_parts res" where
  "convert_finding finding parts = (case parts of (rules, results) \<Rightarrow>
     and_then (subscript finding ''test_id'') (\<lambda>rule_id.
     and_then (subscript finding ''filename'') (\<lambda>file.
     and_then (case file of VStr s \<Rightarrow> Inr s | _ \<Rightarrow> Inl (TypeError ''expected str'')) (\<lambda>path.
     and_then (check (\<not> starts_with ''/'' path \<and> ''..'' \<notin> set (posix_parts path) \<and> posix_parts path \<noteq> [])
       (ValueError ''Bandit finding must reference a repository-relative path'')) (\<lambda>_.
     and_then (subscript finding ''line_number'') (\<lambda>line.
     and_then (check (is_int (\<lambda>n. 1 \<le> n) line) (ValueError ''Bandit finding must have a positive line number'')) (\<lambda>_.
     and_then (subscript finding ''issue_severity'') (\<lambda>severity.
     and_then (level_of severity) (\<lambda>level.
     and_then (check (hashable rule_id) (TypeError ''unhashable type'')) (\<lambda>_.
     and_then (if list_ex (\<lambda>x. py_eq (fst x) rule_id) rules then Inr rules
       else and_then (subscript finding ''test_name'') (\<lambda>name. and_then (subscript finding ''more_info'') (\<lambda>uri.
         Inr (rules @ [(rule_id, sarif_rule rule_id name uri)])))) (\<lambda>rules'.
     and_then (subscript finding ''issue_text'') (\<lambda>message.
     Inr (rules', results @ [sarif_result rule_id message level (posix_text path) (the (as_int line))])))))))))))))"

definition sarif_document :: "string \<Rightarrow> sarif_parts \<Rightarrow> pyval" where
  "sarif_document installed parts = VDict [(''$schema'', VStr ''https://json.schemastore.org/sarif-2.1.0.json''), (''version'', VStr ''2.1.0''),
     (''runs'', VList [VDict [(''tool'', VDict [(''driver'', VDict [(''name'', VStr ''Bandit''), (''version'', VStr installed),
        (''informationUri'', VStr ''https://bandit.readthedocs.io/''), (''rules'', VList (map snd (fst parts)))])]),
        (''results'', VList (snd parts))]])]"

definition convert :: "pyval \<Rightarrow> string \<Rightarrow> pyval res" where
  "convert report installed = and_then (validate_report report) (\<lambda>r.
     and_then (foldM convert_finding (the (as_list (vget r ''results''))) ([], [])) (\<lambda>parts.
     Inr (sarif_document installed parts)))"

section \<open>The gate\<close>

text \<open>
  What the gate runs: the scanner's discovery tests, the scan with its exit status (or the error of starting it) and the
  text it wrote to the report file, if it wrote one, and the version of the scanner.
\<close>

record scanner =
  discovery :: "unit res"
  scan :: "int res \<times> string option"
  tool_version :: string

text \<open>The two files in the repository's root.  A SARIF file holds a whole document, or the part of one that a failed write
  left behind; the documents of earlier runs may be of either kind.\<close>

datatype sarif_content = Whole pyval | Truncated

record gate_files =
  report_file :: "string option"
  sarif_file :: "sarif_content option"

text \<open>Which file operations fail: each removal, and the write of the SARIF file, at its start or in its course.\<close>

datatype write_fate = Written | NotOpened | CutShort

record gate_faults =
  report_stuck :: bool
  sarif_stuck :: bool
  sarif_write :: write_fate

definition bandit_command :: "string \<Rightarrow> string \<Rightarrow> string \<Rightarrow> string list" where
  "bandit_command executable devnull report_path = [executable, ''-m'', ''bandit'', ''--ini'', devnull, ''-c'', ''.github/bandit.yml'',
     ''--exclude'', [], ''-r'', ''.'', ''-f'', ''json'', ''-o'', report_path]"

text \<open>Steps on the files that may raise, in sequence.\<close>

type_synonym 'a gate_step = "gate_files \<Rightarrow> 'a res \<times> gate_files"

definition then_do :: "'a gate_step \<Rightarrow> ('a \<Rightarrow> 'b gate_step) \<Rightarrow> 'b gate_step" where
  "then_do a k s = (case a s of (Inl e, t) \<Rightarrow> (Inl e, t) | (Inr x, t) \<Rightarrow> k x t)"

definition pure_step :: "'a res \<Rightarrow> 'a gate_step" where
  "pure_step r s = (r, s)"

definition file_error :: exn where
  "file_error = OSError ''Permission denied''"

text \<open>\<open>unlink(missing_ok=True)\<close>: a file that is absent is no error.\<close>

definition unlink_report :: "gate_faults \<Rightarrow> unit gate_step" where
  "unlink_report F s = (if report_file s = None then (Inr (), s) else if report_stuck F then (Inl file_error, s)
     else (Inr (), s\<lparr>report_file := None\<rparr>))"

definition unlink_sarif :: "gate_faults \<Rightarrow> unit gate_step" where
  "unlink_sarif F s = (if sarif_file s = None then (Inr (), s) else if sarif_stuck F then (Inl file_error, s)
     else (Inr (), s\<lparr>sarif_file := None\<rparr>))"

definition run_scan :: "scanner \<Rightarrow> int gate_step" where
  "run_scan S s = (fst (scan S), case snd (scan S) of None \<Rightarrow> s | Some text \<Rightarrow> s\<lparr>report_file := Some text\<rparr>)"

text \<open>\<open>json.loads(report_path.read_text())\<close>.\<close>

definition read_report :: "pyval gate_step" where
  "read_report s = (case report_file s of None \<Rightarrow> Inl (OSError ''No such file or directory'')
     | Some text \<Rightarrow> if utf8_valid text then json_loads dict_hook text else Inl (ValueError ''invalid start byte''), s)"

text \<open>\<open>write_text\<close> truncates the file when it opens it.\<close>

definition write_sarif :: "gate_faults \<Rightarrow> pyval \<Rightarrow> unit gate_step" where
  "write_sarif F doc s = (case sarif_write F of Written \<Rightarrow> (Inr (), s\<lparr>sarif_file := Some (Whole doc)\<rparr>)
     | NotOpened \<Rightarrow> (Inl file_error, s) | CutShort \<Rightarrow> (Inl file_error, s\<lparr>sarif_file := Some Truncated\<rparr>))"

definition findings_of :: "pyval \<Rightarrow> pyval list" where
  "findings_of report = the (as_list (vget (the (as_dict report)) ''results''))"

text \<open>\<open>main\<close>: the exit code or exception, and the files when it ends.\<close>

definition security_gate :: "scanner \<Rightarrow> gate_faults \<Rightarrow> int gate_step" where
  "security_gate S F =
     then_do (unlink_report F) (\<lambda>_. then_do (unlink_sarif F) (\<lambda>_.
     then_do (pure_step (discovery S)) (\<lambda>_. then_do (run_scan S) (\<lambda>status.
     then_do (pure_step (check (status \<in> {0, 1}) (RuntimeError ''Bandit failed with exit status''))) (\<lambda>_.
     then_do read_report (\<lambda>report.
     then_do (pure_step (convert report (tool_version S))) (\<lambda>sarif.
     then_do (pure_step (check (status = (if findings_of report = [] then 0 else 1))
       (RuntimeError ''Bandit exit status contradicts its reported findings''))) (\<lambda>_.
     then_do (write_sarif F sarif) (\<lambda>_.
     pure_step (Inr (if findings_of report \<noteq> [] \<or> status \<noteq> 0 then 1 else 0)))))))))))"

text \<open>\<open>bandit_sarif.main\<close>: a stale SARIF file is removed before the report is read.\<close>

definition sarif_main :: "gate_faults \<Rightarrow> string \<Rightarrow> unit gate_step" where
  "sarif_main F installed =
     then_do (unlink_sarif F) (\<lambda>_. then_do read_report (\<lambda>report.
     then_do (pure_step (convert report installed)) (\<lambda>sarif. write_sarif F sarif)))"

text \<open>Steps that leave the SARIF file alone, and what is left when a step before its write raises.\<close>

definition spares_sarif :: "'a gate_step \<Rightarrow> bool" where
  "spares_sarif a \<longleftrightarrow> (\<forall>s. sarif_file (snd (a s)) = sarif_file s)"

lemma spares_steps [simp]:
  "spares_sarif (pure_step r)" "spares_sarif (unlink_report F)" "spares_sarif (run_scan S)" "spares_sarif read_report"
  by (auto simp: spares_sarif_def pure_step_def unlink_report_def run_scan_def read_report_def split: option.splits)

lemma then_do_cases:
  assumes "then_do a k s = (r, t)"
  obtains (raised) e where "a s = (Inl e, t)" "r = Inl e"
  | (went) x u where "a s = (Inr x, u)" "k x u = (r, t)"
  using assms by (auto simp: then_do_def split: prod.splits sum.splits)

lemma spares_then:
  assumes "then_do a k s = (r, t)" "spares_sarif a" "sarif_file s = f"
  obtains (raised) e where "r = Inl e" "sarif_file t = f"
  | (went) x u where "a s = (Inr x, u)" "sarif_file u = f" "k x u = (r, t)"
proof -
  have "sarif_file (snd (a s)) = f" using assms(2,3) by (simp add: spares_sarif_def)
  with assms(1) show thesis by (cases rule: then_do_cases) (auto intro: that)
qed

text \<open>Whether a removal of an earlier file fails.\<close>

definition removal_fails :: "gate_faults \<Rightarrow> gate_files \<Rightarrow> bool" where
  "removal_fails F s \<longleftrightarrow> report_stuck F \<and> report_file s \<noteq> None \<or> sarif_stuck F \<and> sarif_file s \<noteq> None"

section \<open>Every finding is kept\<close>

text \<open>What a result says of a finding.\<close>

definition reports_finding :: "pyval \<Rightarrow> pyval \<Rightarrow> bool" where
  "reports_finding finding result \<longleftrightarrow> (\<exists>rule_id message path line severity level.
     subscript finding ''test_id'' = Inr rule_id \<and> subscript finding ''issue_text'' = Inr message
     \<and> subscript finding ''filename'' = Inr (VStr path) \<and> subscript finding ''line_number'' = Inr (VInt line) \<and> 1 \<le> line
     \<and> subscript finding ''issue_severity'' = Inr (VStr severity) \<and> map_of levels severity = Some level
     \<and> \<not> starts_with ''/'' path \<and> ''..'' \<notin> set (posix_parts path)
     \<and> result = sarif_result rule_id message level (posix_text path) line)"

lemma level_of_Inr: "level_of v = Inr l \<longleftrightarrow> (\<exists>s. v = VStr s \<and> map_of levels s = Some l)"
  by (cases v) (auto simp: level_of_def split: option.splits)

lemma file_Inr: "(case v of VStr s \<Rightarrow> Inr s | VDict d \<Rightarrow> Inl e | _ \<Rightarrow> Inl e) = Inr p \<longleftrightarrow> v = VStr p"
  by (cases v) auto

definition rules_distinct :: "(pyval \<times> pyval) list \<Rightarrow> bool" where
  "rules_distinct rules \<longleftrightarrow> sorted_wrt (\<lambda>x y. \<not> py_eq (fst x) (fst y)) rules"

lemma convert_finding_step:
  assumes "convert_finding finding (rules, results) = Inr parts"
  shows "\<exists>result. snd parts = results @ [result] \<and> reports_finding finding result" and "rules_distinct rules \<Longrightarrow> rules_distinct (fst parts)"
  using assms
  by (auto simp: convert_finding_def file_Inr level_of_Inr is_int_iff reports_finding_def list_ex_iff rules_distinct_def sorted_wrt_append
      simp del: py_eq.simps split: if_splits)

lemma convert_findings:
  "foldM convert_finding fs parts = Inr parts' \<Longrightarrow> \<exists>rs. snd parts' = snd parts @ rs \<and> list_all2 reports_finding fs rs"
proof (induction fs arbitrary: parts)
  case (Cons f fs)
  obtain q where q: "convert_finding f parts = Inr q" "foldM convert_finding fs q = Inr parts'" using Cons.prems by auto
  obtain r where r: "snd q = snd parts @ [r]" "reports_finding f r"
    using convert_finding_step(1) [of f "fst parts" "snd parts" q] q(1) by auto
  from Cons.IH [OF q(2)] r show ?case by auto
qed auto

lemma convert_rules: "foldM convert_finding fs parts = Inr parts' \<Longrightarrow> rules_distinct (fst parts) \<Longrightarrow> rules_distinct (fst parts')"
proof (induction fs arbitrary: parts)
  case (Cons f fs)
  obtain q where q: "convert_finding f parts = Inr q" "foldM convert_finding fs q = Inr parts'" using Cons.prems(1) by auto
  then have "rules_distinct (fst q)" using convert_finding_step(2) [of f "fst parts" "snd parts" q] Cons.prems(2) by simp
  then show ?case using Cons.IH q(2) by simp
qed simp

text \<open>A complete report: no scanner error, findings as a list, and source that was scanned.\<close>

definition complete_report :: "pyobj \<Rightarrow> pyval list \<Rightarrow> bool" where
  "complete_report r findings \<longleftrightarrow> vget r ''errors'' = VList [] \<and> vget r ''results'' = VList findings
     \<and> (\<exists>m t. get_default r ''metrics'' (VDict []) = VDict m \<and> vget m ''_totals'' = VDict t \<and> positive_number (vget t ''loc''))"

lemma as_list_iff: "as_list v = Some vs \<longleftrightarrow> v = VList vs"
  by (cases v) auto

lemma case_dict_Inr: "(case v of VDict d \<Rightarrow> f d | _ \<Rightarrow> Inl e) = Inr u \<longleftrightarrow> (\<exists>d. v = VDict d \<and> f d = Inr u)"
  by (cases v) auto

lemma validate_report_Inr: "validate_report report = Inr r \<longleftrightarrow> report = VDict r \<and> (\<exists>findings. complete_report r findings)"
  by (auto simp: validate_report_def complete_report_def as_list_iff case_dict_Inr)

lemma convert_complete:
  assumes "convert report installed = Inr sarif"
  shows "\<exists>r findings rules results. report = VDict r \<and> complete_report r findings \<and> findings_of report = findings
    \<and> sarif = sarif_document installed (rules, results) \<and> list_all2 reports_finding findings results \<and> rules_distinct rules"
proof -
  obtain r parts where r: "validate_report report = Inr r" "foldM convert_finding (the (as_list (vget r ''results''))) ([], []) = Inr parts"
      "sarif = sarif_document installed parts"
    using assms by (auto simp: convert_def)
  then obtain findings where c: "report = VDict r" "complete_report r findings" by (auto simp: validate_report_Inr)
  then have f: "the (as_list (vget r ''results'')) = findings" by (simp add: complete_report_def)
  have "list_all2 reports_finding findings (snd parts)" using convert_findings [OF r(2)] by (simp add: f)
  moreover have "rules_distinct (fst parts)" using convert_rules [OF r(2)] by (simp add: rules_distinct_def)
  ultimately show ?thesis using c f r(3) by (cases parts) (auto simp: findings_of_def)
qed

text \<open>A run whose removals succeed, from the first step after them to its end.\<close>

lemma gate_after_removal:
  assumes "security_gate S F s = (r, t)" "\<not> removal_fails F s"
  obtains (raised) e where "r = Inl e" "sarif_file t = None"
  | (unwritten) e where "r = Inl e" "sarif_write F = CutShort" "sarif_file t = Some Truncated"
  | (finished) status body report sarif where "discovery S = Inr ()" "scan S = (Inr status, Some body)"
      "json_loads dict_hook body = Inr report" "convert report (tool_version S) = Inr sarif"
      "status = (if findings_of report = [] then 0 else 1)" "r = Inr status" "sarif_file t = Some (Whole sarif)"
proof -
  let ?s = "s\<lparr>report_file := None, sarif_file := None\<rparr>"
  have "unlink_report F s = (Inr (), s\<lparr>report_file := None\<rparr>)"
    using assms(2) by (cases s) (auto simp: unlink_report_def removal_fails_def)
  moreover have "unlink_sarif F (s\<lparr>report_file := None\<rparr>) = (Inr (), ?s)"
    using assms(2) by (cases s) (auto simp: unlink_sarif_def removal_fails_def)
  ultimately have "then_do (pure_step (discovery S)) (\<lambda>_. then_do (run_scan S) (\<lambda>status.
     then_do (pure_step (check (status \<in> {0, 1}) (RuntimeError ''Bandit failed with exit status''))) (\<lambda>_.
     then_do read_report (\<lambda>report.
     then_do (pure_step (convert report (tool_version S))) (\<lambda>sarif.
     then_do (pure_step (check (status = (if findings_of report = [] then 0 else 1))
       (RuntimeError ''Bandit exit status contradicts its reported findings''))) (\<lambda>_.
     then_do (write_sarif F sarif) (\<lambda>_.
     pure_step (Inr (if findings_of report \<noteq> [] \<or> status \<noteq> 0 then 1 else 0))))))))) ?s = (r, t)"
    using assms(1) unfolding security_gate_def by (simp add: then_do_def [of "unlink_report F"] then_do_def [of "unlink_sarif F"])
  note run = this
  have none: "sarif_file ?s = None" by simp
  from run spares_steps(1) none show thesis
  proof (cases rule: spares_then)
    case 1: (went _ s1)
    from 1(3) spares_steps(3) 1(2) show thesis
    proof (cases rule: spares_then)
      case 2: (went status s2)
      from 2(3) spares_steps(1) 2(2) show thesis
      proof (cases rule: spares_then)
        case 3: (went _ s3)
        from 3(3) spares_steps(4) 3(2) show thesis
        proof (cases rule: spares_then)
          case 4: (went report s4)
          from 4(3) spares_steps(1) 4(2) show thesis
          proof (cases rule: spares_then)
            case 5: (went sarif s5)
            from 5(3) spares_steps(1) 5(2) show thesis
            proof (cases rule: spares_then)
              case 6: (went _ s6)
              have m: "discovery S = Inr ()" "s1 = ?s" "s3 = s2" "convert report (tool_version S) = Inr sarif" "fst (scan S) = Inr status"
                "status = (if findings_of report = [] then 0 else 1)"
                using 1(1) 2(1) 3(1) 5(1) 6(1) by (auto simp: pure_step_def run_scan_def check_def split: if_splits)
              obtain body where w: "snd (scan S) = Some body" "json_loads dict_hook body = Inr report"
                using 2(1) 4(1) m(2,3) by (auto simp: run_scan_def read_report_def split: option.splits if_splits)
              show thesis
              proof (cases "sarif_write F")
                case Written
                then have "r = Inr status" "sarif_file t = Some (Whole sarif)"
                  using 6(3) m(6) by (auto simp: then_do_def write_sarif_def pure_step_def)
                moreover have "scan S = (Inr status, Some body)" using m(5) w(1) by (metis prod.collapse)
                ultimately show thesis using finished m w(2) by blast
              next
                case NotOpened
                then show thesis using 6(2,3) raised by (auto simp: then_do_def write_sarif_def)
              next
                case CutShort
                then show thesis using 6(3) unwritten by (auto simp: then_do_def write_sarif_def)
              qed
            qed (use raised in simp_all)
          qed (use raised in simp_all)
        qed (use raised in simp_all)
      qed (use raised in simp_all)
    qed (use raised in simp_all)
  qed (use raised in simp_all)
qed

lemma gate_removal_fails:
  assumes "security_gate S F s = (r, t)" "removal_fails F s"
  shows "\<exists>e. r = Inl e" "sarif_file t = (if report_stuck F \<and> report_file s \<noteq> None \<or> sarif_stuck F then sarif_file s else None)"
  using assms by (auto simp: security_gate_def then_do_def unlink_report_def unlink_sarif_def removal_fails_def split: if_splits)

text \<open>C35: The security gate fails closed.  It ends with an exit code only for a complete report of this run's scan whose
  findings the SARIF file keeps one for one and in order, each with its rule, text, level, relative path and line,
  with every rule listed once; it passes only when the scan ended with status 0 on a report with no finding at all.
  When it raises after the removals of the earlier files succeeded, no document of an earlier run is left to
  upload: the SARIF file is absent, or cut short by the failed write of this run.  A removal that fails makes the
  gate raise, and the earlier file stays.\<close>

theorem security_gate_closed:
  "case security_gate S F s of
     (Inl e, t) \<Rightarrow> if removal_fails F s then sarif_file t = sarif_file s
       else sarif_file t = None \<or> sarif_write F = CutShort \<and> sarif_file t = Some Truncated
   | (Inr exit_code, t) \<Rightarrow> \<not> removal_fails F s \<and> (\<exists>body r findings rules results.
       scan S = (Inr exit_code, Some body) \<and> json_loads dict_hook body = Inr (VDict r) \<and> complete_report r findings
       \<and> sarif_file t = Some (Whole (sarif_document (tool_version S) (rules, results)))
       \<and> list_all2 reports_finding findings results \<and> rules_distinct rules
       \<and> (exit_code = 0 \<and> findings = [] \<or> exit_code = 1 \<and> findings \<noteq> []))"
proof -
  obtain out t where run: "security_gate S F s = (out, t)" by force
  show ?thesis
  proof (cases "removal_fails F s")
    case True
    then have "(report_stuck F \<and> report_file s \<noteq> None \<or> sarif_stuck F) \<or> sarif_file s = None" by (auto simp: removal_fails_def)
    then show ?thesis using gate_removal_fails [OF run True] run True by (auto split: if_splits)
  next
    case False
    from run False show ?thesis
    proof (cases rule: gate_after_removal)
      case (finished status body report sarif)
      then show ?thesis using run False convert_complete [OF finished(4)] by (auto split: if_splits)
    qed (use run False in auto)
  qed
qed

end
