(* ===== verification/ReleaseValidation.thy ===== *)
theory ReleaseValidation
  imports ChangeScope
begin

text \<open>
  \<open>scripts/release_validation.py\<close>: which validation jobs a release channel needs, and the gate that
  compares the results of the jobs with them.  The policy and the results are the JSON objects.
\<close>

section \<open>The policy\<close>

definition RELEASE_CHANNELS :: "string list" where
  "RELEASE_CHANNELS = [''nightly'', ''beta'', ''rc'', ''stable'']"

definition reserved_workflows :: "string list" where
  "reserved_workflows = [''release-quality-gate.yml'', ''quality-gate.yml'', ''release-pipeline.yml'', ''release-build.yml'']"

definition workflow_stem :: "string \<Rightarrow> bool" where
  "workflow_stem s = (s \<noteq> [] \<and> list_all (\<lambda>c. is_word c \<or> c = CHR ''-'') s)"

definition workflow_name :: "string \<Rightarrow> bool" where
  "workflow_name s = ((ends_with ''.yml'' s \<and> workflow_stem (take (length s - 4) s)) \<or> (ends_with ''.yaml'' s \<and> workflow_stem (take (length s - 5) s)))"

definition channel_workflows :: "pyobj \<Rightarrow> string list option res" where
  "channel_workflows policy = (if \<not> has_key policy ''channel_validation_workflows'' then Inr None
     else case vget policy ''channel_validation_workflows'' of VDict config \<Rightarrow>
       (if set (dict_keys config) \<noteq> {''beta''} \<or> get_default policy ''mode'' (VStr ''release'') \<noteq> VStr ''release''
           \<or> get_default policy ''ci_execution'' (VStr ''github'') \<noteq> VStr ''github'' \<or> vget policy ''single_entry_ci'' \<noteq> VBool True
           \<or> as_dict (vget policy ''versioning'') = None
        then Inl (ValueError ''channel_validation_workflows requires versioned single-entry releases and only beta'')
        else case vget config ''beta'' of VList names \<Rightarrow>
          (if names \<noteq> [] \<and> list_all (is_str (\<lambda>s. workflow_name s \<and> s \<notin> set reserved_workflows)) names \<and> distinct names
           then Inr (Some (map (\<lambda>v. the (as_str v)) names))
           else Inl (ValueError ''Beta validation requires unique, nonempty local validator filenames''))
        | _ \<Rightarrow> Inl (ValueError ''Beta validation requires unique, nonempty local validator filenames''))
     | _ \<Rightarrow> Inl (ValueError ''channel_validation_workflows requires versioned single-entry releases and only beta''))"

definition profile :: "pyobj \<Rightarrow> string \<Rightarrow> pyobj option res" where
  "profile policy channel = and_then (channel_workflows policy) (\<lambda>beta. case beta of None \<Rightarrow> Inr None
     | Some names \<Rightarrow> and_then (check (channel \<in> set RELEASE_CHANNELS) (ValueError ''Unknown release validation channel'')) (\<lambda>_.
         and_then (if channel = ''beta'' then Inr (VList (map VStr names)) else item_of policy ''validation_workflows'') (\<lambda>workflows.
         Inr (Some [(''schema'', VInt 1), (''channel'', VStr channel), (''workflows'', workflows)]))))"

section \<open>Expected results\<close>

text \<open>How many times \<open>enumerate\<close> yields.\<close>

definition count_items :: "pyval \<Rightarrow> nat res" where
  "count_items v = (case v of VList vs \<Rightarrow> Inr (length vs) | VDict d \<Rightarrow> Inr (length d) | VStr s \<Rightarrow> Inr (py_len s) | _ \<Rightarrow> Inl (TypeError ''not iterable''))"

definition report_name :: "pyval \<Rightarrow> string res" where
  "report_name v = and_then (subscript v ''name'') (\<lambda>n. case n of VStr s \<Rightarrow> Inr s | _ \<Rightarrow> Inl (TypeError ''can only concatenate str''))"

definition report_names :: "pyobj \<Rightarrow> string list res" where
  "report_names policy = (case get_default policy ''coverage'' (VDict []) of VDict c \<Rightarrow>
       (case get_default c ''reports'' (VList []) of VList vs \<Rightarrow> mapM report_name vs
         | VDict [] \<Rightarrow> Inr [] | VStr [] \<Rightarrow> Inr [] | _ \<Rightarrow> Inl (TypeError ''not iterable''))
     | _ \<Rightarrow> Inl (OtherError ''AttributeError'' ''get''))"

definition numbered :: "string \<Rightarrow> nat \<Rightarrow> string list" where
  "numbered pre n = map (\<lambda>i. pre @ show_nat (int i)) [0..<n]"

definition job_outcome :: "bool \<Rightarrow> string" where
  "job_outcome selected = (if selected then ''success'' else ''skipped'')"

definition job_rows :: "bool \<Rightarrow> nat \<Rightarrow> nat \<Rightarrow> string list \<Rightarrow> (string \<times> string) list" where
  "job_rows is_beta n b names = map (\<lambda>k. (k, ''success'')) [''scope'', ''workflow-contracts'', ''release-contracts'']
     @ map (\<lambda>k. (k, job_outcome (\<not> is_beta))) (numbered ''check-'' n)
     @ map (\<lambda>k. (k, job_outcome is_beta)) (numbered ''beta-check-'' b)
     @ map (\<lambda>k. (''coverage-'' @ k, job_outcome (\<not> is_beta))) names"

definition expected_results :: "pyobj \<Rightarrow> string \<Rightarrow> (string \<times> string) list res" where
  "expected_results policy channel = and_then (channel_workflows policy) (\<lambda>beta.
     and_then (check (beta \<noteq> None \<and> channel \<in> set RELEASE_CHANNELS) (ValueError ''Release validation needs an explicit policy and known channel'')) (\<lambda>_.
     and_then (item_of policy ''validation_workflows'') (\<lambda>workflows.
     and_then (count_items workflows) (\<lambda>n.
     and_then (report_names policy) (\<lambda>names.
     Inr (fold (\<lambda>(k, v). dict_set k v) (job_rows (channel = ''beta'') n (length (the beta)) names) []))))))"

section \<open>The gate\<close>

definition result_of :: "pyval \<Rightarrow> pyval res" where
  "result_of v = (case v of VDict d \<Rightarrow> Inr (vget d ''result'') | _ \<Rightarrow> Inl (OtherError ''AttributeError'' ''get''))"

definition scope_runs :: "pyval \<Rightarrow> bool res" where
  "scope_runs v = (case v of VDict d \<Rightarrow> (case get_default d ''outputs'' (VDict []) of
         VDict outputs \<Rightarrow> Inr (vget outputs ''run'' = VStr ''true'') | _ \<Rightarrow> Inl (OtherError ''AttributeError'' ''get''))
     | _ \<Rightarrow> Inl (OtherError ''AttributeError'' ''get''))"

definition job_passes :: "(string \<times> string) list \<Rightarrow> string \<times> pyval \<Rightarrow> bool res" where
  "job_passes expected kv = and_then (result_of (snd kv)) (\<lambda>r. Inr (r = VStr (the (map_of expected (fst kv)))))"

definition check_results :: "pyobj \<Rightarrow> string \<Rightarrow> pyobj \<Rightarrow> unit res" where
  "check_results policy channel results = and_then (expected_results policy channel) (\<lambda>expected.
     and_then (check (set (dict_keys results) = set (dict_keys expected)) (ValueError ''Release validation job inventory differs'')) (\<lambda>_.
     and_then (scope_runs (vget results ''scope'')) (\<lambda>run_real.
     and_then (check run_real (ValueError ''Release validation scope must run real checks'')) (\<lambda>_.
     and_then (mapM (job_passes expected) results) (\<lambda>passed.
     check (list_all (\<lambda>b. b) passed) (ValueError ''Release validation did not pass''))))))"

text \<open>The event that started the run: its name and, for a dispatch, the parsed event file.\<close>

definition check_event :: "string option \<Rightarrow> pyval res \<Rightarrow> string \<Rightarrow> unit res" where
  "check_event event event_file channel =
     and_then (if event = Some ''workflow_dispatch'' then
         and_then event_file (\<lambda>v. case v of VDict d \<Rightarrow> (case get_default d ''inputs'' (VDict []) of VDict i \<Rightarrow> Inr (vget i ''channel'')
             | _ \<Rightarrow> Inl (OtherError ''AttributeError'' ''get'')) | _ \<Rightarrow> Inl (OtherError ''AttributeError'' ''get''))
       else Inr (if event = Some ''push'' then VStr ''beta'' else if event = Some ''schedule'' then VStr ''nightly'' else VNone)) (\<lambda>expected.
     check (channel \<in> set RELEASE_CHANNELS \<and> expected = VStr channel) (ValueError ''Validation channel differs from the release event''))"

definition profile_marker :: "pyobj \<Rightarrow> bool" where
  "profile_marker job = is_str (starts_with ''checks / Validation profile ('') (get_default job ''name'' (VStr []))"

definition job_succeeded :: "string \<Rightarrow> pyobj \<Rightarrow> bool" where
  "job_succeeded sha job = (vget job ''head_sha'' = VStr sha \<and> vget job ''status'' = VStr ''completed'' \<and> vget job ''conclusion'' = VStr ''success'')"

definition check_run_job :: "pyobj list \<Rightarrow> string \<Rightarrow> string \<Rightarrow> unit res" where
  "check_run_job jobs sha name = (case filter (\<lambda>job. vget job ''name'' = VStr name) jobs of
       [job] \<Rightarrow> check (job_succeeded sha job) (ValueError ''Release validation profile and CI gate must succeed at the source SHA'')
     | _ \<Rightarrow> Inl (ValueError ''Release validation profile and CI gate must succeed at the source SHA''))"

definition check_run_jobs :: "pyobj list \<Rightarrow> string \<Rightarrow> string \<Rightarrow> unit res" where
  "check_run_jobs jobs channel sha =
     and_then (check (length (filter profile_marker jobs) = 1) (ValueError ''Release validation must have exactly one channel profile'')) (\<lambda>_.
     and_then (check_run_job jobs sha ''checks / CI gate'') (\<lambda>_.
     check_run_job jobs sha (''checks / Validation profile ('' @ channel @ '')'')))"

definition validation_main :: "bool \<Rightarrow> pyobj \<Rightarrow> string \<Rightarrow> string option \<Rightarrow> pyval res \<Rightarrow> pyobj res \<Rightarrow> unit res" where
  "validation_main gate policy channel event event_file results =
     and_then (profile policy channel) (\<lambda>_.
     and_then (check_event event event_file channel) (\<lambda>_.
     if gate then and_then results (check_results policy channel) else Inr ()))"

section \<open>What a passing gate means\<close>

text \<open>The job inventory of a policy, and the jobs a channel selects.\<close>

definition job_inventory :: "nat \<Rightarrow> nat \<Rightarrow> string list \<Rightarrow> string set" where
  "job_inventory n b names = {''scope'', ''workflow-contracts'', ''release-contracts''} \<union> set (numbered ''check-'' n)
     \<union> set (numbered ''beta-check-'' b) \<union> (\<lambda>k. ''coverage-'' @ k) ` set names"

definition selected_jobs :: "string \<Rightarrow> nat \<Rightarrow> nat \<Rightarrow> string list \<Rightarrow> string set" where
  "selected_jobs channel n b names = {''scope'', ''workflow-contracts'', ''release-contracts''} \<union>
     (if channel = ''beta'' then set (numbered ''beta-check-'' b) else set (numbered ''check-'' n) \<union> (\<lambda>k. ''coverage-'' @ k) ` set names)"

lemma fold_dict_set: "map_of (fold (\<lambda>(k, v). dict_set k v) kvs d) k = (case map_of (rev kvs) k of Some v \<Rightarrow> Some v | None \<Rightarrow> map_of d k)"
  by (induction kvs arbitrary: d) (auto split: option.splits simp: map_add_def)

lemma numbered_prefix: "k \<in> set (numbered pre n) \<Longrightarrow> \<exists>s. k = pre @ s"
  by (auto simp: numbered_def)

lemma map_of_rev_const: "map_of (rev (map (\<lambda>k. (f k, v)) xs)) k = (if k \<in> f ` set xs then Some v else None)"
  by (induction xs) (auto simp: map_add_def)

lemma job_families:
  fixes fixed :: "string set" defines "fixed \<equiv> {''scope'', ''workflow-contracts'', ''release-contracts''}"
  shows "fixed \<inter> set (numbered ''check-'' n) = {}" "fixed \<inter> set (numbered ''beta-check-'' b) = {}" "fixed \<inter> (\<lambda>k. ''coverage-'' @ k) ` S = {}"
    "set (numbered ''check-'' n) \<inter> set (numbered ''beta-check-'' b) = {}" "set (numbered ''check-'' n) \<inter> (\<lambda>k. ''coverage-'' @ k) ` S = {}"
    "set (numbered ''beta-check-'' b) \<inter> (\<lambda>k. ''coverage-'' @ k) ` S = {}"
  by (auto simp: fixed_def dest!: numbered_prefix)

lemma rows_outcome:
  "map_of (fold (\<lambda>(k, v). dict_set k v) (job_rows is_beta n b names) []) k =
    (if k \<in> job_inventory n b names then Some (job_outcome (k \<in> selected_jobs (if is_beta then ''beta'' else ''rc'') n b names)) else None)"
proof -
  define F C B V where "F = {''scope'', ''workflow-contracts'', ''release-contracts''}" and "C = set (numbered ''check-'' n)"
    and "B = set (numbered ''beta-check-'' b)" and "V = (\<lambda>k. ''coverage-'' @ k) ` set names"
  have disjoint: "F \<inter> C = {}" "F \<inter> B = {}" "F \<inter> V = {}" "C \<inter> B = {}" "C \<inter> V = {}" "B \<inter> V = {}"
    unfolding F_def C_def B_def V_def by (rule job_families)+
  have sets: "job_inventory n b names = F \<union> C \<union> B \<union> V" "selected_jobs (if is_beta then ''beta'' else ''rc'') n b names = F \<union> (if is_beta then B else C \<union> V)"
    by (auto simp: job_inventory_def selected_jobs_def F_def C_def B_def V_def)
  have "map_of (fold (\<lambda>(k, v). dict_set k v) (job_rows is_beta n b names) []) k =
      (if k \<in> V then Some (job_outcome (\<not> is_beta)) else if k \<in> B then Some (job_outcome is_beta) else if k \<in> C then Some (job_outcome (\<not> is_beta))
       else if k \<in> F then Some ''success'' else None)"
    unfolding fold_dict_set job_rows_def rev_append map_of_append map_add_def map_of_rev_const
    by (simp add: F_def C_def B_def V_def)
  also have "\<dots> = (if k \<in> F \<union> C \<union> B \<union> V then Some (job_outcome (k \<in> F \<union> (if is_beta then B else C \<union> V))) else None)"
    using disjoint by (auto simp: job_outcome_def)
  finally show ?thesis unfolding sets .
qed

lemma rows_keys: "set (dict_keys (fold (\<lambda>(k, v). dict_set k v) (job_rows is_beta n b names) [])) = job_inventory n b names"
proof (rule set_eqI)
  fix k show "k \<in> set (dict_keys (fold (\<lambda>(k, v). dict_set k v) (job_rows is_beta n b names) [])) \<longleftrightarrow> k \<in> job_inventory n b names"
    using rows_outcome [of is_beta n b names k] map_of_eq_None_iff [of "fold (\<lambda>(k, v). dict_set k v) (job_rows is_beta n b names) []" k]
    by (auto simp: dict_keys_def split: if_splits)
qed

lemma selected_other: "channel \<noteq> ''beta'' \<Longrightarrow> selected_jobs channel n b names = selected_jobs ''rc'' n b names"
  by (simp add: selected_jobs_def)

lemma all_pass: "(\<exists>bs. mapM (job_passes expected) rs = Inr bs \<and> list_all (\<lambda>b. b) bs) \<longleftrightarrow>
    (\<forall>(k, v) \<in> set rs. \<exists>d. v = VDict d \<and> vget d ''result'' = VStr (the (map_of expected k)))"
proof (induction rs)
  case (Cons kv rs)
  obtain k v where "kv = (k, v)" by fastforce
  moreover have "job_passes expected (k, v) = Inr True \<longleftrightarrow> (\<exists>d. v = VDict d \<and> vget d ''result'' = VStr (the (map_of expected k)))"
    by (auto simp: job_passes_def result_of_def split: pyval.splits)
  moreover have "(\<exists>bs. mapM (job_passes expected) (kv # rs) = Inr bs \<and> list_all (\<lambda>b. b) bs) \<longleftrightarrow>
      job_passes expected kv = Inr True \<and> (\<exists>bs. mapM (job_passes expected) rs = Inr bs \<and> list_all (\<lambda>b. b) bs)"
    by (auto; metis list.pred_inject(2))
  ultimately show ?case using Cons by simp
qed simp

text \<open>C34: the validation gate of a release passes exactly when the workflow ran the jobs the policy declares and no
  others, the scope job asked for real checks, every job the channel selects succeeded, and every job it does not
  select was skipped: a missing, extra, failed, cancelled or wrongly skipped job closes the gate.\<close>

theorem validation_gate_exact:
  assumes "channel_workflows policy = Inr (Some beta)" "channel \<in> set RELEASE_CHANNELS"
    "item_of policy ''validation_workflows'' = Inr workflows" "count_items workflows = Inr n" "report_names policy = Inr names"
  shows "check_results policy channel results = Inr () \<longleftrightarrow>
    set (dict_keys results) = job_inventory n (length beta) names \<and> scope_runs (vget results ''scope'') = Inr True
    \<and> (\<forall>(k, v) \<in> set results. \<exists>d. v = VDict d \<and> vget d ''result'' = VStr (job_outcome (k \<in> selected_jobs channel n (length beta) names)))"
proof -
  define rows where "rows = fold (\<lambda>(k, v). dict_set k v) (job_rows (channel = ''beta'') n (length beta) names) []"
  have exp: "expected_results policy channel = Inr rows" using assms by (simp add: expected_results_def rows_def)
  have keys: "set (dict_keys rows) = job_inventory n (length beta) names" unfolding rows_def by (rule rows_keys)
  have row: "map_of rows k = Some (job_outcome (k \<in> selected_jobs channel n (length beta) names))" if "k \<in> job_inventory n (length beta) names" for k
    using that selected_other [of channel] by (auto simp: rows_def rows_outcome)
  have key: "(k, v) \<in> set results \<Longrightarrow> k \<in> set (dict_keys results)" for k v by (force simp: dict_keys_def)
  have "check_results policy channel results = Inr () \<longleftrightarrow> set (dict_keys results) = job_inventory n (length beta) names
      \<and> scope_runs (vget results ''scope'') = Inr True \<and> (\<exists>bs. mapM (job_passes rows) results = Inr bs \<and> list_all (\<lambda>b. b) bs)"
    by (auto simp: check_results_def exp keys)
  then show ?thesis unfolding all_pass using key row by (auto; fastforce)
qed

definition validation_policy :: pyobj where
  "validation_policy = [(''single_entry_ci'', VBool True), (''versioning'', VDict []),
     (''channel_validation_workflows'', VDict [(''beta'', VList [VStr ''quick.yml''])]),
     (''validation_workflows'', VList [VStr ''full.yml'']),
     (''coverage'', VDict [(''reports'', VList [VDict [(''name'', VStr ''py'')]])])]"

definition validation_job :: "string \<Rightarrow> pyval" where
  "validation_job result = VDict [(''result'', VStr result), (''outputs'', VDict [(''run'', VStr ''true'')])]"

definition beta_results :: "string \<Rightarrow> pyobj" where
  "beta_results full = [(''scope'', validation_job ''success''), (''workflow-contracts'', validation_job ''success''),
     (''release-contracts'', validation_job ''success''), (''check-0'', validation_job full),
     (''beta-check-0'', validation_job ''success''), (''coverage-py'', validation_job ''skipped'')]"

theorem validation_gate_exact_witness:
  "check_results validation_policy ''beta'' (beta_results ''skipped'') = Inr () \<and> check_results validation_policy ''beta'' (beta_results ''cancelled'') \<noteq> Inr ()"
proof -
  have pol: "channel_workflows validation_policy = Inr (Some [''quick.yml''])" "''beta'' \<in> set RELEASE_CHANNELS"
    "item_of validation_policy ''validation_workflows'' = Inr (VList [VStr ''full.yml''])" "count_items (VList [VStr ''full.yml'']) = Inr 1"
    "report_names validation_policy = Inr [''py'']"
    by code_simp+
  have sets: "job_inventory 1 (length [''quick.yml'']) [''py''] = set [''scope'', ''workflow-contracts'', ''release-contracts'', ''check-0'', ''beta-check-0'', ''coverage-py'']"
    "selected_jobs ''beta'' 1 (length [''quick.yml'']) [''py''] = set [''scope'', ''workflow-contracts'', ''release-contracts'', ''beta-check-0'']"
    by code_simp+
  show ?thesis unfolding validation_gate_exact [OF pol] sets
    by (simp add: beta_results_def validation_job_def dict_keys_def scope_runs_def vget_def get_default_def dict_get_def job_outcome_def)
qed

end
