(* ===== verification/Packaging.thy ===== *)
theory Packaging
  imports ChangeScope TopologyInstall
begin

text \<open>
  \<open>scripts/package_release.py\<close> and \<open>scripts/build_release.py\<close>: which files of the working tree enter a
  release archive, under which names and modes, and the check of the candidate version.  The working
  tree is a parameter, and so are tar and gzip, the TOML reader, the version adapter (a script of the
  vendored toolkit), the Python build backend and twine.
\<close>

section \<open>The working tree and the tools\<close>

text \<open>
  What a path leads to: a regular file with its bytes and whether any executable bit is set, or
  something else.  \<open>leads_to\<close> follows links, \<open>None\<close> when nothing is there; \<open>is_link\<close> does not.
\<close>

datatype leaf = RegularFile string bool | OtherLeaf

record worktree =
  is_link :: "string \<Rightarrow> bool"
  leads_to :: "string \<Rightarrow> leaf option"
  git_listing :: "string res"
  module_glob :: "string list"

record archive_entry =
  entry_name :: string
  entry_bytes :: string
  entry_mode :: int

record build_tools =
  tar_gz :: "archive_entry list \<Rightarrow> string"
  toml_loads :: "string \<Rightarrow> pyval res"
  version_adapter :: "string \<Rightarrow> string \<Rightarrow> unit res"
  run_build :: "string \<Rightarrow> (string \<times> leaf) list \<Rightarrow> (string \<times> string) list \<Rightarrow> (string \<times> string) list res"
  twine_check :: "string list \<Rightarrow> unit res"

definition read_bytes :: "worktree \<Rightarrow> string \<Rightarrow> (string \<times> bool) res" where
  "read_bytes wt path = (case leads_to wt path of Some (RegularFile b x) \<Rightarrow> Inr (b, x)
     | Some OtherLeaf \<Rightarrow> Inl (OSError ''Is a directory'') | None \<Rightarrow> Inl (OSError ''No such file''))"

definition read_tree_text :: "worktree \<Rightarrow> string \<Rightarrow> string res" where
  "read_tree_text wt path = and_then (read_bytes wt path) (\<lambda>(b, x).
     if utf8_valid b then Inr (universal_newlines b) else Inl (ValueError ''invalid start byte''))"

section \<open>The candidate version\<close>

text \<open>\<open>s.removeprefix("v")\<close> and \<open>s.split("-")[0]\<close>.\<close>

definition remove_v :: "string \<Rightarrow> string" where
  "remove_v s = (if starts_with ''v'' s then tl s else s)"

definition base_of :: "string \<Rightarrow> string" where
  "base_of s = takeWhile (\<lambda>c. c \<noteq> CHR ''-'') (remove_v s)"

definition three_numbers :: "string \<Rightarrow> bool" where
  "three_numbers s = (let parts = py_split (CHR ''.'') s in length parts = 3 \<and> list_all (\<lambda>p. p \<noteq> [] \<and> list_all is_digit p) parts)"

definition candidate_pattern :: "string \<Rightarrow> bool" where
  "candidate_pattern s = (three_numbers (base_of s) \<and>
     (case dropWhile (\<lambda>c. c \<noteq> CHR ''-'') (remove_v s) of [] \<Rightarrow> True
      | d # rest \<Rightarrow> rest \<noteq> [] \<and> list_all (\<lambda>c. is_alpha c \<or> is_digit c \<or> c = CHR ''.'' \<or> c = CHR ''-'') rest))"

fun truthy :: "pyval \<Rightarrow> bool" where
  "truthy VNone = False"
| "truthy (VBool b) = b"
| "truthy (VInt n) = (n \<noteq> 0)"
| "truthy (VFloat f) = (f \<noteq> Fin 0)"
| "truthy (VStr s) = (s \<noteq> [])"
| "truthy (VList vs) = (vs \<noteq> [])"
| "truthy (VDict d) = (d \<noteq> [])"

definition object_or_error :: "pyval \<Rightarrow> pyobj res" where
  "object_or_error v = (case v of VDict d \<Rightarrow> Inr d | _ \<Rightarrow> Inl (OtherError ''AttributeError'' ''get''))"

definition committed_version :: "build_tools \<Rightarrow> worktree \<Rightarrow> pyobj \<Rightarrow> pyval res" where
  "committed_version T wt policy = (let version_file = vget policy ''version_file'' in
     if version_file = VStr ''pyproject.toml'' then
       and_then (read_tree_text wt ''pyproject.toml'') (\<lambda>toml. and_then (toml_loads T toml) (\<lambda>v.
       and_then (subscript v ''project'') (\<lambda>p. subscript p ''version'')))
     else if truthy version_file then (case version_file of
         VStr path \<Rightarrow> and_then (read_tree_text wt path) (\<lambda>body. Inr (VStr (py_strip body)))
       | _ \<Rightarrow> Inl (TypeError ''unsupported operand type''))
     else Inr (vget policy ''version''))"

definition same_base :: "string \<Rightarrow> pyval \<Rightarrow> unit res" where
  "same_base version committed = (if \<not> truthy committed then Inr () else case committed of
       VStr c \<Rightarrow> check (base_of version = base_of c) (ValueError ''Candidate base version must match committed project metadata'')
     | _ \<Rightarrow> Inl (OtherError ''AttributeError'' ''removeprefix''))"

text \<open>\<open>"versioning" in policy\<close>.\<close>

definition mentions_versioning :: "pyval \<Rightarrow> bool res" where
  "mentions_versioning v = (case v of VDict d \<Rightarrow> Inr (has_key d ''versioning'') | VList vs \<Rightarrow> Inr (VStr ''versioning'' \<in> set vs)
     | VStr s \<Rightarrow> Inr (list_ex (starts_with ''versioning'') (map (\<lambda>n. drop n s) [0..<length s]))
     | _ \<Rightarrow> Inl (TypeError ''argument is not iterable''))"

definition validate_version :: "build_tools \<Rightarrow> worktree \<Rightarrow> string \<Rightarrow> string \<Rightarrow> unit res" where
  "validate_version T wt version channel =
     and_then (check (candidate_pattern version) (ValueError ''Expected a semantic version without path or shell characters'')) (\<lambda>_.
     and_then (check (channel \<in> set CHANNELS) (ValueError ''Unknown release channel'')) (\<lambda>_.
     and_then (read_tree_text wt ''.release-policy.json'') (\<lambda>body.
     and_then (json_loads dict_hook body) (\<lambda>v.
     and_then (mentions_versioning v) (\<lambda>versioned.
     if versioned then version_adapter T (remove_v version) channel
     else and_then (object_or_error v) (\<lambda>policy. and_then (committed_version T wt policy) (same_base version)))))))"

section \<open>Selecting inputs\<close>

definition tracked_files :: "worktree \<Rightarrow> string list res" where
  "tracked_files wt = and_then (git_listing wt) (\<lambda>raw.
     if utf8_valid raw then Inr (filter (\<lambda>name. name \<noteq> []) (py_split (CHR 0x00) raw)) else Inl (ValueError ''invalid start byte''))"

definition under :: "string \<Rightarrow> string \<Rightarrow> bool" where
  "under item name = (name = item \<or> starts_with (item @ ''/'') name)"

definition includes_of :: "pyobj \<Rightarrow> string list res" where
  "includes_of config = (case get_default config ''include'' (VList []) of
       VList vs \<Rightarrow> mapM (\<lambda>v. case v of VStr s \<Rightarrow> Inr s | _ \<Rightarrow> Inl (TypeError ''can only concatenate str'')) vs
     | VStr s \<Rightarrow> Inr (utf8_chars s) | VDict d \<Rightarrow> Inr (dict_keys d) | _ \<Rightarrow> Inl (TypeError ''not iterable''))"

definition from_source :: "pyobj \<Rightarrow> bool" where
  "from_source config = truthy (get_default config ''source'' (VBool False))"

definition present :: "worktree \<Rightarrow> string \<Rightarrow> bool" where
  "present wt name = (leads_to wt name \<noteq> None \<or> is_link wt name)"

definition regular :: "worktree \<Rightarrow> string \<Rightarrow> bool" where
  "regular wt name = (\<not> is_link wt name \<and> (case leads_to wt name of Some (RegularFile b x) \<Rightarrow> True | _ \<Rightarrow> False))"

definition require_input :: "worktree \<Rightarrow> string list \<Rightarrow> string \<Rightarrow> unit \<Rightarrow> unit res" where
  "require_input wt tracked item u = check (leads_to wt item \<noteq> None \<and> list_ex (under item) tracked) (ValueError ''Missing required runtime input'')"

definition evidence_files :: "worktree \<Rightarrow> string list" where
  "evidence_files wt = filter (regular wt) [''.release-plan.json'', ''.release-inputs.json'']"

definition package_inputs :: "worktree \<Rightarrow> pyobj \<Rightarrow> (string list \<times> string list) res" where
  "package_inputs wt config =
     and_then (tracked_files wt) (\<lambda>listing.
     let tracked = (if from_source config then filter (present wt) listing else listing) in
     and_then (includes_of config) (\<lambda>includes.
     and_then (foldM (require_input wt tracked) includes ()) (\<lambda>_.
     let selected = filter (\<lambda>name. from_source config \<or> list_ex (\<lambda>item. under item name) includes) tracked in
     Inr (sort (remdups (tracked @ evidence_files wt)),
          if selected = [] then [] else sort (remdups (selected @ evidence_files wt))))))"

section \<open>The archive\<close>

definition entry_of :: "string \<Rightarrow> string \<Rightarrow> string \<Rightarrow> bool \<Rightarrow> archive_entry" where
  "entry_of name file body executable = \<lparr>entry_name = name @ ''/'' @ file, entry_bytes = body, entry_mode = (if executable then 493 else 420)\<rparr>"

definition package_entry :: "worktree \<Rightarrow> string \<Rightarrow> string \<Rightarrow> archive_entry res" where
  "package_entry wt name filename =
     and_then (check (regular wt filename) (ValueError ''Refusing non-regular runtime input'')) (\<lambda>_.
     and_then (read_bytes wt filename) (\<lambda>(b, x). Inr (entry_of name filename b x)))"

definition write_archive :: "worktree \<Rightarrow> string \<Rightarrow> string list \<Rightarrow> archive_entry list res" where
  "write_archive wt name selected = mapM (package_entry wt name) selected"

section \<open>Building the assets\<close>

text \<open>A file name that an f-string puts into a path: one component of a path (others are left out).\<close>

definition component_of :: "pyobj \<Rightarrow> string res" where
  "component_of config = and_then (item_of config ''name'') (\<lambda>v. and_then (text_of v) (\<lambda>name.
     if CHR 0x00 \<in> set name then Inl (ValueError ''embedded null byte'')
     else if CHR ''/'' \<in> set name then Inl (OSError ''No such file or directory'') else Inr name))"

definition snapshot_entry :: "worktree \<Rightarrow> string \<Rightarrow> (string \<times> leaf) list res" where
  "snapshot_entry wt name = (if is_link wt name then Inl (ValueError ''Refusing symlink in distribution source'')
     else case leads_to wt name of None \<Rightarrow> Inr []
       | Some l \<Rightarrow> if list_ex (starts_with ''.egg-info'') (map (\<lambda>n. drop n name) [0..<length name]) then Inr []
           else (case l of OtherLeaf \<Rightarrow> Inl (OSError ''Is a directory'') | _ \<Rightarrow> Inr [(name, l)]))"

text \<open>
  The output directory maps file names to bytes.  \<open>run_build\<close> gets the name of the project, the snapshot of
  the sources and the output directory, and returns the directory as the backend leaves it.
\<close>

definition build_distributions :: "build_tools \<Rightarrow> worktree \<Rightarrow> pyobj \<Rightarrow> string list \<Rightarrow> (string \<times> string) list \<Rightarrow> string list
    \<Rightarrow> (string list \<times> (string \<times> string) list) res" where
  "build_distributions T wt config tracked out assets =
     and_then (and_then (item_of config ''name'') (\<lambda>v. check (as_str v \<noteq> None) (TypeError ''unsupported operand type''))) (\<lambda>_.
     and_then (component_of config) (\<lambda>name.
     and_then (mapM (snapshot_entry wt) tracked) (\<lambda>parts.
     and_then (run_build T name (concat parts) out) (\<lambda>built.
     let dists = sort (filter (ends_with ''.whl'') (dict_keys built)) @ sort (filter (ends_with ''.tar.gz'') (dict_keys built)) in
     and_then (twine_check T (filter (\<lambda>d. d \<notin> set assets) dists)) (\<lambda>_.
     Inr (sort (remdups (assets @ dists)), built))))))"

definition checksum_line :: "hasher \<Rightarrow> (string \<times> string) list \<Rightarrow> string \<Rightarrow> string res" where
  "checksum_line H out name = (case map_of out name of None \<Rightarrow> Inl (OSError ''No such file'')
     | Some body \<Rightarrow> Inr (sha256_hex H body @ ''  '' @ name @ newline))"

definition archive_name :: "string \<Rightarrow> string \<Rightarrow> string" where
  "archive_name name version = name @ ''-'' @ version @ ''.tar.gz''"

text \<open>The assets, and the output directory with the checksums.\<close>

definition build_package :: "hasher \<Rightarrow> build_tools \<Rightarrow> worktree \<Rightarrow> string \<Rightarrow> string \<Rightarrow> (string \<times> string) list
    \<Rightarrow> (string list \<times> (string \<times> string) list) res" where
  "build_package H T wt version channel out =
     and_then (validate_version T wt version channel) (\<lambda>_.
     and_then (and_then (read_tree_text wt ''.release-package.json'') (json_loads dict_hook)) (\<lambda>v.
     and_then (check (out = []) (ValueError ''Output directory must be empty to prevent stale release assets'')) (\<lambda>_.
     and_then (object_or_error v) (\<lambda>config.
     and_then (package_inputs wt config) (\<lambda>(tracked, selected).
     and_then (if selected = [] then Inr ([], out)
       else and_then (component_of config) (\<lambda>name.
         and_then (write_archive wt name selected) (\<lambda>entries.
         Inr ([archive_name name version], dict_set (archive_name name version) (tar_gz T entries) out)))) (\<lambda>(assets, out).
     and_then (if truthy (get_default config ''wheel'' (VBool False)) then build_distributions T wt config tracked out assets else Inr (assets, out)) (\<lambda>(assets, out).
     and_then (check (assets \<noteq> []) (ValueError ''No release assets were built'')) (\<lambda>_.
     and_then (mapM (checksum_line H out) assets) (\<lambda>digests.
     Inr (assets, dict_set ''SHA256SUMS'' (concat digests) out))))))))))"

section \<open>The archive of the device\<close>

text \<open>
  \<open>build_release.py\<close>: the fixed runtime files and every module of the package.  \<open>module_glob\<close> is the
  names of \<open>(root / "dbus_mqtt_battery").glob("*.py")\<close>; paths are ordered part by part.
\<close>

definition release_tag :: "string \<Rightarrow> bool" where
  "release_tag tag = (tag = ''nightly'' \<or> starts_with ''v'' tag \<and> three_numbers (takeWhile (\<lambda>c. c \<noteq> CHR ''-'') (tl tag)) \<and>
     (case dropWhile (\<lambda>c. c \<noteq> CHR ''-'') (tl tag) of [] \<Rightarrow> True
      | d # rest \<Rightarrow> (case py_split (CHR ''.'') rest of [kind, n] \<Rightarrow> kind \<in> {''alpha'', ''beta'', ''rc''} \<and> n \<noteq> [] \<and> list_all is_digit n
          | _ \<Rightarrow> False)))"

definition runtime_files :: "string list" where
  "runtime_files = [''dbus-mqtt-battery.py'', ''dvcc.py'', ''setup'', ''gitHubInfo'', ''version'']"

definition release_entry :: "worktree \<Rightarrow> string \<Rightarrow> archive_entry res" where
  "release_entry wt path = and_then (read_bytes wt path) (\<lambda>(b, x). Inr (entry_of ''dbus-mqtt-battery'' path b (path = ''setup'')))"

definition build_archive :: "hasher \<Rightarrow> build_tools \<Rightarrow> worktree \<Rightarrow> string \<Rightarrow> (string \<times> string) list res" where
  "build_archive H T wt tag =
     and_then (check (release_tag tag) (ValueError ''Expected a semantic version tag or nightly'')) (\<lambda>_.
     and_then (if tag = ''nightly'' then Inr () else and_then (read_tree_text wt ''version'') (\<lambda>body.
       check (py_strip body = tag) (ValueError ''Release tag must match the committed version file''))) (\<lambda>_.
     let paths = runtime_files @ map (\<lambda>m. ''dbus_mqtt_battery/'' @ m) (module_glob wt) in
     and_then (check (''dbus_mqtt_battery/__init__.py'' \<in> set paths) (ValueError ''Runtime package is missing'')) (\<lambda>_.
     and_then (mapM (release_entry wt) (sort_key (py_split (CHR ''/'')) paths)) (\<lambda>entries.
     let archive = archive_name ''dbus-mqtt-battery'' tag; bytes_of = tar_gz T entries in
     Inr [(archive, bytes_of), (archive @ ''.sha256'', sha256_hex H bytes_of @ ''  '' @ archive @ newline)]))))"

section \<open>What an archive holds\<close>

definition packs :: "worktree \<Rightarrow> string \<Rightarrow> string \<Rightarrow> archive_entry \<Rightarrow> bool" where
  "packs wt name f e = (\<exists>b x. \<not> is_link wt f \<and> leads_to wt f = Some (RegularFile b x) \<and> e = entry_of name f b x)"

lemma package_entry_packs: "package_entry wt name f = Inr e \<Longrightarrow> packs wt name f e"
  by (auto simp: package_entry_def regular_def read_bytes_def packs_def split: option.splits leaf.splits)

lemma mapM_list_all2: "mapM f xs = Inr ys \<Longrightarrow> list_all2 (\<lambda>x y. f x = Inr y) xs ys"
  by (induction xs arbitrary: ys) auto

lemma write_archive_packs: "write_archive wt name files = Inr entries \<Longrightarrow> list_all2 (packs wt name) files entries"
  unfolding write_archive_def using package_entry_packs by (blast dest: mapM_list_all2 intro: list_all2_mono)

lemma package_inputs_Inr:
  assumes "package_inputs wt config = Inr (tracked, files)" "tracked_files wt = Inr listing" "includes_of config = Inr includes"
    and "\<not> from_source config" "files \<noteq> []"
  shows "sorted files" "distinct files"
    and "f \<in> set files \<longleftrightarrow> f \<in> set listing \<and> (\<exists>i \<in> set includes. under i f) \<or> f \<in> set (evidence_files wt)"
    and "i \<in> set includes \<Longrightarrow> \<exists>f \<in> set listing. under i f"
  using assms by (auto simp: package_inputs_def foldM_unit require_input_def list_ex_iff Let_def split: if_splits)

lemma archive_not_sums: "archive_name name version \<noteq> ''SHA256SUMS''"
proof
  assume "archive_name name version = ''SHA256SUMS''"
  then have "CHR ''-'' \<in> set ''SHA256SUMS''" by (metis archive_name_def in_set_conv_decomp append_Cons append_Nil)
  then show False by simp
qed

text \<open>The device archive: every runtime file and module, in order, executable only for \<open>setup\<close>.\<close>

lemma release_archive_holds:
  assumes "build_archive H T wt tag = Inr out"
  shows "\<exists>paths entries. map fst out = [archive_name ''dbus-mqtt-battery'' tag, archive_name ''dbus-mqtt-battery'' tag @ ''.sha256'']
    \<and> map_of out (archive_name ''dbus-mqtt-battery'' tag) = Some (tar_gz T entries)
    \<and> set paths = set runtime_files \<union> (\<lambda>m. ''dbus_mqtt_battery/'' @ m) ` set (module_glob wt) \<and> sorted (map (py_split (CHR ''/'')) paths)
    \<and> list_all2 (\<lambda>f e. \<exists>b x. leads_to wt f = Some (RegularFile b x) \<and> e = entry_of ''dbus-mqtt-battery'' f b (f = ''setup'')) paths entries"
proof -
  define paths where "paths = sort_key (py_split (CHR ''/'')) (runtime_files @ map (\<lambda>m. ''dbus_mqtt_battery/'' @ m) (module_glob wt))"
  obtain entries where e: "mapM (release_entry wt) paths = Inr entries"
      "out = [(archive_name ''dbus-mqtt-battery'' tag, tar_gz T entries),
        (archive_name ''dbus-mqtt-battery'' tag @ ''.sha256'', sha256_hex H (tar_gz T entries) @ ''  '' @ archive_name ''dbus-mqtt-battery'' tag @ newline)]"
    using assms by (auto simp: build_archive_def paths_def Let_def archive_name_def)
  have "release_entry wt f = Inr e \<Longrightarrow> \<exists>b x. leads_to wt f = Some (RegularFile b x) \<and> e = entry_of ''dbus-mqtt-battery'' f b (f = ''setup'')" for f e
    by (auto simp: release_entry_def read_bytes_def split: option.splits leaf.splits)
  with mapM_list_all2 [OF e(1)] have "list_all2 (\<lambda>f e. \<exists>b x. leads_to wt f = Some (RegularFile b x) \<and> e = entry_of ''dbus-mqtt-battery'' f b (f = ''setup'')) paths entries"
    by (rule list_all2_mono)
  moreover have "sorted (map (py_split (CHR ''/'')) paths)" "set paths = set runtime_files \<union> (\<lambda>m. ''dbus_mqtt_battery/'' @ m) ` set (module_glob wt)"
    by (simp_all add: paths_def)
  ultimately show ?thesis using e(2) by auto
qed

text \<open>C37: A release archive holds exactly the declared inputs: its files are, each once and in order, the files
  that git tracks at or below a declared input, and the frozen release plan and input records when they are regular
  files; each is a regular file and no link, with its own bytes and its executable bit; every declared input is
  represented; and the checksum file names the archive with the digest of its bytes.\<close>

theorem package_exact:
  assumes "build_package H T wt version channel [] = Inr (assets, out)"
    and "read_tree_text wt ''.release-package.json'' = Inr body" "json_loads dict_hook body = Inr (VDict config)"
    and "\<not> truthy (get_default config ''wheel'' (VBool False))" "\<not> from_source config"
    and "tracked_files wt = Inr listing" "includes_of config = Inr includes"
  shows "\<exists>name files entries. component_of config = Inr name \<and> list_all2 (packs wt name) files entries \<and> sorted files \<and> distinct files
    \<and> (\<forall>f. f \<in> set files \<longleftrightarrow> f \<in> set listing \<and> (\<exists>i \<in> set includes. under i f) \<or> f \<in> set (evidence_files wt))
    \<and> (\<forall>i \<in> set includes. \<exists>f \<in> set files. under i f)
    \<and> assets = [archive_name name version]
    \<and> out = [(archive_name name version, tar_gz T entries),
        (''SHA256SUMS'', sha256_hex H (tar_gz T entries) @ ''  '' @ archive_name name version @ newline)]"
proof -
  obtain tracked files where inputs: "package_inputs wt config = Inr (tracked, files)"
    using assms(1-3) by (auto simp: build_package_def object_or_error_def)
  have some: "files \<noteq> []" using assms(1-4) inputs by (auto simp: build_package_def object_or_error_def)
  obtain name entries where parts: "component_of config = Inr name" "write_archive wt name files = Inr entries" "assets = [archive_name name version]"
      "out = [(archive_name name version, tar_gz T entries),
        (''SHA256SUMS'', sha256_hex H (tar_gz T entries) @ ''  '' @ archive_name name version @ newline)]"
    using assms(1-4) inputs some archive_not_sums
    by (auto simp: build_package_def object_or_error_def checksum_line_def Let_def)
  note files = package_inputs_Inr [OF inputs assms(6,7,5) some]
  have "\<forall>i \<in> set includes. \<exists>f \<in> set files. under i f" using files(3,4) by blast
  with parts files(1-3) write_archive_packs [OF parts(2)] show ?thesis by blast
qed

section \<open>A package\<close>

definition package_text :: string where
  "package_text = ''{'' @ [CHR 0x22] @ ''name'' @ [CHR 0x22] @ '':'' @ [CHR 0x22] @ ''p'' @ [CHR 0x22] @ '','' @ [CHR 0x22] @ ''include'' @ [CHR 0x22]
     @ '':['' @ [CHR 0x22] @ ''run'' @ [CHR 0x22] @ '']}''"

definition sample_tree :: worktree where
  "sample_tree = \<lparr>is_link = (\<lambda>f. f = ''link''),
     leads_to = map_of [(''.release-policy.json'', RegularFile ''{}'' False),
       (''.release-package.json'', RegularFile package_text False),
       (''notes'', RegularFile ''private'' False), (''run'', RegularFile ''echo'' True)],
     git_listing = Inr (''link'' @ [CHR 0x00] @ ''notes'' @ [CHR 0x00] @ ''run'' @ [CHR 0x00]), module_glob = []\<rparr>"

definition sample_tools :: build_tools where
  "sample_tools = \<lparr>tar_gz = (\<lambda>es. concat (map entry_bytes es)), toml_loads = (\<lambda>_. Inl (ValueError ''toml'')), version_adapter = (\<lambda>_ _. Inr ()),
     run_build = (\<lambda>_ _ out. Inr out), twine_check = (\<lambda>_. Inr ())\<rparr>"

definition sample_config :: pyobj where
  "sample_config = [(''name'', VStr ''p''), (''include'', VList [VStr ''run''])]"

lemma sample_package:
  "read_tree_text sample_tree ''.release-package.json'' = Inr package_text"
  "json_loads dict_hook package_text = Inr (VDict sample_config)"
  "\<not> truthy (get_default sample_config ''wheel'' (VBool False))" "\<not> from_source sample_config"
  "tracked_files sample_tree = Inr [''link'', ''notes'', ''run'']" "includes_of sample_config = Inr [''run'']"
  "validate_version sample_tools sample_tree ''v1.2.3'' ''beta'' = Inr ()"
  "package_inputs sample_tree sample_config = Inr ([''link'', ''notes'', ''run''], [''run''])"
  "component_of sample_config = Inr ''p''" "write_archive sample_tree ''p'' [''run''] = Inr [entry_of ''p'' ''run'' ''echo'' True]"
  "evidence_files sample_tree = []"
  by code_simp+

definition sample_hasher :: hasher where
  "sample_hasher = \<lparr>sha256_hex = (\<lambda>s. s), float_text = (\<lambda>_. [])\<rparr>"

lemma sample_built:
  "build_package sample_hasher sample_tools sample_tree ''v1.2.3'' ''beta'' [] = Inr ([archive_name ''p'' ''v1.2.3''],
     [(archive_name ''p'' ''v1.2.3'', ''echo''), (''SHA256SUMS'', ''echo  '' @ archive_name ''p'' ''v1.2.3'' @ newline)])"
proof -
  have packed: "tar_gz sample_tools [entry_of ''p'' ''run'' ''echo'' True] = ''echo''" by code_simp
  show ?thesis
    using archive_not_sums [of "''p''" "''v1.2.3''"] sample_package(3)
    by (simp add: build_package_def sample_package(1,2,7-11) packed object_or_error_def checksum_line_def) (simp add: sample_hasher_def)
qed

theorem package_exact_witness:
  "\<exists>files entries. list_all2 (packs sample_tree ''p'') files entries \<and> ''run'' \<in> set files \<and> ''notes'' \<notin> set files \<and> ''link'' \<notin> set files"
proof -
  have "under ''run'' ''run''" "\<not> under ''run'' ''notes''" "\<not> under ''run'' ''link''" by code_simp+
  moreover obtain files entries where "list_all2 (packs sample_tree ''p'') files entries"
      "\<forall>f. f \<in> set files \<longleftrightarrow> f \<in> set [''link'', ''notes'', ''run''] \<and> (\<exists>i \<in> set [''run'']. under i f) \<or> f \<in> set (evidence_files sample_tree)"
    using package_exact [OF sample_built sample_package(1-6)] unfolding sample_package(9) by blast
  ultimately show ?thesis by (intro exI [of _ files] exI [of _ entries]) (simp add: sample_package(11))
qed

end
