(* ===== verification/Spec2Isabelle.thy ===== *)
theory Spec2Isabelle
  imports DvccBounds TopologyProps TelemetryProps LocalProps ConfigProps MqttProps Program EndToEnd FuzzOracle InstallProps
    VersionPlanProps LedgerRuns ChangeScopeProps SecurityGate ReleaseValidation Packaging
begin

text \<open>
  A verified model of dbus-mqtt-battery: the driver that turns MQTT telemetry of battery management
  systems (BMS) into one aggregate battery service on the D-Bus of a Victron GX device.  The service
  tells chargers and loads what current they may draw, so what matters is that it never permits what
  the batteries did not: on missing, old, replayed, malformed or partial data it has to close.

  \<^bold>\<open>The program and how its parts interact.\<close>  \<open>main\<close> (\<open>dbus-mqtt-battery.py\<close>) loads the
  configuration (\<open>config.py\<close>), possibly with a topology manifest (\<open>topology.py\<close>), starts the
  MQTT client (\<open>mqtt_client.py\<close>) and either observes for a bounded time (\<open>observe.py\<close>) or registers
  \<open>DbusAggregateService\<close>.  The client's callbacks decode frames (\<open>telemetry.py\<close>,
  \<open>telemetry_v2.py\<close>) into one battery per BMS (\<open>bms_data.py\<close>); every second the poll function
  (\<open>dbus_utils.py\<close>) calls the service's update through a circuit breaker; the update asks the client
  for the aggregate, publishes it, lets the limit controller (\<open>dvcc.py\<close>) compute the current limits, and
  makes the service unavailable when data is incomplete or anything raises.  \<open>topology_install.py\<close>
  installs a managed chain as a supervised service.  Beside the driver, \<open>scripts/\<close> holds the tools of its
  release: plans of versions, a ledger of build numbers that concurrent release runs share, and the gates that
  decide which jobs may be skipped, whether the validation jobs passed and whether the security scan did.

  \<^bold>\<open>Which theory models which source.\<close>
  \<^item> \<open>Prelude\<close>: exceptions as values (\<open>'a res\<close>), \<open>and_then\<close>, \<open>foldM\<close>, \<open>mapM\<close>, insertion-ordered
    dictionaries, and the locales \<open>event_system\<close> (an invariant of handler calls) and
    \<open>monotone_system\<close> (with a preorder that every call respects).
  \<^item> \<open>PyFloat\<close>: binary64 over exact rationals with round-half-even; \<open>PyText\<close>: strings as UTF-8 bytes
    with the parsing of numbers; \<open>PyJson\<close>: dynamic values and the \<open>json\<close> reader.
  \<^item> \<open>BmsData\<close>: \<open>battery_data\<close> is the class \<open>BatteryData\<close>, \<open>update\<close> and \<open>expire_sample\<close> its
    methods, \<open>is_valid\<close> and \<open>missing_fields\<close> its validity.
  \<^item> \<open>Telemetry\<close> and \<open>TelemetryV2\<close>: the two frame schemas, complete and partial frames; the row loops
    share the locale \<open>row_loop\<close>.
  \<^item> \<open>Dvcc\<close>: \<open>dvcc_profile\<close> with its validation, \<open>dvcc_controller\<close>, \<open>calculate\<close> (one poll).
  \<^item> \<open>Topology\<close>: manifests, chains, members, profiles limited to the members' ratings.
  \<^item> \<open>LocalBroker\<close> and \<open>Config\<close>: \<open>local_broker_address\<close>, the settings, the INI file with
    interpolation, the options of the command line, their merge, the topology path.
  \<^item> \<open>MqttClient\<close> and \<open>Aggregate\<close>: \<open>mqtt_client\<close> is the object's state; \<open>on_connect\<close>,
    \<open>on_disconnect\<close>, \<open>on_message\<close> are its callbacks, \<open>process_telemetry\<close> the sessions with replay
    protection, \<open>get_aggregate_data\<close> the snapshot of valid batteries with extremes and totals.
  \<^item> \<open>DbusUtils\<close>: the breaker (\<open>call\<close>, \<open>record_failure\<close>), the poll function with its garbage
    collection and heartbeat, the registered paths.
  \<^item> \<open>Service\<close>: the service's paths and counters; every publication is an action (a state transformer
    that may end with an exception), \<open>update_service\<close> is \<open>update\<close>.
  \<^item> \<open>Program\<close>: \<open>observe\<close> and \<open>main\<close>.
  \<^item> \<open>Shlex\<close> and \<open>TopologyInstall\<close>: quoting of shell words, plans, application with roll back,
    retirement and the installer's command, over a file system of paths and nodes.
  \<^item> \<open>JsonText\<close>: the printer of \<open>json.dumps\<close>, with the proof that the reader inverts it.
  \<^item> \<open>VersionPlan\<close> (\<open>scripts/version_plan.py\<close>): policies, identities, projections and plans.
    \<open>VersionLedger\<close> (\<open>scripts/release_state.py\<close>, and the functions of \<open>release_control.py\<close> it calls): the
    ledger file, reservation and publication, each as the requests it sends to GitHub.
  \<^item> \<open>ChangeScope\<close> (\<open>scripts/change_scope.py\<close>), \<open>ReleaseValidation\<close> (\<open>scripts/release_validation.py\<close>) and
    \<open>SecurityGate\<close> (\<open>scripts/bandit_sarif.py\<close>, \<open>scripts/run_bandit.py\<close>): the gates of the pipeline.
    \<open>Packaging\<close> (\<open>scripts/package_release.py\<close>, \<open>scripts/build_release.py\<close>): the archives.

  \<^bold>\<open>What the groups of lemmas show.\<close>  The properties stand in the theories with \<open>Props\<close> in their name
  (and in \<open>DvccBounds\<close>, \<open>ServiceRuns\<close>, \<open>ServiceTotal\<close>, \<open>Program\<close> and the theories of the release tools), each with a
  witness where it has hypotheses.
  \<^item> \<open>DvccStage\<close> and \<open>DvccBounds\<close>: how far the last stage of a poll (floor, rounding) can lift a limit; the
    controller always returns, its published limits are finite, at least zero and within the ceilings up to
    that rounding, stop conditions publish zero, the most restrictive limit wins.
  \<^item> \<open>TelemetryProps\<close>: a frame is decoded exactly or not at all; a partial frame grants and renews
    nothing; validity expires after a minute; the batteries' invariant.
  \<^item> \<open>TopologyProps\<close>, \<open>ConfigProps\<close>, \<open>LocalProps\<close>: what an accepted manifest or configuration
    guarantees, that the command line wins, and that a local-only broker is pinned to loopback.
  \<^item> \<open>MqttSafety\<close> and \<open>MqttProps\<close>: the client as an event system; frames are admitted once and in order;
    after a lost connection evidence expires; the aggregate grants only what every battery grants.
  \<^item> \<open>ServiceLogic\<close>, \<open>ServiceProps\<close>, \<open>ServiceRuns\<close>, \<open>ServiceTotal\<close> (samples in
    \<open>ServiceSamples\<close>): rules for actions; the service fails closed; every permission is backed; a partial
    frame never relaxes; an outage latches until a full frame; complete data is always published; no update misses
    a registered path.
  \<^item> \<open>BreakerProps\<close>: the breaker refines an abstract machine, an open breaker has closed outputs, and it
    recovers.
  \<^item> \<open>EndToEnd\<close>: the whole loop; a permission rests on fresh evidence of every battery, and without live
    evidence the outputs close within a minute.  \<open>FuzzOracle\<close>: the fuzzing harness of the decoder
    (\<open>fuzz/fuzz_telemetry.py\<close>) with the JSON reader inside the recursion limit, and which inputs refute its
    oracle.
  \<^item> \<open>InstallRollback\<close>, \<open>InstallRetire\<close>, \<open>InstallProps\<close>: plans reuse no identity, launchers quote
    faithfully, application is all or nothing, retirement moves a service or is undone.
  \<^item> \<open>VersionPlanProps\<close>: a version has one identity, the accepted plans are exactly the created ones, Apple
    build numbers are ordered as the numbers are.  \<open>LedgerProps\<close> and \<open>LedgerRuns\<close>: what is written reads back,
    and, by rule induction over every interleaving of the reads and writes of release runs, build numbers are
    unique, the ledger only grows, and publications strictly increase.
  \<^item> \<open>ChangeScopeProps\<close>, \<open>ReleaseValidation\<close>, \<open>SecurityGate\<close>: each gate opens exactly, or only, on the evidence it
    names, and every error closes it.  \<open>Packaging\<close>: an archive holds exactly the declared inputs.

  \<^bold>\<open>Conventions.\<close>
  \<^item> A handler call reads the monotonic clock once (\<open>clk\<close>); the wall clock (\<open>wall\<close>) is separate.  An
    update is atomic with respect to the client's callbacks: each takes the lock of the client.
  \<^item> Integers of a profile enter as floats (exact up to \<open>2 ^ 53\<close>); integer alarm thresholds are compared as
    exact numbers; the sign of zero is not represented; \<open>sum\<close> is the compensated sum of Python 3.12.
  \<^item> Texts of library errors (JSON, UTF-8, \<open>argparse\<close>, \<open>configparser\<close>) are abbreviated.  Digits outside
    ASCII are left out; whether a character is printable is the parameter \<open>uni\<close>; \<open>ipaddress\<close> is the one of
    CPython 3.13.
  \<^item> The D-Bus service is a mapping of the registered paths: an unknown path raises, and a transaction
    reads and writes the same values.  The breaker's alarm shows as a \<open>TimeoutError\<close> of the guarded
    call, which leaves the service in any state with its registered paths and the same client; it arrives
    in the body that \<open>update\<close> guards, while the handler that makes the service unavailable and the exit of the
    transaction, which is the D-Bus library's, are not interrupted.
  \<^item> A command line is the list of its recognised options, an INI file its raw options.
  \<^item> An observation reads the clock three times a round: at the poll, for the pause, and at the next test.
    \<open>observe_round\<close> gives each reading as a function of the one before (and of the pause, which the model
    computes as the code does); \<open>clock_ok\<close> states that the clock does not go back and that \<open>sleep\<close> takes at least
    its argument.  A pause then brings the clock half a second on, or to the deadline (\<open>pause_progress\<close>), so the
    observation ends within two rounds per second and two more.
  \<^item> The installer's file system is a list of absolute paths; only the last component of a path may be a
    link.  One write operation may fail, at any point; \<open>_atomic_text\<close> is one operation; documents that are
    written with \<open>json.dumps\<close> and read with \<open>json.loads\<close> are kept as values; SHA-256 is a parameter.
    Names are checked in the order of the plan, where the code iterates over a set.
  \<^item> The release tools take their surroundings as parameters: \<open>hasher\<close> (SHA-256 and the text of a float),
    \<open>git_env\<close> (the output or error of a git command), \<open>scanner\<close> (Bandit's status and the report it writes), \<open>gate_faults\<close> (which removals and writes fail), \<open>release_env\<close> (GitHub),
    \<open>worktree\<close> and \<open>build_tools\<close> (the files of the repository, tar, the build backend).
    The theorems on the ledger assume \<open>compare_and_swap\<close> (GitHub refuses a write whose blob identity is not the
    current one, as its contents API documents), \<open>no_collision\<close> (the texts the file has had have
    different blob identities) and that digests are 64 hexadecimal digits; each theorem has a witness with a
    concrete environment.

  \<^bold>\<open>Bounds and fuel.\<close>  The JSON reader and the interpolation of the INI file are functions with
  termination proofs (each call of the reader consumes text; interpolation is bounded by the library's depth
  of ten and the rest of the text).  \<open>missing_dirs\<close> takes the length
  of the path, since each step shortens it.  The observation takes a list of rounds; that it
  ends, and how many rounds are enough, is the theorem \<open>observe_returns\<close>.

  \<^bold>\<open>Not modelled.\<close>  Log texts; the paho connection object, the GLib main loop and signal handlers, the live
  D-Bus inspection of the installer (library calls); UTF-16 and UTF-32 manifests; the recursion limit of
  the JSON reader outside the fuzzing harness (the driver treats the error as any unreadable frame); an alarm in
  the exit of the D-Bus transaction; the printed summary of an installation plan; the shell
  installers, the QML pages and the tests.  Of the scripts: the editing of version files and the metadata of built
  artifacts in \<open>version_plan.py\<close>, and the rest of the vendored release toolkit, which
  drives git, GitHub, runners and container registries.

  \<^bold>\<open>Findings.\<close>  A configured ceiling is said never to be rounded upward; the product with ten is itself
  rounded first, so the published limit can exceed the ceiling by a rounding step
  (\<open>dvcc_ceiling_rounded_up\<close>).  The fuzzing harness reports a text nested beyond the recursion limit as a crash
  of the decoder, since \<open>json.loads\<close> then raises no \<open>ValueError\<close> (\<open>fuzz_oracle_holds\<close>).
\<close>

end
